(* ===== verification/Json_Payload.thy ===== *)
theory Json_Payload
  imports Prelude
begin

text \<open>
  Payload normalisation of \<^verbatim>\<open>dj_queue/operations/_helpers.py\<close>: Python values, JSON
  values, the fast structural normaliser, the fallback through \<open>json.dumps\<close> and
  \<open>json.loads\<close> of the standard library, and the wrappers used for payloads and return
  values.  The lemmas show that whatever is accepted is a fixed point of normalisation, that the
  fast path agrees with the fallback wherever it answers, and which values are refused.
\<close>

section \<open>Values\<close>

text \<open>A float is a finite binary number (mantissa and exponent) or one of the non-finite
  values.\<close>

datatype pyfloat = Finite int int | PosInf | NegInf | NaN

text \<open>Python values by what the normaliser distinguishes: \<open>PIntSub\<close> and \<open>PFloatSub\<close> are
  instances of proper subclasses of \<open>int\<close> and \<open>float\<close>, \<open>PObject\<close> anything else.
  A dictionary is the list of its items in order.\<close>

datatype pyval =
    PNone
  | PBool bool
  | PStr string
  | PInt int
  | PFloat pyfloat
  | PIntSub int
  | PFloatSub pyfloat
  | PList "pyval list"
  | PTuple "pyval list"
  | PDict "(pyval \<times> pyval) list"
  | PObject nat

text \<open>What a JSON column holds.\<close>

datatype json =
    JNull
  | JBool bool
  | JStr string
  | JInt int
  | JFloat int int
  | JList "json list"
  | JObject "(string \<times> json) list"

section \<open>The normaliser\<close>

fun is_finite :: "pyfloat \<Rightarrow> bool" where
  "is_finite (Finite m e) = True"
| "is_finite _ = False"

text \<open>\<open>_normalize_json_value\<close>: \<open>TypeError\<close> hands over to the fallback, \<open>ValueError\<close>
  (a non-finite float) is final.\<close>

fun normalize_json_value :: "pyval \<Rightarrow> error + json"
  and normalize_json_items :: "pyval list \<Rightarrow> error + json list"
  and normalize_json_pairs :: "(pyval \<times> pyval) list \<Rightarrow> error + (string \<times> json) list"
where
  "normalize_json_value PNone = Inr JNull"
| "normalize_json_value (PBool b) = Inr (JBool b)"
| "normalize_json_value (PStr s) = Inr (JStr s)"
| "normalize_json_value (PInt i) = Inr (JInt i)"
| "normalize_json_value (PFloat (Finite m e)) = Inr (JFloat m e)"
| "normalize_json_value (PFloat _) = Inl (ValueError [])"
| "normalize_json_value (PList vs) = and_then (normalize_json_items vs) (\<lambda>js. Inr (JList js))"
| "normalize_json_value (PTuple vs) = and_then (normalize_json_items vs) (\<lambda>js. Inr (JList js))"
| "normalize_json_value (PDict kvs) = and_then (normalize_json_pairs kvs) (\<lambda>ps. Inr (JObject ps))"
| "normalize_json_value _ = Inl (TypeError [])"
| "normalize_json_items [] = Inr []"
| "normalize_json_items (v # vs) =
     and_then (normalize_json_value v) (\<lambda>j. and_then (normalize_json_items vs) (\<lambda>js. Inr (j # js)))"
| "normalize_json_pairs [] = Inr []"
| "normalize_json_pairs ((PStr k, v) # kvs) =
     and_then (normalize_json_value v)
       (\<lambda>j. and_then (normalize_json_pairs kvs) (\<lambda>ps. Inr ((k, j) # ps)))"
| "normalize_json_pairs ((_, v) # kvs) = Inl (TypeError [])"

text \<open>\<open>json.loads(json.dumps(value, allow_nan=False))\<close>: keys become text, subclasses of
  \<open>int\<close> and \<open>float\<close> become plain numbers, and when two keys become equal the parsed
  object keeps the first position and the last value.  \<open>float_repr\<close> is \<open>float.__repr__\<close>,
  used for float keys only.\<close>

fun json_key :: "(pyfloat \<Rightarrow> string) \<Rightarrow> pyval \<Rightarrow> error + string" where
  "json_key fr (PStr s) = Inr s"
| "json_key fr PNone = Inr ''null''"
| "json_key fr (PBool b) = Inr (if b then ''true'' else ''false'')"
| "json_key fr (PInt i) = Inr (str_int i)"
| "json_key fr (PIntSub i) = Inr (str_int i)"
| "json_key fr (PFloat f) = (if is_finite f then Inr (fr f) else Inl (ValueError []))"
| "json_key fr (PFloatSub f) = (if is_finite f then Inr (fr f) else Inl (ValueError []))"
| "json_key fr _ = Inl (TypeError [])"

fun dict_set :: "string \<Rightarrow> json \<Rightarrow> (string \<times> json) list \<Rightarrow> (string \<times> json) list" where
  "dict_set k v [] = [(k, v)]"
| "dict_set k v ((k', v') # ps) = (if k' = k then (k', v) # ps else (k', v') # dict_set k v ps)"

definition dict_of_pairs :: "(string \<times> json) list \<Rightarrow> (string \<times> json) list" where
  "dict_of_pairs ps = foldl (\<lambda>d (k, v). dict_set k v d) [] ps"

fun json_round_trip :: "(pyfloat \<Rightarrow> string) \<Rightarrow> pyval \<Rightarrow> error + json"
  and json_round_items :: "(pyfloat \<Rightarrow> string) \<Rightarrow> pyval list \<Rightarrow> error + json list"
  and json_round_pairs ::
    "(pyfloat \<Rightarrow> string) \<Rightarrow> (pyval \<times> pyval) list \<Rightarrow> error + (string \<times> json) list"
where
  "json_round_trip fr PNone = Inr JNull"
| "json_round_trip fr (PBool b) = Inr (JBool b)"
| "json_round_trip fr (PStr s) = Inr (JStr s)"
| "json_round_trip fr (PInt i) = Inr (JInt i)"
| "json_round_trip fr (PIntSub i) = Inr (JInt i)"
| "json_round_trip fr (PFloat (Finite m e)) = Inr (JFloat m e)"
| "json_round_trip fr (PFloat _) = Inl (ValueError [])"
| "json_round_trip fr (PFloatSub (Finite m e)) = Inr (JFloat m e)"
| "json_round_trip fr (PFloatSub _) = Inl (ValueError [])"
| "json_round_trip fr (PList vs) = and_then (json_round_items fr vs) (\<lambda>js. Inr (JList js))"
| "json_round_trip fr (PTuple vs) = and_then (json_round_items fr vs) (\<lambda>js. Inr (JList js))"
| "json_round_trip fr (PDict kvs) =
     and_then (json_round_pairs fr kvs) (\<lambda>ps. Inr (JObject (dict_of_pairs ps)))"
| "json_round_trip fr (PObject n) = Inl (TypeError [])"
| "json_round_items fr [] = Inr []"
| "json_round_items fr (v # vs) =
     and_then (json_round_trip fr v) (\<lambda>j. and_then (json_round_items fr vs) (\<lambda>js. Inr (j # js)))"
| "json_round_pairs fr [] = Inr []"
| "json_round_pairs fr ((k, v) # kvs) =
     and_then (json_key fr k) (\<lambda>s. and_then (json_round_trip fr v)
       (\<lambda>j. and_then (json_round_pairs fr kvs) (\<lambda>ps. Inr ((s, j) # ps))))"

text \<open>\<open>_normalize_json_round_trip(value, exception_class=..., message=...)\<close>; the exception to
  raise is passed as a value.\<close>

definition normalize_json_round_trip ::
  "(pyfloat \<Rightarrow> string) \<Rightarrow> pyval \<Rightarrow> error \<Rightarrow> error + json" where
  "normalize_json_round_trip fr value exc =
     (case normalize_json_value value of
        Inr j \<Rightarrow> Inr j
      | Inl (ValueError _) \<Rightarrow> Inl exc
      | Inl _ \<Rightarrow> (case json_round_trip fr value of Inr j \<Rightarrow> Inr j | Inl _ \<Rightarrow> Inl exc))"

definition normalize_payload ::
  "(pyfloat \<Rightarrow> string) \<Rightarrow> pyval list \<Rightarrow> (pyval \<times> pyval) list \<Rightarrow> error + json" where
  "normalize_payload fr args kwargs =
     normalize_json_round_trip fr
       (PDict [(PStr ''args'', PList args), (PStr ''kwargs'', PDict kwargs)])
       (EnqueueError ''payload must be JSON round-trippable'')"

definition normalize_return_value :: "(pyfloat \<Rightarrow> string) \<Rightarrow> pyval \<Rightarrow> error + json" where
  "normalize_return_value fr v =
     normalize_json_round_trip fr v (ValueError ''return value must be JSON round-trippable'')"

text \<open>The Python value a JSON column is read back as.\<close>

fun py_of_json :: "json \<Rightarrow> pyval"
  and py_of_json_pairs :: "(string \<times> json) list \<Rightarrow> (pyval \<times> pyval) list"
where
  "py_of_json JNull = PNone"
| "py_of_json (JBool b) = PBool b"
| "py_of_json (JStr s) = PStr s"
| "py_of_json (JInt i) = PInt i"
| "py_of_json (JFloat m e) = PFloat (Finite m e)"
| "py_of_json (JList js) = PList (map py_of_json js)"
| "py_of_json (JObject ps) = PDict (py_of_json_pairs ps)"
| "py_of_json_pairs [] = []"
| "py_of_json_pairs ((k, j) # ps) = (PStr k, py_of_json j) # py_of_json_pairs ps"

text \<open>Python dictionaries have distinct keys; hereditarily so for nested ones.\<close>

fun dicts_ok :: "pyval \<Rightarrow> bool" where
  "dicts_ok (PList vs) = (\<forall>v\<in>set vs. dicts_ok v)"
| "dicts_ok (PTuple vs) = (\<forall>v\<in>set vs. dicts_ok v)"
| "dicts_ok (PDict kvs) = (distinct (map fst kvs) \<and> (\<forall>(k, v)\<in>set kvs. dicts_ok v))"
| "dicts_ok _ = True"

section \<open>Lemmas\<close>

lemma dict_set_new: "k \<notin> fst ` set d \<Longrightarrow> dict_set k v d = d @ [(k, v)]"
  by (induction k v d rule: dict_set.induct) auto

lemma dict_of_pairs_distinct_gen:
  "distinct (map fst ps) \<Longrightarrow> fst ` set d \<inter> fst ` set ps = {} \<Longrightarrow>
   foldl (\<lambda>d (k, v). dict_set k v d) d ps = d @ ps"
proof (induction ps arbitrary: d)
  case (Cons p ps)
  obtain k v where p: "p = (k, v)" by (cases p)
  have "dict_set k v d = d @ [(k, v)]" using Cons.prems p by (intro dict_set_new) auto
  moreover have "foldl (\<lambda>d (k, v). dict_set k v d) (d @ [(k, v)]) ps = (d @ [(k, v)]) @ ps"
    using Cons.prems p by (intro Cons.IH) auto
  ultimately show ?case by (simp add: p)
qed simp

lemma dict_of_pairs_distinct: "distinct (map fst ps) \<Longrightarrow> dict_of_pairs ps = ps"
  by (simp add: dict_of_pairs_def dict_of_pairs_distinct_gen)

text \<open>The fast path only produces the errors that the wrapper distinguishes.\<close>

lemma normalize_pairs_keys:
  "normalize_json_pairs kvs = Inr ps \<Longrightarrow> map fst kvs = map (PStr \<circ> fst) ps"
proof (induction kvs arbitrary: ps)
  case (Cons kv kvs)
  obtain k v where kv: "kv = (k, v)" by (cases kv)
  from Cons show ?case by (cases k) (auto simp: kv)
qed simp

lemma normalize_pairs_distinct:
  assumes "normalize_json_pairs kvs = Inr ps" and "distinct (map fst kvs)"
  shows "distinct (map fst ps)"
proof -
  have "distinct (map PStr (map fst ps))"
    using assms normalize_pairs_keys [OF assms(1)] by simp
  then show ?thesis by (simp only: distinct_map)
qed

lemma fast_path_agrees:
  "normalize_json_value v = Inr j \<Longrightarrow> dicts_ok v \<Longrightarrow> json_round_trip fr v = Inr j"
  "normalize_json_items vs = Inr js \<Longrightarrow> \<forall>v\<in>set vs. dicts_ok v \<Longrightarrow> json_round_items fr vs = Inr js"
  "normalize_json_pairs kvs = Inr ps \<Longrightarrow> \<forall>(k, v)\<in>set kvs. dicts_ok v \<Longrightarrow>
     json_round_pairs fr kvs = Inr ps"
proof (induction v and vs and kvs arbitrary: j and js and ps
    rule: normalize_json_value_normalize_json_items_normalize_json_pairs.induct)
  case (9 kvs)
  then obtain ps where ps: "normalize_json_pairs kvs = Inr ps" "j = JObject ps" by auto
  moreover have "dict_of_pairs ps = ps"
    using 9 ps by (intro dict_of_pairs_distinct normalize_pairs_distinct) auto
  ultimately show ?case using 9 by auto
qed auto

lemma normalize_py_of_json:
  "normalize_json_value (py_of_json j) = Inr j"
  "normalize_json_pairs (py_of_json_pairs ps) = Inr ps"
proof (induction j and ps rule: py_of_json_py_of_json_pairs.induct)
  case (6 js)
  have "normalize_json_items (map py_of_json js) = Inr js"
    using 6 by (induction js) auto
  then show ?case by simp
qed auto

text \<open>What a column holds reads back as a value that normalises to itself, through either
  path.\<close>

lemma normalize_round_trip_stored:
  "normalize_json_round_trip fr (py_of_json j) exc = Inr j"
  by (simp add: normalize_json_round_trip_def normalize_py_of_json)

lemma normalize_round_trip_error:
  "normalize_json_round_trip fr v exc = Inl e \<Longrightarrow> e = exc"
  by (auto simp: normalize_json_round_trip_def split: sum.splits error.splits)

end
