(* ===== verification/Db_Layer.thy ===== *)
theory Db_Layer
  imports Prelude
begin

text \<open>
  \<^verbatim>\<open>dj_queue/db.py\<close>: what the code knows about the database connection, the classification of
  transient database errors along the exception chain, and the bounded retry of complete
  transactions.
\<close>

section \<open>Capabilities\<close>

datatype backend_family = Postgresql | Mysql | Mariadb | Sqlite

record capabilities =
  cap_family :: backend_family
  cap_skip_locked :: bool
  cap_listen_notify :: bool
  cap_serialized_writes :: bool

definition backend_family_of :: "string \<Rightarrow> bool \<Rightarrow> error + backend_family" where
  "backend_family_of vendor mysql_is_mariadb =
     (if vendor = ''postgresql'' then Inr Postgresql
      else if vendor = ''sqlite'' then Inr Sqlite
      else if vendor = ''mysql'' \<and> mysql_is_mariadb then Inr Mariadb
      else if vendor = ''mysql'' then Inr Mysql
      else Inl (ImproperlyConfigured (''dj_queue unsupported database vendor '' @ py_repr vendor)))"

definition database_capabilities :: "string \<Rightarrow> bool \<Rightarrow> bool \<Rightarrow> error + capabilities" where
  "database_capabilities vendor mysql_is_mariadb has_skip_locked =
     and_then (backend_family_of vendor mysql_is_mariadb) (\<lambda>fam.
       Inr \<lparr>cap_family = fam, cap_skip_locked = has_skip_locked,
            cap_listen_notify = (fam = Postgresql), cap_serialized_writes = (fam = Sqlite)\<rparr>)"

section \<open>Transient errors\<close>

text \<open>An exception object: the attributes the classification reads (an absent attribute and
  \<open>None\<close> are treated alike by the code), and the identities of \<open>__cause__\<close> and
  \<open>__context__\<close>.  Exceptions live in a heap indexed by identity.\<close>

record exc =
  pgcode :: "string option"
  sqlstate :: "string option"
  sqlite_errorcode :: "int option"
  errno :: "int option"
  args0_int :: "int option"
  exc_message :: string
  exc_cause :: "nat option"
  exc_context :: "nat option"

type_synonym exc_heap = "(nat \<times> exc) list"

definition transient_sqlstates :: "string list" where
  "transient_sqlstates = [''40001'', ''40P01'', ''55P03'']"

definition transient_errnos :: "int list" where
  "transient_errnos = [1205, 1213]"

definition transient_sqlite_codes :: "int list" where
  "transient_sqlite_codes = [5, 6, 261, 262, 517]"

definition transient_messages :: "string list" where
  "transient_messages = [''deadlock'', ''lock wait timeout'', ''try restarting transaction'',
     ''could not serialize access'', ''database is locked'']"

definition opt_in :: "'a option \<Rightarrow> 'a list \<Rightarrow> bool" where
  "opt_in v xs = (case v of None \<Rightarrow> False | Some x \<Rightarrow> x \<in> set xs)"

definition transient_sqlstate :: "exc \<Rightarrow> bool" where
  "transient_sqlstate e \<longleftrightarrow>
     opt_in (pgcode e) transient_sqlstates \<or> opt_in (sqlstate e) transient_sqlstates"

definition transient_errno :: "exc \<Rightarrow> bool" where
  "transient_errno e \<longleftrightarrow> opt_in (sqlite_errorcode e) transient_sqlite_codes
     \<or> opt_in (errno e) transient_errnos \<or> opt_in (args0_int e) transient_errnos"

text \<open>\<open>_exception_chain\<close>: follow \<open>__cause__ or __context__\<close> until the end of the chain or
  an object already seen.\<close>

function exception_chain :: "exc_heap \<Rightarrow> nat list \<Rightarrow> nat option \<Rightarrow> exc list" where
  "exception_chain h seen None = []"
| "exception_chain h seen (Some i) =
     (if i \<in> set seen then []
      else case map_of h i of
             None \<Rightarrow> []
           | Some e \<Rightarrow> e # exception_chain h (i # seen)
               (case exc_cause e of Some c \<Rightarrow> Some c | None \<Rightarrow> exc_context e))"
  by pat_completeness auto
termination
proof (relation "measure (\<lambda>(h, seen, i). card (fst ` set h - set seen))")
  fix h :: exc_heap and seen i e
  assume "\<not> i \<in> set seen" and "map_of h i = Some e"
  then have "i \<in> fst ` set h - set seen" by (force dest: map_of_SomeD)
  then have "card (fst ` set h - set (i # seen)) < card (fst ` set h - set seen)"
    by (intro psubset_card_mono) auto
  then show "((h, i # seen, case exc_cause e of None \<Rightarrow> exc_context e | Some c \<Rightarrow> Some c), h, seen, Some i)
      \<in> measure (\<lambda>(h, seen, i). card (fst ` set h - set seen))" by simp
qed auto

declare exception_chain.simps(2) [simp del]

definition lower_char :: "char \<Rightarrow> char" where
  "lower_char c = (if 65 \<le> (of_char c :: nat) \<and> (of_char c :: nat) \<le> 90
     then char_of ((of_char c :: nat) + 32) else c)"

definition lower :: "string \<Rightarrow> string" where
  "lower s = map lower_char s"

fun is_prefix_of :: "'a list \<Rightarrow> 'a list \<Rightarrow> bool" where
  "is_prefix_of [] ys = True"
| "is_prefix_of (x # xs) [] = False"
| "is_prefix_of (x # xs) (y # ys) = (x = y \<and> is_prefix_of xs ys)"

fun contains_text :: "string \<Rightarrow> string \<Rightarrow> bool" where
  "contains_text m [] = (m = [])"
| "contains_text m (c # cs) = (is_prefix_of m (c # cs) \<or> contains_text m cs)"

definition is_transient_database_error :: "exc_heap \<Rightarrow> nat \<Rightarrow> bool" where
  "is_transient_database_error h i \<longleftrightarrow>
     list_ex (\<lambda>e. transient_sqlstate e \<or> transient_errno e) (exception_chain h [] (Some i))
     \<or> (case map_of h i of None \<Rightarrow> False
        | Some e \<Rightarrow> list_ex (\<lambda>m. contains_text m (lower (exc_message e))) transient_messages)"

section \<open>Retry\<close>

text \<open>The outcome of one attempt: a value, an \<open>OperationalError\<close> (with whether it classifies
  as transient), or another exception.  The run also yields the sleeps between attempts, in
  milliseconds.\<close>

datatype 'a attempt = Returned 'a | RaisedOperational bool error | RaisedOther error

definition retry_attempts :: nat where
  "retry_attempts = 3"

definition retry_sleep_base :: nat where
  "retry_sleep_base = 10"

fun retry_loop :: "nat \<Rightarrow> nat \<Rightarrow> (nat \<Rightarrow> 'a attempt) \<Rightarrow> (error + 'a) option \<times> nat list" where
  "retry_loop 0 attempt operation = (None, [])"
| "retry_loop (Suc left) attempt operation =
     (case operation attempt of
        Returned v \<Rightarrow> (Some (Inr v), [])
      | RaisedOther e \<Rightarrow> (Some (Inl e), [])
      | RaisedOperational transient e \<Rightarrow>
          if attempt = retry_attempts - 1 \<or> \<not> transient then (Some (Inl e), [])
          else (let (r, sleeps) = retry_loop left (Suc attempt) operation
                in (r, retry_sleep_base * (attempt + 1) # sleeps)))"

text \<open>\<open>retry_transient_database_errors\<close>: inside a caller-owned transaction (or without
  autocommit) the operation runs exactly once.\<close>

definition retry_transient_database_errors ::
  "bool \<Rightarrow> bool \<Rightarrow> (nat \<Rightarrow> 'a attempt) \<Rightarrow> (error + 'a) option \<times> nat list" where
  "retry_transient_database_errors in_atomic_block autocommit operation =
     (if in_atomic_block \<or> \<not> autocommit
      then (case operation 0 of
              Returned v \<Rightarrow> (Some (Inr v), [])
            | RaisedOperational _ e \<Rightarrow> (Some (Inl e), [])
            | RaisedOther e \<Rightarrow> (Some (Inl e), []))
      else retry_loop retry_attempts 0 operation)"

text \<open>Specification of the retry: the index of the attempt whose outcome is final.\<close>

definition gives_up :: "'a attempt \<Rightarrow> bool" where
  "gives_up r \<longleftrightarrow> (case r of RaisedOperational transient e \<Rightarrow> \<not> transient | _ \<Rightarrow> True)"

fun outcome :: "'a attempt \<Rightarrow> error + 'a" where
  "outcome (Returned v) = Inr v"
| "outcome (RaisedOperational t e) = Inl e"
| "outcome (RaisedOther e) = Inl e"

definition final_attempt :: "(nat \<Rightarrow> 'a attempt) \<Rightarrow> nat" where
  "final_attempt operation =
     (if gives_up (operation 0) then 0 else if gives_up (operation 1) then 1 else 2)"

section \<open>Lemmas\<close>

lemma is_prefix_of_append: "is_prefix_of xs ys \<longleftrightarrow> (\<exists>zs. ys = xs @ zs)"
  by (induction xs ys rule: is_prefix_of.induct) auto

lemma is_prefix_of_refl [simp]: "is_prefix_of xs xs"
  by (induction xs) auto

lemma length_lower [simp]: "length (lower s) = length s"
  by (simp add: lower_def)

lemma lower_append [simp]: "lower (s @ t) = lower s @ lower t"
  by (simp add: lower_def)

lemma retry_loop_step_final:
  "gives_up (operation a) \<Longrightarrow> retry_loop (Suc n) a operation = (Some (outcome (operation a)), [])"
  by (cases "operation a") (auto simp: gives_up_def)

lemma retry_loop_step_again:
  assumes "\<not> gives_up (operation a)" and "a \<noteq> retry_attempts - 1"
  shows "retry_loop (Suc n) a operation =
    (case retry_loop n (Suc a) operation of (r, s) \<Rightarrow> (r, retry_sleep_base * (a + 1) # s))"
  using assms by (cases "operation a") (auto simp: gives_up_def Let_def split: prod.splits)

lemma retry_loop_last:
  "retry_loop (Suc n) (retry_attempts - 1) operation =
     (Some (outcome (operation (retry_attempts - 1))), [])"
  by (cases "operation (retry_attempts - 1)") auto

end
