(* ===== verification/Queue_Selectors.thy ===== *)
theory Queue_Selectors
  imports Db_Layer
begin

text \<open>
  \<^verbatim>\<open>dj_queue/queue_selectors.py\<close>: which queues a worker's selectors name, once as an in-memory
  predicate (used for wake-ups) and once as a query condition (used by the claiming query).
\<close>

section \<open>Selectors\<close>

text \<open>The argument as Python passes it: \<open>None\<close>, one string, a list or a tuple.  The empty tuple
  and the empty list are different values, and only the former compares equal to an entry of the
  tuple in \<open>selectors_match_all\<close>.\<close>

datatype selectors = SelNone | SelStr string | SelList "string list" | SelTuple "string list"

definition selectors_match_all :: "selectors \<Rightarrow> bool" where
  "selectors_match_all s \<longleftrightarrow> (case s of
      SelNone \<Rightarrow> True
    | SelTuple xs \<Rightarrow> xs = [] \<or> xs = [''*'']
    | SelStr x \<Rightarrow> x = ''*''
    | SelList xs \<Rightarrow> xs = [''*''])"

fun normalize_queue_selectors :: "selectors \<Rightarrow> string list" where
  "normalize_queue_selectors SelNone = []"
| "normalize_queue_selectors (SelStr s) = [s]"
| "normalize_queue_selectors (SelList xs) = xs"
| "normalize_queue_selectors (SelTuple xs) = xs"

definition endswith_star :: "string \<Rightarrow> bool" where
  "endswith_star s \<longleftrightarrow> s \<noteq> [] \<and> last s = CHR ''*''"

definition queue_matches_selector :: "string \<Rightarrow> string \<Rightarrow> bool" where
  "queue_matches_selector q s =
     (if s = ''*'' then True
      else if endswith_star s then is_prefix_of (butlast s) q
      else q = s)"

definition queue_matches_selectors :: "string \<Rightarrow> selectors \<Rightarrow> bool" where
  "queue_matches_selectors q s =
     (if selectors_match_all s then True
      else list_ex (queue_matches_selector q) (normalize_queue_selectors s))"

definition any_queue_matches_selectors :: "string list option \<Rightarrow> selectors \<Rightarrow> bool" where
  "any_queue_matches_selectors qs s =
     (case qs of
        None \<Rightarrow> True
      | Some names \<Rightarrow> if selectors_match_all s then True
          else list_ex (\<lambda>q. queue_matches_selectors q s) names)"

section \<open>The query condition\<close>

text \<open>\<open>queue_selector_condition\<close> answers \<open>None\<close> for ``no restriction'' or a disjunction of
  atoms; an empty disjunction is falsy and selects nothing.\<close>

datatype atom = StartsWith string | Equals string

fun selector_atoms :: "string list \<Rightarrow> atom list \<Rightarrow> atom list option" where
  "selector_atoms [] acc = Some acc"
| "selector_atoms (s # ss) acc =
     (if s = ''*'' then None
      else if endswith_star s then selector_atoms ss (acc @ [StartsWith (butlast s)])
      else selector_atoms ss (acc @ [Equals s]))"

definition queue_selector_condition :: "selectors \<Rightarrow> atom list option" where
  "queue_selector_condition s =
     (if selectors_match_all s then None
      else selector_atoms (normalize_queue_selectors s) [])"

text \<open>Evaluation of an atom by the database.  Django's \<open>startswith\<close> lookup is case-sensitive
  except on SQLite, whose \<open>LIKE\<close> folds ASCII case.\<close>

fun eval_atom :: "backend_family \<Rightarrow> string \<Rightarrow> atom \<Rightarrow> bool" where
  "eval_atom fam q (StartsWith p) =
     (if fam = Sqlite then is_prefix_of (lower p) (lower q) else is_prefix_of p q)"
| "eval_atom fam q (Equals s) = (q = s)"

definition filter_by_queue_selectors ::
  "backend_family \<Rightarrow> ('r \<Rightarrow> string) \<Rightarrow> 'r list \<Rightarrow> selectors \<Rightarrow> 'r list" where
  "filter_by_queue_selectors fam queue_of rows s =
     (case queue_selector_condition s of
        None \<Rightarrow> rows
      | Some atoms \<Rightarrow> if atoms = [] then []
          else filter (\<lambda>r. list_ex (eval_atom fam (queue_of r)) atoms) rows)"

section \<open>Lemmas\<close>

lemma selector_atoms_None: "selector_atoms ss acc = None \<longleftrightarrow> ''*'' \<in> set ss"
  by (induction ss acc rule: selector_atoms.induct) auto

lemma selector_atoms_Some:
  "selector_atoms ss acc = Some atoms \<Longrightarrow> fam \<noteq> Sqlite \<Longrightarrow>
   list_ex (eval_atom fam q) atoms \<longleftrightarrow>
     list_ex (eval_atom fam q) acc \<or> list_ex (queue_matches_selector q) ss"
  by (induction ss acc rule: selector_atoms.induct)
     (auto simp: queue_matches_selector_def split: if_splits)

lemma is_prefix_of_lower: "is_prefix_of p q \<Longrightarrow> is_prefix_of (lower p) (lower q)"
  by (auto simp: is_prefix_of_append)

lemma selector_atoms_Sqlite:
  "selector_atoms ss acc = Some atoms \<Longrightarrow>
   list_ex (eval_atom Sqlite q) acc \<or> list_ex (queue_matches_selector q) ss \<Longrightarrow>
   list_ex (eval_atom Sqlite q) atoms"
  by (induction ss acc rule: selector_atoms.induct)
     (auto simp: queue_matches_selector_def is_prefix_of_lower split: if_splits)

lemma queue_matches_star: "''*'' \<in> set (normalize_queue_selectors s) \<Longrightarrow> queue_matches_selectors q s"
  by (auto simp: queue_matches_selectors_def queue_matches_selector_def list_ex_iff)

lemma filter_matches_gen:
  assumes "fam \<noteq> Sqlite"
  shows "filter_by_queue_selectors fam f rows s = filter (\<lambda>r. queue_matches_selectors (f r) s) rows"
proof (cases "queue_selector_condition s")
  case None
  then have "queue_matches_selectors q s" for q
    by (auto simp: queue_selector_condition_def queue_matches_selectors_def selector_atoms_None
          queue_matches_selector_def list_ex_iff split: if_splits)
  with None show ?thesis by (simp add: filter_by_queue_selectors_def)
next
  case (Some atoms)
  then have "list_ex (eval_atom fam q) atoms \<longleftrightarrow> queue_matches_selectors q s" for q
    using assms selector_atoms_Some [of "normalize_queue_selectors s" "[]" atoms fam q]
    by (simp add: queue_selector_condition_def queue_matches_selectors_def split: if_splits)
  with Some show ?thesis
    by (auto simp: filter_by_queue_selectors_def cong: filter_cong)
qed

lemma filter_matches_sqlite:
  assumes "r \<in> set rows" and "queue_matches_selectors (f r) s"
  shows "r \<in> set (filter_by_queue_selectors fam f rows s)"
proof (cases "fam = Sqlite")
  case False
  with assms show ?thesis by (simp add: filter_matches_gen)
next
  case True
  show ?thesis
  proof (cases "queue_selector_condition s")
    case None
    with assms show ?thesis by (simp add: filter_by_queue_selectors_def)
  next
    case (Some atoms)
    then have "list_ex (eval_atom Sqlite (f r)) atoms"
      using assms(2) selector_atoms_Sqlite [of "normalize_queue_selectors s" "[]" atoms "f r"]
      by (auto simp: queue_selector_condition_def queue_matches_selectors_def split: if_splits)
    with Some True assms(1) show ?thesis
      by (auto simp: filter_by_queue_selectors_def)
  qed
qed

end
