(* ===== verification/Database.thy ===== *)
theory Database
  imports Json_Payload Queue_Selectors
begin

text \<open>
  The queue database: the tables of \<^verbatim>\<open>dj_queue/models/\<close> as lists of records, the primitive
  reads and writes that the operations perform on them, the job status derived from the execution
  tables (\<^verbatim>\<open>models/jobs.py\<close>, \<^verbatim>\<open>sql/state.py\<close>), and the integrity invariant.

  A table is the list of its rows in insertion order.  Automatic primary keys come from one counter
  (\<open>next_pk\<close>), which gives what the code relies on: a new key is fresh and larger than every
  earlier one.  \<open>timezone.now()\<close> takes the next element of the stream \<open>clock\<close>, so two
  readings in one transaction are two readings.  A transaction that raises is rolled back: an
  operation that fails returns the exception and no state.
\<close>

section \<open>Tasks, configuration and session\<close>

text \<open>Option values on tasks.  \<open>OOther t\<close> is any other object, with the text \<open>str()\<close> gives
  for it.\<close>

datatype option_value =
    ONone
  | OBool bool
  | OInt int
  | OStr string
  | OOther string
  | OCallable "pyval list \<Rightarrow> (string \<times> pyval) list \<Rightarrow> error + option_value"

text \<open>A Django task: the attributes of the task object and those of its function.  \<open>bound_format\<close> is
  \<open>template.format(**arguments)\<close> with the arguments of a call bound to the signature of the task's
  function, which belongs to the application.\<close>

record task =
  module_path :: string
  t_queue_name :: string
  t_priority :: option_value
  run_after :: "time option"
  takes_context :: bool
  has_using :: bool
  task_attrs :: "string \<Rightarrow> option_value option"
  func_attrs :: "string \<Rightarrow> option_value option"
  bound_format :: "string \<Rightarrow> pyval list \<Rightarrow> (string \<times> pyval) list \<Rightarrow> error + string"

text \<open>The fields of \<open>BackendConfig\<close> (\<^verbatim>\<open>config.py\<close>) that the operations read.\<close>

record backend_config =
  backend_alias :: string
  allowed_queues :: "string list"
  use_skip_locked :: bool
  listen_notify :: bool
  preserve_finished_jobs :: bool
  default_concurrency_duration :: int
  clear_finished_jobs_after :: "int option"
  clear_failed_jobs_after :: "int option"
  clear_recurring_executions_after :: "int option"

datatype table =
    TReady | TScheduled | TClaimed | TBlocked | TFailed
  | TJob | TSemaphore | TProcess | TRecurringTask | TRecurringExecution

text \<open>The connection an operation runs on: the capabilities, the rows other transactions hold
  locked at that moment, \<open>import_string\<close>, which resolves a dotted task path, and Python's
  \<open>repr\<close> of floats.\<close>

record session =
  caps :: capabilities
  locked :: "table \<Rightarrow> nat \<Rightarrow> bool"
  import_task :: "string \<Rightarrow> error + task"
  float_repr :: "pyfloat \<Rightarrow> string"

abbreviation family :: "session \<Rightarrow> backend_family" where
  "family ss \<equiv> cap_family (caps ss)"

text \<open>\<open>locked_queryset\<close>: with \<open>SKIP LOCKED\<close> the rows locked elsewhere are left out; without it
  the statement waits, and continues when nobody else holds them.\<close>

definition locked_queryset ::
  "session \<Rightarrow> backend_config \<Rightarrow> table \<Rightarrow> ('r \<Rightarrow> nat) \<Rightarrow> 'r list \<Rightarrow> 'r list" where
  "locked_queryset ss cfg t pk rows =
     (if use_skip_locked cfg \<and> cap_skip_locked (caps ss)
      then filter (\<lambda>r. \<not> locked ss t (pk r)) rows else rows)"

section \<open>Tables\<close>

record job =
  job_id :: uuid
  task_path :: string
  job_queue_name :: string
  job_priority :: int
  payload :: json
  job_backend_alias :: string
  scheduled_at :: "time option"
  concurrency_key :: "string option"
  concurrency_limit :: "int option"
  concurrency_duration :: "int option"
  concurrency_on_conflict :: "string option"
  finished_at :: "time option"
  return_value :: json
  job_created_at :: time
  job_updated_at :: time

record ready_execution =
  re_id :: nat
  re_job :: uuid
  re_backend_alias :: string
  re_queue_name :: string
  re_priority :: int
  re_created_at :: time
  re_latency_started_at :: "time option"

record scheduled_execution =
  se_id :: nat
  se_job :: uuid
  se_backend_alias :: string
  se_queue_name :: string
  se_priority :: int
  se_scheduled_at :: time
  se_created_at :: time

record claimed_execution =
  ce_id :: nat
  ce_job :: uuid
  ce_process :: "nat option"
  ce_created_at :: time

record blocked_execution =
  be_id :: nat
  be_job :: uuid
  be_backend_alias :: string
  be_queue_name :: string
  be_priority :: int
  be_concurrency_key :: string
  be_expires_at :: time
  be_created_at :: time

record failed_execution =
  fe_id :: nat
  fe_job :: uuid
  fe_exception_class :: string
  fe_message :: string
  fe_traceback :: string
  fe_retry_at :: "time option"
  fe_created_at :: time

record semaphore =
  sem_id :: nat
  sem_key :: string
  sem_value :: int
  sem_active_count :: "int option"
  sem_limit :: int
  sem_expires_at :: time
  sem_created_at :: time
  sem_updated_at :: time

record process =
  proc_id :: nat
  proc_backend_alias :: string
  proc_kind :: string
  proc_pid :: int
  proc_hostname :: string
  proc_name :: string
  proc_metadata :: json
  proc_supervisor :: "nat option"
  proc_last_heartbeat_at :: time
  proc_created_at :: time

record pause =
  pause_id :: nat
  pause_backend_alias :: string
  pause_queue_name :: string
  pause_created_at :: time

record recurring_task =
  rt_id :: nat
  rt_backend_alias :: string
  rt_key :: string
  rt_task_path :: string
  rt_payload :: json
  rt_schedule :: string
  rt_queue_name :: string
  rt_priority :: int
  rt_description :: string
  rt_static :: bool
  rt_next_run_at :: "time option"

record recurring_execution =
  rx_id :: nat
  rx_backend_alias :: string
  rx_intended_job_id :: "uuid option"
  rx_job :: "uuid option"
  rx_task_key :: string
  rx_run_at :: time
  rx_created_at :: time

record db =
  jobs :: "job list"
  ready_executions :: "ready_execution list"
  scheduled_executions :: "scheduled_execution list"
  claimed_executions :: "claimed_execution list"
  blocked_executions :: "blocked_execution list"
  failed_executions :: "failed_execution list"
  semaphores :: "semaphore list"
  processes :: "process list"
  pauses :: "pause list"
  recurring_tasks :: "recurring_task list"
  recurring_executions :: "recurring_execution list"
  next_pk :: nat
  clock :: "time stream"
  notified :: "string list"

definition empty_db :: "time stream \<Rightarrow> db" where
  "empty_db ts = \<lparr>jobs = [], ready_executions = [], scheduled_executions = [],
     claimed_executions = [], blocked_executions = [], failed_executions = [], semaphores = [],
     processes = [], pauses = [], recurring_tasks = [], recurring_executions = [],
     next_pk = 1, clock = ts, notified = []\<rparr>"

definition timezone_now :: "db \<Rightarrow> time \<times> db" where
  "timezone_now d = (shd (clock d), d\<lparr>clock := stl (clock d)\<rparr>)"

definition take_pk :: "db \<Rightarrow> nat \<times> db" where
  "take_pk d = (next_pk d, d\<lparr>next_pk := Suc (next_pk d)\<rparr>)"

section \<open>Execution states\<close>

text \<open>\<open>EXECUTION_STATE_MODELS\<close> of \<^verbatim>\<open>sql/state.py\<close>, in its order.\<close>

datatype state_model = Ready | Scheduled | Claimed | Blocked | Failed

definition execution_state_models :: "state_model list" where
  "execution_state_models = [Ready, Scheduled, Claimed, Blocked, Failed]"

definition state_models_except :: "state_model list \<Rightarrow> state_model list" where
  "state_models_except ignored = filter (\<lambda>m. m \<notin> set ignored) execution_state_models"

text \<open>Primary key and job of each row of an execution table.\<close>

fun state_keys :: "state_model \<Rightarrow> db \<Rightarrow> (nat \<times> uuid) list" where
  "state_keys Ready d = map (\<lambda>r. (re_id r, re_job r)) (ready_executions d)"
| "state_keys Scheduled d = map (\<lambda>r. (se_id r, se_job r)) (scheduled_executions d)"
| "state_keys Claimed d = map (\<lambda>r. (ce_id r, ce_job r)) (claimed_executions d)"
| "state_keys Blocked d = map (\<lambda>r. (be_id r, be_job r)) (blocked_executions d)"
| "state_keys Failed d = map (\<lambda>r. (fe_id r, fe_job r)) (failed_executions d)"

definition has_state :: "state_model \<Rightarrow> db \<Rightarrow> uuid \<Rightarrow> bool" where
  "has_state m d i \<longleftrightarrow> i \<in> snd ` set (state_keys m d)"

definition state_count :: "state_model \<Rightarrow> db \<Rightarrow> uuid \<Rightarrow> nat" where
  "state_count m d i = count_if (\<lambda>(p, j). j = i) (state_keys m d)"

definition job_ids :: "db \<Rightarrow> uuid set" where
  "job_ids d = job_id ` set (jobs d)"

definition find_job :: "db \<Rightarrow> uuid \<Rightarrow> job option" where
  "find_job d i = find (\<lambda>j. job_id j = i) (jobs d)"

text \<open>\<open>select_related("job")\<close>: an inner join, each row with its job.\<close>

definition with_jobs :: "db \<Rightarrow> ('r \<Rightarrow> uuid) \<Rightarrow> 'r list \<Rightarrow> ('r \<times> job) list" where
  "with_jobs d f rows = List.map_filter (\<lambda>r. map_option (Pair r) (find_job d (f r))) rows"

section \<open>Job status\<close>

text \<open>\<open>Job.live_execution_state_names\<close>, \<open>Job.status\<close> and \<open>Job.execution_state_names\<close>; the
  status \<open>None\<close> is a job with no state row and no finish time.\<close>

datatype job_status = Live state_model | Finished | Invalid

definition live_execution_states :: "db \<Rightarrow> job \<Rightarrow> state_model list" where
  "live_execution_states d j = filter (\<lambda>m. has_state m d (job_id j)) execution_state_models"

definition status :: "db \<Rightarrow> job \<Rightarrow> job_status option" where
  "status d j =
     (let live = live_execution_states d j in
      if length live > 1 then Some Invalid
      else if finished_at j \<noteq> None then (if live \<noteq> [] then Some Invalid else Some Finished)
      else (case live of m # _ \<Rightarrow> Some (Live m) | [] \<Rightarrow> None))"

definition execution_state_names :: "db \<Rightarrow> job \<Rightarrow> job_status list" where
  "execution_state_names d j =
     (let live = map Live (live_execution_states d j)
      in if finished_at j = None then live else Finished # live)"

text \<open>\<open>invalid_execution_state_query\<close>: the disjunction over all pairs of distinct state tables
  and over finished jobs with a state row.\<close>

fun pairs_of :: "'a list \<Rightarrow> ('a \<times> 'a) list" where
  "pairs_of [] = []"
| "pairs_of (x # xs) = map (Pair x) xs @ pairs_of xs"

definition invalid_execution_state :: "db \<Rightarrow> job \<Rightarrow> bool" where
  "invalid_execution_state d j \<longleftrightarrow>
     list_ex (\<lambda>(a, b). has_state a d (job_id j) \<and> has_state b d (job_id j))
       (pairs_of execution_state_models)
     \<or> list_ex (\<lambda>m. finished_at j \<noteq> None \<and> has_state m d (job_id j)) execution_state_models"

text \<open>\<open>JobQuerySet.ready()\<close> \dots{} \<open>finished()\<close>: the jobs in a state, invalid ones
  excluded.\<close>

definition jobs_in_state :: "db \<Rightarrow> job_status \<Rightarrow> job list" where
  "jobs_in_state d st =
     filter (\<lambda>j. (case st of
        Finished \<Rightarrow> finished_at j \<noteq> None
      | Live m \<Rightarrow> has_state m d (job_id j)
      | Invalid \<Rightarrow> False) \<and> \<not> invalid_execution_state d j) (jobs d)"

section \<open>Primitive writes\<close>

definition delete_pks :: "state_model \<Rightarrow> nat set \<Rightarrow> db \<Rightarrow> db" where
  "delete_pks m P d = (case m of
      Ready \<Rightarrow> d\<lparr>ready_executions := filter (\<lambda>r. re_id r \<notin> P) (ready_executions d)\<rparr>
    | Scheduled \<Rightarrow> d\<lparr>scheduled_executions := filter (\<lambda>r. se_id r \<notin> P) (scheduled_executions d)\<rparr>
    | Claimed \<Rightarrow> d\<lparr>claimed_executions := filter (\<lambda>r. ce_id r \<notin> P) (claimed_executions d)\<rparr>
    | Blocked \<Rightarrow> d\<lparr>blocked_executions := filter (\<lambda>r. be_id r \<notin> P) (blocked_executions d)\<rparr>
    | Failed \<Rightarrow> d\<lparr>failed_executions := filter (\<lambda>r. fe_id r \<notin> P) (failed_executions d)\<rparr>)"

text \<open>An insert into an execution table checks the foreign keys (to the job and, for a claim, to
  the process) and the uniqueness of the one-to-one field.\<close>

definition may_insert :: "state_model \<Rightarrow> uuid \<Rightarrow> db \<Rightarrow> bool" where
  "may_insert m i d \<longleftrightarrow> i \<in> job_ids d \<and> \<not> has_state m d i"

definition insert_ready :: "ready_execution \<Rightarrow> db \<Rightarrow> error + db" where
  "insert_ready r d = (if may_insert Ready (re_job r) d
     then Inr (d\<lparr>ready_executions := ready_executions d @ [r\<lparr>re_id := next_pk d\<rparr>],
                 next_pk := Suc (next_pk d)\<rparr>)
     else Inl IntegrityError)"

definition insert_scheduled :: "scheduled_execution \<Rightarrow> db \<Rightarrow> error + db" where
  "insert_scheduled r d = (if may_insert Scheduled (se_job r) d
     then Inr (d\<lparr>scheduled_executions := scheduled_executions d @ [r\<lparr>se_id := next_pk d\<rparr>],
                 next_pk := Suc (next_pk d)\<rparr>)
     else Inl IntegrityError)"

definition insert_claimed :: "claimed_execution \<Rightarrow> db \<Rightarrow> error + db" where
  "insert_claimed r d = (if may_insert Claimed (ce_job r) d
       \<and> (case ce_process r of None \<Rightarrow> True | Some p \<Rightarrow> p \<in> proc_id ` set (processes d))
     then Inr (d\<lparr>claimed_executions := claimed_executions d @ [r\<lparr>ce_id := next_pk d\<rparr>],
                 next_pk := Suc (next_pk d)\<rparr>)
     else Inl IntegrityError)"

definition insert_blocked :: "blocked_execution \<Rightarrow> db \<Rightarrow> error + db" where
  "insert_blocked r d = (if may_insert Blocked (be_job r) d
     then Inr (d\<lparr>blocked_executions := blocked_executions d @ [r\<lparr>be_id := next_pk d\<rparr>],
                 next_pk := Suc (next_pk d)\<rparr>)
     else Inl IntegrityError)"

definition insert_failed :: "failed_execution \<Rightarrow> db \<Rightarrow> error + db" where
  "insert_failed r d = (if may_insert Failed (fe_job r) d
     then Inr (d\<lparr>failed_executions := failed_executions d @ [r\<lparr>fe_id := next_pk d\<rparr>],
                 next_pk := Suc (next_pk d)\<rparr>)
     else Inl IntegrityError)"

text \<open>Inserts through a model instance: \<open>auto_now_add\<close> overwrites the creation time with a
  clock reading of its own, whatever the instance was built with.\<close>

definition create_ready :: "ready_execution \<Rightarrow> db \<Rightarrow> error + db" where
  "create_ready r d = (let (t, d) = timezone_now d in insert_ready (r\<lparr>re_created_at := t\<rparr>) d)"

definition create_scheduled :: "scheduled_execution \<Rightarrow> db \<Rightarrow> error + db" where
  "create_scheduled r d = (let (t, d) = timezone_now d in insert_scheduled (r\<lparr>se_created_at := t\<rparr>) d)"

definition create_claimed :: "claimed_execution \<Rightarrow> db \<Rightarrow> error + db" where
  "create_claimed r d = (let (t, d) = timezone_now d in insert_claimed (r\<lparr>ce_created_at := t\<rparr>) d)"

definition create_blocked :: "blocked_execution \<Rightarrow> db \<Rightarrow> error + db" where
  "create_blocked r d = (let (t, d) = timezone_now d in insert_blocked (r\<lparr>be_created_at := t\<rparr>) d)"

definition create_failed :: "failed_execution \<Rightarrow> db \<Rightarrow> error + db" where
  "create_failed r d = (let (t, d) = timezone_now d in insert_failed (r\<lparr>fe_created_at := t\<rparr>) d)"

text \<open>A new job: unique id and the check constraint on the priority.\<close>

definition create_job :: "job \<Rightarrow> db \<Rightarrow> error + job \<times> db" where
  "create_job j d =
     (let (t, d) = timezone_now d; (u, d) = timezone_now d;
          j = j\<lparr>job_created_at := t, job_updated_at := u\<rparr>
      in if job_id j \<in> job_ids d \<or> job_priority j < -100 \<or> 100 < job_priority j
         then Inl IntegrityError
         else Inr (j, d\<lparr>jobs := jobs d @ [j]\<rparr>))"

definition update_job :: "uuid \<Rightarrow> (job \<Rightarrow> job) \<Rightarrow> db \<Rightarrow> db" where
  "update_job i f d = d\<lparr>jobs := map (\<lambda>j. if job_id j = i then f j else j) (jobs d)\<rparr>"

text \<open>Deleting jobs cascades to their execution rows and recurring executions; \<open>.delete()\<close>
  returns the number of all rows deleted.\<close>

definition delete_jobs :: "uuid set \<Rightarrow> db \<Rightarrow> nat \<times> db" where
  "delete_jobs I d =
     (count_if (\<lambda>j. job_id j \<in> I) (jobs d)
        + sum_list (map (\<lambda>m. count_if (\<lambda>(p, j). j \<in> I \<and> j \<in> job_ids d) (state_keys m d))
            execution_state_models)
        + count_if (\<lambda>x. case rx_job x of None \<Rightarrow> False | Some j \<Rightarrow> j \<in> I \<and> j \<in> job_ids d)
            (recurring_executions d),
      d\<lparr>jobs := filter (\<lambda>j. job_id j \<notin> I) (jobs d),
        ready_executions := filter (\<lambda>r. re_job r \<notin> I) (ready_executions d),
        scheduled_executions := filter (\<lambda>r. se_job r \<notin> I) (scheduled_executions d),
        claimed_executions := filter (\<lambda>r. ce_job r \<notin> I) (claimed_executions d),
        blocked_executions := filter (\<lambda>r. be_job r \<notin> I) (blocked_executions d),
        failed_executions := filter (\<lambda>r. fe_job r \<notin> I) (failed_executions d),
        recurring_executions :=
          filter (\<lambda>x. case rx_job x of None \<Rightarrow> True | Some j \<Rightarrow> j \<notin> I) (recurring_executions d)\<rparr>)"

text \<open>Deleting a process sets the foreign keys that point to it to null.\<close>

definition delete_process :: "nat \<Rightarrow> db \<Rightarrow> db" where
  "delete_process p d = d\<lparr>
     processes := map (\<lambda>q. if proc_supervisor q = Some p then q\<lparr>proc_supervisor := None\<rparr> else q)
       (filter (\<lambda>q. proc_id q \<noteq> p) (processes d)),
     claimed_executions := map (\<lambda>c. if ce_process c = Some p then c\<lparr>ce_process := None\<rparr> else c)
       (claimed_executions d)\<rparr>"

text \<open>\<open>notify_ready_queues_on_commit\<close> (\<^verbatim>\<open>wakeup.py\<close>).\<close>

definition notify_ready_queues_on_commit ::
  "session \<Rightarrow> backend_config \<Rightarrow> string list \<Rightarrow> db \<Rightarrow> db" where
  "notify_ready_queues_on_commit ss cfg queue_names d =
     (let names = dict_fromkeys queue_names in
      if names = [] then d
      else if \<not> listen_notify cfg \<or> \<not> cap_listen_notify (caps ss) then d
      else d\<lparr>notified := notified d @ names\<rparr>)"

section \<open>Integrity\<close>

text \<open>Number of execution rows of a job over the five tables.\<close>

definition live_count :: "db \<Rightarrow> uuid \<Rightarrow> nat" where
  "live_count d i = sum_list (map (\<lambda>m. state_count m d i) execution_state_models)"

text \<open>The tables reference existing jobs and their keys are distinct and below the sequence.\<close>

definition keys_ok :: "db \<Rightarrow> bool" where
  "keys_ok d \<longleftrightarrow> distinct (map job_id (jobs d))
     \<and> (\<forall>m. distinct (map fst (state_keys m d)))
     \<and> (\<forall>m. \<forall>(p, i)\<in>set (state_keys m d). p < next_pk d \<and> i \<in> job_ids d)"

text \<open>Every job outside \<open>A\<close> is in exactly one state: finished without execution rows, or live
  with one.  The jobs of \<open>A\<close> are in transit inside a transaction: their row has been consumed and
  the row of the next state is not written yet.\<close>

definition partitioned :: "uuid set \<Rightarrow> db \<Rightarrow> bool" where
  "partitioned A d \<longleftrightarrow> (\<forall>j\<in>set (jobs d).
     if job_id j \<in> A then live_count d (job_id j) = 0 \<and> finished_at j = None
     else live_count d (job_id j) = (if finished_at j = None then 1 else 0))"

text \<open>Integrity of a committed state: nothing is in transit.\<close>

definition integrity :: "db \<Rightarrow> bool" where
  "integrity d \<longleftrightarrow> keys_ok d \<and> partitioned {} d"

section \<open>Lemmas\<close>

subsection \<open>Reads\<close>

lemma execution_state_models_all [simp]: "m \<in> set execution_state_models"
  by (cases m) (simp_all add: execution_state_models_def)

lemma UNIV_state_model: "(UNIV :: state_model set) = {Ready, Scheduled, Claimed, Blocked, Failed}"
  using state_model.exhaust by auto

lemma live_count_unfold:
  "live_count d i = state_count Ready d i + state_count Scheduled d i + state_count Claimed d i
     + state_count Blocked d i + state_count Failed d i"
  by (simp add: live_count_def execution_state_models_def)

lemma has_state_iff_count: "has_state m d i \<longleftrightarrow> 0 < state_count m d i"
proof -
  have "state_count m d i = 0 \<longleftrightarrow> \<not> has_state m d i"
    by (force simp: has_state_def state_count_def count_if_0_iff)
  then show ?thesis by auto
qed

lemma state_count_le_live: "state_count m d i \<le> live_count d i"
  by (cases m) (simp_all add: live_count_unfold)

lemma has_state_live: "has_state m d i \<Longrightarrow> 0 < live_count d i"
  using state_count_le_live [of m d i] by (simp add: has_state_iff_count)

lemma find_job_Some: "find_job d i = Some j \<Longrightarrow> j \<in> set (jobs d) \<and> job_id j = i"
  by (auto simp: find_job_def find_Some_iff)

lemma find_job_None: "find_job d i = None \<longleftrightarrow> i \<notin> job_ids d"
  by (auto simp: find_job_def find_None_iff job_ids_def)

lemma find_job_unique:
  assumes "distinct (map job_id (jobs d))" and "j \<in> set (jobs d)"
  shows "find_job d (job_id j) = Some j"
proof -
  obtain k where k: "find_job d (job_id j) = Some k"
    using assms(2) find_job_None [of d "job_id j"] by (auto simp: job_ids_def)
  with find_job_Some [OF k] assms have "k = j" by (auto simp: distinct_map inj_on_def)
  with k show ?thesis by simp
qed

lemma set_with_jobs: "(r, j) \<in> set (with_jobs d f rows) \<longleftrightarrow> r \<in> set rows \<and> find_job d (f r) = Some j"
  by (auto simp: with_jobs_def map_filter_def image_iff split: option.splits)

lemma with_jobs_Nil [simp]: "with_jobs d f [] = []"
  by (simp add: with_jobs_def map_filter_def)

lemma with_jobs_Cons:
  "with_jobs d f (r # rs) = (case find_job d (f r) of None \<Rightarrow> with_jobs d f rs
     | Some j \<Rightarrow> (r, j) # with_jobs d f rs)"
  by (simp add: with_jobs_def map_filter_def split: option.splits)

lemma map_fst_with_jobs:
  "\<forall>r\<in>set rows. f r \<in> job_ids d \<Longrightarrow> map fst (with_jobs d f rows) = rows"
  by (induction rows) (auto simp: with_jobs_Cons find_job_None split: option.splits)

lemma set_locked_queryset: "set (locked_queryset ss cfg t pk rows) \<subseteq> set rows"
  by (auto simp: locked_queryset_def)

lemma distinct_locked_queryset: "distinct (map f rows) \<Longrightarrow> distinct (map f (locked_queryset ss cfg t pk rows))"
  by (simp add: locked_queryset_def distinct_map_filter)

lemma sorted_locked_queryset:
  "sorted (map k rows) \<Longrightarrow> sorted (map k (locked_queryset ss cfg t pk rows))"
  by (simp add: locked_queryset_def sorted_filter)

subsection \<open>Writes\<close>

text \<open>The columns of the state an operation may not touch, as simplification rules.\<close>

lemma state_keys_cong:
  "ready_executions d = ready_executions e \<Longrightarrow> scheduled_executions d = scheduled_executions e \<Longrightarrow>
   claimed_executions d = claimed_executions e \<Longrightarrow> blocked_executions d = blocked_executions e \<Longrightarrow>
   failed_executions d = failed_executions e \<Longrightarrow> state_keys m d = state_keys m e"
  by (cases m) simp_all

lemma state_keys_frame [simp]:
  "state_keys m (d\<lparr>jobs := js\<rparr>) = state_keys m d"
  "state_keys m (d\<lparr>semaphores := sms\<rparr>) = state_keys m d"
  "state_keys m (d\<lparr>processes := ps\<rparr>) = state_keys m d"
  "state_keys m (d\<lparr>pauses := qs\<rparr>) = state_keys m d"
  "state_keys m (d\<lparr>recurring_tasks := rts\<rparr>) = state_keys m d"
  "state_keys m (d\<lparr>recurring_executions := rxs\<rparr>) = state_keys m d"
  "state_keys m (d\<lparr>next_pk := n\<rparr>) = state_keys m d"
  "state_keys m (d\<lparr>clock := c\<rparr>) = state_keys m d"
  "state_keys m (d\<lparr>notified := ns\<rparr>) = state_keys m d"
  by (cases m; simp)+

lemma state_keys_delete_pks [db_simps]:
  "state_keys m (delete_pks m' P d) =
     (if m = m' then filter (\<lambda>(p, i). p \<notin> P) (state_keys m d) else state_keys m d)"
  by (cases m; cases m') (simp_all add: delete_pks_def filter_map comp_def)

lemma delete_pks_frame [simp]:
  "jobs (delete_pks m P d) = jobs d"
  "semaphores (delete_pks m P d) = semaphores d"
  "next_pk (delete_pks m P d) = next_pk d"
  "clock (delete_pks m P d) = clock d"
  by (cases m; simp add: delete_pks_def)+

lemma state_keys_delete_jobs [db_simps]:
  "state_keys m (snd (delete_jobs I d)) = filter (\<lambda>(p, i). i \<notin> I) (state_keys m d)"
  by (cases m) (simp_all add: delete_jobs_def filter_map comp_def)

lemma delete_jobs_frame [simp]:
  "jobs (snd (delete_jobs I d)) = filter (\<lambda>j. job_id j \<notin> I) (jobs d)"
  "semaphores (snd (delete_jobs I d)) = semaphores d"
  "next_pk (snd (delete_jobs I d)) = next_pk d"
  "blocked_executions (snd (delete_jobs I d)) =
     filter (\<lambda>r. be_job r \<notin> I) (blocked_executions d)"
  by (simp_all add: delete_jobs_def)

lemma state_keys_delete_process [simp]: "state_keys m (delete_process p d) = state_keys m d"
  by (cases m) (simp_all add: delete_process_def comp_def)

lemma delete_process_frame [simp]:
  "jobs (delete_process p d) = jobs d"
  "semaphores (delete_process p d) = semaphores d"
  "next_pk (delete_process p d) = next_pk d"
  "blocked_executions (delete_process p d) = blocked_executions d"
  by (simp_all add: delete_process_def)

lemma state_keys_notify [simp]: "state_keys m (notify_ready_queues_on_commit ss cfg qs d) = state_keys m d"
  by (simp add: notify_ready_queues_on_commit_def Let_def)

lemma notify_frame [simp]:
  "jobs (notify_ready_queues_on_commit ss cfg qs d) = jobs d"
  "semaphores (notify_ready_queues_on_commit ss cfg qs d) = semaphores d"
  "next_pk (notify_ready_queues_on_commit ss cfg qs d) = next_pk d"
  "blocked_executions (notify_ready_queues_on_commit ss cfg qs d) = blocked_executions d"
  by (simp_all add: notify_ready_queues_on_commit_def Let_def)

declare state_keys.simps [simp del]

end
