(* ===== verification/Transit.thy ===== *)
theory Transit
  imports Database "HOL-Library.Multiset"
begin

text \<open>
  The invariant of the queue database inside and between transactions.  A transaction moves jobs
  from one execution table to another in several statements; in between, the jobs of a set
  \<open>A\<close> have no row, and concurrency slots that belong to no row are held by the transaction as a
  multiset \<open>M\<close> of tokens (one token per slot, named by the concurrency key).  Every primitive
  write has one lemma saying how it changes \<open>A\<close> and \<open>M\<close>; the operations of the component
  theories are proved by chaining these lemmas, and a committed state has \<open>A = {}\<close> and
  \<open>M = {#}\<close>.
\<close>

section \<open>Concurrency slots\<close>

text \<open>\<open>if not job.concurrency_key\<close>: a missing and an empty key both mean no limit.\<close>

definition job_key :: "job \<Rightarrow> string option" where
  "job_key j = (case concurrency_key j of None \<Rightarrow> None | Some k \<Rightarrow> if k = [] then None else Some k)"

definition key_of :: "db \<Rightarrow> uuid \<Rightarrow> string option" where
  "key_of d i = Option.bind (find_job d i) job_key"

text \<open>A job occupies a slot of its key while it is ready or claimed.\<close>

definition slot_model :: "state_model \<Rightarrow> bool" where
  "slot_model m \<longleftrightarrow> m = Ready \<or> m = Claimed"

definition holders :: "db \<Rightarrow> string \<Rightarrow> nat" where
  "holders d k = count_if (\<lambda>(p, i). key_of d i = Some k) (state_keys Ready d)
     + count_if (\<lambda>(p, i). key_of d i = Some k) (state_keys Claimed d)"

definition token :: "db \<Rightarrow> uuid \<Rightarrow> string multiset" where
  "token d i = (case key_of d i of None \<Rightarrow> {#} | Some k \<Rightarrow> {#k#})"

definition slot_token :: "state_model \<Rightarrow> db \<Rightarrow> uuid \<Rightarrow> string multiset" where
  "slot_token m d i = (if slot_model m then token d i else {#})"

definition find_semaphore :: "db \<Rightarrow> string \<Rightarrow> semaphore option" where
  "find_semaphore d k = find (\<lambda>s. sem_key s = k) (semaphores d)"

section \<open>The invariant\<close>

text \<open>Each key has one limit \<open>L k\<close>: the persisted policies of the jobs name no other, and no job
  predates persisted policies.\<close>

definition job_policy_ok :: "(string \<Rightarrow> int) \<Rightarrow> job \<Rightarrow> bool" where
  "job_policy_ok L j \<longleftrightarrow> (case job_key j of None \<Rightarrow> True | Some k \<Rightarrow>
     0 < L k \<and> (\<forall>l. concurrency_limit j = Some l \<longrightarrow> l = L k)
     \<and> \<not> (concurrency_limit j = None \<and> concurrency_duration j = None \<and> concurrency_on_conflict j = None))"

definition policies_ok :: "(string \<Rightarrow> int) \<Rightarrow> db \<Rightarrow> bool" where
  "policies_ok L d \<longleftrightarrow> (\<forall>j\<in>set (jobs d). job_policy_ok L j)"

definition blocked_ok :: "db \<Rightarrow> bool" where
  "blocked_ok d \<longleftrightarrow> (\<forall>b\<in>set (blocked_executions d). key_of d (be_job b) = Some (be_concurrency_key b))"

text \<open>Slot accounting: for every key the free slots, the slots occupied by ready and claimed jobs
  and the slots held by the running transaction add up to the limit.\<close>

definition slot_balance :: "(string \<Rightarrow> int) \<Rightarrow> string multiset \<Rightarrow> db \<Rightarrow> string \<Rightarrow> bool" where
  "slot_balance L M d k \<longleftrightarrow> (case find_semaphore d k of
      None \<Rightarrow> holders d k = 0 \<and> count M k = 0
    | Some s \<Rightarrow> sem_limit s = L k \<and> 0 \<le> sem_value s
        \<and> sem_value s + int (holders d k) + int (count M k) = L k)"

definition semaphores_ok :: "db \<Rightarrow> bool" where
  "semaphores_ok d \<longleftrightarrow> distinct (map sem_key (semaphores d)) \<and> distinct (map sem_id (semaphores d))
     \<and> (\<forall>s\<in>set (semaphores d). sem_id s < next_pk d)"

definition slots_ok :: "(string \<Rightarrow> int) \<Rightarrow> string multiset \<Rightarrow> db \<Rightarrow> bool" where
  "slots_ok L M d \<longleftrightarrow> semaphores_ok d \<and> (\<forall>k. slot_balance L M d k)"

definition queue_inv :: "(string \<Rightarrow> int) \<Rightarrow> uuid set \<Rightarrow> string multiset \<Rightarrow> db \<Rightarrow> bool" where
  "queue_inv L A M d \<longleftrightarrow> keys_ok d \<and> partitioned A d \<and> A \<subseteq> job_ids d \<and> policies_ok L d
     \<and> blocked_ok d \<and> slots_ok L M d"

section \<open>Frame lemmas\<close>

lemma queue_inv_cong:
  assumes "jobs d = jobs e" and "\<And>m. state_keys m d = state_keys m e"
    and "semaphores d = semaphores e" and "next_pk d = next_pk e"
    and "blocked_executions d = blocked_executions e"
  shows "queue_inv L A M d \<longleftrightarrow> queue_inv L A M e"
proof -
  have "job_ids d = job_ids e" "find_job d = find_job e" "live_count d = live_count e"
    using assms by (auto simp: job_ids_def find_job_def live_count_def state_count_def fun_eq_iff)
  moreover from this have "key_of d = key_of e" by (simp add: key_of_def fun_eq_iff)
  moreover from this have "holders d = holders e" by (simp add: holders_def assms(2) fun_eq_iff)
  ultimately show ?thesis
    using assms by (simp add: queue_inv_def keys_ok_def partitioned_def policies_ok_def
        blocked_ok_def slots_ok_def semaphores_ok_def slot_balance_def find_semaphore_def
        cong: option.case_cong)
qed

lemma queue_inv_frame [simp]:
  "queue_inv L A M (d\<lparr>clock := c\<rparr>) = queue_inv L A M d"
  "queue_inv L A M (d\<lparr>notified := ns\<rparr>) = queue_inv L A M d"
  "queue_inv L A M (d\<lparr>pauses := ps\<rparr>) = queue_inv L A M d"
  "queue_inv L A M (d\<lparr>processes := qs\<rparr>) = queue_inv L A M d"
  "queue_inv L A M (d\<lparr>recurring_tasks := rts\<rparr>) = queue_inv L A M d"
  "queue_inv L A M (d\<lparr>recurring_executions := rxs\<rparr>) = queue_inv L A M d"
  "queue_inv L A M (notify_ready_queues_on_commit ss cfg names d) = queue_inv L A M d"
  "queue_inv L A M (delete_process p d) = queue_inv L A M d"
  by (rule queue_inv_cong; simp)+

lemma queue_inv_now [simp]: "queue_inv L A M (snd (timezone_now d)) = queue_inv L A M d"
  by (simp add: timezone_now_def)

lemma key_of_jobs_cong: "jobs d = jobs e \<Longrightarrow> key_of d = key_of e"
  by (simp add: key_of_def find_job_def fun_eq_iff)

lemma token_jobs_cong: "jobs d = jobs e \<Longrightarrow> token d = token e"
  by (drule key_of_jobs_cong) (simp add: token_def fun_eq_iff)

lemma key_of_frame [simp]:
  "key_of (d\<lparr>clock := c\<rparr>) = key_of d"
  "key_of (d\<lparr>semaphores := ss\<rparr>) = key_of d"
  "key_of (delete_pks m P d) = key_of d"
  by (rule key_of_jobs_cong, simp)+

lemma token_frame [simp]:
  "token (d\<lparr>clock := c\<rparr>) = token d"
  "token (d\<lparr>semaphores := ss\<rparr>) = token d"
  "token (delete_pks m P d) = token d"
  by (rule token_jobs_cong, simp)+

lemma key_of_find:
  assumes "distinct (map job_id (jobs d))" and "j \<in> set (jobs d)"
  shows "key_of d (job_id j) = job_key j"
  using find_job_unique [OF assms] by (simp add: key_of_def)

lemma token_find:
  assumes "queue_inv L A M d" and "j \<in> set (jobs d)"
  shows "token d (job_id j) = (case job_key j of None \<Rightarrow> {#} | Some k \<Rightarrow> {#k#})"
  using assms by (simp add: token_def queue_inv_def keys_ok_def key_of_find)

section \<open>Inserting a row\<close>

text \<open>What every insert into an execution table does to the keys.\<close>

definition inserted :: "state_model \<Rightarrow> uuid \<Rightarrow> db \<Rightarrow> db \<Rightarrow> bool" where
  "inserted m i d e \<longleftrightarrow> jobs e = jobs d \<and> semaphores e = semaphores d
     \<and> next_pk e = Suc (next_pk d)
     \<and> (\<forall>m'. state_keys m' e = state_keys m' d @ (if m' = m then [(next_pk d, i)] else []))"

lemma all_models: "(\<forall>m. P m) \<longleftrightarrow> P Ready \<and> P Scheduled \<and> P Claimed \<and> P Blocked \<and> P Failed"
  by (metis state_model.exhaust)

lemma inserted_ready:
  "insert_ready r d = Inr e \<Longrightarrow> inserted Ready (re_job r) d e \<and> blocked_executions e = blocked_executions d"
  by (auto simp: insert_ready_def inserted_def all_models state_keys.simps split: if_splits)

lemma inserted_scheduled:
  "insert_scheduled r d = Inr e \<Longrightarrow>
   inserted Scheduled (se_job r) d e \<and> blocked_executions e = blocked_executions d"
  by (auto simp: insert_scheduled_def inserted_def all_models state_keys.simps split: if_splits)

lemma inserted_claimed:
  "insert_claimed r d = Inr e \<Longrightarrow>
   inserted Claimed (ce_job r) d e \<and> blocked_executions e = blocked_executions d"
  by (auto simp: insert_claimed_def inserted_def all_models state_keys.simps split: if_splits)

lemma inserted_blocked:
  "insert_blocked r d = Inr e \<Longrightarrow>
   inserted Blocked (be_job r) d e
   \<and> blocked_executions e = blocked_executions d @ [r\<lparr>be_id := next_pk d\<rparr>]"
  by (auto simp: insert_blocked_def inserted_def all_models state_keys.simps split: if_splits)

lemma inserted_failed:
  "insert_failed r d = Inr e \<Longrightarrow>
   inserted Failed (fe_job r) d e \<and> blocked_executions e = blocked_executions d"
  by (auto simp: insert_failed_def inserted_def all_models state_keys.simps split: if_splits)

lemma inserted_state_count:
  "inserted m i d e \<Longrightarrow> state_count m' e i' = state_count m' d i' + (if m' = m \<and> i' = i then 1 else 0)"
  by (auto simp: inserted_def state_count_def)

lemma inserted_live_count:
  "inserted m i d e \<Longrightarrow> live_count e i' = live_count d i' + (if i' = i then 1 else 0)"
  by (cases m) (auto simp: live_count_unfold inserted_state_count)

lemma inserted_holders:
  assumes "inserted m i d e"
  shows "holders e k = holders d k + count (slot_token m d i) k"
proof -
  have "key_of e = key_of d" using assms by (intro key_of_jobs_cong) (simp add: inserted_def)
  with assms show ?thesis
    by (cases m) (auto simp: holders_def inserted_def slot_token_def slot_model_def token_def
        split: option.splits)
qed

lemma keys_ok_inserted:
  assumes "inserted m i d e" and "keys_ok d" and "i \<in> job_ids d"
  shows "keys_ok e"
proof -
  have "job_ids e = job_ids d" using assms(1) by (simp add: inserted_def job_ids_def)
  moreover have "next_pk d \<notin> fst ` set (state_keys m d)"
    using assms(2) by (force simp: keys_ok_def)
  ultimately show ?thesis
    using assms by (fastforce simp: keys_ok_def inserted_def)
qed

lemma partitioned_inserted:
  assumes "inserted m i d e" and "partitioned A d" and "i \<in> A"
  shows "partitioned (A - {i}) e"
  using assms inserted_live_count [OF assms(1)]
  by (auto simp: partitioned_def inserted_def split: if_splits)

text \<open>The balance only depends on the semaphore and on the number of slots in use.\<close>

lemma slot_balance_transfer:
  assumes "find_semaphore e k = find_semaphore d k"
    and "holders e k + count N k = holders d k + count M k"
  shows "slot_balance L N e k \<longleftrightarrow> slot_balance L M d k"
proof (cases "find_semaphore d k")
  case None
  have "holders e k = 0 \<and> count N k = 0 \<longleftrightarrow> holders d k = 0 \<and> count M k = 0"
    using assms(2) by linarith
  with None assms(1) show ?thesis by (simp add: slot_balance_def)
next
  case (Some s)
  have "int (holders e k) + int (count N k) = int (holders d k) + int (count M k)"
    using assms(2) by linarith
  with Some assms(1) show ?thesis by (simp add: slot_balance_def add.assoc)
qed

lemma semaphores_ok_mono:
  "semaphores e = semaphores d \<Longrightarrow> next_pk d \<le> next_pk e \<Longrightarrow> semaphores_ok d \<Longrightarrow> semaphores_ok e"
  by (auto simp: semaphores_ok_def)

lemma slots_ok_transfer:
  assumes "semaphores e = semaphores d" and "next_pk d \<le> next_pk e"
    and "\<And>k. holders e k + count N k = holders d k + count M k" and "slots_ok L M d"
  shows "slots_ok L N e"
  using assms slot_balance_transfer [of e _ d N M L] semaphores_ok_mono [OF assms(1,2)]
  by (simp add: slots_ok_def find_semaphore_def)

lemma slots_ok_inserted:
  assumes "inserted m i d e" and "slots_ok L (M + slot_token m d i) d"
  shows "slots_ok L M e"
  using assms slots_ok_transfer [of e d M "M + slot_token m d i" L] inserted_holders [OF assms(1)]
  by (simp add: inserted_def)

lemma queue_inv_inserted:
  assumes ins: "inserted m i d e" and inv: "queue_inv L A (M + slot_token m d i) d" and "i \<in> A"
    and blk: "blocked_ok d \<Longrightarrow> blocked_ok e"
  shows "queue_inv L (A - {i}) M e"
proof -
  have "i \<in> job_ids d" using assms by (auto simp: queue_inv_def)
  moreover have "job_ids e = job_ids d" "policies_ok L e = policies_ok L d"
    using ins by (simp_all add: inserted_def job_ids_def policies_ok_def)
  ultimately show ?thesis
    using assms keys_ok_inserted [OF ins] partitioned_inserted [OF ins, of A]
      slots_ok_inserted [OF ins, of L M]
    by (auto simp: queue_inv_def)
qed

lemma blocked_ok_same:
  "jobs e = jobs d \<Longrightarrow> blocked_executions e = blocked_executions d \<Longrightarrow> blocked_ok d \<Longrightarrow> blocked_ok e"
  using key_of_jobs_cong [of e d] by (simp add: blocked_ok_def)

text \<open>One rule per table, for the inserts that go through a model instance and for the raw ones.\<close>

lemma queue_inv_insert_ready:
  assumes "insert_ready r d = Inr e" and "queue_inv L A (M + token d (re_job r)) d" and "re_job r \<in> A"
  shows "queue_inv L (A - {re_job r}) M e"
proof (rule queue_inv_inserted)
  show "inserted Ready (re_job r) d e" using inserted_ready [OF assms(1)] by simp
  then show "blocked_ok e" if "blocked_ok d"
    using inserted_ready [OF assms(1)] that by (auto intro: blocked_ok_same simp: inserted_def)
qed (use assms in \<open>simp_all add: slot_token_def slot_model_def\<close>)

lemma queue_inv_insert_claimed:
  assumes "insert_claimed r d = Inr e" and "queue_inv L A (M + token d (ce_job r)) d" and "ce_job r \<in> A"
  shows "queue_inv L (A - {ce_job r}) M e"
proof (rule queue_inv_inserted)
  show "inserted Claimed (ce_job r) d e" using inserted_claimed [OF assms(1)] by simp
  then show "blocked_ok e" if "blocked_ok d"
    using inserted_claimed [OF assms(1)] that by (auto intro: blocked_ok_same simp: inserted_def)
qed (use assms in \<open>simp_all add: slot_token_def slot_model_def\<close>)

lemma queue_inv_insert_scheduled:
  assumes "insert_scheduled r d = Inr e" and "queue_inv L A M d" and "se_job r \<in> A"
  shows "queue_inv L (A - {se_job r}) M e"
proof (rule queue_inv_inserted)
  show "inserted Scheduled (se_job r) d e" using inserted_scheduled [OF assms(1)] by simp
  then show "blocked_ok e" if "blocked_ok d"
    using inserted_scheduled [OF assms(1)] that by (auto intro: blocked_ok_same simp: inserted_def)
qed (use assms in \<open>simp_all add: slot_token_def slot_model_def\<close>)

lemma queue_inv_insert_failed:
  assumes "insert_failed r d = Inr e" and "queue_inv L A M d" and "fe_job r \<in> A"
  shows "queue_inv L (A - {fe_job r}) M e"
proof (rule queue_inv_inserted)
  show "inserted Failed (fe_job r) d e" using inserted_failed [OF assms(1)] by simp
  then show "blocked_ok e" if "blocked_ok d"
    using inserted_failed [OF assms(1)] that by (auto intro: blocked_ok_same simp: inserted_def)
qed (use assms in \<open>simp_all add: slot_token_def slot_model_def\<close>)

lemma queue_inv_insert_blocked:
  assumes "insert_blocked r d = Inr e" and "queue_inv L A M d" and "be_job r \<in> A"
    and "key_of d (be_job r) = Some (be_concurrency_key r)"
  shows "queue_inv L (A - {be_job r}) M e"
proof (rule queue_inv_inserted)
  show ins: "inserted Blocked (be_job r) d e" using inserted_blocked [OF assms(1)] by simp
  have "key_of e = key_of d" using ins by (intro key_of_jobs_cong) (simp add: inserted_def)
  then show "blocked_ok e" if "blocked_ok d"
    using inserted_blocked [OF assms(1)] assms(4) that by (auto simp: blocked_ok_def)
qed (use assms in \<open>simp_all add: slot_token_def slot_model_def\<close>)

lemmas create_defs = create_ready_def create_scheduled_def create_claimed_def create_blocked_def
  create_failed_def timezone_now_def

lemma queue_inv_create_ready:
  "create_ready r d = Inr e \<Longrightarrow> queue_inv L A (M + token d (re_job r)) d \<Longrightarrow> re_job r \<in> A \<Longrightarrow>
   queue_inv L (A - {re_job r}) M e"
  by (auto simp: create_defs dest: queue_inv_insert_ready)

lemma queue_inv_create_claimed:
  "create_claimed r d = Inr e \<Longrightarrow> queue_inv L A (M + token d (ce_job r)) d \<Longrightarrow> ce_job r \<in> A \<Longrightarrow>
   queue_inv L (A - {ce_job r}) M e"
  by (auto simp: create_defs dest: queue_inv_insert_claimed)

lemma queue_inv_create_scheduled:
  "create_scheduled r d = Inr e \<Longrightarrow> queue_inv L A M d \<Longrightarrow> se_job r \<in> A \<Longrightarrow>
   queue_inv L (A - {se_job r}) M e"
  by (auto simp: create_defs dest: queue_inv_insert_scheduled)

lemma queue_inv_create_failed:
  "create_failed r d = Inr e \<Longrightarrow> queue_inv L A M d \<Longrightarrow> fe_job r \<in> A \<Longrightarrow>
   queue_inv L (A - {fe_job r}) M e"
  by (auto simp: create_defs dest: queue_inv_insert_failed)

lemma queue_inv_create_blocked:
  "create_blocked r d = Inr e \<Longrightarrow> queue_inv L A M d \<Longrightarrow> be_job r \<in> A \<Longrightarrow>
   key_of d (be_job r) = Some (be_concurrency_key r) \<Longrightarrow> queue_inv L (A - {be_job r}) M e"
  by (auto simp: create_defs dest: queue_inv_insert_blocked)

section \<open>Removing rows\<close>

definition tokens :: "db \<Rightarrow> uuid list \<Rightarrow> string multiset" where
  "tokens d is = sum_list (map (token d) is)"

definition slot_tokens :: "state_model \<Rightarrow> db \<Rightarrow> uuid list \<Rightarrow> string multiset" where
  "slot_tokens m d is = (if slot_model m then tokens d is else {#})"

lemma tokens_simps [simp]:
  "tokens d [] = {#}"
  "tokens d (i # is) = token d i + tokens d is"
  "tokens d (is @ js) = tokens d is + tokens d js"
  by (simp_all add: tokens_def)

lemma tokens_mset_cong: "mset is = mset js \<Longrightarrow> tokens d is = tokens d js"
  unfolding tokens_def by (metis mset_map sum_mset_sum_list)

lemma tokens_jobs_cong: "jobs d = jobs e \<Longrightarrow> tokens d is = tokens e is"
  by (simp add: tokens_def token_jobs_cong [of d e])

lemma count_tokens:
  "count (tokens d (map snd R)) k = count_if (\<lambda>(p, i). key_of d i = Some k) R"
  by (induction R) (auto simp: token_def split: option.splits)

lemma count_if_filter_split:
  "count_if Q xs = count_if Q (filter (\<lambda>x. \<not> P x) xs) + count_if Q (filter P xs)"
  by (induction xs) auto

lemma removed_state_count:
  "state_count m' (delete_pks m P d) i + (if m' = m
     then count_if (\<lambda>(p, j). j = i) (filter (\<lambda>(p, j). p \<in> P) (state_keys m d)) else 0)
   = state_count m' d i"
  using count_if_filter_split [of "\<lambda>(p, j). j = i" "state_keys m d" "\<lambda>(p, j). p \<in> P"]
  by (auto simp: state_count_def db_simps case_prod_unfold)

lemma removed_live_count:
  "live_count (delete_pks m P d) i
     + count_if (\<lambda>(p, j). j = i) (filter (\<lambda>(p, j). p \<in> P) (state_keys m d)) = live_count d i"
  using removed_state_count [of Ready m P d i] removed_state_count [of Scheduled m P d i]
    removed_state_count [of Claimed m P d i] removed_state_count [of Blocked m P d i]
    removed_state_count [of Failed m P d i]
  by (cases m) (simp_all add: live_count_unfold)

lemma removed_holders:
  "holders (delete_pks m P d) k
     + count (slot_tokens m d (map snd (filter (\<lambda>(p, j). p \<in> P) (state_keys m d)))) k = holders d k"
  using count_if_filter_split [of "\<lambda>(p, i). key_of d i = Some k" "state_keys m d" "\<lambda>(p, j). p \<in> P"]
  by (cases m) (simp_all add: holders_def slot_tokens_def slot_model_def count_tokens db_simps
      case_prod_unfold)

lemma row_job_live:
  assumes "queue_inv L A M d" and "(p, i) \<in> set (state_keys m d)"
  shows "i \<in> job_ids d" and "i \<notin> A" and "live_count d i = 1"
    and "j \<in> set (jobs d) \<Longrightarrow> job_id j = i \<Longrightarrow> finished_at j = None"
proof -
  show i: "i \<in> job_ids d" using assms by (force simp: queue_inv_def keys_ok_def)
  have "0 < live_count d i" using assms(2) by (intro has_state_live [of m]) (force simp: has_state_def)
  then have *: "i \<notin> A \<and> live_count d i = 1 \<and> finished_at j = None"
    if "j \<in> set (jobs d)" "job_id j = i" for j
    using assms(1) that by (fastforce simp: queue_inv_def partitioned_def split: if_splits)
  with i show "i \<notin> A" "live_count d i = 1" by (auto simp: job_ids_def)
  show "j \<in> set (jobs d) \<Longrightarrow> job_id j = i \<Longrightarrow> finished_at j = None" using * by blast
qed

lemma partitioned_removed:
  fixes m P
  assumes "queue_inv L A M d"
  defines "R \<equiv> filter (\<lambda>(p, i). p \<in> P) (state_keys m d)"
  shows "partitioned (A \<union> snd ` set R) (delete_pks m P d)"
proof -
  have "if job_id j \<in> A \<union> snd ` set R
      then live_count (delete_pks m P d) (job_id j) = 0 \<and> finished_at j = None
      else live_count (delete_pks m P d) (job_id j) = (if finished_at j = None then 1 else 0)"
    if j: "j \<in> set (jobs d)" for j
  proof (cases "job_id j \<in> snd ` set R")
    case True
    then obtain p where p: "(p, job_id j) \<in> set R" by force
    then have row: "(p, job_id j) \<in> set (state_keys m d)" by (simp add: R_def)
    have "0 < count_if (\<lambda>(p, i). i = job_id j) R" using p by (intro count_if_pos) auto
    with removed_live_count [of m P d "job_id j"] row_job_live [OF assms(1) row] j True
    show ?thesis by (simp add: R_def)
  next
    case False
    then have "count_if (\<lambda>(p, i). i = job_id j) R = 0" by (force simp: count_if_0_iff)
    with removed_live_count [of m P d "job_id j"]
    have "live_count (delete_pks m P d) (job_id j) = live_count d (job_id j)" by (simp add: R_def)
    with False j assms(1) show ?thesis by (auto simp: queue_inv_def partitioned_def)
  qed
  then show ?thesis by (auto simp: partitioned_def)
qed

lemma blocked_ok_delete_pks: "blocked_ok d \<Longrightarrow> blocked_ok (delete_pks m P d)"
  unfolding blocked_ok_def key_of_frame by (cases m) (auto simp: delete_pks_def)

lemma keys_ok_delete_pks: "keys_ok d \<Longrightarrow> keys_ok (delete_pks m P d)"
  unfolding keys_ok_def job_ids_def
  by (auto simp: db_simps distinct_map_filter)

lemma queue_inv_delete_pks:
  fixes m P
  assumes "queue_inv L A M d"
  defines "R \<equiv> filter (\<lambda>(p, i). p \<in> P) (state_keys m d)"
  shows "queue_inv L (A \<union> snd ` set R) (M + slot_tokens m d (map snd R)) (delete_pks m P d)"
proof -
  have "snd ` set R \<subseteq> job_ids d" using row_job_live(1) [OF assms(1)] by (auto simp: R_def)
  moreover have "slots_ok L (M + slot_tokens m d (map snd R)) (delete_pks m P d)"
    using assms(1) removed_holders [of m P d]
      slots_ok_transfer [of "delete_pks m P d" d "M + slot_tokens m d (map snd R)" M L]
    by (simp add: queue_inv_def R_def)
  ultimately show ?thesis
    using assms(1) partitioned_removed [OF assms(1), of P m]
    by (simp add: queue_inv_def R_def keys_ok_delete_pks blocked_ok_delete_pks policies_ok_def
        job_ids_def)
qed

text \<open>Selected rows: a sub-list of a table whose keys are distinct is, up to order, what the
  deletion by primary key removes.\<close>

lemma mset_filter_selected:
  assumes "distinct (map f table)" and "set rows \<subseteq> set table" and "distinct rows"
  shows "mset (filter (\<lambda>r. f r \<in> f ` set rows) table) = mset rows"
proof -
  have inj: "inj_on f (set table)" using assms(1) by (simp add: distinct_map)
  have "set (filter (\<lambda>r. f r \<in> f ` set rows) table) = set rows"
  proof (intro equalityI subsetI)
    fix x assume "x \<in> set (filter (\<lambda>r. f r \<in> f ` set rows) table)"
    then obtain y where "x \<in> set table" "y \<in> set rows" "f x = f y" by auto
    with inj assms(2) show "x \<in> set rows" by (metis inj_onD subsetD)
  qed (use assms(2) in auto)
  moreover have "distinct (filter (\<lambda>r. f r \<in> f ` set rows) table)"
    using assms(1) by (auto simp: distinct_map)
  ultimately show ?thesis using assms(3) by (metis set_eq_iff_mset_eq_distinct)
qed

lemma queue_inv_consumed:
  assumes inv: "queue_inv L A M d" and keys: "state_keys m d = map (\<lambda>r. (pk r, jb r)) table"
    and rows: "set rows \<subseteq> set table" "distinct (map pk rows)"
  shows "queue_inv L (A \<union> jb ` set rows) (M + slot_tokens m d (map jb rows))
           (delete_pks m (pk ` set rows) d)"
proof -
  let ?R = "filter (\<lambda>(p, i). p \<in> pk ` set rows) (state_keys m d)"
  let ?S = "filter (\<lambda>r. pk r \<in> pk ` set rows) table"
  have "distinct (map fst (state_keys m d))" using inv by (simp add: queue_inv_def keys_ok_def)
  then have "distinct (map pk table)" by (simp add: keys comp_def)
  then have ms: "mset ?S = mset rows"
    using rows by (intro mset_filter_selected) (simp_all add: distinct_map)
  have "map snd ?R = map jb ?S" by (simp add: keys filter_map comp_def)
  moreover have "mset (map jb ?S) = mset (map jb rows)" using ms by (metis mset_map)
  ultimately have "slot_tokens m d (map snd ?R) = slot_tokens m d (map jb rows)"
    and "snd ` set ?R = jb ` set rows"
    by (metis slot_tokens_def tokens_mset_cong, metis list.set_map mset_eq_setD)
  then show ?thesis using queue_inv_delete_pks [OF inv, of "pk ` set rows" m] by simp
qed

section \<open>Jobs\<close>

text \<open>Deleting jobs without execution rows.\<close>

lemma delete_jobs_state_keys:
  assumes "\<forall>i\<in>I. live_count d i = 0"
  shows "state_keys m (snd (delete_jobs I d)) = state_keys m d"
proof -
  have "i \<notin> I" if "(p, i) \<in> set (state_keys m d)" for p i
  proof -
    have "has_state m d i" using that by (force simp: has_state_def)
    then show ?thesis using assms has_state_live [of m d i] by auto
  qed
  then show ?thesis unfolding state_keys_delete_jobs by (auto simp: filter_id_conv)
qed

lemma find_job_delete_jobs:
  assumes "i \<notin> I"
  shows "find_job (snd (delete_jobs I d)) i = find_job d i"
proof -
  have "find (\<lambda>j. job_id j = i) (filter (\<lambda>j. job_id j \<notin> I) xs) = find (\<lambda>j. job_id j = i) xs"
    for xs :: "job list" using assms by (induction xs) auto
  then show ?thesis by (simp add: find_job_def)
qed

lemma key_of_delete_jobs: "i \<notin> I \<Longrightarrow> key_of (snd (delete_jobs I d)) i = key_of d i"
  by (simp add: key_of_def find_job_delete_jobs)

lemma live_rows_not_in:
  assumes "\<forall>i\<in>I. live_count d i = 0" and "(p, i) \<in> set (state_keys m d)"
  shows "i \<notin> I"
proof
  assume "i \<in> I"
  moreover have "has_state m d i" using assms(2) by (force simp: has_state_def)
  ultimately show False using assms(1) has_state_live [of m d i] by auto
qed

lemma holders_delete_jobs:
  assumes "\<forall>i\<in>I. live_count d i = 0"
  shows "holders (snd (delete_jobs I d)) k = holders d k"
  unfolding holders_def delete_jobs_state_keys [OF assms]
  by (intro arg_cong2 [where f = "(+)"] count_if_cong)
     (auto dest!: live_rows_not_in [OF assms] simp: key_of_delete_jobs)

lemma queue_inv_delete_jobs:
  assumes inv: "queue_inv L A M d" and dead: "\<forall>i\<in>I. live_count d i = 0"
  shows "queue_inv L (A - I) M (snd (delete_jobs I d))"
proof -
  let ?e = "snd (delete_jobs I d)"
  note keys = delete_jobs_state_keys [OF dead]
  have ids: "job_ids ?e = job_ids d - I" by (auto simp: job_ids_def)
  have live: "live_count ?e = live_count d"
    by (simp add: fun_eq_iff live_count_def state_count_def keys)
  have "keys_ok ?e"
    using inv live_rows_not_in [OF dead]
    by (auto simp: queue_inv_def keys_ok_def keys ids distinct_map_filter)
  moreover have "partitioned (A - I) ?e"
    using inv by (auto simp: queue_inv_def partitioned_def live split: if_splits)
  moreover have "A - I \<subseteq> job_ids ?e" using inv by (auto simp: ids queue_inv_def)
  moreover have "policies_ok L ?e" using inv by (simp add: queue_inv_def policies_ok_def)
  moreover have "blocked_ok ?e"
    using inv by (auto simp: queue_inv_def blocked_ok_def key_of_delete_jobs)
  moreover have "slots_ok L M ?e"
    using inv slots_ok_transfer [of ?e d M M L] holders_delete_jobs [OF dead]
    by (simp add: queue_inv_def)
  ultimately show ?thesis by (simp add: queue_inv_def)
qed

text \<open>Column updates that leave the identity and the concurrency policy of the job alone.\<close>

definition keeps_policy :: "(job \<Rightarrow> job) \<Rightarrow> bool" where
  "keeps_policy f \<longleftrightarrow> (\<forall>j. job_id (f j) = job_id j \<and> concurrency_key (f j) = concurrency_key j
     \<and> concurrency_limit (f j) = concurrency_limit j
     \<and> concurrency_duration (f j) = concurrency_duration j
     \<and> concurrency_on_conflict (f j) = concurrency_on_conflict j)"

lemma update_job_frame [simp]:
  "state_keys m (update_job i f d) = state_keys m d"
  "semaphores (update_job i f d) = semaphores d"
  "next_pk (update_job i f d) = next_pk d"
  "blocked_executions (update_job i f d) = blocked_executions d"
  "clock (update_job i f d) = clock d"
  by (simp_all add: update_job_def)

lemma live_count_update_job [simp]: "live_count (update_job i f d) = live_count d"
  by (simp add: fun_eq_iff live_count_def state_count_def)

lemma find_job_update_job:
  assumes "\<And>j. job_id (f j) = job_id j"
  shows "find_job (update_job i f d) i' =
    map_option (\<lambda>j. if job_id j = i then f j else j) (find_job d i')"
proof -
  have "find (\<lambda>j. job_id j = i') (map (\<lambda>j. if job_id j = i then f j else j) xs) =
      map_option (\<lambda>j. if job_id j = i then f j else j) (find (\<lambda>j. job_id j = i') xs)" for xs
    using assms by (induction xs) auto
  then show ?thesis by (simp add: find_job_def update_job_def)
qed

lemma key_of_update_job:
  assumes "keeps_policy f"
  shows "key_of (update_job i f d) = key_of d"
proof
  fix i'
  have "job_key (if job_id j = i then f j else j) = job_key j" for j
    using assms by (simp add: keeps_policy_def job_key_def)
  then show "key_of (update_job i f d) i' = key_of d i'"
    using assms by (cases "find_job d i'")
      (simp_all add: key_of_def find_job_update_job keeps_policy_def)
qed

lemma map_job_id_update_job:
  assumes "keeps_policy f"
  shows "map job_id (jobs (update_job i f d)) = map job_id (jobs d)"
  using assms by (simp add: update_job_def keeps_policy_def comp_def)

lemma job_ids_update_job:
  assumes "keeps_policy f"
  shows "job_ids (update_job i f d) = job_ids d"
  using map_job_id_update_job [OF assms, of i d] unfolding job_ids_def
  by (metis list.set_map)

lemma job_policy_ok_keeps: "keeps_policy f \<Longrightarrow> job_policy_ok L (f j) = job_policy_ok L j"
  by (simp add: keeps_policy_def job_policy_ok_def job_key_def cong: option.case_cong)

lemma queue_inv_update_job_gen:
  assumes inv: "queue_inv L A M d" and f: "keeps_policy f" and "B \<subseteq> A"
    and part: "\<And>j. j \<in> set (jobs d) \<Longrightarrow> job_id j = i \<Longrightarrow>
      (if i \<in> B then live_count d i = 0 \<and> finished_at (f j) = None
       else live_count d i = (if finished_at (f j) = None then 1 else 0))"
    and other: "A - {i} = B - {i}"
  shows "queue_inv L B M (update_job i f d)"
proof -
  let ?e = "update_job i f d"
  note k = key_of_update_job [OF f, of i d] and ids = job_ids_update_job [OF f, of i d]
  have "keys_ok ?e"
    using inv unfolding queue_inv_def keys_ok_def ids update_job_frame map_job_id_update_job [OF f]
    by blast
  moreover have "partitioned B ?e"
    unfolding partitioned_def
  proof
    fix j' assume "j' \<in> set (jobs ?e)"
    then obtain j where j: "j \<in> set (jobs d)" "j' = (if job_id j = i then f j else j)"
      by (auto simp: update_job_def)
    show "if job_id j' \<in> B then live_count ?e (job_id j') = 0 \<and> finished_at j' = None
       else live_count ?e (job_id j') = (if finished_at j' = None then 1 else 0)"
    proof (cases "job_id j = i")
      case True
      with part [OF j(1)] j f show ?thesis by (simp add: keeps_policy_def)
    next
      case False
      then have "job_id j \<in> A \<longleftrightarrow> job_id j \<in> B" using other by auto
      with False j inv show ?thesis by (auto simp: queue_inv_def partitioned_def split: if_splits)
    qed
  qed
  moreover have "policies_ok L ?e"
    using inv job_policy_ok_keeps [OF f] by (auto simp: queue_inv_def policies_ok_def update_job_def)
  moreover have "holders ?e = holders d" by (simp add: fun_eq_iff holders_def k)
  then have "slots_ok L M ?e"
    using inv slots_ok_transfer [of ?e d M M L] by (simp add: queue_inv_def)
  ultimately show ?thesis
    using inv assms(3) by (auto simp: queue_inv_def blocked_ok_def k ids)
qed

lemma queue_inv_update_job:
  assumes "queue_inv L A M d" and "keeps_policy f" and "\<And>j. finished_at (f j) = finished_at j"
  shows "queue_inv L A M (update_job i f d)"
  using assms by (intro queue_inv_update_job_gen) (auto simp: queue_inv_def partitioned_def split: if_splits)

lemma queue_inv_finish_job:
  assumes "queue_inv L A M d" and "keeps_policy f" and "\<And>j. finished_at (f j) \<noteq> None"
    and "i \<in> A"
  shows "queue_inv L (A - {i}) M (update_job i f d)"
proof (rule queue_inv_update_job_gen [OF assms(1,2)])
  show "if i \<in> A - {i} then live_count d i = 0 \<and> finished_at (f j) = None
      else live_count d i = (if finished_at (f j) = None then 1 else 0)"
    if "j \<in> set (jobs d)" "job_id j = i" for j
    using assms(1,4) assms(3) [of j] that by (auto simp: queue_inv_def partitioned_def)
qed auto

text \<open>A new job is in transit until it is dispatched.\<close>

lemma find_job_append:
  "find_job (d\<lparr>jobs := jobs d @ [j]\<rparr>) i =
     (case find_job d i of None \<Rightarrow> if job_id j = i then Some j else None | Some j' \<Rightarrow> Some j')"
proof -
  have "find P (xs @ [j]) = (case find P xs of None \<Rightarrow> if P j then Some j else None | Some y \<Rightarrow> Some y)"
    for P and xs :: "job list" by (induction xs) auto
  then show ?thesis by (simp add: find_job_def)
qed

lemma create_job_Inr:
  "create_job j d = Inr (j', e) \<longleftrightarrow>
     job_id j \<notin> job_ids d \<and> -100 \<le> job_priority j \<and> job_priority j \<le> 100
     \<and> j' = j\<lparr>job_created_at := shd (clock d), job_updated_at := shd (stl (clock d))\<rparr>
     \<and> e = d\<lparr>clock := stl (stl (clock d)), jobs := jobs d @ [j']\<rparr>"
  by (auto simp: create_job_def timezone_now_def job_ids_def Let_def)

lemma queue_inv_create_job:
  assumes "create_job j d = Inr (j', e)" and inv: "queue_inv L A M d"
    and "finished_at j = None" and "job_policy_ok L j"
  shows "queue_inv L (insert (job_id j) A) M e" and "job_id j \<notin> job_ids d"
    and "find_job e (job_id j) = Some j'" and "job_id j' = job_id j"
proof -
  note new = assms(1) [unfolded create_job_Inr]
  define c where "c = stl (stl (clock d))"
  from new have fresh: "job_id j \<notin> job_ids d" and j': "job_id j' = job_id j"
      "finished_at j' = None" "job_policy_ok L j'"
    using assms(3,4) by (simp_all add: job_policy_ok_def job_key_def cong: option.case_cong)
  from new have e: "e = (d\<lparr>clock := c\<rparr>)\<lparr>jobs := jobs d @ [j']\<rparr>" by (simp add: c_def)
  let ?d = "d\<lparr>clock := c\<rparr>"
  have e': "e = ?d\<lparr>jobs := jobs ?d @ [j']\<rparr>" using e by simp
  have keys: "state_keys m e = state_keys m d" for m by (simp add: e)
  have jobs_e: "jobs e = jobs d @ [j']" and pk_e: "next_pk e = next_pk d" by (simp_all add: e)
  have find: "find_job e i = (if i = job_id j then Some j' else find_job d i)" for i
    using fresh j'(1) find_job_None [of d i] unfolding e' find_job_append
    by (auto simp: find_job_def split: option.splits)
  have key: "key_of e i = key_of d i" if "i \<in> job_ids d" for i
    using that fresh by (auto simp: key_of_def find)
  have rows: "i \<in> job_ids d" if "(p, i) \<in> set (state_keys m d)" for p i m
    using that inv by (force simp: queue_inv_def keys_ok_def)
  have "holders e k = holders d k" for k
    unfolding holders_def keys using rows key
    by (intro arg_cong2 [where f = "(+)"] count_if_cong) auto
  moreover have "semaphores e = semaphores d" "next_pk e = next_pk d" by (simp_all add: e)
  ultimately have slots: "slots_ok L M e"
    using inv slots_ok_transfer [of e d M M L] by (simp add: queue_inv_def)
  have blk: "blocked_ok e"
  proof -
    have "be_job b \<in> job_ids d" if "b \<in> set (blocked_executions d)" for b
      using that rows [of "be_id b" "be_job b" Blocked] by (simp add: state_keys.simps)
    with inv key show ?thesis by (simp add: queue_inv_def blocked_ok_def e)
  qed
  have live: "live_count e = live_count d"
    by (simp add: fun_eq_iff live_count_def state_count_def keys)
  have "live_count d (job_id j) = 0"
  proof (rule ccontr)
    assume "live_count d (job_id j) \<noteq> 0"
    then obtain m where "state_count m d (job_id j) \<noteq> 0" by (auto simp: live_count_def)
    then obtain p where "(p, job_id j) \<in> set (state_keys m d)"
      unfolding state_count_def count_if_0_iff by auto
    then show False using fresh rows by blast
  qed
  then have part: "partitioned (insert (job_id j) A) e"
    using inv j' fresh
    by (auto simp: queue_inv_def partitioned_def live jobs_e job_ids_def rev_image_eqI)
  have ids: "job_ids e = insert (job_id j) (job_ids d)" by (simp add: job_ids_def jobs_e j'(1))
  have kok: "keys_ok e"
    using inv fresh j'(1) by (fastforce simp: queue_inv_def keys_ok_def keys ids jobs_e pk_e job_ids_def)
  show "queue_inv L (insert (job_id j) A) M e"
    using inv kok part blk slots j' by (auto simp: queue_inv_def policies_ok_def ids jobs_e)
  show "job_id j \<notin> job_ids d" "find_job e (job_id j) = Some j'" "job_id j' = job_id j"
    using fresh find j' by simp_all
qed

section \<open>Semaphores\<close>

text \<open>A write to the semaphore of one key, which takes or gives back tokens of that key.\<close>

definition only_semaphore :: "string \<Rightarrow> db \<Rightarrow> db \<Rightarrow> bool" where
  "only_semaphore k d e \<longleftrightarrow> jobs e = jobs d \<and> (\<forall>m. state_keys m e = state_keys m d)
     \<and> blocked_executions e = blocked_executions d \<and> next_pk d \<le> next_pk e
     \<and> (semaphores_ok d \<longrightarrow> semaphores_ok e)
     \<and> (\<forall>k'. k' \<noteq> k \<longrightarrow> find_semaphore e k' = find_semaphore d k')"

lemma only_semaphore_holders: "only_semaphore k d e \<Longrightarrow> holders e = holders d"
  using key_of_jobs_cong [of e d] by (simp add: only_semaphore_def holders_def fun_eq_iff)

lemma queue_inv_semaphore:
  assumes inv: "queue_inv L A M d" and only: "only_semaphore k d e"
    and "\<forall>k'. k' \<noteq> k \<longrightarrow> count N k' = count M k'" and "slot_balance L N e k"
  shows "queue_inv L A N e"
proof -
  have jobs: "jobs e = jobs d" and keys: "state_keys m e = state_keys m d" for m
    using only by (simp_all add: only_semaphore_def)
  have "slot_balance L N e k'" for k'
  proof (cases "k' = k")
    case False
    then have "slot_balance L N e k' = slot_balance L M d k'"
      using assms only_semaphore_holders [OF only]
      by (intro slot_balance_transfer) (auto simp: only_semaphore_def)
    with inv show ?thesis by (simp add: queue_inv_def slots_ok_def)
  qed (use assms(4) in simp)
  then have "slots_ok L N e" using only inv by (simp add: slots_ok_def only_semaphore_def queue_inv_def)
  moreover have "live_count e = live_count d"
    by (simp add: fun_eq_iff live_count_def state_count_def keys)
  then have "partitioned A e = partitioned A d" by (simp add: partitioned_def jobs)
  moreover have ids: "job_ids e = job_ids d" by (simp add: job_ids_def jobs)
  moreover have "key_of e = key_of d" using jobs by (rule key_of_jobs_cong)
  then have "blocked_ok e = blocked_ok d" using only by (simp add: blocked_ok_def only_semaphore_def)
  moreover have "policies_ok L e = policies_ok L d" by (simp add: policies_ok_def jobs)
  moreover have "keys_ok e" if "keys_ok d"
  proof -
    have "p < next_pk e" if "p < next_pk d" for p
      using that only by (simp add: only_semaphore_def)
    with \<open>keys_ok d\<close> show ?thesis by (fastforce simp: keys_ok_def keys jobs ids)
  qed
  ultimately show ?thesis using inv by (simp add: queue_inv_def)
qed

end
