(* ===== verification/Helpers.thy ===== *)
theory Helpers
  imports Transit
begin

text \<open>
  The shared building blocks of the operations, \<^verbatim>\<open>operations/_helpers.py\<close>: conflict checks
  over the execution tables, the rows built for a job, consuming selected rows and finishing a job;
  and the raw statements of \<^verbatim>\<open>sql/common.py\<close> they use.  The lemmas say what each does to the
  jobs in transit and to the slot tokens.
\<close>

section \<open>Conflicting execution states\<close>

definition job_ids_with_other_execution_state ::
  "uuid list \<Rightarrow> state_model list \<Rightarrow> db \<Rightarrow> uuid list" where
  "job_ids_with_other_execution_state is ignored d =
     filter (\<lambda>i. list_ex (\<lambda>m. has_state m d i) (state_models_except ignored))
       (filter (\<lambda>i. i \<in> set is) (map job_id (jobs d)))"

definition already_has_state :: "uuid \<Rightarrow> error" where
  "already_has_state i = EnqueueError (''job '' @ str_uuid i @ '' already has an execution-state row'')"

definition ensure_job_ids_have_no_other_execution_state ::
  "uuid list \<Rightarrow> state_model list \<Rightarrow> db \<Rightarrow> error + unit" where
  "ensure_job_ids_have_no_other_execution_state is ignored d =
     (case job_ids_with_other_execution_state is ignored d of
        [] \<Rightarrow> Inr () | i # _ \<Rightarrow> Inl (already_has_state i))"

definition ensure_no_other_execution_state :: "uuid \<Rightarrow> state_model list \<Rightarrow> db \<Rightarrow> error + unit" where
  "ensure_no_other_execution_state i ignored d = ensure_job_ids_have_no_other_execution_state [i] ignored d"

definition belongs_to_backend :: "uuid \<Rightarrow> string \<Rightarrow> error" where
  "belongs_to_backend i al = EnqueueError (''job '' @ str_uuid i @ '' belongs to backend '' @ py_repr al)"

text \<open>The rows come with their jobs (\<open>select_related\<close>).\<close>

fun ensure_state_rows_belong_to_backend :: "('r \<times> job) list \<Rightarrow> string \<Rightarrow> error + unit" where
  "ensure_state_rows_belong_to_backend [] al = Inr ()"
| "ensure_state_rows_belong_to_backend ((r, j) # rest) al =
     (if job_backend_alias j \<noteq> al then Inl (belongs_to_backend (job_id j) (job_backend_alias j))
      else ensure_state_rows_belong_to_backend rest al)"

section \<open>Task options and pauses\<close>

text \<open>\<open>hasattr(task, name)\<close> first, then the attribute of the function, then the default.\<close>

definition task_option :: "task \<Rightarrow> string \<Rightarrow> option_value \<Rightarrow> option_value" where
  "task_option t name dflt = (case task_attrs t name of
      Some v \<Rightarrow> v
    | None \<Rightarrow> (case func_attrs t name of Some v \<Rightarrow> v | None \<Rightarrow> dflt))"

definition lock_active_pauses :: "string \<Rightarrow> string list option \<Rightarrow> db \<Rightarrow> string set" where
  "lock_active_pauses al queue_names d =
     (let ps = filter (\<lambda>p. pause_backend_alias p = al) (pauses d) in
      case queue_names of
        None \<Rightarrow> pause_queue_name ` set ps
      | Some names \<Rightarrow>
          (let active = filter (\<lambda>n. n \<noteq> []) names in
           if active = [] then {}
           else pause_queue_name ` set (filter (\<lambda>p. pause_queue_name p \<in> set active) ps)))"

definition exclude_active_pauses :: "('r \<Rightarrow> string) \<Rightarrow> string \<Rightarrow> db \<Rightarrow> 'r list \<Rightarrow> 'r list" where
  "exclude_active_pauses queue al d rows =
     filter (\<lambda>r. queue r \<notin> pause_queue_name ` set (filter (\<lambda>p. pause_backend_alias p = al) (pauses d))) rows"

section \<open>Rows for a job\<close>

text \<open>What the row builders read of the object they are given: a \<open>Job\<close>, or the
  \<open>BlockedJobRef\<close> of \<^verbatim>\<open>concurrency.py\<close>, which has the same attributes.\<close>

record job_ref =
  ref_id :: uuid
  ref_backend_alias :: string
  ref_queue_name :: string
  ref_priority :: int
  ref_concurrency_key :: "string option"

definition ref_of_job :: "job \<Rightarrow> job_ref" where
  "ref_of_job j = \<lparr>ref_id = job_id j, ref_backend_alias = job_backend_alias j,
     ref_queue_name = job_queue_name j, ref_priority = job_priority j,
     ref_concurrency_key = concurrency_key j\<rparr>"

definition execution_backend_alias :: "uuid \<Rightarrow> string \<Rightarrow> string \<Rightarrow> error + string" where
  "execution_backend_alias i job_al al = (if job_al \<noteq> al then Inl (belongs_to_backend i job_al) else Inr job_al)"

definition execution_queue_name :: "job_ref \<Rightarrow> string option \<Rightarrow> string" where
  "execution_queue_name j qn = (case qn of None \<Rightarrow> ref_queue_name j | Some n \<Rightarrow> n)"

definition execution_priority :: "job_ref \<Rightarrow> int option \<Rightarrow> int" where
  "execution_priority j pr = (case pr of None \<Rightarrow> ref_priority j | Some n \<Rightarrow> n)"

text \<open>The primary key 0 and the creation time 0 stand for fields that the insert fills in.\<close>

definition ready_execution_fields ::
  "job_ref \<Rightarrow> string \<Rightarrow> string option \<Rightarrow> int option \<Rightarrow> time option \<Rightarrow> time option \<Rightarrow> error + ready_execution" where
  "ready_execution_fields j al qn pr ready_at created_at =
     and_then (execution_backend_alias (ref_id j) (ref_backend_alias j) al) (\<lambda>a.
       Inr \<lparr>re_id = 0, re_job = ref_id j, re_backend_alias = a,
            re_queue_name = execution_queue_name j qn, re_priority = execution_priority j pr,
            re_created_at = (case created_at of None \<Rightarrow> 0 | Some t \<Rightarrow> t),
            re_latency_started_at = ready_at\<rparr>)"

definition scheduled_execution_fields ::
  "job \<Rightarrow> string \<Rightarrow> time option \<Rightarrow> time option \<Rightarrow> error + scheduled_execution" where
  "scheduled_execution_fields j al sched created_at =
     and_then (execution_backend_alias (job_id j) (job_backend_alias j) al) (\<lambda>a.
       case (case sched of None \<Rightarrow> scheduled_at j | Some t \<Rightarrow> Some t) of
         None \<Rightarrow> Inl IntegrityError
       | Some t \<Rightarrow> Inr \<lparr>se_id = 0, se_job = job_id j, se_backend_alias = a,
            se_queue_name = job_queue_name j, se_priority = job_priority j, se_scheduled_at = t,
            se_created_at = (case created_at of None \<Rightarrow> 0 | Some t \<Rightarrow> t)\<rparr>)"

text \<open>A missing concurrency key or scheduled time is null in a non-null column: the insert fails.\<close>

definition blocked_execution_fields ::
  "job_ref \<Rightarrow> string \<Rightarrow> string option \<Rightarrow> time \<Rightarrow> string option \<Rightarrow> int option \<Rightarrow> error + blocked_execution" where
  "blocked_execution_fields j al key expires qn pr =
     and_then (execution_backend_alias (ref_id j) (ref_backend_alias j) al) (\<lambda>a.
       case (case key of None \<Rightarrow> ref_concurrency_key j | Some k \<Rightarrow> Some k) of
         None \<Rightarrow> Inl IntegrityError
       | Some k \<Rightarrow> Inr \<lparr>be_id = 0, be_job = ref_id j, be_backend_alias = a,
            be_queue_name = execution_queue_name j qn, be_priority = execution_priority j pr,
            be_concurrency_key = k, be_expires_at = expires, be_created_at = 0\<rparr>)"

text \<open>\<open>_create_ready_execution\<close>, \<open>_create_scheduled_execution\<close>, \<open>_create_blocked_execution\<close>.\<close>

definition create_ready_execution ::
  "job_ref \<Rightarrow> string \<Rightarrow> string option \<Rightarrow> int option \<Rightarrow> time option \<Rightarrow> time option \<Rightarrow> bool \<Rightarrow> db \<Rightarrow> error + db" where
  "create_ready_execution j al qn pr ready_at created_at check_conflicts d =
     and_then (if check_conflicts then ensure_no_other_execution_state (ref_id j) [] d else Inr ()) (\<lambda>_.
     and_then (ready_execution_fields j al qn pr ready_at created_at) (\<lambda>r.
       create_ready r d))"

definition create_scheduled_execution ::
  "job \<Rightarrow> string \<Rightarrow> time option \<Rightarrow> bool \<Rightarrow> db \<Rightarrow> error + db" where
  "create_scheduled_execution j al sched check_conflicts d =
     and_then (if check_conflicts then ensure_no_other_execution_state (job_id j) [] d else Inr ()) (\<lambda>_.
     and_then (scheduled_execution_fields j al sched None) (\<lambda>r.
       create_scheduled r d))"

definition create_blocked_execution ::
  "job_ref \<Rightarrow> string \<Rightarrow> string option \<Rightarrow> time \<Rightarrow> string option \<Rightarrow> int option \<Rightarrow> bool \<Rightarrow> db \<Rightarrow> error + db" where
  "create_blocked_execution j al key expires qn pr check_conflicts d =
     and_then (if check_conflicts then ensure_no_other_execution_state (ref_id j) [] d else Inr ()) (\<lambda>_.
     and_then (blocked_execution_fields j al key expires qn pr) (\<lambda>r.
       create_blocked r d))"

text \<open>\<open>_bulk_create\<close> inserts in the given order; the batch size only cuts the statement.\<close>

definition bulk_create_ready_executions :: "ready_execution list \<Rightarrow> bool \<Rightarrow> db \<Rightarrow> error + db" where
  "bulk_create_ready_executions rows check_conflicts d =
     (if rows = [] then Inr d
      else and_then (if check_conflicts
             then ensure_job_ids_have_no_other_execution_state (map re_job rows) [] d else Inr ())
        (\<lambda>_. for_each create_ready rows d))"

section \<open>Consuming rows\<close>

text \<open>\<open>_consume_selected_rows\<close>.  The MySQL family has a statement of its own for ready rows
  (\<open>sql/mysql.py: consume_ready_rows\<close>) that deletes the same rows; databases with serialized
  writes delete row by row and keep the rows that were still there.\<close>

definition consume_ready_rows :: "('r \<Rightarrow> nat) \<Rightarrow> 'r list \<Rightarrow> db \<Rightarrow> 'r list \<times> db" where
  "consume_ready_rows pk rows d = (rows, delete_pks Ready (pk ` set rows) d)"

fun consume_one_by_one :: "state_model \<Rightarrow> ('r \<Rightarrow> nat) \<Rightarrow> 'r list \<Rightarrow> db \<Rightarrow> 'r list \<times> db" where
  "consume_one_by_one m pk [] d = ([], d)"
| "consume_one_by_one m pk (r # rs) d =
     (let present = pk r \<in> fst ` set (state_keys m d);
          (consumed, e) = consume_one_by_one m pk rs (delete_pks m {pk r} d)
      in (if present then r # consumed else consumed, e))"

definition consume_selected_rows ::
  "session \<Rightarrow> state_model \<Rightarrow> ('r \<Rightarrow> nat) \<Rightarrow> 'r list \<Rightarrow> db \<Rightarrow> 'r list \<times> db" where
  "consume_selected_rows ss m pk rows d =
     (if family ss \<in> {Mysql, Mariadb} \<and> m = Ready then consume_ready_rows pk rows d
      else if \<not> cap_serialized_writes (caps ss) then (rows, delete_pks m (pk ` set rows) d)
      else consume_one_by_one m pk rows d)"

section \<open>Statements of \<open>sql/common.py\<close>\<close>

definition no_state :: "state_model list \<Rightarrow> db \<Rightarrow> uuid \<Rightarrow> bool" where
  "no_state ms d i \<longleftrightarrow> list_all (\<lambda>m. \<not> has_state m d i) ms"

text \<open>\<open>INSERT \<dots> SELECT \<dots> WHERE NOT EXISTS \<dots>\<close>: no row of the other tables may exist; the
  result is the row count.\<close>

definition create_ready_execution_after_blocked_consume ::
  "job_ref \<Rightarrow> string \<Rightarrow> string \<Rightarrow> int \<Rightarrow> time \<Rightarrow> db \<Rightarrow> error + nat \<times> db" where
  "create_ready_execution_after_blocked_consume j al qn pr ready_at d =
     (if no_state (state_models_except [Blocked]) d (ref_id j)
      then and_then (insert_ready \<lparr>re_id = 0, re_job = ref_id j, re_backend_alias = al,
             re_queue_name = qn, re_priority = pr, re_created_at = ready_at,
             re_latency_started_at = Some ready_at\<rparr> d) (\<lambda>e. Inr (1, e))
      else Inr (0, d))"

definition finished_columns :: "json \<Rightarrow> time \<Rightarrow> job \<Rightarrow> job" where
  "finished_columns v t j = j\<lparr>finished_at := Some t, return_value := v, job_updated_at := t\<rparr>"

definition finish_rows :: "job \<Rightarrow> state_model list \<Rightarrow> json \<Rightarrow> time \<Rightarrow> db \<Rightarrow> nat \<times> db" where
  "finish_rows j ms v t d =
     (case find_job d (job_id j) of
        Some row \<Rightarrow>
          (if job_backend_alias row = job_backend_alias j \<and> no_state ms d (job_id j)
           then (1, update_job (job_id j) (finished_columns v t) d) else (0, d))
      | None \<Rightarrow> (0, d))"

text \<open>\<open>_finish_job_if_no_execution_state\<close>: the statement and the check of its row count.\<close>

definition finish_job_if_no_execution_state ::
  "job \<Rightarrow> json \<Rightarrow> time \<Rightarrow> bool \<Rightarrow> db \<Rightarrow> error + db" where
  "finish_job_if_no_execution_state j v t include_claimed d =
     (let (updated, e) = finish_rows j (state_models_except (if include_claimed then [] else [Claimed])) v t d
      in if updated \<noteq> 1 then Inl (already_has_state (job_id j)) else Inr e)"

section \<open>Lemmas\<close>

subsection \<open>Jobs in transit have no state\<close>

lemma transit_facts:
  assumes "queue_inv L A M d" and "i \<in> A"
  shows "i \<in> job_ids d" and "live_count d i = 0" and "\<not> has_state m d i" and "may_insert m i d"
proof -
  show i: "i \<in> job_ids d" using assms by (auto simp: queue_inv_def)
  show live: "live_count d i = 0"
    using assms i by (force simp: queue_inv_def partitioned_def job_ids_def)
  show "\<not> has_state m d i" using live has_state_live [of m d i] by auto
  then show "may_insert m i d" using i by (simp add: may_insert_def)
qed

lemma no_other_state_in_transit:
  assumes "queue_inv L A M d" and "set is \<subseteq> A"
  shows "ensure_job_ids_have_no_other_execution_state is ms d = Inr ()"
proof -
  have "\<not> has_state m d i" if "i \<in> set is" for i m
    using transit_facts(3) [OF assms(1)] assms(2) that by blast
  then have "job_ids_with_other_execution_state is ms d = []"
    by (auto simp: job_ids_with_other_execution_state_def filter_empty_conv list_ex_iff)
  then show ?thesis by (simp add: ensure_job_ids_have_no_other_execution_state_def)
qed

lemma ensure_no_other_transit [simp]:
  "queue_inv L A M d \<Longrightarrow> i \<in> A \<Longrightarrow> ensure_no_other_execution_state i ms d = Inr ()"
  by (simp add: ensure_no_other_execution_state_def no_other_state_in_transit)

lemma no_state_transit [simp]: "queue_inv L A M d \<Longrightarrow> i \<in> A \<Longrightarrow> no_state ms d i"
  by (simp add: no_state_def list_all_iff transit_facts(3))

lemma ensure_no_other_Inr:
  assumes "ensure_no_other_execution_state i ms d = Inr u" and "i \<in> job_ids d" and "m \<notin> set ms"
  shows "\<not> has_state m d i"
proof -
  have "job_ids_with_other_execution_state [i] ms d = []"
    using assms(1) by (simp add: ensure_no_other_execution_state_def
        ensure_job_ids_have_no_other_execution_state_def split: list.splits)
  then have "\<not> list_ex (\<lambda>m. has_state m d i) (state_models_except ms)"
    using assms(2) by (auto simp: job_ids_with_other_execution_state_def filter_empty_conv job_ids_def)
  then show ?thesis using assms(3) by (auto simp: list_ex_iff state_models_except_def)
qed

lemma rows_belong_iff:
  "ensure_state_rows_belong_to_backend rows al = Inr u \<longleftrightarrow> (\<forall>(r, j)\<in>set rows. job_backend_alias j = al)"
  by (induction rows al rule: ensure_state_rows_belong_to_backend.induct) auto

subsection \<open>Creating rows\<close>

lemma queue_inv_create_ready_execution:
  assumes "create_ready_execution j al qn pr ra ca b d = Inr e"
    and "queue_inv L A (M + token d (ref_id j)) d" and "ref_id j \<in> A"
  shows "queue_inv L (A - {ref_id j}) M e"
  using assms by (auto simp: create_ready_execution_def ready_execution_fields_def
      dest!: queue_inv_create_ready [where L = L and A = A and M = M])

lemma queue_inv_create_scheduled_execution:
  assumes "create_scheduled_execution j al sa b d = Inr e"
    and "queue_inv L A M d" and "job_id j \<in> A"
  shows "queue_inv L (A - {job_id j}) M e"
  using assms by (auto simp: create_scheduled_execution_def scheduled_execution_fields_def
      dest!: queue_inv_create_scheduled [where L = L and A = A and M = M] split: option.splits)

lemma queue_inv_create_blocked_execution:
  assumes "create_blocked_execution j al key ex qn pr b d = Inr e"
    and "queue_inv L A M d" and "ref_id j \<in> A"
    and "key_of d (ref_id j) = (case key of None \<Rightarrow> ref_concurrency_key j | Some k \<Rightarrow> Some k)"
  shows "queue_inv L (A - {ref_id j}) M e"
  using assms by (auto simp: create_blocked_execution_def blocked_execution_fields_def
      dest!: queue_inv_create_blocked [where L = L and A = A and M = M] split: option.splits)

lemma create_ready_jobs: "create_ready r d = Inr e \<Longrightarrow> jobs e = jobs d"
  by (auto simp: create_ready_def insert_ready_def timezone_now_def split: if_splits)

text \<open>A loop of inserts, each of which places one job in transit and uses the tokens \<open>t\<close> of it.\<close>

lemma for_each_transit:
  assumes "for_each f xs d = Inr e" and "queue_inv L A (M + sum_list (map t xs)) d" and "jobs d = J"
    and "distinct (map g xs)" and "g ` set xs \<subseteq> A"
    and "\<And>x d e A M. x \<in> set xs \<Longrightarrow> f x d = Inr e \<Longrightarrow> jobs d = J \<Longrightarrow> queue_inv L A (M + t x) d \<Longrightarrow>
      g x \<in> A \<Longrightarrow> queue_inv L (A - {g x}) M e \<and> jobs e = J"
  shows "queue_inv L (A - g ` set xs) M e \<and> jobs e = J"
  using assms
proof (induction xs arbitrary: A d)
  case Nil
  then show ?case by simp
next
  case (Cons x xs)
  from Cons.prems(1) obtain c where c: "f x d = Inr c" and rest: "for_each f xs c = Inr e" by auto
  have "queue_inv L A (M + sum_list (map t xs) + t x) d" using Cons.prems(2) by (simp add: ac_simps)
  then have one: "queue_inv L (A - {g x}) (M + sum_list (map t xs)) c" "jobs c = J"
    using Cons.prems(6) [OF _ c Cons.prems(3)] Cons.prems(5) by simp_all
  have "queue_inv L (A - {g x} - g ` set xs) M e \<and> jobs e = J"
  proof (rule Cons.IH [OF rest one])
    show "distinct (map g xs)" using Cons.prems(4) by simp
    show "g ` set xs \<subseteq> A - {g x}" using Cons.prems(4,5) by (simp add: subset_Diff_insert)
    show "queue_inv L (B - {g y}) N e \<and> jobs e = J"
      if "y \<in> set xs" "f y d = Inr e" "jobs d = J" "queue_inv L B (N + t y) d" "g y \<in> B" for y d e B N
      using Cons.prems(6) [of y d e B N] that by simp
  qed
  moreover have "A - {g x} - g ` set xs = A - g ` set (x # xs)" by auto
  ultimately show ?case by simp
qed

lemma queue_inv_create_readies:
  assumes "for_each create_ready rows d = Inr e"
    and "queue_inv L A (M + tokens d (map re_job rows)) d"
    and "distinct (map re_job rows)" and "re_job ` set rows \<subseteq> A"
  shows "queue_inv L (A - re_job ` set rows) M e"
proof -
  have "queue_inv L (A - re_job ` set rows) M e \<and> jobs e = jobs d"
  proof (rule for_each_transit [OF assms(1) _ refl assms(3,4)])
    show "queue_inv L A (M + sum_list (map (\<lambda>r. token d (re_job r)) rows)) d"
      using assms(2) by (simp add: tokens_def comp_def)
    show "queue_inv L (B - {re_job r}) N e' \<and> jobs e' = jobs d"
      if "create_ready r d' = Inr e'" "jobs d' = jobs d" "queue_inv L B (N + token d (re_job r)) d'"
        "re_job r \<in> B" for r d' e' B N
      using that queue_inv_create_ready [OF that(1)] create_ready_jobs [OF that(1)]
        token_jobs_cong [OF that(2)] by simp
  qed
  then show ?thesis by blast
qed

lemma queue_inv_bulk_create_ready:
  assumes "bulk_create_ready_executions rows b d = Inr e"
    and "queue_inv L A (M + tokens d (map re_job rows)) d"
    and "distinct (map re_job rows)" and "re_job ` set rows \<subseteq> A"
  shows "queue_inv L (A - re_job ` set rows) M e"
  using assms queue_inv_create_readies [of rows d e L A M]
  by (auto simp: bulk_create_ready_executions_def split: if_splits)

lemma queue_inv_ready_after_blocked:
  assumes "create_ready_execution_after_blocked_consume j al qn pr t d = Inr (n, e)"
    and "queue_inv L A (M + token d (ref_id j)) d" and "ref_id j \<in> A"
  shows "n = 1" and "queue_inv L (A - {ref_id j}) M e"
  using assms
  by (auto simp: create_ready_execution_after_blocked_consume_def
      dest!: queue_inv_insert_ready [where L = L and A = A and M = M] split: if_splits)

subsection \<open>Finishing\<close>

lemma keeps_policy_finished [simp]: "keeps_policy (finished_columns v t)"
  by (simp add: keeps_policy_def finished_columns_def)

lemma queue_inv_finish_rows:
  assumes "finish_rows j ms v t d = (n, e)" and "queue_inv L A M d" and "job_id j \<in> A"
  shows "queue_inv L (if n = 1 then A - {job_id j} else A) M e"
  using assms queue_inv_finish_job [OF assms(2) keeps_policy_finished _ assms(3), of v t]
  by (auto simp: finish_rows_def finished_columns_def split: option.splits if_splits)

lemma queue_inv_finish_if_no_state:
  assumes "finish_job_if_no_execution_state j v t b d = Inr e" and "queue_inv L A M d"
    and "job_id j \<in> A"
  shows "queue_inv L (A - {job_id j}) M e"
proof -
  obtain n ms where "finish_rows j ms v t d = (n, e)" "n = 1"
    using assms(1) by (simp add: finish_job_if_no_execution_state_def split: prod.splits if_splits)
  from queue_inv_finish_rows [OF this(1) assms(2,3)] this(2) show ?thesis by simp
qed

subsection \<open>The execution tables\<close>

lemma delete_pks_delete_pks: "delete_pks m P (delete_pks m Q d) = delete_pks m (Q \<union> P) d"
  by (cases m) (simp_all add: delete_pks_def conj_commute)

lemma delete_pks_empty [simp]: "delete_pks m {} d = d"
  by (cases m) (simp_all add: delete_pks_def)

lemma consume_one_by_one_present:
  assumes "pk ` set rows \<subseteq> fst ` set (state_keys m d)" and "distinct (map pk rows)"
  shows "consume_one_by_one m pk rows d = (rows, delete_pks m (pk ` set rows) d)"
  using assms
proof (induction rows arbitrary: d)
  case Nil
  then show ?case by simp
next
  case (Cons r rows)
  have "pk ` set rows \<subseteq> fst ` set (state_keys m (delete_pks m {pk r} d))"
  proof
    fix p assume p: "p \<in> pk ` set rows"
    then have "p \<noteq> pk r" using Cons.prems(2) by (metis distinct.simps(2) list.set_map list.simps(9))
    moreover from p Cons.prems(1) obtain i where "(p, i) \<in> set (state_keys m d)" by fastforce
    ultimately show "p \<in> fst ` set (state_keys m (delete_pks m {pk r} d))"
      by (simp add: state_keys_delete_pks rev_image_eqI [of "(p, i)"])
  qed
  from Cons.IH [OF this] Cons.prems show ?case by (simp add: delete_pks_delete_pks)
qed

text \<open>What an execution table promises to the code that consumes its rows: the columns that hold
  the primary key and the job, and that deletion by primary key removes exactly those rows.\<close>

locale execution_table =
  fixes m :: state_model and table :: "db \<Rightarrow> 'r list" and pk :: "'r \<Rightarrow> nat" and jb :: "'r \<Rightarrow> uuid"
  assumes keys: "state_keys m d = map (\<lambda>r. (pk r, jb r)) (table d)"
    and deleted: "table (delete_pks m P d) = filter (\<lambda>r. pk r \<notin> P) (table d)"
begin

lemma distinct_pk: "queue_inv L A M d \<Longrightarrow> distinct (map pk (table d))"
  using keys [of d] by (auto simp: queue_inv_def keys_ok_def comp_def dest!: spec [of _ m])

text \<open>Every database family consumes rows it has selected in the same way.\<close>

lemma consume_selected:
  assumes "pr ` set rows \<subseteq> set (table d)" and "distinct (map (\<lambda>x. pk (pr x)) rows)"
  shows "consume_selected_rows ss m (\<lambda>x. pk (pr x)) rows d
    = (rows, delete_pks m (pk ` pr ` set rows) d)"
proof -
  have "(\<lambda>x. pk (pr x)) ` set rows \<subseteq> fst ` set (state_keys m d)"
    using assms(1) by (force simp: keys)
  from consume_one_by_one_present [OF this assms(2)] show ?thesis
    by (auto simp: consume_selected_rows_def consume_ready_rows_def image_image)
qed

lemma consumed:
  assumes "queue_inv L A M d" and "pr ` set rows \<subseteq> set (table d)"
    and "distinct (map (\<lambda>x. pk (pr x)) rows)"
    and "consume_selected_rows ss m (\<lambda>x. pk (pr x)) rows d = (rows', e)"
  shows "rows' = rows" and "jobs e = jobs d" and "semaphores e = semaphores d"
    and "queue_inv L (A \<union> jb ` pr ` set rows) (M + slot_tokens m d (map (\<lambda>x. jb (pr x)) rows)) e"
proof -
  have e: "e = delete_pks m (pk ` pr ` set rows) d" and rows': "rows' = rows"
    using consume_selected [OF assms(2,3), of ss] assms(4) by auto
  show "rows' = rows" "jobs e = jobs d" "semaphores e = semaphores d" using e rows' by simp_all
  show "queue_inv L (A \<union> jb ` pr ` set rows) (M + slot_tokens m d (map (\<lambda>x. jb (pr x)) rows)) e"
    using queue_inv_consumed [OF assms(1) keys, where rows = "map pr rows"] assms(2,3) e
    by (simp add: comp_def image_image)
qed

end

interpretation ready: execution_table Ready ready_executions re_id re_job
  by unfold_locales (simp_all add: state_keys.simps delete_pks_def)

interpretation scheduled: execution_table Scheduled scheduled_executions se_id se_job
  by unfold_locales (simp_all add: state_keys.simps delete_pks_def)

interpretation claimed: execution_table Claimed claimed_executions ce_id ce_job
  by unfold_locales (simp_all add: state_keys.simps delete_pks_def)

interpretation blocked: execution_table Blocked blocked_executions be_id be_job
  by unfold_locales (simp_all add: state_keys.simps delete_pks_def)

interpretation failed: execution_table Failed failed_executions fe_id fe_job
  by unfold_locales (simp_all add: state_keys.simps delete_pks_def)

section \<open>Selections\<close>

text \<open>The result of a query on an execution table that selects distinct rows with their jobs.\<close>

definition selection ::
  "('r \<Rightarrow> nat) \<Rightarrow> ('r \<Rightarrow> uuid) \<Rightarrow> 'r list \<Rightarrow> db \<Rightarrow> ('r \<times> job) list \<Rightarrow> bool" where
  "selection pk jb table d rows \<longleftrightarrow> (\<forall>(r, j)\<in>set rows. r \<in> set table \<and> find_job d (jb r) = Some j)
     \<and> distinct (map (\<lambda>x. pk (fst x)) rows)"

lemma map_fst_with_jobs_filter:
  "map fst (with_jobs d f rows) = filter (\<lambda>r. find_job d (f r) \<noteq> None) rows"
  by (induction rows) (auto simp: with_jobs_Cons split: option.splits)

lemma distinct_map_sort_key: "distinct (map f (sort_key k xs)) = distinct (map f xs)"
  by (intro mset_eq_imp_distinct_iff) simp

lemma selection_with_jobs:
  assumes "set rows \<subseteq> set table" and "distinct (map pk rows)"
  shows "selection pk jb table d (with_jobs d jb rows)"
proof -
  have "distinct (map pk (map fst (with_jobs d jb rows)))"
    using assms(2) by (simp add: map_fst_with_jobs_filter distinct_map_filter)
  then show ?thesis using assms(1) by (auto simp: selection_def set_with_jobs comp_def)
qed

lemma selection_locked: "selection pk jb table d rows \<Longrightarrow> selection pk jb table d (locked_queryset ss cfg t f rows)"
  by (auto simp: selection_def locked_queryset_def distinct_map_filter)

lemma selection_filter: "selection pk jb table d rows \<Longrightarrow> selection pk jb table d (filter P rows)"
  by (auto simp: selection_def distinct_map_filter)

lemma selection_take: "selection pk jb table d rows \<Longrightarrow> selection pk jb table d (take n rows)"
  by (auto simp: selection_def distinct_map dest: in_set_takeD intro: inj_on_subset [OF _ set_take_subset])

lemma selection_first_n: "selection pk jb table d rows \<Longrightarrow> selection pk jb table d (first_n n rows)"
  unfolding first_n_def by (rule selection_take)

lemma selection_tl: "selection pk jb table d (x # rows) \<Longrightarrow> selection pk jb table d rows"
  by (simp add: selection_def)

lemma selection_hd:
  "selection pk jb table d (x # rows) \<Longrightarrow> selection pk jb table d [x]"
  by (simp add: selection_def)

lemma selection_job: "selection pk jb table d rows \<Longrightarrow> (r, j) \<in> set rows \<Longrightarrow> job_id j = jb r \<and> j \<in> set (jobs d)"
  by (auto simp: selection_def dest: find_job_Some)

lemmas selection_intros = selection_with_jobs selection_locked selection_filter selection_take
  selection_first_n

lemma count_if_le_1_unique:
  assumes "count_if P xs \<le> 1" and "x \<in> set xs" "P x" and "y \<in> set xs" "P y"
  shows "x = y"
proof -
  have "length (filter P xs) \<le> 1" using assms(1) by (simp add: count_if_def)
  then obtain z where z: "set (filter P xs) \<subseteq> {z}" by (cases "filter P xs") auto
  have "x \<in> set (filter P xs)" "y \<in> set (filter P xs)" using assms by simp_all
  then have "x = z" "y = z" using z by blast+
  then show ?thesis by simp
qed

text \<open>Under the invariant a job has at most one row in a table.\<close>

lemma one_row_per_job:
  assumes "queue_inv L A M d" and "(p, i) \<in> set (state_keys m d)" and "(p', i) \<in> set (state_keys m d)"
  shows "p = p'"
proof -
  have "state_count m d i \<le> 1"
    using row_job_live(3) [OF assms(1,2)] state_count_le_live [of m d i] by simp
  from count_if_le_1_unique [OF this [unfolded state_count_def] assms(2) _ assms(3)]
  show ?thesis by simp
qed

context execution_table
begin

lemma selection_query:
  assumes "queue_inv L A M d"
  shows "selection pk jb (table d) d (with_jobs d jb (sort_key k (filter P (table d))))"
  using distinct_pk [OF assms]
  by (intro selection_with_jobs) (auto simp: distinct_map_sort_key distinct_map_filter)

lemma selection_distinct_jobs:
  assumes "queue_inv L A M d" and "selection pk jb (table d) d rows"
  shows "distinct (map (\<lambda>x. job_id (snd x)) rows)"
proof -
  have "distinct rows" and inj: "inj_on (\<lambda>x. pk (fst x)) (set rows)"
    using assms(2) by (simp_all add: selection_def distinct_map)
  moreover have "inj_on (\<lambda>x. job_id (snd x)) (set rows)"
  proof (rule inj_onI)
    fix x y assume xy: "x \<in> set rows" "y \<in> set rows" "job_id (snd x) = job_id (snd y)"
    have "(pk (fst z), job_id (snd z)) \<in> set (state_keys m d)" if "z \<in> set rows" for z
    proof -
      have "fst z \<in> set (table d)" using that assms(2) by (auto simp: selection_def)
      then show ?thesis using that selection_job [OF assms(2), of "fst z" "snd z"] by (simp add: keys)
    qed
    with xy one_row_per_job [OF assms(1)] have "pk (fst x) = pk (fst y)" by metis
    with inj xy show "x = y" by (auto dest: inj_onD)
  qed
  ultimately show ?thesis by (simp add: distinct_map)
qed

lemma consumed_selection:
  assumes inv: "queue_inv L A M d" and sel: "selection pk jb (table d) d rows"
    and "consume_selected_rows ss m (\<lambda>x. pk (fst x)) rows d = (rows', e)"
  shows "rows' = rows" and "jobs e = jobs d" and "semaphores e = semaphores d"
    and "queue_inv L (A \<union> (\<lambda>x. job_id (snd x)) ` set rows)
          (M + slot_tokens m d (map (\<lambda>x. job_id (snd x)) rows)) e"
    and "e = delete_pks m (pk ` fst ` set rows) d"
proof -
  have sub: "fst ` set rows \<subseteq> set (table d)" and dist: "distinct (map (\<lambda>x. pk (fst x)) rows)"
    using sel by (auto simp: selection_def)
  have jb: "jb (fst x) = job_id (snd x)" if "x \<in> set rows" for x
    using selection_job [OF sel, of "fst x" "snd x"] that by simp
  then have "map (\<lambda>x. jb (fst x)) rows = map (\<lambda>x. job_id (snd x)) rows"
    and "jb ` fst ` set rows = (\<lambda>x. job_id (snd x)) ` set rows" by (auto simp: image_image)
  with consumed [OF inv sub dist assms(3)]
  show "rows' = rows" "jobs e = jobs d" "semaphores e = semaphores d"
    "queue_inv L (A \<union> (\<lambda>x. job_id (snd x)) ` set rows)
       (M + slot_tokens m d (map (\<lambda>x. job_id (snd x)) rows)) e" by simp_all
  show "e = delete_pks m (pk ` fst ` set rows) d"
    using consume_selected [OF sub dist, of ss] assms(3) by auto
qed

lemma selected_not_in_transit:
  assumes "queue_inv L A M d" and "selection pk jb (table d) d rows" and "(r, j) \<in> set rows"
  shows "job_id j \<notin> A" and "job_id j \<in> job_ids d"
proof -
  have "(pk r, job_id j) \<in> set (state_keys m d)"
    using assms(2,3) selection_job [OF assms(2,3)] by (auto simp: keys selection_def image_iff)
  with row_job_live(1,2) [OF assms(1)] show "job_id j \<notin> A" "job_id j \<in> job_ids d" by blast+
qed

end

lemma selection_sort: "selection pk jb table d rows \<Longrightarrow> selection pk jb table d (sort_key k rows)"
  by (simp add: selection_def distinct_map_sort_key)

lemma selection_append:
  "selection pk jb table d xs \<Longrightarrow> selection pk jb table d ys \<Longrightarrow>
   (\<lambda>x. pk (fst x)) ` set xs \<inter> (\<lambda>x. pk (fst x)) ` set ys = {} \<Longrightarrow> selection pk jb table d (xs @ ys)"
  by (auto simp: selection_def)

lemma selection_frame:
  "jobs e = jobs d \<Longrightarrow> selection pk jb table e rows = selection pk jb table d rows"
  by (simp add: selection_def find_job_def)

end
