(* ===== verification/Semaphores.thy ===== *)
theory Semaphores
  imports Helpers
begin

text \<open>
  The concurrency semaphores: \<open>semaphore_acquire\<close> in its three database variants
  (\<^verbatim>\<open>sql/postgres.py\<close>, \<^verbatim>\<open>sql/mysql.py\<close> and the ORM statements for SQLite in
  \<^verbatim>\<open>operations/concurrency.py\<close>), \<open>semaphore_acquire_many\<close>, \<open>semaphore_release\<close> and
  the slot hand-over statements.  The locale \<open>semaphore_impl\<close> states what an acquire promises;
  it is interpreted for each variant, and its lemmas relate the stored value to the slots in use.
\<close>

section \<open>Statements\<close>

text \<open>An assignment reads one row and writes one column of another.  In the \<open>SET\<close> clause of an
  UPDATE all expressions read the old row; the MySQL family evaluates the assignments from left to
  right, and each reads the row as the earlier ones left it.\<close>

type_synonym assignment = "semaphore \<Rightarrow> semaphore \<Rightarrow> semaphore"

definition set_value :: "(semaphore \<Rightarrow> int) \<Rightarrow> assignment" where
  "set_value f s r = r\<lparr>sem_value := f s\<rparr>"

definition set_active_count :: "(semaphore \<Rightarrow> int) \<Rightarrow> assignment" where
  "set_active_count f s r = r\<lparr>sem_active_count := Some (f s)\<rparr>"

definition set_limit :: "(semaphore \<Rightarrow> int) \<Rightarrow> assignment" where
  "set_limit f s r = r\<lparr>sem_limit := f s\<rparr>"

definition set_expires_at :: "(semaphore \<Rightarrow> time) \<Rightarrow> assignment" where
  "set_expires_at f s r = r\<lparr>sem_expires_at := f s\<rparr>"

definition set_updated_at :: "(semaphore \<Rightarrow> time) \<Rightarrow> assignment" where
  "set_updated_at f s r = r\<lparr>sem_updated_at := f s\<rparr>"

definition sql_set :: "backend_family \<Rightarrow> assignment list \<Rightarrow> semaphore \<Rightarrow> semaphore" where
  "sql_set fam assigns s = (if fam \<in> {Mysql, Mariadb} then fold (\<lambda>a r. a r r) assigns s
     else fold (\<lambda>a r. a s r) assigns s)"

text \<open>An UPDATE with its number of matched rows.\<close>

definition update_semaphores ::
  "backend_family \<Rightarrow> (semaphore \<Rightarrow> bool) \<Rightarrow> assignment list \<Rightarrow> db \<Rightarrow> nat \<times> db" where
  "update_semaphores fam cond assigns d =
     (count_if cond (semaphores d),
      d\<lparr>semaphores := map (\<lambda>s. if cond s then sql_set fam assigns s else s) (semaphores d)\<rparr>)"

definition insert_semaphore :: "semaphore \<Rightarrow> db \<Rightarrow> db" where
  "insert_semaphore s d =
     (let (p, d) = take_pk d in d\<lparr>semaphores := semaphores d @ [s\<lparr>sem_id := p\<rparr>]\<rparr>)"

definition new_semaphore :: "string \<Rightarrow> int \<Rightarrow> int \<Rightarrow> int \<Rightarrow> time \<Rightarrow> time \<Rightarrow> time \<Rightarrow> semaphore" where
  "new_semaphore key v active limit expires created updated =
     \<lparr>sem_id = 0, sem_key = key, sem_value = v, sem_active_count = Some active, sem_limit = limit,
      sem_expires_at = expires, sem_created_at = created, sem_updated_at = updated\<rparr>"

text \<open>\<open>_reconciled_available_expression\<close> and \<open>_released_available_expression\<close>.\<close>

definition reconciled_available_expression :: "int \<Rightarrow> semaphore \<Rightarrow> int" where
  "reconciled_available_expression limit s = min limit (max 0 (sem_value s + limit - sem_limit s))"

definition released_available_expression :: "int \<Rightarrow> semaphore \<Rightarrow> int" where
  "released_available_expression limit s = min limit (max 0 (sem_value s + limit - sem_limit s + 1))"

section \<open>Acquire\<close>

text \<open>\<open>sql/postgres.py: semaphore_acquire\<close>: insert, or update on conflict under a condition, or
  reconcile the row with a changed limit.\<close>

definition postgres_semaphore_acquire ::
  "string \<Rightarrow> int \<Rightarrow> time \<Rightarrow> time \<Rightarrow> db \<Rightarrow> bool \<times> db" where
  "postgres_semaphore_acquire key limit expires_at now d =
     (case find_semaphore d key of
        None \<Rightarrow> (True, insert_semaphore (new_semaphore key (limit - 1) 1 limit expires_at now now) d)
      | Some s \<Rightarrow>
          let available = reconciled_available_expression limit in
          if sem_value s > sem_limit s - limit then
            (True, snd (update_semaphores Postgresql (\<lambda>r. sem_key r = key)
               [set_value (\<lambda>r. available r - 1), set_active_count (\<lambda>r. limit - (available r - 1)),
                set_limit (\<lambda>r. limit), set_expires_at (\<lambda>r. expires_at), set_updated_at (\<lambda>r. now)] d))
          else
            (False, snd (update_semaphores Postgresql
               (\<lambda>r. sem_key r = key \<and> (sem_value r \<noteq> available r
                  \<or> sem_active_count r \<noteq> Some (limit - available r) \<or> sem_limit r \<noteq> limit))
               [set_value available, set_active_count (\<lambda>r. limit - available r),
                set_limit (\<lambda>r. limit), set_updated_at (\<lambda>r. now)] d)))"

text \<open>\<open>sql/mysql.py: semaphore_acquire\<close>: one upsert, whose assignments are evaluated in the order
  written; \<open>LAST_INSERT_ID\<close> tells whether a slot was taken.\<close>

definition mysql_semaphore_acquire ::
  "string \<Rightarrow> int \<Rightarrow> time \<Rightarrow> time \<Rightarrow> db \<Rightarrow> bool \<times> db" where
  "mysql_semaphore_acquire key limit expires_at now d =
     (case find_semaphore d key of
        None \<Rightarrow> (True, insert_semaphore (new_semaphore key (limit - 1) 1 limit expires_at now now) d)
      | Some s \<Rightarrow>
          let available = reconciled_available_expression limit;
              should_touch = (\<lambda>r. available r > 0 \<or> sem_value r \<noteq> available r
                 \<or> sem_active_count r = None \<or> sem_active_count r \<noteq> Some (limit - available r)
                 \<or> sem_limit r \<noteq> limit)
          in (available s > 0,
              snd (update_semaphores Mysql (\<lambda>r. sem_key r = key)
                [set_expires_at (\<lambda>r. if available r > 0 then expires_at else sem_expires_at r),
                 set_updated_at (\<lambda>r. if should_touch r then now else sem_updated_at r),
                 set_active_count (\<lambda>r. limit - (if available r > 0 then available r - 1 else available r)),
                 set_value (\<lambda>r. if available r > 0 then available r - 1 else available r),
                 set_limit (\<lambda>r. limit)] d)))"

text \<open>The ORM path for SQLite: \<open>create_ignore_conflicts\<close> (whose two timestamp fields read the
  clock), then the conditional update, then the reconciliation.\<close>

definition create_semaphore_ignore_conflicts ::
  "string \<Rightarrow> int \<Rightarrow> int \<Rightarrow> int \<Rightarrow> time \<Rightarrow> db \<Rightarrow> bool \<times> db" where
  "create_semaphore_ignore_conflicts key v active limit expires_at d =
     (let (created, d) = timezone_now d; (updated, d) = timezone_now d in
      if find_semaphore d key = None
      then (True, insert_semaphore (new_semaphore key v active limit expires_at created updated) d)
      else (False, d))"

definition sqlite_semaphore_acquire ::
  "string \<Rightarrow> int \<Rightarrow> time \<Rightarrow> time \<Rightarrow> db \<Rightarrow> bool \<times> db" where
  "sqlite_semaphore_acquire key limit expires_at now d =
     (let (created, d) = create_semaphore_ignore_conflicts key (limit - 1) 1 limit expires_at d in
      if created then (True, d)
      else
        let available = reconciled_available_expression limit;
            (updated, d) = update_semaphores Sqlite
              (\<lambda>r. sem_key r = key \<and> sem_value r > sem_limit r - limit)
              [set_value (\<lambda>r. available r - 1), set_active_count (\<lambda>r. limit - available r + 1),
               set_limit (\<lambda>r. limit), set_expires_at (\<lambda>r. expires_at), set_updated_at (\<lambda>r. now)] d
        in if updated > 0 then (True, d)
           else (False, snd (update_semaphores Sqlite
              (\<lambda>r. sem_key r = key \<and> (sem_value r < available r \<or> sem_value r > available r
                 \<or> sem_active_count r = None \<or> sem_active_count r \<noteq> Some (limit - available r)
                 \<or> sem_limit r \<noteq> limit))
              [set_value available, set_active_count (\<lambda>r. limit - available r),
               set_limit (\<lambda>r. limit), set_updated_at (\<lambda>r. now)] d)))"

definition semaphore_acquire :: "session \<Rightarrow> string \<Rightarrow> int \<Rightarrow> int \<Rightarrow> db \<Rightarrow> bool \<times> db" where
  "semaphore_acquire ss key limit duration_seconds d =
     (let (now, d) = timezone_now d; expires_at = now + seconds duration_seconds in
      case family ss of
        Postgresql \<Rightarrow> postgres_semaphore_acquire key limit expires_at now d
      | Mysql \<Rightarrow> mysql_semaphore_acquire key limit expires_at now d
      | Mariadb \<Rightarrow> mysql_semaphore_acquire key limit expires_at now d
      | Sqlite \<Rightarrow> sqlite_semaphore_acquire key limit expires_at now d)"

text \<open>\<open>semaphore_acquire_many\<close>: the row is read and locked, and \<open>save(update_fields=\<dots>)\<close>
  writes the values computed in Python; the \<open>auto_now\<close> field takes a clock reading of its own.\<close>

definition save_semaphore :: "string \<Rightarrow> (semaphore \<Rightarrow> semaphore) \<Rightarrow> db \<Rightarrow> db" where
  "save_semaphore key f d =
     (let (t, d) = timezone_now d in
      d\<lparr>semaphores := map (\<lambda>s. if sem_key s = key then (f s)\<lparr>sem_updated_at := t\<rparr> else s) (semaphores d)\<rparr>)"

definition semaphore_acquire_many ::
  "string \<Rightarrow> int \<Rightarrow> int \<Rightarrow> int \<Rightarrow> db \<Rightarrow> int \<times> db" where
  "semaphore_acquire_many key cnt limit duration_seconds d =
     (if cnt \<le> 0 then (0, d)
      else
        let (now, d) = timezone_now d; expires_at = now + seconds duration_seconds;
            acquired = min cnt limit
        in case find_semaphore d key of
             None \<Rightarrow>
               (acquired, snd (create_semaphore_ignore_conflicts key (limit - acquired) acquired limit expires_at d))
           | Some s \<Rightarrow>
               let available = min limit (max 0 (sem_value s + limit - sem_limit s));
                   acquired = min cnt available;
                   v = available - acquired;
                   active_count = limit - v
               in if acquired \<noteq> 0 then
                    (acquired, save_semaphore key (\<lambda>r. r\<lparr>sem_value := v, sem_active_count := Some active_count,
                       sem_limit := limit, sem_expires_at := expires_at\<rparr>) d)
                  else if sem_value s \<noteq> v \<or> sem_active_count s \<noteq> Some active_count \<or> sem_limit s \<noteq> limit then
                    (acquired, save_semaphore key (\<lambda>r. r\<lparr>sem_value := v, sem_active_count := Some active_count,
                       sem_limit := limit\<rparr>) d)
                  else (acquired, d))"

section \<open>Release and hand-over\<close>

definition semaphore_release :: "session \<Rightarrow> string \<Rightarrow> int \<Rightarrow> int \<Rightarrow> db \<Rightarrow> bool \<times> db" where
  "semaphore_release ss key limit duration_seconds d =
     (let (now, d) = timezone_now d;
          available = released_available_expression limit;
          (updated, d) = update_semaphores (family ss) (\<lambda>r. sem_key r = key)
            [set_value available, set_active_count (\<lambda>r. limit - available r), set_limit (\<lambda>r. limit),
             set_expires_at (\<lambda>r. now + seconds duration_seconds), set_updated_at (\<lambda>r. now)] d
      in (updated > 0, d))"

definition consume_released_semaphore_slot ::
  "session \<Rightarrow> string \<Rightarrow> int \<Rightarrow> int \<Rightarrow> time \<Rightarrow> db \<Rightarrow> bool \<times> db" where
  "consume_released_semaphore_slot ss key limit duration_seconds now d =
     (let expires_at = now + seconds duration_seconds;
          (updated, d) = update_semaphores (family ss) (\<lambda>r. sem_key r = key \<and> sem_value r > 0)
            [set_value (\<lambda>r. sem_value r - 1), set_active_count (\<lambda>r. limit - sem_value r + 1),
             set_limit (\<lambda>r. limit), set_expires_at (\<lambda>r. expires_at), set_updated_at (\<lambda>r. now)] d
      in (updated > 0, d))"

definition handoff_released_claimed_slot ::
  "session \<Rightarrow> string \<Rightarrow> int \<Rightarrow> int \<Rightarrow> time \<Rightarrow> db \<Rightarrow> bool \<times> db" where
  "handoff_released_claimed_slot ss key limit duration_seconds now d =
     (let expires_at = now + seconds duration_seconds;
          available = released_available_expression limit;
          (updated, d) = update_semaphores (family ss)
            (\<lambda>r. sem_key r = key \<and> sem_value r > sem_limit r - limit - 1)
            [set_value (\<lambda>r. available r - 1), set_active_count (\<lambda>r. limit - available r + 1),
             set_limit (\<lambda>r. limit), set_expires_at (\<lambda>r. expires_at), set_updated_at (\<lambda>r. now)] d
      in (updated > 0, d))"

definition semaphore_limit :: "string \<Rightarrow> db \<Rightarrow> int option" where
  "semaphore_limit key d = map_option sem_limit (find_semaphore d key)"

section \<open>Lemmas on the statements\<close>

lemmas assign_defs = set_value_def set_active_count_def set_limit_def set_expires_at_def
  set_updated_at_def

definition key_safe :: "assignment list \<Rightarrow> bool" where
  "key_safe as \<longleftrightarrow> (\<forall>a\<in>set as. \<forall>s r. sem_key (a s r) = sem_key r \<and> sem_id (a s r) = sem_id r)"

lemma key_safe_simps [simp]:
  "key_safe []"
  "key_safe (a # as) \<longleftrightarrow> (\<forall>s r. sem_key (a s r) = sem_key r \<and> sem_id (a s r) = sem_id r) \<and> key_safe as"
  by (simp_all add: key_safe_def)

lemma set_key [simp]:
  "sem_key (set_value f s r) = sem_key r" "sem_key (set_active_count f s r) = sem_key r"
  "sem_key (set_limit f s r) = sem_key r" "sem_key (set_expires_at g s r) = sem_key r"
  "sem_key (set_updated_at g s r) = sem_key r"
  "sem_id (set_value f s r) = sem_id r" "sem_id (set_active_count f s r) = sem_id r"
  "sem_id (set_limit f s r) = sem_id r" "sem_id (set_expires_at g s r) = sem_id r"
  "sem_id (set_updated_at g s r) = sem_id r"
  by (simp_all add: assign_defs)

lemma sql_set_key [simp]:
  assumes "key_safe as"
  shows "sem_key (sql_set fam as s) = sem_key s" and "sem_id (sql_set fam as s) = sem_id s"
proof -
  have "sem_key (fold (\<lambda>a r. a (g r) r) as r) = sem_key r
      \<and> sem_id (fold (\<lambda>a r. a (g r) r) as r) = sem_id r" for g r
    using assms by (induction as arbitrary: r) (auto simp: key_safe_def)
  from this [of "\<lambda>r. r" s] this [of "\<lambda>r. s" s]
  show "sem_key (sql_set fam as s) = sem_key s" and "sem_id (sql_set fam as s) = sem_id s"
    by (simp_all add: sql_set_def)
qed

lemma find_map_semaphore:
  assumes "\<And>s. sem_key (f s) = sem_key s"
  shows "find (\<lambda>s. sem_key s = k) (map f xs) = map_option f (find (\<lambda>s. sem_key s = k) xs)"
  using assms by (induction xs) auto

lemma find_semaphore_key: "find_semaphore d k = Some s \<Longrightarrow> s \<in> set (semaphores d) \<and> sem_key s = k"
  by (auto simp: find_semaphore_def find_Some_iff)

text \<open>A row-wise change of one key's semaphore.\<close>

lemma only_semaphore_map:
  assumes "\<And>s. sem_id (f s) = sem_id s" and "\<And>s. sem_key (f s) = sem_key s"
    and "\<And>s. sem_key s \<noteq> k \<Longrightarrow> f s = s"
  shows "only_semaphore k d (d\<lparr>semaphores := map f (semaphores d)\<rparr>)"
    and "find_semaphore (d\<lparr>semaphores := map f (semaphores d)\<rparr>) k = map_option f (find_semaphore d k)"
proof -
  have find: "find_semaphore (d\<lparr>semaphores := map f (semaphores d)\<rparr>) k'
      = map_option f (find_semaphore d k')" for k'
    using assms(2) by (simp add: find_semaphore_def find_map_semaphore)
  have "map_option f (find_semaphore d k') = find_semaphore d k'" if "k' \<noteq> k" for k'
    using assms(3) find_semaphore_key [of d k'] that by (cases "find_semaphore d k'") auto
  with assms(1,2) find show "only_semaphore k d (d\<lparr>semaphores := map f (semaphores d)\<rparr>)"
    by (simp add: only_semaphore_def semaphores_ok_def comp_def)
  show "find_semaphore (d\<lparr>semaphores := map f (semaphores d)\<rparr>) k = map_option f (find_semaphore d k)"
    by (rule find)
qed

lemma count_if_key:
  assumes "distinct (map sem_key ss)"
  shows "count_if (\<lambda>s. sem_key s = k \<and> P s) ss =
    (case find (\<lambda>s. sem_key s = k) ss of None \<Rightarrow> 0 | Some s \<Rightarrow> if P s then 1 else 0)"
  using assms
proof (induction ss)
  case (Cons s ss)
  have "count_if (\<lambda>s. sem_key s = k \<and> P s) ss = 0" if "sem_key s = k"
    using Cons.prems that by (auto simp: count_if_0_iff rev_image_eqI)
  with Cons show ?case by (auto split: option.splits)
qed simp

lemma update_semaphores_effect:
  assumes "distinct (map sem_key (semaphores d))"
    and "key_safe as" and "\<forall>s. P s \<longrightarrow> sem_key s = k"
    and "update_semaphores fam P as d = (n, e)"
  shows "only_semaphore k d e"
    and "find_semaphore e k = map_option (\<lambda>s. if P s then sql_set fam as s else s) (find_semaphore d k)"
    and "n = (case find_semaphore d k of None \<Rightarrow> 0 | Some s \<Rightarrow> if P s then 1 else 0)"
proof -
  let ?f = "\<lambda>s. if P s then sql_set fam as s else s"
  have e: "e = d\<lparr>semaphores := map ?f (semaphores d)\<rparr>" and n: "n = count_if P (semaphores d)"
    using assms(4) by (simp_all add: update_semaphores_def)
  have key: "sem_key (?f s) = sem_key s" "sem_id (?f s) = sem_id s"
    and keep: "sem_key s \<noteq> k \<Longrightarrow> ?f s = s" for s
    using assms(2,3) by auto
  show "only_semaphore k d e" "find_semaphore e k = map_option ?f (find_semaphore d k)"
    using only_semaphore_map [of ?f k d] key keep unfolding e by blast+
  have "count_if P (semaphores d) = count_if (\<lambda>s. sem_key s = k \<and> P s) (semaphores d)"
    using assms(3) by (intro count_if_cong) auto
  with count_if_key [OF assms(1), of k P]
  show "n = (case find_semaphore d k of None \<Rightarrow> 0 | Some s \<Rightarrow> if P s then 1 else 0)"
    by (simp add: n find_semaphore_def)
qed

lemma update_none:
  assumes "update_semaphores fam P as d = (0, e)"
  shows "e = d"
proof -
  have "\<forall>s\<in>set (semaphores d). \<not> P s" using assms by (simp add: update_semaphores_def count_if_0_iff)
  then have "map (\<lambda>s. if P s then sql_set fam as s else s) (semaphores d) = semaphores d"
    by (intro map_idI) simp
  with assms show ?thesis by (simp add: update_semaphores_def)
qed

lemma insert_semaphore_effect:
  assumes "distinct (map sem_key (semaphores d))" and "find_semaphore d (sem_key s) = None"
  shows "only_semaphore (sem_key s) d (insert_semaphore s d)"
    and "find_semaphore (insert_semaphore s d) (sem_key s) = Some (s\<lparr>sem_id := next_pk d\<rparr>)"
proof -
  have find: "find P (xs @ [y]) = (case find P xs of None \<Rightarrow> if P y then Some y else None | Some x \<Rightarrow> Some x)"
    for P and xs :: "semaphore list" and y by (induction xs) auto
  have "find_semaphore (insert_semaphore s d) k = (if k = sem_key s then Some (s\<lparr>sem_id := next_pk d\<rparr>)
      else find_semaphore d k)" for k
    using assms(2) by (auto simp: find_semaphore_def insert_semaphore_def take_pk_def find split: option.splits)
  moreover have "sem_key s \<notin> sem_key ` set (semaphores d)"
    using assms(2) by (auto simp: find_semaphore_def find_None_iff)
  ultimately show "only_semaphore (sem_key s) d (insert_semaphore s d)"
    and "find_semaphore (insert_semaphore s d) (sem_key s) = Some (s\<lparr>sem_id := next_pk d\<rparr>)"
    by (auto simp add: only_semaphore_def insert_semaphore_def take_pk_def semaphores_ok_def)
qed

section \<open>What an acquire promises\<close>

text \<open>The outcome of an acquire with limit \<open>l\<close>, on the abstract level: a slot is granted if the
  key has no semaphore yet or if, reconciled with the limit, at least one slot is free; the row then
  accounts for one slot less.  Timestamps of creation and update are left open.\<close>

definition acquires :: "string \<Rightarrow> int \<Rightarrow> time \<Rightarrow> db \<Rightarrow> bool \<Rightarrow> db \<Rightarrow> bool" where
  "acquires k l ex d b e \<longleftrightarrow> only_semaphore k d e \<and>
     (case find_semaphore d k of
        None \<Rightarrow> b \<and> (\<exists>s'. find_semaphore e k = Some s' \<and> sem_value s' = l - 1
          \<and> sem_active_count s' = Some 1 \<and> sem_limit s' = l \<and> sem_expires_at s' = ex)
      | Some s \<Rightarrow> let a = reconciled_available_expression l s in
          (b \<longleftrightarrow> 0 < a) \<and> (\<exists>s'. find_semaphore e k = Some s' \<and> sem_value s' = (if b then a - 1 else a)
            \<and> sem_active_count s' = Some (l - sem_value s') \<and> sem_limit s' = l
            \<and> sem_expires_at s' = (if b then ex else sem_expires_at s)))"

locale semaphore_impl =
  fixes acquire :: "string \<Rightarrow> int \<Rightarrow> time \<Rightarrow> time \<Rightarrow> db \<Rightarrow> bool \<times> db"
  assumes acquire_spec: "distinct (map sem_key (semaphores d)) \<Longrightarrow> 0 < l \<Longrightarrow>
    acquire k l ex now d = (b, e) \<Longrightarrow> acquires k l ex d b e"
begin

text \<open>A granted slot is a token of the transaction; a slot is granted exactly when the key is not
  full.\<close>

lemma acquire_token:
  assumes inv: "queue_inv L A M d" and "0 < L k" and acq: "acquire k (L k) ex now d = (b, e)"
  shows "queue_inv L A (if b then M + {#k#} else M) e"
    and "b \<longleftrightarrow> int (holders d k) + int (count M k) < L k"
    and "jobs e = jobs d"
proof -
  have "distinct (map sem_key (semaphores d))"
    using inv by (simp add: queue_inv_def slots_ok_def semaphores_ok_def)
  from acquire_spec [OF this assms(2) acq] have spec: "acquires k (L k) ex d b e" .
  then have only: "only_semaphore k d e" by (simp add: acquires_def)
  have bal: "slot_balance L M d k" using inv by (simp add: queue_inv_def slots_ok_def)
  have h: "holders e = holders d" using only by (rule only_semaphore_holders)
  have "slot_balance L (if b then M + {#k#} else M) e k
      \<and> (b \<longleftrightarrow> int (holders d k) + int (count M k) < L k)"
  proof (cases "find_semaphore d k")
    case None
    with spec bal assms(2) show ?thesis by (auto simp: acquires_def slot_balance_def h)
  next
    case (Some s)
    then have "reconciled_available_expression (L k) s = sem_value s"
      using bal by (simp add: slot_balance_def reconciled_available_expression_def)
    with Some spec bal show ?thesis
      by (auto simp: acquires_def slot_balance_def Let_def h)
  qed
  then have bal': "slot_balance L (if b then M + {#k#} else M) e k"
    and "b \<longleftrightarrow> int (holders d k) + int (count M k) < L k" by blast+
  then show "b \<longleftrightarrow> int (holders d k) + int (count M k) < L k" by blast
  show "queue_inv L A (if b then M + {#k#} else M) e"
    by (rule queue_inv_semaphore [OF inv only _ bal']) simp
  show "jobs e = jobs d" using only by (simp add: only_semaphore_def)
qed

text \<open>Two consecutive acquires of the same limit: with \<open>a\<close> slots free the first takes one, and
  the second sees the rest.\<close>

lemma acquire_decrements:
  assumes "distinct (map sem_key (semaphores d))" and "0 < l" and "find_semaphore d k = Some s"
    and "acquire k l ex now d = (b, e)"
  shows "\<exists>s'. find_semaphore e k = Some s' \<and> sem_limit s' = l
    \<and> reconciled_available_expression l s' =
        (if b then reconciled_available_expression l s - 1 else 0)
    \<and> (b \<longleftrightarrow> 0 < reconciled_available_expression l s)"
proof -
  have "0 \<le> reconciled_available_expression l s" "reconciled_available_expression l s \<le> l"
    using assms(2) by (auto simp: reconciled_available_expression_def)
  with acquire_spec [OF assms(1,2,4)] assms(2,3) show ?thesis
    by (auto simp: acquires_def Let_def reconciled_available_expression_def [of l "_ :: semaphore"])
qed

end

section \<open>The variants keep the promise\<close>

lemma new_semaphore_acquires:
  assumes "distinct (map sem_key (semaphores d))" and "find_semaphore d k = None"
  shows "acquires k l ex d True (insert_semaphore (new_semaphore k (l - 1) 1 l ex c u) d)"
  using insert_semaphore_effect [of d "new_semaphore k (l - 1) 1 l ex c u"] assms
  by (simp add: acquires_def new_semaphore_def)

lemma available_pos_iff:
  "0 < l \<Longrightarrow> 0 < reconciled_available_expression l s \<longleftrightarrow> sem_limit s - l < sem_value s"
  by (auto simp: reconciled_available_expression_def)

text \<open>Rows that already agree with the limit need no write: the reconciling update leaves them
  as they are.\<close>

lemma acquires_update:
  assumes "distinct (map sem_key (semaphores d))" and "find_semaphore d k = Some s"
    and "key_safe as" and "\<forall>s. P s \<longrightarrow> sem_key s = k"
    and "s' = (if P s then sql_set fam as s else s)"
    and "b \<longleftrightarrow> 0 < reconciled_available_expression l s"
    and "sem_value s' = (if b then reconciled_available_expression l s - 1
           else reconciled_available_expression l s)"
    and "sem_active_count s' = Some (l - sem_value s')" and "sem_limit s' = l"
    and "sem_expires_at s' = (if b then ex else sem_expires_at s)"
  shows "acquires k l ex d b (snd (update_semaphores fam P as d))"
proof -
  obtain n e where "update_semaphores fam P as d = (n, e)" by force
  from update_semaphores_effect [OF assms(1,3,4) this] assms(2,5-10) this show ?thesis
    by (simp add: acquires_def Let_def)
qed

lemma postgres_acquires:
  assumes dist: "distinct (map sem_key (semaphores d))" and l: "0 < l"
    and acq: "postgres_semaphore_acquire k l ex now d = (b, e)"
  shows "acquires k l ex d b e"
proof (cases "find_semaphore d k")
  case None
  from new_semaphore_acquires [OF dist None] acq show ?thesis
    by (auto simp: postgres_semaphore_acquire_def None)
next
  case (Some s)
  note key = find_semaphore_key [OF Some]
  show ?thesis
  proof (cases "sem_limit s - l < sem_value s")
    case True
    from acq True Some show ?thesis
      unfolding postgres_semaphore_acquire_def Let_def
      by (auto simp: available_pos_iff [OF l] key assign_defs sql_set_def key_safe_def
          intro!: acquires_update [OF dist Some])
  next
    case False
    from acq False Some show ?thesis
      unfolding postgres_semaphore_acquire_def Let_def
      by (auto simp: available_pos_iff [OF l] key assign_defs sql_set_def key_safe_def
          intro!: acquires_update [OF dist Some])
  qed
qed

lemma mysql_acquires:
  assumes dist: "distinct (map sem_key (semaphores d))" and l: "0 < l"
    and acq: "mysql_semaphore_acquire k l ex now d = (b, e)"
  shows "acquires k l ex d b e"
proof (cases "find_semaphore d k")
  case None
  from new_semaphore_acquires [OF dist None] acq show ?thesis
    by (auto simp: mysql_semaphore_acquire_def None)
next
  case (Some s)
  note key = find_semaphore_key [OF Some]
  have avail: "reconciled_available_expression l (r\<lparr>sem_expires_at := t\<rparr>) = reconciled_available_expression l r"
    "reconciled_available_expression l (r\<lparr>sem_updated_at := t\<rparr>) = reconciled_available_expression l r"
    "reconciled_available_expression l (r\<lparr>sem_active_count := c\<rparr>) = reconciled_available_expression l r"
    for r t c by (simp_all add: reconciled_available_expression_def)
  from acq Some show ?thesis
    unfolding mysql_semaphore_acquire_def Let_def
    by (auto simp: key assign_defs sql_set_def key_safe_def avail
        intro!: acquires_update [OF dist Some])
qed

lemma find_semaphore_frame [simp]: "find_semaphore (d\<lparr>clock := c\<rparr>) k = find_semaphore d k"
  by (simp add: find_semaphore_def)

lemma only_semaphore_frame [simp]:
  "only_semaphore k (d\<lparr>clock := c\<rparr>) e = only_semaphore k d e"
  by (simp add: only_semaphore_def semaphores_ok_def)

lemma acquires_frame [simp]: "acquires k l ex (d\<lparr>clock := c\<rparr>) b e = acquires k l ex d b e"
  by (simp add: acquires_def)

lemma sqlite_acquires:
  assumes dist: "distinct (map sem_key (semaphores d))" and l: "0 < l"
    and acq: "sqlite_semaphore_acquire k l ex now d = (b, e)"
  shows "acquires k l ex d b e"
proof -
  define c where "c = d\<lparr>clock := stl (stl (clock d))\<rparr>"
  have c: "distinct (map sem_key (semaphores c))" "find_semaphore c k = find_semaphore d k"
    "acquires k l ex c b e = acquires k l ex d b e"
    using dist by (simp_all add: c_def)
  have made: "create_semaphore_ignore_conflicts k (l - 1) 1 l ex d =
      (if find_semaphore d k = None
       then (True, insert_semaphore (new_semaphore k (l - 1) 1 l ex (shd (clock d)) (shd (stl (clock d)))) c)
       else (False, c))"
    by (simp add: create_semaphore_ignore_conflicts_def timezone_now_def c_def)
  show ?thesis
  proof (cases "find_semaphore d k")
    case None
    from new_semaphore_acquires [OF c(1)] acq None c(2,3) show ?thesis
      by (auto simp: sqlite_semaphore_acquire_def made)
  next
    case (Some s)
    then have Some': "find_semaphore c k = Some s" using c by simp
    note key = find_semaphore_key [OF Some]
    let ?P = "\<lambda>r. sem_key r = k \<and> sem_limit r - l < sem_value r"
    let ?A = "[set_value (\<lambda>r. reconciled_available_expression l r - 1),
       set_active_count (\<lambda>r. l - reconciled_available_expression l r + 1), set_limit (\<lambda>r. l),
       set_expires_at (\<lambda>r. ex), set_updated_at (\<lambda>r. now)]"
    obtain n f where upd: "update_semaphores Sqlite ?P ?A c = (n, f)" by force
    have n: "n = (if sem_limit s - l < sem_value s then 1 else 0)"
      using update_semaphores_effect(3) [OF c(1) _ _ upd, of k] Some' key by simp
    have "acquires k l ex c b e"
    proof (cases "sem_limit s - l < sem_value s")
      case True
      then have "b" "e = snd (update_semaphores Sqlite ?P ?A c)"
        using acq made Some upd n by (simp_all add: sqlite_semaphore_acquire_def Let_def)
      then show ?thesis
        by (auto simp: available_pos_iff [OF l] True key assign_defs sql_set_def
            intro!: acquires_update [OF c(1) Some'])
    next
      case False
      then have "f = c" using upd n by (simp add: update_none)
      with False acq made Some upd n show ?thesis
        unfolding sqlite_semaphore_acquire_def Let_def
        by (auto simp: available_pos_iff [OF l] key assign_defs sql_set_def
            intro!: acquires_update [OF c(1) Some'])
    qed
    with c(3) show ?thesis by simp
  qed
qed

interpretation postgres_semaphore: semaphore_impl postgres_semaphore_acquire
  by unfold_locales (rule postgres_acquires)

interpretation mysql_semaphore: semaphore_impl mysql_semaphore_acquire
  by unfold_locales (rule mysql_acquires)

interpretation sqlite_semaphore: semaphore_impl sqlite_semaphore_acquire
  by unfold_locales (rule sqlite_acquires)

text \<open>The dispatching function inherits the promise, on every database family.\<close>

lemma semaphore_acquire_acquires:
  assumes "distinct (map sem_key (semaphores d))" and "0 < l"
    and "semaphore_acquire ss k l dur d = (b, e)"
  shows "acquires k l (shd (clock d) + seconds dur) d b e"
proof -
  let ?c = "d\<lparr>clock := stl (clock d)\<rparr>"
  have c: "distinct (map sem_key (semaphores ?c))" using assms(1) by simp
  note step = assms(3) [unfolded semaphore_acquire_def timezone_now_def Let_def prod.case]
  have "acquires k l (shd (clock d) + seconds dur) ?c b e"
    using step postgres_acquires [OF c assms(2)] mysql_acquires [OF c assms(2)]
      sqlite_acquires [OF c assms(2)]
    by (cases "family ss") simp_all
  then show ?thesis by simp
qed

lemma semaphore_acquire_token:
  assumes "queue_inv L A M d" and "0 < L k" and "semaphore_acquire ss k (L k) dur d = (b, e)"
  shows "queue_inv L A (if b then M + {#k#} else M) e"
    and "b \<longleftrightarrow> int (holders d k) + int (count M k) < L k"
    and "jobs e = jobs d"
proof -
  define c where "c = d\<lparr>clock := stl (clock d)\<rparr>"
  have inv: "queue_inv L A M c" using assms(1) by (simp add: c_def)
  have same: "holders c k = holders d k" "jobs c = jobs d"
    by (simp_all add: c_def holders_def)
  note step = assms(3) [unfolded semaphore_acquire_def timezone_now_def Let_def prod.case, folded c_def]
  note tokens = postgres_semaphore.acquire_token [OF inv assms(2)]
    mysql_semaphore.acquire_token [OF inv assms(2)] sqlite_semaphore.acquire_token [OF inv assms(2)]
  show "queue_inv L A (if b then M + {#k#} else M) e"
    using step tokens(1,4,7) by (cases "family ss") simp_all
  show "b \<longleftrightarrow> int (holders d k) + int (count M k) < L k"
    using step tokens(2,5,8) same by (cases "family ss") simp_all
  show "jobs e = jobs d" using step tokens(3,6,9) same by (cases "family ss") simp_all
qed

section \<open>Release and hand-over\<close>

text \<open>The columns that the slot accounting reads are written alike by every family.\<close>

lemma sql_set_slot_columns [simp]:
  "sem_value (sql_set fam [set_value f, set_active_count g, set_limit (\<lambda>r. l), set_expires_at x,
     set_updated_at u] s) = f s"
  "sem_limit (sql_set fam [set_value f, set_active_count g, set_limit (\<lambda>r. l), set_expires_at x,
     set_updated_at u] s) = l"
  by (simp_all add: sql_set_def assign_defs)

lemma slot_update:
  assumes inv: "queue_inv L A M d"
    and upd: "update_semaphores fam P [set_value f, set_active_count g, set_limit (\<lambda>r. L k),
       set_expires_at x, set_updated_at u] d = (n, e)"
    and P: "\<forall>s. P s \<longrightarrow> sem_key s = k"
    and other: "\<forall>k'. k' \<noteq> k \<longrightarrow> count N k' = count M k'"
    and none: "find_semaphore d k = None \<Longrightarrow> count N k = 0"
    and some: "\<And>s. find_semaphore d k = Some s \<Longrightarrow> sem_limit s = L k \<Longrightarrow> 0 \<le> sem_value s \<Longrightarrow>
       sem_value s + int (holders d k) + int (count M k) = L k \<Longrightarrow>
       (if P s then 0 \<le> f s \<and> f s + int (count N k) = sem_value s + int (count M k)
        else count N k = count M k)"
  shows "queue_inv L A N e" and "jobs e = jobs d"
proof -
  have dist: "distinct (map sem_key (semaphores d))" and bal: "slot_balance L M d k"
    using inv by (simp_all add: queue_inv_def slots_ok_def semaphores_ok_def)
  have "key_safe [set_value f, set_active_count g, set_limit (\<lambda>r. L k), set_expires_at x,
       set_updated_at u]" by simp
  note eff = update_semaphores_effect [OF dist this P upd]
  have h: "holders e = holders d" using eff(1) by (rule only_semaphore_holders)
  have "slot_balance L N e k"
  proof (cases "find_semaphore d k")
    case None
    with bal eff(2) none show ?thesis by (simp add: slot_balance_def h)
  next
    case (Some s)
    with bal some [OF Some] have "if P s then 0 \<le> f s \<and> f s + int (count N k) = sem_value s + int (count M k)
        else count N k = count M k" by (simp add: slot_balance_def)
    with Some bal eff(2) show ?thesis by (auto simp: slot_balance_def h split: if_splits)
  qed
  then show "queue_inv L A N e" by (rule queue_inv_semaphore [OF inv eff(1) other])
  show "jobs e = jobs d" using eff(1) by (simp add: only_semaphore_def)
qed

lemma slot_update_count:
  assumes "queue_inv L A M d"
    and "update_semaphores fam P [set_value f, set_active_count g, set_limit (\<lambda>r. l),
       set_expires_at x, set_updated_at u] d = (n, e)"
    and "\<forall>s. P s \<longrightarrow> sem_key s = k"
  shows "n = (case find_semaphore d k of None \<Rightarrow> 0 | Some s \<Rightarrow> if P s then 1 else 0)"
  using assms(1) update_semaphores_effect(3) [OF _ _ assms(3,2)]
  by (simp add: queue_inv_def slots_ok_def semaphores_ok_def)

lemma queue_inv_balance: "queue_inv L A M d \<Longrightarrow> slot_balance L M d k"
  by (simp add: queue_inv_def slots_ok_def)

lemma token_has_semaphore:
  assumes "queue_inv L A M d" and "k \<in># M"
  obtains s where "find_semaphore d k = Some s" "sem_limit s = L k" "0 \<le> sem_value s"
    "sem_value s + int (holders d k) + int (count M k) = L k"
proof -
  have "slot_balance L M d k" using assms(1) by (rule queue_inv_balance)
  then show ?thesis using that assms(2)
    by (cases "find_semaphore d k") (auto simp: slot_balance_def not_in_iff [symmetric])
qed

text \<open>A release gives one token back, and the semaphore is always found.\<close>

lemma semaphore_release_token:
  assumes inv: "queue_inv L A (M + {#k#}) d" and rel: "semaphore_release ss k (L k) dur d = (b, e)"
  shows "queue_inv L A M e" and "b" and "jobs e = jobs d"
proof -
  define c where "c = d\<lparr>clock := stl (clock d)\<rparr>"
  have inv: "queue_inv L A (M + {#k#}) c" and jobs: "jobs c = jobs d" using inv by (simp_all add: c_def)
  obtain s where s: "find_semaphore c k = Some s" using inv by (rule token_has_semaphore [where k = k]) auto
  obtain n where upd: "update_semaphores (family ss) (\<lambda>r. sem_key r = k)
      [set_value (released_available_expression (L k)),
       set_active_count (\<lambda>r. L k - released_available_expression (L k) r), set_limit (\<lambda>r. L k),
       set_expires_at (\<lambda>r. shd (clock d) + seconds dur), set_updated_at (\<lambda>r. shd (clock d))] c = (n, e)"
    and b: "b = (n > 0)"
    using rel by (auto simp: semaphore_release_def timezone_now_def Let_def c_def split: prod.splits)
  note step = slot_update [OF inv upd, of M]
  show "queue_inv L A M e" by (rule step(1)) (use find_semaphore_key [OF s] in \<open>auto simp: s released_available_expression_def\<close>)
  have "n = 1" using slot_update_count [OF inv upd, of k] find_semaphore_key [OF s] by (simp add: s)
  then show "b" using b by simp
  show "jobs e = jobs d" unfolding jobs [symmetric]
    by (rule step(2)) (use find_semaphore_key [OF s] in \<open>auto simp: s released_available_expression_def\<close>)
qed

text \<open>Handing a slot over keeps the token with the transaction.\<close>

lemma handoff_token:
  assumes inv: "queue_inv L A M d" and "k \<in># M"
    and ho: "handoff_released_claimed_slot ss k (L k) dur now d = (b, e)"
  shows "queue_inv L A M e" and "b" and "jobs e = jobs d"
proof -
  obtain s where s: "find_semaphore d k = Some s" "sem_limit s = L k" "0 \<le> sem_value s"
    using inv assms(2) by (rule token_has_semaphore)
  obtain n where upd: "update_semaphores (family ss)
      (\<lambda>r. sem_key r = k \<and> sem_limit r - L k - 1 < sem_value r)
      [set_value (\<lambda>r. released_available_expression (L k) r - 1),
       set_active_count (\<lambda>r. L k - released_available_expression (L k) r + 1), set_limit (\<lambda>r. L k),
       set_expires_at (\<lambda>r. now + seconds dur), set_updated_at (\<lambda>r. now)] d = (n, e)"
    and b: "b = (n > 0)"
    using ho by (auto simp: handoff_released_claimed_slot_def Let_def split: prod.splits)
  have pos: "1 \<le> int (count M k)" using assms(2) by (simp add: Suc_leI)
  note step = slot_update [OF inv upd, of M]
  have some: "released_available_expression (L k) s = sem_value s + 1"
    if "sem_value s + int (holders d k) + int (count M k) = L k"
  proof -
    have "sem_value s + 1 \<le> L k" using that pos by linarith
    then show ?thesis using s by (simp add: released_available_expression_def)
  qed
  show "queue_inv L A M e" by (rule step(1)) (use s some in auto)
  have "n = 1"
    using slot_update_count [OF inv upd, of k] find_semaphore_key [OF s(1)] s by simp
  then show "b" using b by simp
  show "jobs e = jobs d" by (rule step(2)) (use s some in auto)
qed

lemma consume_released_token:
  assumes inv: "queue_inv L A M d"
    and co: "consume_released_semaphore_slot ss k (L k) dur now d = (b, e)"
  shows "queue_inv L A (if b then M + {#k#} else M) e" and "jobs e = jobs d"
    and "b \<longleftrightarrow> (\<exists>s. find_semaphore d k = Some s \<and> 0 < sem_value s)"
proof -
  obtain n where upd: "update_semaphores (family ss) (\<lambda>r. sem_key r = k \<and> 0 < sem_value r)
      [set_value (\<lambda>r. sem_value r - 1), set_active_count (\<lambda>r. L k - sem_value r + 1),
       set_limit (\<lambda>r. L k), set_expires_at (\<lambda>r. now + seconds dur), set_updated_at (\<lambda>r. now)] d = (n, e)"
    and b: "b = (n > 0)"
    using co by (auto simp: consume_released_semaphore_slot_def Let_def split: prod.splits)
  have dist: "distinct (map sem_key (semaphores d))"
    using inv by (simp add: queue_inv_def slots_ok_def semaphores_ok_def)
  have "n = (case find_semaphore d k of None \<Rightarrow> 0 | Some s \<Rightarrow> if sem_key s = k \<and> 0 < sem_value s then 1 else 0)"
    by (rule update_semaphores_effect(3) [OF dist _ _ upd]) auto
  then show b': "b \<longleftrightarrow> (\<exists>s. find_semaphore d k = Some s \<and> 0 < sem_value s)"
    using find_semaphore_key [of d k] by (auto simp: b split: option.splits if_splits)
  have none: "count M k = 0" if "find_semaphore d k = None"
    using that queue_inv_balance [OF inv, of k] by (simp add: slot_balance_def)
  note step = slot_update [OF inv upd, of "if b then M + {#k#} else M"]
  show "queue_inv L A (if b then M + {#k#} else M) e"
    by (rule step(1)) (use b' none find_semaphore_key [of d k] in auto)
  show "jobs e = jobs d"
    by (rule step(2)) (use b' none find_semaphore_key [of d k] in auto)
qed

section \<open>Acquiring several slots\<close>

lemma save_semaphore_effect:
  assumes "\<And>s. sem_id (f s) = sem_id s" and "\<And>s. sem_key (f s) = sem_key s"
  shows "only_semaphore k d (save_semaphore k f d)"
    and "find_semaphore (save_semaphore k f d) k
      = map_option (\<lambda>s. (f s)\<lparr>sem_updated_at := shd (clock d)\<rparr>) (find_semaphore d k)"
proof -
  let ?g = "\<lambda>s. if sem_key s = k then (f s)\<lparr>sem_updated_at := shd (clock d)\<rparr> else s"
  let ?c = "d\<lparr>clock := stl (clock d)\<rparr>"
  have e: "save_semaphore k f d = ?c\<lparr>semaphores := map ?g (semaphores ?c)\<rparr>"
    by (simp add: save_semaphore_def timezone_now_def)
  have "map_option ?g (find_semaphore d k)
      = map_option (\<lambda>s. (f s)\<lparr>sem_updated_at := shd (clock d)\<rparr>) (find_semaphore d k)"
    using find_semaphore_key [of d k] by (cases "find_semaphore d k") auto
  then show "only_semaphore k d (save_semaphore k f d)"
    and "find_semaphore (save_semaphore k f d) k
      = map_option (\<lambda>s. (f s)\<lparr>sem_updated_at := shd (clock d)\<rparr>) (find_semaphore d k)"
    using only_semaphore_map [of ?g k ?c] assms unfolding e by simp_all
qed

lemma semaphore_acquire_many_token:
  assumes inv: "queue_inv L A M d" and l: "0 < L k"
    and acq: "semaphore_acquire_many k cnt (L k) dur d = (n, e)"
  shows "queue_inv L A (M + replicate_mset (nat n) k) e"
    and "n = max 0 (min cnt (L k - int (holders d k) - int (count M k)))" and "jobs e = jobs d"
proof -
  let ?free = "L k - int (holders d k) - int (count M k)"
  have dist: "distinct (map sem_key (semaphores d))" and bal: "slot_balance L M d k"
    using inv by (simp_all add: queue_inv_def slots_ok_def semaphores_ok_def)
  have "n = max 0 (min cnt ?free) \<and> (cnt \<le> 0 \<and> e = d \<or> only_semaphore k d e
      \<and> (\<exists>s. find_semaphore e k = Some s \<and> sem_limit s = L k \<and> sem_value s = ?free - n))"
  proof (cases "cnt \<le> 0")
    case True
    then show ?thesis using acq by (auto simp: semaphore_acquire_many_def)
  next
    case False
    let ?c = "d\<lparr>clock := stl (clock d)\<rparr>"
    have dist': "distinct (map sem_key (semaphores ?c))" using dist by simp
    show ?thesis
    proof (cases "find_semaphore d k")
      case None
      then have "?free = L k" using bal by (simp add: slot_balance_def)
      moreover let ?s = "new_semaphore k (L k - min cnt (L k)) (min cnt (L k)) (L k)
          (shd (clock d) + seconds dur) (shd (stl (clock d))) (shd (stl (stl (clock d))))"
      have "n = min cnt (L k)" "e = insert_semaphore ?s (?c\<lparr>clock := stl (stl (clock ?c))\<rparr>)"
        using acq False None by (auto simp: semaphore_acquire_many_def timezone_now_def
            create_semaphore_ignore_conflicts_def Let_def)
      ultimately show ?thesis
        using insert_semaphore_effect [of "?c\<lparr>clock := stl (stl (clock ?c))\<rparr>" ?s] None dist False l
        by (simp add: new_semaphore_def)
    next
      case (Some s)
      then have s: "sem_limit s = L k" "sem_value s = ?free" "0 \<le> ?free"
        using bal by (auto simp: slot_balance_def)
      have av: "min (L k) (max 0 (sem_value s + L k - sem_limit s)) = ?free"
        using s by simp
      have frame: "only_semaphore k ?c ?c" by (simp add: only_semaphore_def dist)
      from acq False Some s av show ?thesis
        using save_semaphore_effect [of _ k ?c] frame
        by (auto simp: semaphore_acquire_many_def timezone_now_def Let_def split: if_splits)
    qed
  qed
  then have n: "n = max 0 (min cnt ?free)" and e: "cnt \<le> 0 \<and> e = d \<or> only_semaphore k d e
      \<and> (\<exists>s. find_semaphore e k = Some s \<and> sem_limit s = L k \<and> sem_value s = ?free - n)"
    by blast+
  show "n = max 0 (min cnt ?free)" by (rule n)
  have free: "0 \<le> ?free" using bal l by (auto simp: slot_balance_def split: option.splits)
  from e show "queue_inv L A (M + replicate_mset (nat n) k) e"
  proof
    assume "only_semaphore k d e
      \<and> (\<exists>s. find_semaphore e k = Some s \<and> sem_limit s = L k \<and> sem_value s = ?free - n)"
    then show ?thesis
      using n free only_semaphore_holders [of k d e]
      by (intro queue_inv_semaphore [OF inv, of k]) (auto simp: slot_balance_def)
  next
    assume "cnt \<le> 0 \<and> e = d"
    moreover from this have "n = 0" using n by linarith
    ultimately show ?thesis using inv by simp
  qed
  show "jobs e = jobs d" using e by (auto simp: only_semaphore_def)
qed

end
