(* ===== verification/Concurrency.thy ===== *)
theory Concurrency
  imports Semaphores
begin

text \<open>
  Concurrency control, \<^verbatim>\<open>operations/concurrency.py\<close>: the policy of a task and of a job, handing
  a released slot to the next blocked job (also \<^verbatim>\<open>sql/postgres.py\<close>), releasing the slots of
  finished and of recovered jobs, cleaning up expired semaphores and promoting expired blocked jobs.
  The lemmas say that every one of them keeps the slot accounting of \<open>queue_inv\<close>.
\<close>

section \<open>Policies\<close>

definition positive_integer_error :: "string \<Rightarrow> error" where
  "positive_integer_error name = EnqueueError (name @ '' must be a positive integer'')"

definition positive_int_option :: "option_value \<Rightarrow> string \<Rightarrow> error + int" where
  "positive_int_option v name =
     and_then (case v of
         OInt n \<Rightarrow> Inr n
       | OStr s \<Rightarrow>
           (let normalized = strip s;
                unsigned = (if take 1 normalized = ''+'' then drop 1 normalized else normalized)
            in if \<not> isdecimal unsigned then Inl (positive_integer_error name)
               else Inr (int (nat_of_digits unsigned)))
       | _ \<Rightarrow> Inl (positive_integer_error name))
     (\<lambda>number. if number \<le> 0 then Inl (positive_integer_error name) else Inr number)"

definition str_option :: "option_value \<Rightarrow> string" where
  "str_option v = (case v of
      ONone \<Rightarrow> ''None'' | OBool b \<Rightarrow> (if b then ''True'' else ''False'') | OInt i \<Rightarrow> str_int i
    | OStr s \<Rightarrow> s | OOther t \<Rightarrow> t | OCallable f \<Rightarrow> ''<function>'')"

definition check_on_conflict :: "string \<Rightarrow> error + string" where
  "check_on_conflict c = (if c \<in> {''block'', ''discard''} then Inr c
     else Inl (EnqueueError (''on_conflict must be '' @ py_repr ''block'' @ '' or '' @ py_repr ''discard'')))"

definition is_missing :: "option_value \<Rightarrow> bool" where
  "is_missing v = (case v of ONone \<Rightarrow> True | OStr s \<Rightarrow> s = [] | _ \<Rightarrow> False)"

definition concurrency_settings :: "backend_config \<Rightarrow> task \<Rightarrow> error + int \<times> int \<times> string" where
  "concurrency_settings cfg t =
     (let limit = task_option t ''concurrency_limit'' ONone in
      if is_missing limit
      then Inl (EnqueueError ''concurrency_limit is required when concurrency_key is set'')
      else
        and_then (positive_int_option limit ''concurrency_limit'') (\<lambda>limit.
        and_then (positive_int_option
            (task_option t ''concurrency_duration'' (OInt (default_concurrency_duration cfg)))
            ''concurrency_duration'') (\<lambda>duration_seconds.
        and_then (check_on_conflict (str_option (task_option t ''on_conflict'' (OStr ''block'')))) (\<lambda>on_conflict.
          Inr (limit, duration_seconds, on_conflict)))))"

text \<open>The message of an exception, and the exception classes that a handler for
  \<open>EnqueueError\<close> also catches.\<close>

definition error_text :: "error \<Rightarrow> string" where
  "error_text e = (case e of
      EnqueueError m \<Rightarrow> m | DispatchPolicyError m \<Rightarrow> m | ImportError m \<Rightarrow> m | AttributeError m \<Rightarrow> m
    | ValueError m \<Rightarrow> m | TypeError m \<Rightarrow> m | OperationalError m \<Rightarrow> m | LookupError m \<Rightarrow> m | ImproperlyConfigured m \<Rightarrow> m | _ \<Rightarrow> [])"

definition is_enqueue_error :: "error \<Rightarrow> bool" where
  "is_enqueue_error e = (case e of EnqueueError _ \<Rightarrow> True | DispatchPolicyError _ \<Rightarrow> True | _ \<Rightarrow> False)"

definition is_unresolvable :: "error \<Rightarrow> bool" where
  "is_unresolvable e = (is_enqueue_error e
     \<or> (case e of AttributeError _ \<Rightarrow> True | ImportError _ \<Rightarrow> True | _ \<Rightarrow> False))"

definition historical_policy :: "job \<Rightarrow> bool" where
  "historical_policy j \<longleftrightarrow> concurrency_limit j = None \<and> concurrency_duration j = None
     \<and> concurrency_on_conflict j = None"

definition concurrency_settings_for_job ::
  "session \<Rightarrow> backend_config \<Rightarrow> job \<Rightarrow> task option \<Rightarrow> error + int \<times> int \<times> string" where
  "concurrency_settings_for_job ss cfg j task =
     (if historical_policy j then
        (case and_then (case task of None \<Rightarrow> import_task ss (task_path j) | Some t \<Rightarrow> Inr t)
                (concurrency_settings cfg) of
           Inr s \<Rightarrow> Inr s
         | Inl e \<Rightarrow> if is_unresolvable e
             then Inl (DispatchPolicyError (''job '' @ str_uuid (job_id j)
                         @ '' has no resolvable concurrency policy: '' @ error_text e))
             else Inl e)
      else
        (case (concurrency_limit j, concurrency_duration j, concurrency_on_conflict j) of
           (Some limit, Some duration, Some conflict) \<Rightarrow>
             (case and_then (positive_int_option (OInt limit) ''concurrency_limit'') (\<lambda>limit.
                   and_then (positive_int_option (OInt duration) ''concurrency_duration'') (\<lambda>duration.
                   and_then (check_on_conflict conflict) (\<lambda>conflict.
                     Inr (limit, duration, conflict)))) of
                Inr s \<Rightarrow> Inr s
              | Inl e \<Rightarrow> Inl (DispatchPolicyError (''job '' @ str_uuid (job_id j)
                            @ '' has invalid persisted concurrency policy: '' @ error_text e)))
         | _ \<Rightarrow> Inl (DispatchPolicyError (''job '' @ str_uuid (job_id j)
                   @ '' has incomplete persisted concurrency policy''))))"

definition release_settings ::
  "session \<Rightarrow> backend_config \<Rightarrow> job \<Rightarrow> task option \<Rightarrow> db \<Rightarrow> error + int \<times> int" where
  "release_settings ss cfg j task d =
     (case concurrency_settings_for_job ss cfg j task of
        Inr (limit, duration_seconds, _) \<Rightarrow> Inr (limit, duration_seconds)
      | Inl (DispatchPolicyError _) \<Rightarrow>
          (let key = (case concurrency_key j of None \<Rightarrow> [] | Some k \<Rightarrow> k);
               limit = (case semaphore_limit key d of None \<Rightarrow> 1 | Some l \<Rightarrow> if l = 0 then 1 else l)
           in Inr (limit, default_concurrency_duration cfg))
      | Inl e \<Rightarrow> Inl e)"

section \<open>Handing a slot to the next blocked job\<close>

datatype slot_handoff_mode = RELEASE_CLAIMED | CONSUME_RELEASED

record blocked_values =
  bv_job_id :: uuid
  bv_job_backend_alias :: string
  bv_queue_name :: string
  bv_priority :: int
  bv_concurrency_key :: string
  bv_expires_at :: time

definition blocked_execution_values :: "blocked_execution \<times> job \<Rightarrow> blocked_values" where
  "blocked_execution_values = (\<lambda>(b, j). \<lparr>bv_job_id = be_job b, bv_job_backend_alias = job_backend_alias j,
     bv_queue_name = be_queue_name b, bv_priority = be_priority b,
     bv_concurrency_key = be_concurrency_key b, bv_expires_at = be_expires_at b\<rparr>)"

text \<open>The blocked rows of a key in hand-over order, with their jobs, the rows locked elsewhere left
  out: the query that the SQL and the ORM variants share.\<close>

definition blocked_rows_in_order ::
  "session \<Rightarrow> backend_config \<Rightarrow> string \<Rightarrow> db \<Rightarrow> (blocked_execution \<times> job) list" where
  "blocked_rows_in_order ss cfg key d =
     locked_queryset ss cfg TBlocked (\<lambda>(b, j). be_id b)
       (with_jobs d be_job
         (order_by (\<lambda>b. (- be_priority b, be_id b))
           (filter (\<lambda>b. be_backend_alias b = backend_alias cfg \<and> be_concurrency_key b = key)
             (blocked_executions d))))"

text \<open>\<open>sql/postgres.py: consume_next_blocked_job_with_released_slot\<close>: one statement selects the
  row, takes the slot and deletes the row only if the slot was taken.\<close>

definition consume_next_blocked_job_with_released_slot ::
  "session \<Rightarrow> backend_config \<Rightarrow> string \<Rightarrow> int \<Rightarrow> int \<Rightarrow> time \<Rightarrow> db
     \<Rightarrow> error + (blocked_values \<times> bool) option \<times> db" where
  "consume_next_blocked_job_with_released_slot ss cfg key limit duration_seconds now d =
     (case blocked_rows_in_order ss cfg key d of
        [] \<Rightarrow> Inr (None, d)
      | (b, j) # _ \<Rightarrow>
          (let available = released_available_expression limit;
               (slot, d1) = update_semaphores Postgresql
                 (\<lambda>r. sem_key r = key \<and> sem_value r > sem_limit r - limit - 1)
                 [set_value (\<lambda>r. available r - 1), set_active_count (\<lambda>r. limit - (available r - 1)),
                  set_limit (\<lambda>r. limit), set_expires_at (\<lambda>r. now + seconds duration_seconds),
                  set_updated_at (\<lambda>r. now)] d;
               slot_acquired = slot > 0;
               deleted = slot_acquired \<and> be_id b \<in> be_id ` set (blocked_executions d);
               d2 = (if slot_acquired then delete_pks Blocked {be_id b} d1 else d1)
           in if slot_acquired \<and> \<not> deleted then Inl (EnqueueError ''could not consume selected blocked job'')
              else Inr (Some (blocked_execution_values (b, j), slot_acquired), d2)))"

text \<open>\<open>_consume_next_blocked_job\<close>: the PostgreSQL statement and the ORM statements.\<close>

definition consume_next_blocked_job ::
  "session \<Rightarrow> backend_config \<Rightarrow> string \<Rightarrow> db \<Rightarrow> error + blocked_values option \<times> db" where
  "consume_next_blocked_job ss cfg key d =
     (case blocked_rows_in_order ss cfg key d of
        [] \<Rightarrow> Inr (None, d)
      | (b, j) # _ \<Rightarrow>
          (if family ss = Postgresql
           then Inr (Some (blocked_execution_values (b, j)), delete_pks Blocked {be_id b} d)
           else and_then (ensure_state_rows_belong_to_backend [(b, j)] (backend_alias cfg)) (\<lambda>_.
             let (consumed, e) = consume_selected_rows ss Blocked (\<lambda>x. be_id (fst x)) [(b, j)] d
             in if consumed = [] then Inr (None, e)
                else Inr (Some (blocked_execution_values (b, j)), e))))"

definition blocked_job_ref :: "blocked_values \<Rightarrow> string \<Rightarrow> job_ref" where
  "blocked_job_ref v al = \<lparr>ref_id = bv_job_id v, ref_backend_alias = al, ref_queue_name = bv_queue_name v,
     ref_priority = bv_priority v, ref_concurrency_key = Some (bv_concurrency_key v)\<rparr>"

definition restore_blocked_execution :: "blocked_values \<Rightarrow> job_ref \<Rightarrow> string \<Rightarrow> db \<Rightarrow> error + db" where
  "restore_blocked_execution v r al d =
     create_blocked_execution r al (ref_concurrency_key r) (bv_expires_at v)
       (Some (ref_queue_name r)) (Some (ref_priority r)) True d"

definition consume_blocked_job_for_slot ::
  "session \<Rightarrow> backend_config \<Rightarrow> string \<Rightarrow> int \<Rightarrow> int \<Rightarrow> time \<Rightarrow> slot_handoff_mode \<Rightarrow> db
     \<Rightarrow> error + (job_ref \<times> bool) option \<times> db" where
  "consume_blocked_job_for_slot ss cfg key limit duration_seconds now mode d =
     (let postgres_released_slot = (mode = RELEASE_CLAIMED \<and> family ss = Postgresql) in
      and_then (if postgres_released_slot
          then consume_next_blocked_job_with_released_slot ss cfg key limit duration_seconds now d
          else and_then (consume_next_blocked_job ss cfg key d) (\<lambda>(v, e).
                 Inr (map_option (\<lambda>v. (v, False)) v, e))) (\<lambda>(blocked, d).
      case blocked of
        None \<Rightarrow> Inr (None, d)
      | Some (v, acquired) \<Rightarrow>
          (if bv_job_backend_alias v \<noteq> backend_alias cfg
           then Inl (belongs_to_backend (bv_job_id v) (bv_job_backend_alias v))
           else
             let (acquired, d) =
                   (if mode = RELEASE_CLAIMED \<and> \<not> postgres_released_slot
                    then handoff_released_claimed_slot ss key limit duration_seconds now d
                    else if mode = CONSUME_RELEASED
                    then consume_released_semaphore_slot ss key limit duration_seconds now d
                    else (acquired, d));
                 r = blocked_job_ref v (backend_alias cfg)
             in and_then (if \<not> acquired \<and> \<not> postgres_released_slot
                    then restore_blocked_execution v r (backend_alias cfg) d else Inr d) (\<lambda>d.
                Inr (Some (r, acquired), d)))))"

definition unblock_next_blocked_job ::
  "session \<Rightarrow> backend_config \<Rightarrow> string \<Rightarrow> int \<Rightarrow> int \<Rightarrow> slot_handoff_mode \<Rightarrow> db \<Rightarrow> error + job_ref option \<times> db" where
  "unblock_next_blocked_job ss cfg key limit duration_seconds mode d =
     (let (now, d) = timezone_now d in
      and_then (consume_blocked_job_for_slot ss cfg key limit duration_seconds now mode d) (\<lambda>(slot, d).
      case slot of
        None \<Rightarrow> Inr (None, d)
      | Some (r, acquired) \<Rightarrow>
          (if \<not> acquired then Inr (None, d)
           else and_then (create_ready_execution_after_blocked_consume r (backend_alias cfg)
                    (ref_queue_name r) (ref_priority r) now d) (\<lambda>(created, d).
             if created \<noteq> 1 then Inl (already_has_state (ref_id r))
             else Inr (Some r, notify_ready_queues_on_commit ss cfg [ref_queue_name r] d)))))"

section \<open>Releasing slots\<close>

definition release_concurrency_slot ::
  "session \<Rightarrow> backend_config \<Rightarrow> job \<Rightarrow> task option \<Rightarrow> db \<Rightarrow> error + db" where
  "release_concurrency_slot ss cfg j task d =
     (case job_key j of
        None \<Rightarrow> Inr d
      | Some key \<Rightarrow>
          and_then (release_settings ss cfg j task d) (\<lambda>(limit, duration_seconds).
          and_then (unblock_next_blocked_job ss cfg key limit duration_seconds RELEASE_CLAIMED d) (\<lambda>(r, d).
            if r \<noteq> None then Inr d
            else
              let (_, d) = semaphore_release ss key limit duration_seconds d in
              and_then (unblock_next_blocked_job ss cfg key limit duration_seconds CONSUME_RELEASED d) (\<lambda>(_, d).
                Inr d))))"

text \<open>Recovered jobs are released in groups that share a key.\<close>

fun group_jobs :: "backend_config \<Rightarrow> job list \<Rightarrow> (string \<times> job list) list \<Rightarrow> error + (string \<times> job list) list" where
  "group_jobs cfg [] grouped = Inr grouped"
| "group_jobs cfg (j # js) grouped =
     (if job_backend_alias j \<noteq> backend_alias cfg
      then Inl (belongs_to_backend (job_id j) (job_backend_alias j))
      else group_jobs cfg js (case job_key j of None \<Rightarrow> grouped | Some k \<Rightarrow> dict_append k j grouped))"

fun all_settings :: "session \<Rightarrow> backend_config \<Rightarrow> job list \<Rightarrow> db \<Rightarrow> error + (int \<times> int) list" where
  "all_settings ss cfg [] d = Inr []"
| "all_settings ss cfg (j # js) d =
     and_then (release_settings ss cfg j None d) (\<lambda>s. and_then (all_settings ss cfg js d) (\<lambda>r. Inr (s # r)))"

definition recovered_release_settings ::
  "session \<Rightarrow> backend_config \<Rightarrow> job list \<Rightarrow> db \<Rightarrow> error + (int \<times> int) option" where
  "recovered_release_settings ss cfg js d =
     and_then (all_settings ss cfg js d) (\<lambda>settings.
       case dict_fromkeys settings of [s] \<Rightarrow> Inr (Some s) | _ \<Rightarrow> Inr None)"

definition release_recovered_concurrency_group ::
  "session \<Rightarrow> backend_config \<Rightarrow> string \<Rightarrow> nat \<Rightarrow> int \<Rightarrow> int \<Rightarrow> db \<Rightarrow> error + job list \<times> db" where
  "release_recovered_concurrency_group ss cfg key release_count limit duration_seconds d =
     (let (now, d) = timezone_now d;
          expires_at = now + seconds duration_seconds;
          blocked_rows = take release_count (blocked_rows_in_order ss cfg key d)
      in and_then (ensure_state_rows_belong_to_backend blocked_rows (backend_alias cfg)) (\<lambda>_.
         case find_semaphore d key of
           None \<Rightarrow> Inr ([], d)
         | Some s \<Rightarrow>
             (let available = min limit (max 0 (sem_value s + limit - sem_limit s + int release_count));
                  promote_count = min (int release_count) (min available (int (length blocked_rows)));
                  (promoted_rows, d) = (let rows = first_n promote_count blocked_rows in
                    if rows = [] then ([], d)
                    else consume_selected_rows ss Blocked (\<lambda>x. be_id (fst x)) rows d);
                  v = available - int (length promoted_rows);
                  d = save_semaphore key (\<lambda>r. r\<lparr>sem_value := v, sem_active_count := Some (limit - v),
                        sem_limit := limit, sem_expires_at := expires_at\<rparr>) d;
                  ready_rows = map (\<lambda>(b, j). ready_execution_fields (ref_of_job j) (backend_alias cfg)
                        (Some (be_queue_name b)) (Some (be_priority b)) (Some now) None) promoted_rows
              in and_then (for_each (\<lambda>r rows. and_then r (\<lambda>row. Inr (rows @ [row]))) ready_rows []) (\<lambda>rows.
                 and_then (bulk_create_ready_executions rows True d) (\<lambda>d.
                   Inr (map snd promoted_rows,
                     if promoted_rows = [] then d
                     else notify_ready_queues_on_commit ss cfg
                       (dict_fromkeys (map (\<lambda>(b, j). job_queue_name j) promoted_rows)) d))))))"

definition release_recovered_concurrency_slots ::
  "session \<Rightarrow> backend_config \<Rightarrow> job list \<Rightarrow> db \<Rightarrow> error + job list \<times> db" where
  "release_recovered_concurrency_slots ss cfg js d =
     and_then (group_jobs cfg js []) (\<lambda>grouped.
       for_each (\<lambda>(key, group) (fallback, d).
         and_then (recovered_release_settings ss cfg group d) (\<lambda>settings.
           case settings of
             None \<Rightarrow> Inr (fallback @ group, d)
           | Some (limit, duration_seconds) \<Rightarrow>
               and_then (release_recovered_concurrency_group ss cfg key (length group) limit
                   duration_seconds d) (\<lambda>(_, d). Inr (fallback, d)))) grouped ([], d))"

section \<open>Expired semaphores\<close>

text \<open>One attempt of the transaction (the retry wrapper is in \<open>Db_Layer\<close>).  Keys used by a ready
  or claimed job are kept.\<close>

definition active_keys :: "string list \<Rightarrow> db \<Rightarrow> string set" where
  "active_keys ks d = (the \<circ> concurrency_key) ` set (filter (\<lambda>j.
     (case concurrency_key j of None \<Rightarrow> False | Some k \<Rightarrow> k \<in> set ks)
     \<and> (has_state Claimed d (job_id j) \<or> has_state Ready d (job_id j))) (jobs d))"

definition cleanup_expired_semaphores ::
  "session \<Rightarrow> backend_config \<Rightarrow> option_value \<Rightarrow> db \<Rightarrow> error + nat \<times> db" where
  "cleanup_expired_semaphores ss cfg batch_size d =
     and_then (positive_int_option batch_size ''batch_size'') (\<lambda>batch_size.
       let (now, d) = timezone_now d;
           expired = first_n batch_size
             (order_by (\<lambda>s. (sem_expires_at s, sem_key s))
               (locked_queryset ss cfg TSemaphore sem_id
                 (filter (\<lambda>s. sem_expires_at s \<le> now) (semaphores d))))
       in if expired = [] then Inr (0, d)
          else
            let active = active_keys (map sem_key expired) d;
                semaphore_ids = map sem_id (filter (\<lambda>s. sem_key s \<notin> active) expired)
            in if semaphore_ids = [] then Inr (0, d)
               else Inr (count_if (\<lambda>s. sem_id s \<in> set semaphore_ids) (semaphores d),
                 d\<lparr>semaphores := filter (\<lambda>s. sem_id s \<notin> set semaphore_ids) (semaphores d)\<rparr>))"

section \<open>Expired blocked jobs\<close>

text \<open>\<open>_blocked_concurrency_settings\<close>, with its cache of the settings of tasks whose jobs carry
  no policy of their own.\<close>

type_synonym task_cache = "string \<Rightarrow> (int \<times> int) option"

definition blocked_concurrency_settings ::
  "session \<Rightarrow> backend_config \<Rightarrow> job \<Rightarrow> task_cache \<Rightarrow> error + (int \<times> int) \<times> task_cache" where
  "blocked_concurrency_settings ss cfg j cache =
     (case (if historical_policy j then cache (task_path j) else None) of
        Some s \<Rightarrow> Inr (s, cache)
      | None \<Rightarrow>
          and_then (concurrency_settings_for_job ss cfg j None) (\<lambda>(limit, duration_seconds, _).
            Inr ((limit, duration_seconds),
                 if historical_policy j then cache(task_path j \<mapsto> (limit, duration_seconds)) else cache)))"

definition fail_blocked_policy ::
  "session \<Rightarrow> blocked_execution \<times> job \<Rightarrow> error \<Rightarrow> bool \<Rightarrow> db \<Rightarrow> error + bool \<times> db" where
  "fail_blocked_policy ss bj err consumed d =
     (let (rows, e) = (if consumed then ([bj], d)
             else consume_selected_rows ss Blocked (\<lambda>x. be_id (fst x)) [bj] d)
      in if rows = [] then Inr (False, e)
         else and_then (ensure_no_other_execution_state (job_id (snd bj)) [Blocked] e) (\<lambda>_.
              and_then (create_failed \<lparr>fe_id = 0, fe_job = be_job (fst bj),
                  fe_exception_class = ''dj_queue.exceptions.DispatchPolicyError'',
                  fe_message = error_text err, fe_traceback = [], fe_retry_at = None,
                  fe_created_at = 0\<rparr> e) (\<lambda>e. Inr (True, e))))"

definition promote_blocked_execution ::
  "blocked_execution \<times> job \<Rightarrow> time \<Rightarrow> bool \<Rightarrow> db \<Rightarrow> error + db" where
  "promote_blocked_execution bj ready_at consumed d =
     (let (b, j) = bj; d = (if consumed then d else delete_pks Blocked {be_id b} d)
      in create_ready_execution (ref_of_job j) (be_backend_alias b) (Some (be_queue_name b))
           (Some (be_priority b)) (Some ready_at) None True d)"

definition renew_blocked_execution ::
  "blocked_execution \<times> job \<Rightarrow> time \<Rightarrow> bool \<Rightarrow> db \<Rightarrow> error + db" where
  "renew_blocked_execution bj expires_at consumed d =
     (let (b, j) = bj in
      if consumed
      then create_blocked_execution (ref_of_job j) (be_backend_alias b) (Some (be_concurrency_key b))
             expires_at (Some (be_queue_name b)) (Some (be_priority b)) True d
      else Inr (d\<lparr>blocked_executions :=
             map (\<lambda>r. if be_id r = be_id b then r\<lparr>be_expires_at := expires_at\<rparr> else r) (blocked_executions d)\<rparr>))"

record promotion =
  promoted :: "job list"
  policy_failures :: "(job \<times> error) list"
  settings_cache :: task_cache
  pdb :: db

definition promote_blocked_row ::
  "session \<Rightarrow> backend_config \<Rightarrow> time \<Rightarrow> bool \<Rightarrow> blocked_execution \<times> job \<Rightarrow> promotion \<Rightarrow> error + promotion" where
  "promote_blocked_row ss cfg now consumed bj p =
     (case blocked_concurrency_settings ss cfg (snd bj) (settings_cache p) of
        Inl (DispatchPolicyError m) \<Rightarrow>
          and_then (fail_blocked_policy ss bj (DispatchPolicyError m) consumed (pdb p)) (\<lambda>(failed, d).
            Inr (p\<lparr>pdb := d, policy_failures :=
              (if failed then policy_failures p @ [(snd bj, DispatchPolicyError m)] else policy_failures p)\<rparr>))
      | Inl e \<Rightarrow> Inl e
      | Inr ((limit, duration_seconds), cache) \<Rightarrow>
          (let (acquired, d) = semaphore_acquire ss (be_concurrency_key (fst bj)) limit duration_seconds (pdb p)
           in if \<not> acquired
              then and_then (renew_blocked_execution bj (now + seconds duration_seconds) consumed d) (\<lambda>d.
                Inr (p\<lparr>pdb := d, settings_cache := cache\<rparr>))
              else and_then (promote_blocked_execution bj now consumed d) (\<lambda>d.
                Inr (p\<lparr>pdb := d, settings_cache := cache, promoted := promoted p @ [snd bj]\<rparr>))))"

definition promote_expired_blocked_jobs ::
  "session \<Rightarrow> backend_config \<Rightarrow> int \<Rightarrow> db \<Rightarrow> error + job list \<times> db" where
  "promote_expired_blocked_jobs ss cfg batch_size d =
     (let (now, d) = timezone_now d;
          consume_first = cap_serialized_writes (caps ss);
          blocked_rows = first_n batch_size (locked_queryset ss cfg TBlocked (\<lambda>(b, j). be_id b)
            (with_jobs d be_job
              (order_by (\<lambda>b. (be_expires_at b, - be_priority b, be_id b))
                (filter (\<lambda>b. be_backend_alias b = backend_alias cfg \<and> be_expires_at b \<le> now)
                  (blocked_executions d)))))
      in if blocked_rows = [] then Inr ([], d)
         else and_then (ensure_state_rows_belong_to_backend blocked_rows (backend_alias cfg)) (\<lambda>_.
           let (blocked_rows, d) = (if consume_first
                 then consume_selected_rows ss Blocked (\<lambda>x. be_id (fst x)) blocked_rows d
                 else (blocked_rows, d))
           in and_then (for_each (promote_blocked_row ss cfg now consume_first) blocked_rows
                 \<lparr>promoted = [], policy_failures = [], settings_cache = Map.empty, pdb = d\<rparr>) (\<lambda>p.
              Inr (promoted p,
                fold (\<lambda>j d. notify_ready_queues_on_commit ss cfg [job_queue_name j] d) (promoted p) (pdb p)))))"

section \<open>Lemmas on policies\<close>

lemma positive_int_option_pos: "positive_int_option v name = Inr n \<Longrightarrow> 0 < n"
  by (auto simp: positive_int_option_def split: if_splits)

lemma positive_int_option_OInt [simp]:
  "positive_int_option (OInt n) name = (if n \<le> 0 then Inl (positive_integer_error name) else Inr n)"
  by (simp add: positive_int_option_def)

text \<open>With a persisted policy the limit is the one of the key, also when the policy is incomplete or
  invalid and the semaphore's own limit is used instead.\<close>

lemma settings_limit:
  assumes "job_policy_ok L j" and "job_key j = Some k"
    and "concurrency_settings_for_job ss cfg j task = Inr (l, dur, c)"
  shows "l = L k"
proof -
  have "\<not> historical_policy j" using assms(1,2) by (auto simp: job_policy_ok_def historical_policy_def)
  with assms show ?thesis
    by (auto simp: concurrency_settings_for_job_def job_policy_ok_def
        split: option.splits sum.splits if_splits)
qed

lemma release_settings_limit:
  assumes "job_policy_ok L j" and "job_key j = Some k" and "find_semaphore d k = Some s"
    and "sem_limit s = L k" and "release_settings ss cfg j task d = Inr (l, dur)"
  shows "l = L k"
proof (cases "concurrency_settings_for_job ss cfg j task")
  case (Inr x)
  then show ?thesis
    using assms(5) settings_limit [OF assms(1,2)] by (cases x) (auto simp: release_settings_def)
next
  case (Inl e)
  have "concurrency_key j = Some k" using assms(2) by (auto simp: job_key_def split: option.splits if_splits)
  moreover have "0 < L k" using assms(1,2) by (simp add: job_policy_ok_def)
  ultimately show ?thesis
    using assms(3-5) Inl by (cases e) (auto simp: release_settings_def semaphore_limit_def)
qed

text \<open>A job with a persisted policy never needs the task to be importable.\<close>

lemma release_settings_total:
  assumes "job_policy_ok L j" and "job_key j = Some k"
  shows "\<exists>l dur. release_settings ss cfg j task d = Inr (l, dur)"
proof -
  have "\<not> historical_policy j" using assms by (auto simp: job_policy_ok_def historical_policy_def)
  then show ?thesis
    by (auto simp: release_settings_def concurrency_settings_for_job_def
        split: option.splits sum.splits error.splits)
qed

section \<open>Handing over keeps the accounting\<close>

lemma blocked_rows_selection:
  assumes "queue_inv L A M d"
  shows "selection be_id be_job (blocked_executions d) d (blocked_rows_in_order ss cfg key d)"
  unfolding blocked_rows_in_order_def
  by (intro selection_locked blocked.selection_query [OF assms])

lemma blocked_rows_key:
  assumes inv: "queue_inv L A M d" and row: "(b, j) \<in> set (blocked_rows_in_order ss cfg key d)"
  shows "be_concurrency_key b = key" and "key_of d (job_id j) = Some key" and "job_id j = be_job b"
    and "be_backend_alias b = backend_alias cfg"
proof -
  have b: "b \<in> set (blocked_executions d)" "be_concurrency_key b = key" "be_backend_alias b = backend_alias cfg"
    using row set_locked_queryset unfolding blocked_rows_in_order_def
    by (fastforce simp: set_with_jobs)+
  then show "be_concurrency_key b = key" "be_backend_alias b = backend_alias cfg" by blast+
  show id: "job_id j = be_job b"
    using selection_job [OF blocked_rows_selection [OF inv] row] by simp
  show "key_of d (job_id j) = Some key"
    using inv b by (auto simp: id queue_inv_def blocked_ok_def)
qed

lemma consume_next_blocked_job_token:
  assumes inv: "queue_inv L A M d" and "consume_next_blocked_job ss cfg key d = Inr (v, e)"
  shows "case v of None \<Rightarrow> queue_inv L A M e
    | Some v \<Rightarrow> queue_inv L (insert (bv_job_id v) A) M e \<and> bv_job_id v \<notin> A
        \<and> key_of e (bv_job_id v) = Some key \<and> bv_concurrency_key v = key"
proof (cases "blocked_rows_in_order ss cfg key d")
  case Nil
  with assms show ?thesis by (auto simp: consume_next_blocked_job_def)
next
  case (Cons x rest)
  obtain b j where x: "x = (b, j)" by force
  note row = Cons [unfolded x]
  have sel: "selection be_id be_job (blocked_executions d) d [(b, j)]"
    using blocked_rows_selection [OF inv, of ss cfg key] unfolding row by (rule selection_hd)
  have key: "be_concurrency_key b = key" "key_of d (job_id j) = Some key" "job_id j = be_job b"
    using blocked_rows_key [OF inv, of b j ss cfg key] by (simp_all add: row)
  have notA: "be_job b \<notin> A" using blocked.selected_not_in_transit(1) [OF inv sel, of b j] key(3) by simp
  obtain c where con: "consume_selected_rows ss Blocked (\<lambda>x. be_id (fst x)) [(b, j)] d = ([(b, j)], c)"
    using blocked.consumed_selection(1) [OF inv sel] by (metis surj_pair)
  note c = blocked.consumed_selection [OF inv sel con]
  have "e = c" "v = Some (blocked_execution_values (b, j))"
    using assms(2) con c(5) by (auto simp: consume_next_blocked_job_def row split: if_splits)
  moreover have "key_of c = key_of d" using c(2) by (rule key_of_jobs_cong)
  ultimately show ?thesis
    using c(4) key notA by (simp add: slot_tokens_def slot_model_def blocked_execution_values_def)
qed

lemma consume_with_released_slot_token:
  assumes inv: "queue_inv L A M d" and "key \<in># M"
    and "consume_next_blocked_job_with_released_slot ss cfg key (L key) dur now d = Inr (v, e)"
  shows "case v of None \<Rightarrow> queue_inv L A M e
    | Some (v, b) \<Rightarrow> b \<and> queue_inv L (insert (bv_job_id v) A) M e \<and> bv_job_id v \<notin> A
        \<and> key_of e (bv_job_id v) = Some key \<and> bv_concurrency_key v = key"
proof (cases "blocked_rows_in_order ss cfg key d")
  case Nil
  with assms show ?thesis by (auto simp: consume_next_blocked_job_with_released_slot_def)
next
  case (Cons x rest)
  obtain b j where x: "x = (b, j)" by force
  note row = Cons [unfolded x]
  let ?ss = "ss\<lparr>caps := (caps ss)\<lparr>cap_family := Postgresql\<rparr>\<rparr>"
  have key: "be_concurrency_key b = key" "key_of d (job_id j) = Some key" "job_id j = be_job b"
    using blocked_rows_key [OF inv, of b j ss cfg key] by (simp_all add: row)
  have inb: "b \<in> set (blocked_executions d)"
    using blocked_rows_selection [OF inv, of ss cfg key] by (simp add: row selection_def)
  obtain a c where ho: "handoff_released_claimed_slot ?ss key (L key) dur now d = (a, c)" by force
  note c = handoff_token [OF inv assms(2) ho]
  have same: "blocked_executions c = blocked_executions d"
    using ho by (auto simp: handoff_released_claimed_slot_def update_semaphores_def Let_def)
  have upd: "\<exists>n>0. update_semaphores Postgresql
      (\<lambda>r. sem_key r = key \<and> sem_limit r - L key - 1 < sem_value r)
      [set_value (\<lambda>r. released_available_expression (L key) r - 1),
       set_active_count (\<lambda>r. L key - (released_available_expression (L key) r - 1)), set_limit (\<lambda>r. L key),
       set_expires_at (\<lambda>r. now + seconds dur), set_updated_at (\<lambda>r. now)] d = (n, c)"
    using ho c(2) by (auto simp: handoff_released_claimed_slot_def Let_def algebra_simps split: prod.splits)
  then have v: "v = Some (blocked_execution_values (b, j), True)" and e: "e = delete_pks Blocked {be_id b} c"
    using assms(3) inb by (auto simp: consume_next_blocked_job_with_released_slot_def row Let_def
        split: if_splits)
  have "queue_inv L (insert (be_job b) A) M e"
    using queue_inv_consumed [OF c(1) blocked.keys, where rows = "[b]"] inb same e
    by (simp add: slot_tokens_def slot_model_def)
  moreover have "key_of e = key_of d" using c(3) e by (intro key_of_jobs_cong) simp
  moreover have "be_job b \<notin> A"
    using row_job_live(2) [OF inv, of "be_id b" "be_job b" Blocked] inb by (simp add: blocked.keys)
  ultimately show ?thesis using key v by (simp add: blocked_execution_values_def)
qed

text \<open>\<open>N\<close> is what the transaction holds apart from the slot being handed over.\<close>

lemma consume_blocked_job_for_slot_token:
  assumes inv: "queue_inv L A M d"
    and mode: "M = (if mode = RELEASE_CLAIMED then N + {#key#} else N)"
    and step: "consume_blocked_job_for_slot ss cfg key (L key) dur now mode d = Inr (slot, e)"
  shows "case slot of Some (r, True) \<Rightarrow> queue_inv L (insert (ref_id r) A) (N + {#key#}) e
        \<and> ref_id r \<notin> A \<and> key_of e (ref_id r) = Some key
    | _ \<Rightarrow> queue_inv L A M e"
proof (cases "mode = RELEASE_CLAIMED \<and> family ss = Postgresql")
  case True
  then have "key \<in># M" using mode by simp
  from step True obtain v where
    "consume_next_blocked_job_with_released_slot ss cfg key (L key) dur now d = Inr (v, e)"
    and slot: "slot = map_option (\<lambda>(v, b). (blocked_job_ref v (backend_alias cfg), b)) v"
    by (auto simp: consume_blocked_job_for_slot_def split: option.splits if_splits)
  from consume_with_released_slot_token [OF inv \<open>key \<in># M\<close> this(1)] mode True slot
  show ?thesis by (auto simp: blocked_job_ref_def split: option.splits)
next
  case False
  from step False obtain v c where c: "consume_next_blocked_job ss cfg key d = Inr (v, c)"
    by (auto simp: consume_blocked_job_for_slot_def Let_def)
  note tok = consume_next_blocked_job_token [OF inv c]
  show ?thesis
  proof (cases v)
    case None
    with step False c tok show ?thesis by (auto simp: consume_blocked_job_for_slot_def)
  next
    case (Some w)
    let ?r = "blocked_job_ref w (backend_alias cfg)"
    let ?i = "bv_job_id w"
    have ci: "queue_inv L (insert ?i A) M c" and i: "?i \<notin> A" "key_of c ?i = Some key"
      "bv_concurrency_key w = key" using tok Some by simp_all
    define res where "res = (if mode = RELEASE_CLAIMED
       then handoff_released_claimed_slot ss key (L key) dur now c
       else consume_released_semaphore_slot ss key (L key) dur now c)"
    obtain a f where af: "res = (a, f)" by force
    have modes: "mode = RELEASE_CLAIMED \<or> mode = CONSUME_RELEASED" by (cases mode) auto
    have f: "queue_inv L (insert ?i A) (if a then N + {#key#} else M) f" "jobs f = jobs c"
      using modes mode af handoff_token [OF ci, of key ss dur now a f]
        consume_released_token [OF ci, of ss key dur now a f]
      by (auto simp: res_def split: if_splits)
    have fk: "key_of f = key_of c" using f(2) by (rule key_of_jobs_cong)
    have slot: "slot = Some (?r, a)"
      and e: "if a then e = f else restore_blocked_execution w ?r (backend_alias cfg) f = Inr e"
      using step False c Some af modes
      by (auto simp: consume_blocked_job_for_slot_def res_def Let_def split: if_splits prod.splits)
    show ?thesis
    proof (cases a)
      case True
      then show ?thesis using slot e f fk i by (simp add: blocked_job_ref_def)
    next
      case False
      then have "restore_blocked_execution w ?r (backend_alias cfg) f = Inr e" using e by simp
      moreover have "key_of f (ref_id ?r)
          = (case ref_concurrency_key ?r of None \<Rightarrow> ref_concurrency_key ?r | Some k \<Rightarrow> Some k)"
        using i by (simp add: blocked_job_ref_def fk)
      moreover have "queue_inv L (insert ?i A) M f" "ref_id ?r \<in> insert ?i A"
        using False f(1) by (simp_all add: blocked_job_ref_def)
      ultimately have "queue_inv L (insert ?i A - {ref_id ?r}) M e"
        unfolding restore_blocked_execution_def by (intro queue_inv_create_blocked_execution)
      moreover have "insert ?i A - {ref_id ?r} = A" using i by (auto simp: blocked_job_ref_def)
      ultimately show ?thesis using slot False by simp
    qed
  qed
qed

lemma unblock_next_blocked_job_token:
  assumes inv: "queue_inv L A M d"
    and mode: "M = (if mode = RELEASE_CLAIMED then N + {#key#} else N)"
    and step: "unblock_next_blocked_job ss cfg key (L key) dur mode d = Inr (r, e)"
  shows "queue_inv L A (if r = None then M else N) e"
proof -
  let ?c = "d\<lparr>clock := stl (clock d)\<rparr>"
  from step obtain slot f where
    f: "consume_blocked_job_for_slot ss cfg key (L key) dur (shd (clock d)) mode ?c = Inr (slot, f)"
    by (auto simp: unblock_next_blocked_job_def timezone_now_def)
  have inv': "queue_inv L A M ?c" using inv by simp
  note tok = consume_blocked_job_for_slot_token [OF inv' mode f]
  show ?thesis
  proof (cases "\<exists>s. slot = Some (s, True)")
    case False
    then have "r = None" "e = f" and "queue_inv L A M f"
      using step f tok by (auto simp: unblock_next_blocked_job_def timezone_now_def split: option.splits if_splits)
    then show ?thesis by simp
  next
    case True
    then obtain s where s: "slot = Some (s, True)" by blast
    with tok have fi: "queue_inv L (insert (ref_id s) A) (N + {#key#}) f" and "ref_id s \<notin> A"
      and k: "key_of f (ref_id s) = Some key" by simp_all
    from step f s obtain n g where
      g: "create_ready_execution_after_blocked_consume s (backend_alias cfg) (ref_queue_name s)
            (ref_priority s) (shd (clock d)) f = Inr (n, g)"
      and re: "r = Some s" "e = notify_ready_queues_on_commit ss cfg [ref_queue_name s] g"
      by (auto simp: unblock_next_blocked_job_def timezone_now_def split: if_splits)
    have "queue_inv L (insert (ref_id s) A - {ref_id s}) N g"
      using fi k by (intro queue_inv_ready_after_blocked(2) [OF g]) (simp_all add: token_def)
    moreover have "insert (ref_id s) A - {ref_id s} = A" using \<open>ref_id s \<notin> A\<close> by blast
    ultimately show ?thesis using re by simp
  qed
qed

text \<open>Releasing the slot of a job hands it to a blocked job or gives it back; in both cases the
  token is gone.\<close>

lemma release_concurrency_slot_token:
  assumes inv: "queue_inv L A (M + (case job_key j of None \<Rightarrow> {#} | Some k \<Rightarrow> {#k#})) d"
    and pol: "job_policy_ok L j" and step: "release_concurrency_slot ss cfg j task d = Inr e"
  shows "queue_inv L A M e"
proof (cases "job_key j")
  case None
  with assms show ?thesis by (simp add: release_concurrency_slot_def)
next
  case (Some key)
  with inv have inv': "queue_inv L A (M + {#key#}) d" by simp
  obtain s where s: "find_semaphore d key = Some s" "sem_limit s = L key"
    using inv' by (rule token_has_semaphore [where k = key]) auto
  from step Some obtain l dur r c where
    set: "release_settings ss cfg j task d = Inr (l, dur)"
    and c: "unblock_next_blocked_job ss cfg key l dur RELEASE_CLAIMED d = Inr (r, c)"
    by (auto simp: release_concurrency_slot_def)
  have l: "l = L key" using release_settings_limit [OF pol Some s set] .
  have ci: "queue_inv L A (if r = None then M + {#key#} else M) c"
    using unblock_next_blocked_job_token [OF inv' _ c [unfolded l], of M] by simp
  show ?thesis
  proof (cases r)
    case Some
    with step set c \<open>job_key j = Some key\<close> ci show ?thesis by (simp add: release_concurrency_slot_def)
  next
    case None
    obtain b f where f: "semaphore_release ss key (L key) dur c = (b, f)" by force
    have "queue_inv L A (M + {#key#}) c" using ci None by simp
    from semaphore_release_token(1) [OF this f] have fi: "queue_inv L A M f" .
    from step set c \<open>job_key j = Some key\<close> None f l obtain r' where
      "unblock_next_blocked_job ss cfg key (L key) dur CONSUME_RELEASED f = Inr (r', e)"
      by (auto simp: release_concurrency_slot_def)
    from unblock_next_blocked_job_token [OF fi _ this, of M] show ?thesis by simp
  qed
qed

section \<open>Cleaning up semaphores keeps the accounting\<close>

lemma queue_inv_remove_semaphores:
  assumes inv: "queue_inv L A M d"
    and free: "\<forall>s\<in>set (semaphores d). P s \<longrightarrow> holders d (sem_key s) = 0 \<and> count M (sem_key s) = 0"
  shows "queue_inv L A M (d\<lparr>semaphores := filter (\<lambda>s. \<not> P s) (semaphores d)\<rparr>)" (is "queue_inv L A M ?e")
proof -
  have ok: "semaphores_ok d" using inv by (simp add: queue_inv_def slots_ok_def)
  have "slot_balance L M ?e k" for k
  proof (cases "find_semaphore d k")
    case None
    then have "find_semaphore ?e k = None" by (auto simp: find_semaphore_def find_None_iff)
    with None queue_inv_balance [OF inv, of k] show ?thesis
      by (simp add: slot_balance_def holders_def)
  next
    case (Some s)
    note s = find_semaphore_key [OF Some]
    have unique: "r = s" if "r \<in> set (semaphores d)" "sem_key r = k" for r
      using ok s that by (auto simp: semaphores_ok_def distinct_map inj_on_def)
    show ?thesis
    proof (cases "P s")
      case True
      then have "find_semaphore ?e k = None"
        using unique by (auto simp: find_semaphore_def find_None_iff)
      moreover have "holders d k = 0 \<and> count M k = 0" using free True s by auto
      ultimately show ?thesis by (simp add: slot_balance_def holders_def)
    next
      case False
      then obtain r where r: "find_semaphore ?e k = Some r"
        using s by (cases "find_semaphore ?e k") (auto simp: find_semaphore_def find_None_iff)
      from find_semaphore_key [OF r] have "r = s" by (intro unique) auto
      with r Some queue_inv_balance [OF inv, of k] show ?thesis
        by (simp add: slot_balance_def holders_def)
    qed
  qed
  moreover have "semaphores_ok ?e" using ok by (auto simp: semaphores_ok_def distinct_map_filter)
  moreover have "keys_ok ?e = keys_ok d" "partitioned A ?e = partitioned A d" "job_ids ?e = job_ids d"
    "policies_ok L ?e = policies_ok L d" "blocked_ok ?e = blocked_ok d"
    by (simp_all add: keys_ok_def partitioned_def job_ids_def policies_ok_def blocked_ok_def
        live_count_def state_count_def)
  ultimately show ?thesis using inv by (simp add: queue_inv_def slots_ok_def)
qed

lemma no_holders_inactive:
  assumes "k \<in> set ks" and "k \<notin> active_keys ks d"
  shows "holders d k = 0"
proof -
  have False if "(p, i) \<in> set (state_keys m d)" "m = Ready \<or> m = Claimed" "key_of d i = Some k" for p i m
  proof -
    from that(3) obtain j where j: "find_job d i = Some j" "job_key j = Some k"
      by (auto simp: key_of_def bind_eq_Some_conv)
    then have "concurrency_key j = Some k" by (auto simp: job_key_def split: option.splits if_splits)
    moreover have "has_state m d i" using that(1) by (force simp: has_state_def)
    ultimately have "k \<in> active_keys ks d"
      using find_job_Some [OF j(1)] assms(1) that(2)
      by (auto simp: active_keys_def intro!: rev_image_eqI [of j])
    with assms(2) show False by blast
  qed
  then show ?thesis by (auto simp: holders_def count_if_0_iff)
qed

lemma cleanup_expired_semaphores_inv:
  assumes inv: "queue_inv L A {#} d" and step: "cleanup_expired_semaphores ss cfg n d = Inr (k, e)"
  shows "queue_inv L A {#} e"
proof -
  let ?c = "d\<lparr>clock := stl (clock d)\<rparr>"
  have inv': "queue_inv L A {#} ?c" using inv by simp
  from step obtain bs where bs: "positive_int_option n ''batch_size'' = Inr bs"
    by (auto simp: cleanup_expired_semaphores_def)
  define ex where "ex = first_n bs (order_by (\<lambda>s. (sem_expires_at s, sem_key s))
     (locked_queryset ss cfg TSemaphore sem_id
        (filter (\<lambda>s. sem_expires_at s \<le> shd (clock d)) (semaphores d))))"
  define gone where "gone = filter (\<lambda>s. sem_key s \<notin> active_keys (map sem_key ex) ?c) ex"
  have e: "e = ?c \<or> e = ?c\<lparr>semaphores := filter (\<lambda>s. sem_id s \<notin> sem_id ` set gone) (semaphores ?c)\<rparr>"
    using step bs by (auto simp: cleanup_expired_semaphores_def timezone_now_def Let_def ex_def gone_def
        split: if_splits)
  have sub: "set ex \<subseteq> set (semaphores d)"
    unfolding ex_def using set_locked_queryset by (fastforce dest!: first_n_subsetD)
  have ok: "semaphores_ok d" using inv by (simp add: queue_inv_def slots_ok_def)
  have free: "\<forall>s\<in>set (semaphores ?c). sem_id s \<in> sem_id ` set gone \<longrightarrow>
      holders ?c (sem_key s) = 0 \<and> count {#} (sem_key s) = 0"
  proof (intro ballI impI)
    fix s assume s: "s \<in> set (semaphores ?c)" "sem_id s \<in> sem_id ` set gone"
    then obtain g where g: "g \<in> set gone" "sem_id s = sem_id g" by auto
    then have "g \<in> set (semaphores d)" using sub by (auto simp: gone_def)
    with ok s g have "s = g" by (auto simp: semaphores_ok_def distinct_map inj_on_def)
    with g have "sem_key s \<in> set (map sem_key ex)" "sem_key s \<notin> active_keys (map sem_key ex) ?c"
      by (auto simp: gone_def)
    then have "holders ?c (sem_key s) = 0" by (rule no_holders_inactive)
    then show "holders ?c (sem_key s) = 0 \<and> count {#} (sem_key s) = 0" by simp
  qed
  have removed: "queue_inv L A {#}
      (?c\<lparr>semaphores := filter (\<lambda>s. \<not> sem_id s \<in> sem_id ` set gone) (semaphores ?c)\<rparr>)"
    by (rule queue_inv_remove_semaphores [OF inv' free])
  from e show ?thesis
  proof
    assume "e = ?c"
    then show ?thesis using inv' by simp
  qed (use removed in simp)
qed

section \<open>Promoting expired blocked jobs keeps the accounting\<close>

lemma job_key_of_key_of: "find_job d (job_id j) = Some j \<Longrightarrow> key_of d (job_id j) = job_key j"
  by (simp add: key_of_def)

lemma policy_of_job: "queue_inv L A M d \<Longrightarrow> find_job d i = Some j \<Longrightarrow> job_policy_ok L j"
  by (auto simp: queue_inv_def policies_ok_def dest: find_job_Some)

lemma blocked_settings_limit:
  assumes "job_policy_ok L j" and "job_key j = Some k"
    and "blocked_concurrency_settings ss cfg j cache = Inr ((l, dur), cache')"
  shows "l = L k"
proof -
  have "\<not> historical_policy j" using assms(1,2) by (auto simp: job_policy_ok_def historical_policy_def)
  with assms settings_limit [OF assms(1,2)] show ?thesis
    by (auto simp: blocked_concurrency_settings_def split: option.splits)
qed

text \<open>The outcome for one selected row whose job is in transit: it is failed, renewed or promoted.\<close>

lemma create_failed_frame:
  assumes "create_failed r d = Inr e"
  shows "jobs e = jobs d" "blocked_executions e = blocked_executions d"
  using assms by (auto simp: create_failed_def insert_failed_def timezone_now_def split: if_splits)

lemma create_ready_frame:
  assumes "create_ready r d = Inr e"
  shows "jobs e = jobs d" "blocked_executions e = blocked_executions d"
  using assms by (auto simp: create_ready_def insert_ready_def timezone_now_def split: if_splits)

lemma create_blocked_frame:
  assumes "create_blocked r d = Inr e"
  shows "jobs e = jobs d"
  using assms by (auto simp: create_blocked_def insert_blocked_def timezone_now_def split: if_splits)

lemma semaphore_acquire_frame:
  assumes "distinct (map sem_key (semaphores d))" and "0 < l"
    and "semaphore_acquire ss k l dur d = (b, e)"
  shows "blocked_executions e = blocked_executions d" and "jobs e = jobs d"
  using semaphore_acquire_acquires [OF assms] by (simp_all add: acquires_def only_semaphore_def)

lemma promote_row_consumed:
  assumes inv: "queue_inv L A M (pdb p)" and j: "find_job (pdb p) (job_id j) = Some j"
    and "job_id j \<in> A" and "be_job b = job_id j" and key: "job_key j = Some (be_concurrency_key b)"
    and step: "promote_blocked_row ss cfg now True (b, j) p = Inr q"
  shows "queue_inv L (A - {job_id j}) M (pdb q)" and "jobs (pdb q) = jobs (pdb p)"
proof -
  let ?d = "pdb p"
  let ?k = "be_concurrency_key b"
  have pol: "job_policy_ok L j" using inv j by (rule policy_of_job)
  then have pos: "0 < L ?k" using key by (simp add: job_policy_ok_def)
  have dist: "distinct (map sem_key (semaphores ?d))"
    using inv by (simp add: queue_inv_def slots_ok_def semaphores_ok_def)
  have "queue_inv L (A - {job_id j}) M (pdb q) \<and> jobs (pdb q) = jobs ?d"
  proof (cases "blocked_concurrency_settings ss cfg j (settings_cache p)")
    case (Inl e)
    with step obtain r where "create_failed r ?d = Inr (pdb q)" "fe_job r = job_id j"
      using assms(4) by (auto simp: promote_blocked_row_def fail_blocked_policy_def split: error.splits)
    with queue_inv_create_failed [of r ?d "pdb q" L A M] inv assms(3) show ?thesis
      by (simp add: create_failed_frame)
  next
    case (Inr x)
    then obtain l dur cache where set: "blocked_concurrency_settings ss cfg j (settings_cache p) = Inr ((l, dur), cache)"
      by (cases x) auto
    have l: "l = L ?k" using blocked_settings_limit [OF pol key set] .
    obtain a c where c: "semaphore_acquire ss ?k (L ?k) dur ?d = (a, c)" by force
    have ci: "queue_inv L A (if a then M + {#?k#} else M) c" and jc: "jobs c = jobs ?d"
      using semaphore_acquire_token [OF inv pos c] by simp_all
    have kc: "key_of c (job_id j) = Some ?k"
      using key_of_jobs_cong [OF jc] job_key_of_key_of [OF j] key by simp
    show ?thesis
    proof (cases a)
      case True
      from step set l c True have "promote_blocked_execution (b, j) now True c = Inr (pdb q)"
        by (auto simp: promote_blocked_row_def)
      then obtain r where r: "create_ready r c = Inr (pdb q)" "re_job r = job_id j"
        by (auto simp: promote_blocked_execution_def create_ready_execution_def ready_execution_fields_def
            ref_of_job_def)
      with queue_inv_create_ready [OF r(1), of L A M] ci True kc assms(3) create_ready_frame [OF r(1)] jc
      show ?thesis by (simp add: token_def)
    next
      case False
      from step set l c False have "renew_blocked_execution (b, j) (now + seconds dur) True c = Inr (pdb q)"
        by (auto simp: promote_blocked_row_def)
      then obtain r where r: "create_blocked r c = Inr (pdb q)" "be_job r = job_id j"
          "be_concurrency_key r = ?k"
        by (auto simp: renew_blocked_execution_def create_blocked_execution_def blocked_execution_fields_def
            ref_of_job_def)
      with queue_inv_create_blocked [OF r(1), of L A M] ci False kc assms(3) create_blocked_frame [OF r(1)] jc
      show ?thesis by simp
    qed
  qed
  then show "queue_inv L (A - {job_id j}) M (pdb q)" and "jobs (pdb q) = jobs ?d" by blast+
qed

text \<open>Without consuming first, every row is handled in place; the other rows stay.\<close>

definition renewed :: "nat \<Rightarrow> time \<Rightarrow> blocked_execution list \<Rightarrow> blocked_execution list" where
  "renewed p t rows = map (\<lambda>r. if be_id r = p then r\<lparr>be_expires_at := t\<rparr> else r) rows"

lemma queue_inv_renewed: "queue_inv L A M (d\<lparr>blocked_executions := renewed p t (blocked_executions d)\<rparr>) = queue_inv L A M d"
proof -
  let ?e = "d\<lparr>blocked_executions := renewed p t (blocked_executions d)\<rparr>"
  have keys: "state_keys m ?e = state_keys m d" for m
    by (cases m) (auto simp: state_keys.simps renewed_def)
  have k: "key_of ?e = key_of d" by (rule key_of_jobs_cong) simp
  have "list_all (\<lambda>b. key_of d (be_job b) = Some (be_concurrency_key b)) (renewed p t rows)
      = list_all (\<lambda>b. key_of d (be_job b) = Some (be_concurrency_key b)) rows" for rows
    by (induction rows) (simp_all add: renewed_def)
  then have "blocked_ok ?e = blocked_ok d" unfolding blocked_ok_def k by (simp add: list_all_iff)
  then show ?thesis
    by (simp add: queue_inv_def keys_ok_def partitioned_def job_ids_def policies_ok_def slots_ok_def
        semaphores_ok_def slot_balance_def find_semaphore_def holders_def live_count_def state_count_def
        keys k cong: option.case_cong)
qed

lemma promote_row_in_place:
  assumes inv: "queue_inv L A M (pdb p)"
    and sel: "selection be_id be_job (blocked_executions (pdb p)) (pdb p) [(b, j)]"
    and step: "promote_blocked_row ss cfg now False (b, j) p = Inr q"
  shows "queue_inv L A M (pdb q)" and "jobs (pdb q) = jobs (pdb p)"
    and "\<forall>r\<in>set (blocked_executions (pdb p)). be_id r \<noteq> be_id b \<longrightarrow> r \<in> set (blocked_executions (pdb q))"
proof -
  let ?d = "pdb p"
  let ?k = "be_concurrency_key b"
  have b: "b \<in> set (blocked_executions ?d)" and fj: "find_job ?d (be_job b) = Some j"
    using sel by (simp_all add: selection_def)
  have id: "be_job b = job_id j" using find_job_Some [OF fj] by simp
  have j: "find_job ?d (job_id j) = Some j" using fj id by simp
  have key: "job_key j = Some ?k"
    using inv b id job_key_of_key_of [OF j] by (auto simp: queue_inv_def blocked_ok_def)
  have pol: "job_policy_ok L j" using inv j by (rule policy_of_job)
  then have pos: "0 < L ?k" using key by (simp add: job_policy_ok_def)
  have notA: "job_id j \<notin> A" using blocked.selected_not_in_transit(1) [OF inv sel] by simp
  have dist: "distinct (map sem_key (semaphores ?d))"
    using inv by (simp add: queue_inv_def slots_ok_def semaphores_ok_def)
  have gone: "queue_inv L (insert (job_id j) A) N (delete_pks Blocked {be_id b} e)"
    if "queue_inv L A N e" "blocked_executions e = blocked_executions ?d" for e N
    using queue_inv_consumed [OF that(1) blocked.keys, where rows = "[b]"] that b id
    by (simp add: slot_tokens_def slot_model_def)
  have rejoin: "insert (job_id j) A - {job_id j} = A" using notA by blast
  have stay: "\<forall>r\<in>set (blocked_executions ?d). be_id r \<noteq> be_id b \<longrightarrow> r \<in> set (blocked_executions e)"
    if "blocked_executions e = blocked_executions (delete_pks Blocked {be_id b} f)"
      "blocked_executions f = blocked_executions ?d" for e f
    using that by (simp add: delete_pks_def)
  have "queue_inv L A M (pdb q) \<and> jobs (pdb q) = jobs ?d \<and> (\<forall>r\<in>set (blocked_executions ?d).
      be_id r \<noteq> be_id b \<longrightarrow> r \<in> set (blocked_executions (pdb q)))"
  proof (cases "blocked_concurrency_settings ss cfg j (settings_cache p)")
    case (Inl e)
    have con: "consume_selected_rows ss Blocked (\<lambda>x. be_id (fst x)) [(b, j)] ?d
        = ([(b, j)], delete_pks Blocked {be_id b} ?d)"
      using blocked.consume_selected [of fst "[(b, j)]" ?d ss] b by simp
    with step Inl obtain r where r: "create_failed r (delete_pks Blocked {be_id b} ?d) = Inr (pdb q)"
        "fe_job r = job_id j"
      using id by (auto simp: promote_blocked_row_def fail_blocked_policy_def split: error.splits)
    from queue_inv_create_failed [OF r(1) gone [OF inv refl]] r(2) rejoin create_failed_frame [OF r(1)]
      stay [of "pdb q" ?d]
    show ?thesis by simp
  next
    case (Inr x)
    then obtain l dur cache where set: "blocked_concurrency_settings ss cfg j (settings_cache p) = Inr ((l, dur), cache)"
      by (cases x) auto
    have l: "l = L ?k" using blocked_settings_limit [OF pol key set] .
    obtain a c where c: "semaphore_acquire ss ?k (L ?k) dur ?d = (a, c)" by force
    have ci: "queue_inv L A (if a then M + {#?k#} else M) c" and jc: "jobs c = jobs ?d"
      using semaphore_acquire_token [OF inv pos c] by simp_all
    have bc: "blocked_executions c = blocked_executions ?d"
      using semaphore_acquire_frame [OF dist pos c] by simp
    show ?thesis
    proof (cases a)
      case True
      from step set l c True have "promote_blocked_execution (b, j) now False c = Inr (pdb q)"
        by (auto simp: promote_blocked_row_def)
      then obtain r where r: "create_ready r (delete_pks Blocked {be_id b} c) = Inr (pdb q)" "re_job r = job_id j"
        by (auto simp: promote_blocked_execution_def create_ready_execution_def ready_execution_fields_def
            ref_of_job_def Let_def)
      have "token (delete_pks Blocked {be_id b} c) (job_id j) = {#?k#}"
        using key_of_jobs_cong [OF jc] job_key_of_key_of [OF j] key by (simp add: token_def)
      with queue_inv_create_ready [OF r(1), of L "insert (job_id j) A" M] gone [OF ci bc] True rejoin
        create_ready_frame [OF r(1)] stay [of "pdb q" c] bc jc r(2)
      show ?thesis by simp
    next
      case False
      from step set l c False
      have q: "pdb q = c\<lparr>blocked_executions := renewed (be_id b) (now + seconds dur) (blocked_executions c)\<rparr>"
        by (auto simp: promote_blocked_row_def renew_blocked_execution_def renewed_def)
      have "queue_inv L A M (pdb q)" unfolding q queue_inv_renewed using ci False by simp
      moreover have "\<forall>r\<in>set (blocked_executions ?d). be_id r \<noteq> be_id b \<longrightarrow>
          r \<in> set (blocked_executions (pdb q))" by (auto simp: q renewed_def bc)
      ultimately show ?thesis using jc by (simp add: q)
    qed
  qed
  then show "queue_inv L A M (pdb q)" and "jobs (pdb q) = jobs (pdb p)"
    and "\<forall>r\<in>set (blocked_executions (pdb p)). be_id r \<noteq> be_id b \<longrightarrow> r \<in> set (blocked_executions (pdb q))"
    by blast+
qed

lemma promote_rows_consumed:
  assumes "for_each (promote_blocked_row ss cfg now True) rows p = Inr q"
    and "queue_inv L A M (pdb p)" and "distinct (map (\<lambda>x. job_id (snd x)) rows)"
    and "\<forall>(b, j)\<in>set rows. find_job (pdb p) (job_id j) = Some j \<and> job_id j \<in> A \<and> be_job b = job_id j
          \<and> job_key j = Some (be_concurrency_key b)"
  shows "queue_inv L (A - (\<lambda>x. job_id (snd x)) ` set rows) M (pdb q)"
  using assms
proof (induction rows arbitrary: A p)
  case Nil
  then show ?case by simp
next
  case (Cons x rows)
  obtain b j where x: "x = (b, j)" by force
  from Cons.prems(1) obtain r where r: "promote_blocked_row ss cfg now True (b, j) p = Inr r"
    and rest: "for_each (promote_blocked_row ss cfg now True) rows r = Inr q" by (auto simp: x)
  have bj: "find_job (pdb p) (job_id j) = Some j" "job_id j \<in> A" "be_job b = job_id j"
    "job_key j = Some (be_concurrency_key b)" using Cons.prems(4) by (simp_all add: x)
  note one = promote_row_consumed [OF Cons.prems(2) bj r]
  have fj: "find_job (pdb r) = find_job (pdb p)" using one(2) by (simp add: find_job_def fun_eq_iff)
  have "queue_inv L (A - {job_id j} - (\<lambda>x. job_id (snd x)) ` set rows) M (pdb q)"
  proof (rule Cons.IH [OF rest one(1)])
    show "distinct (map (\<lambda>x. job_id (snd x)) rows)" using Cons.prems(3) by simp
    have "job_id j' \<noteq> job_id j" if "(b', j') \<in> set rows" for b' j'
      using Cons.prems(3) that by (force simp: x)
    then show "\<forall>(b, j')\<in>set rows. find_job (pdb r) (job_id j') = Some j' \<and> job_id j' \<in> A - {job_id j}
        \<and> be_job b = job_id j' \<and> job_key j' = Some (be_concurrency_key b)"
      using Cons.prems(4) fj by auto
  qed
  moreover have "A - {job_id j} - (\<lambda>x. job_id (snd x)) ` set rows = A - (\<lambda>x. job_id (snd x)) ` set (x # rows)"
    by (auto simp: x)
  ultimately show ?case by simp
qed

lemma promote_rows_in_place:
  assumes "for_each (promote_blocked_row ss cfg now False) rows p = Inr q"
    and "queue_inv L A M (pdb p)"
    and "selection be_id be_job (blocked_executions (pdb p)) (pdb p) rows"
  shows "queue_inv L A M (pdb q)"
  using assms
proof (induction rows arbitrary: p)
  case Nil
  then show ?case by simp
next
  case (Cons x rows)
  obtain b j where x: "x = (b, j)" by force
  from Cons.prems(1) obtain r where r: "promote_blocked_row ss cfg now False (b, j) p = Inr r"
    and rest: "for_each (promote_blocked_row ss cfg now False) rows r = Inr q" by (auto simp: x)
  note one = promote_row_in_place [OF Cons.prems(2) selection_hd [OF Cons.prems(3) [unfolded x]] r]
  have fj: "find_job (pdb r) = find_job (pdb p)" using one(2) by (simp add: find_job_def fun_eq_iff)
  have "be_id b' \<noteq> be_id b" if "(b', j') \<in> set rows" for b' j'
    using Cons.prems(3) that by (force simp: x selection_def)
  then have "b' \<in> set (blocked_executions (pdb r)) \<and> find_job (pdb r) (be_job b') = Some j'"
    if "(b', j') \<in> set rows" for b' j' using Cons.prems(3) one(3) fj that by (auto simp: selection_def)
  then have "\<forall>(b', j')\<in>set rows. b' \<in> set (blocked_executions (pdb r))
      \<and> find_job (pdb r) (be_job b') = Some j'" by blast
  then have "selection be_id be_job (blocked_executions (pdb r)) (pdb r) rows"
    using Cons.prems(3) by (simp add: selection_def)
  from Cons.IH [OF rest one(1) this] show ?case .
qed

lemma notify_fold_inv [simp]:
  "queue_inv L A M (fold (\<lambda>j d. notify_ready_queues_on_commit ss cfg (f j) d) js d) = queue_inv L A M d"
  by (induction js arbitrary: d) simp_all

lemma promote_expired_blocked_jobs_inv:
  assumes inv: "queue_inv L A M d" and step: "promote_expired_blocked_jobs ss cfg n d = Inr (js, e)"
  shows "queue_inv L A M e"
proof -
  define c where "c = d\<lparr>clock := stl (clock d)\<rparr>"
  define rows where "rows = first_n n (locked_queryset ss cfg TBlocked (\<lambda>(b, j). be_id b)
     (with_jobs c be_job (order_by (\<lambda>b. (be_expires_at b, - be_priority b, be_id b))
       (filter (\<lambda>b. be_backend_alias b = backend_alias cfg \<and> be_expires_at b \<le> shd (clock d))
         (blocked_executions c)))))"
  have ci: "queue_inv L A M c" using inv by (simp add: c_def)
  have sel: "selection be_id be_job (blocked_executions c) c rows"
    unfolding rows_def by (intro selection_first_n selection_locked blocked.selection_query [OF ci])
  note step' = step [unfolded promote_expired_blocked_jobs_def timezone_now_def Let_def prod.case,
      folded c_def, folded rows_def]
  show ?thesis
  proof (cases "rows = []")
    case True
    with step' ci show ?thesis by auto
  next
    case False
    obtain rows' f where con: "(if cap_serialized_writes (caps ss)
        then consume_selected_rows ss Blocked (\<lambda>x. be_id (fst x)) rows c else (rows, c)) = (rows', f)" by force
    from step' False con obtain q where
      q: "for_each (promote_blocked_row ss cfg (shd (clock d)) (cap_serialized_writes (caps ss))) rows'
        \<lparr>promoted = [], policy_failures = [], settings_cache = Map.empty, pdb = f\<rparr> = Inr q"
      and e: "e = fold (\<lambda>j d. notify_ready_queues_on_commit ss cfg [job_queue_name j] d) (promoted q) (pdb q)"
      by auto
    have "queue_inv L A M (pdb q)"
    proof (cases "cap_serialized_writes (caps ss)")
      case False
      with q con ci sel show ?thesis using promote_rows_in_place [of ss cfg "shd (clock d)" rows' _ q] by auto
    next
      case True
      let ?I = "(\<lambda>x. job_id (snd x)) ` set rows"
      from con True have con': "consume_selected_rows ss Blocked (\<lambda>x. be_id (fst x)) rows c = (rows', f)" by simp
      note f = blocked.consumed_selection [OF ci sel con']
      have fj: "find_job f = find_job c" using f(2) by (simp add: find_job_def fun_eq_iff)
      from q True f(1) have q': "for_each (promote_blocked_row ss cfg (shd (clock d)) True) rows
        \<lparr>promoted = [], policy_failures = [], settings_cache = Map.empty, pdb = f\<rparr> = Inr q" by simp
      have "queue_inv L (A \<union> ?I - ?I) M (pdb q)"
      proof (rule promote_rows_consumed [OF q'])
        show "\<forall>(b, j)\<in>set rows. find_job (pdb \<lparr>promoted = [], policy_failures = [],
             settings_cache = Map.empty, pdb = f\<rparr>) (job_id j) = Some j \<and> job_id j \<in> A \<union> ?I
           \<and> be_job b = job_id j \<and> job_key j = Some (be_concurrency_key b)"
        proof (clarify, intro conjI)
          fix b j assume bj: "(b, j) \<in> set rows"
          then have b: "b \<in> set (blocked_executions c)" "find_job c (be_job b) = Some j"
            using sel by (auto simp: selection_def)
          then show id: "be_job b = job_id j" using find_job_Some by metis
          then show "find_job (pdb \<lparr>promoted = [], policy_failures = [], settings_cache = Map.empty,
             pdb = f\<rparr>) (job_id j) = Some j" using b fj by simp
          show "job_id j \<in> A \<union> ?I" using bj by force
          show "job_key j = Some (be_concurrency_key b)"
            using ci b id job_key_of_key_of [of c j] by (auto simp: queue_inv_def blocked_ok_def)
        qed
      qed (use f(4) blocked.selection_distinct_jobs [OF ci sel] in \<open>simp_all add: slot_tokens_def slot_model_def\<close>)
      moreover have "A \<union> ?I - ?I = A"
        using blocked.selected_not_in_transit(1) [OF ci sel] by fastforce
      ultimately show ?thesis by simp
    qed
    then show ?thesis by (simp add: e)
  qed
qed

section \<open>Recovered groups keep the accounting\<close>

lemma collect_rows:
  assumes "for_each (\<lambda>r acc. and_then r (\<lambda>row. Inr (acc @ [row]))) xs acc = Inr ys"
  shows "\<exists>zs. ys = acc @ zs \<and> xs = map Inr zs"
  using assms
proof (induction xs arbitrary: acc)
  case (Cons x xs)
  then obtain z where "x = Inr z"
    and "for_each (\<lambda>r acc. and_then r (\<lambda>row. Inr (acc @ [row]))) xs (acc @ [z]) = Inr ys" by auto
  with Cons.IH [of "acc @ [z]"] show ?case by (metis append_Cons append_Nil append_assoc list.simps(9))
qed simp

lemma tokens_same_key: "\<forall>i\<in>set is. key_of d i = Some k \<Longrightarrow> tokens d is = replicate_mset (length is) k"
  by (induction "is") (simp_all add: token_def)

lemma ready_rows_jobs:
  assumes "map Inr zs = map (\<lambda>(b, j). ready_execution_fields (ref_of_job j) al (Some (be_queue_name b))
     (Some (be_priority b)) ra None) rows"
  shows "map re_job zs = map (\<lambda>x. job_id (snd x)) rows"
  using assms
proof (induction rows arbitrary: zs)
  case (Cons x rows)
  obtain b j where x: "x = (b, j)" by force
  from Cons.prems obtain z zs' where zs: "zs = z # zs'"
    and z: "Inr z = ready_execution_fields (ref_of_job j) al (Some (be_queue_name b)) (Some (be_priority b)) ra None"
    and rest: "map Inr zs' = map (\<lambda>(b, j). ready_execution_fields (ref_of_job j) al (Some (be_queue_name b))
     (Some (be_priority b)) ra None) rows"
    by (cases zs) (simp_all add: x)
  from z have "re_job z = job_id j"
    by (cases "execution_backend_alias (job_id j) (job_backend_alias j) al")
       (simp_all add: ready_execution_fields_def ref_of_job_def)
  with Cons.IH [OF rest] show ?case by (simp add: zs x)
qed simp

lemma release_group_token:
  assumes inv: "queue_inv L A (M + replicate_mset n key) d" and "0 < n"
    and step: "release_recovered_concurrency_group ss cfg key n (L key) dur d = Inr (js, e)"
  shows "queue_inv L A M e"
proof -
  define c where "c = d\<lparr>clock := stl (clock d)\<rparr>"
  define rows where "rows = take n (blocked_rows_in_order ss cfg key c)"
  let ?I = "(\<lambda>x. job_id (snd x)) ` set rows"
  let ?ids = "map (\<lambda>x. job_id (snd x)) rows"
  have ci: "queue_inv L A (M + replicate_mset n key) c" using inv by (simp add: c_def)
  have sel: "selection be_id be_job (blocked_executions c) c rows"
    unfolding rows_def by (intro selection_take blocked_rows_selection [OF ci])
  have keys: "key_of c i = Some key" if "i \<in> ?I" for i
    using that blocked_rows_key(2) [OF ci] by (auto simp: rows_def dest!: in_set_takeD)
  obtain s where s: "find_semaphore c key = Some s" "sem_limit s = L key" "0 \<le> sem_value s"
    "sem_value s + int (holders c key) + int (count M key) + int n = L key"
    using ci by (rule token_has_semaphore [where k = key]) (use assms(2) in auto)
  have len: "length rows \<le> n" by (simp add: rows_def)
  have avail: "min (L key) (max 0 (sem_value s + L key - sem_limit s + int n)) = sem_value s + int n"
    using s by simp
  have pc: "min (int n) (min (sem_value s + int n) (int (length rows))) = int (length rows)"
    using len s by simp
  have all: "first_n (int (length rows)) rows = rows" by (simp add: first_n_def)
  obtain rows' f where con: "(if rows = [] then ([], c)
      else consume_selected_rows ss Blocked (\<lambda>x. be_id (fst x)) rows c) = (rows', f)" by force
  have f: "rows' = rows" "jobs f = jobs c" "semaphores f = semaphores c"
      "queue_inv L (A \<union> ?I) (M + replicate_mset n key) f"
    using con ci blocked.consumed_selection [OF ci sel, of ss rows' f]
    by (auto simp: slot_tokens_def slot_model_def split: if_splits)
  define v where "v = sem_value s + int n - int (length rows)"
  define h where "h = (\<lambda>r :: semaphore. r\<lparr>sem_value := v, sem_active_count := Some (L key - v), sem_limit := L key,
    sem_expires_at := shd (clock d) + seconds dur\<rparr>)"
  define g where "g = save_semaphore key h f"
  note save = save_semaphore_effect [of h key f, folded g_def]
  have only: "only_semaphore key f g" by (rule save(1)) (simp_all add: h_def)
  have fs: "find_semaphore f key = Some s" using f(3) s(1) by (simp add: find_semaphore_def)
  then have gs: "find_semaphore g key = Some ((h s)\<lparr>sem_updated_at := shd (clock f)\<rparr>)"
    using save(2) by (simp add: h_def)
  have "holders f key = holders c key"
    using queue_inv_balance [OF f(4), of key] s by (simp add: slot_balance_def fs)
  then have "slot_balance L (M + replicate_mset (length rows) key) g key"
    using s len only_semaphore_holders [OF only] by (simp add: slot_balance_def gs h_def v_def)
  then have gi: "queue_inv L (A \<union> ?I) (M + replicate_mset (length rows) key) g"
    by (rule queue_inv_semaphore [OF f(4) only, rotated]) simp
  have jg: "jobs g = jobs c" using only f(2) by (simp add: only_semaphore_def)
  note step' = step [unfolded release_recovered_concurrency_group_def timezone_now_def Let_def prod.case,
      folded c_def, folded rows_def, unfolded s(1) option.case avail pc all con f(1) prod.case,
      folded v_def, folded h_def, folded g_def]
  obtain zs k where zs: "map Inr zs = map (\<lambda>(b, j). ready_execution_fields (ref_of_job j)
        (backend_alias cfg) (Some (be_queue_name b)) (Some (be_priority b)) (Some (shd (clock d))) None) rows"
    and k: "bulk_create_ready_executions zs True g = Inr k"
    and e: "e = (if rows = [] then k else notify_ready_queues_on_commit ss cfg
             (dict_fromkeys (map (\<lambda>(b, j). job_queue_name j) rows)) k)"
    using step' by (auto dest!: collect_rows)
  have ids: "map re_job zs = ?ids" using zs by (rule ready_rows_jobs)
  have img: "re_job ` set zs = ?I" by (metis ids list.set_map)
  have "tokens g ?ids = replicate_mset (length rows) key"
    using keys key_of_jobs_cong [OF jg] tokens_same_key [of ?ids g key] by simp
  then have "queue_inv L (A \<union> ?I - re_job ` set zs) M k"
    using gi blocked.selection_distinct_jobs [OF ci sel] img
    by (intro queue_inv_bulk_create_ready [OF k]) (simp_all add: ids)
  moreover have "A \<union> ?I - re_job ` set zs = A"
    using blocked.selected_not_in_transit(1) [OF ci sel] unfolding img by fastforce
  ultimately show ?thesis using e by simp
qed

definition job_token :: "job \<Rightarrow> string multiset" where
  "job_token j = (case job_key j of None \<Rightarrow> {#} | Some k \<Rightarrow> {#k#})"

definition job_tokens :: "job list \<Rightarrow> string multiset" where
  "job_tokens js = sum_list (map job_token js)"

lemma job_tokens_simps [simp]:
  "job_tokens [] = {#}" "job_tokens (j # js) = job_token j + job_tokens js"
  "job_tokens (js @ ks) = job_tokens js + job_tokens ks"
  by (simp_all add: job_tokens_def)

lemma job_tokens_same_key: "\<forall>j\<in>set js. job_key j = Some k \<Longrightarrow> job_tokens js = replicate_mset (length js) k"
  by (induction js) (simp_all add: job_token_def)

definition group_tokens :: "(string \<times> job list) list \<Rightarrow> string multiset" where
  "group_tokens gs = sum_list (map (\<lambda>(k, js). job_tokens js) gs)"

definition groups_ok :: "(job \<Rightarrow> bool) \<Rightarrow> (string \<times> job list) list \<Rightarrow> bool" where
  "groups_ok P gs \<longleftrightarrow> (\<forall>(k, js)\<in>set gs. js \<noteq> [] \<and> (\<forall>j\<in>set js. job_key j = Some k \<and> P j))"

lemma groups_ok_Cons [simp]:
  "groups_ok P []"
  "groups_ok P ((k, js) # gs) \<longleftrightarrow> js \<noteq> [] \<and> (\<forall>j\<in>set js. job_key j = Some k \<and> P j) \<and> groups_ok P gs"
  by (simp_all add: groups_ok_def)

lemma group_tokens_append: "group_tokens (dict_append k j gs) = job_token j + group_tokens gs"
  by (induction gs) (auto simp: group_tokens_def ac_simps)

lemma groups_ok_append:
  "groups_ok P gs \<Longrightarrow> job_key j = Some k \<Longrightarrow> P j \<Longrightarrow> groups_ok P (dict_append k j gs)"
  by (induction k j gs rule: dict_append.induct) (auto simp: groups_ok_Cons)

lemma group_jobs_groups:
  assumes "group_jobs cfg js gs = Inr gs'" and "groups_ok P gs" and "\<forall>j\<in>set js. P j"
  shows "groups_ok P gs'" and "group_tokens gs' = job_tokens js + group_tokens gs"
proof -
  have "groups_ok P gs' \<and> group_tokens gs' = job_tokens js + group_tokens gs"
    using assms
  proof (induction cfg js gs rule: group_jobs.induct)
    case (2 cfg j js gs)
    then show ?case
      by (auto simp: job_token_def group_tokens_append groups_ok_append ac_simps
          split: if_splits option.splits)
  qed simp
  then show "groups_ok P gs'" and "group_tokens gs' = job_tokens js + group_tokens gs" by blast+
qed

lemma all_settings_hd:
  "all_settings ss cfg (j # js) d = Inr (s # r) \<Longrightarrow> release_settings ss cfg j None d = Inr s"
  by auto

lemma recovered_settings_limit:
  assumes "recovered_release_settings ss cfg js d = Inr (Some (l, dur))" and "js \<noteq> []"
    and "\<forall>j\<in>set js. job_key j = Some k \<and> job_policy_ok L j" and "find_semaphore d k = Some s"
    and "sem_limit s = L k"
  shows "l = L k"
proof -
  obtain j js' where js: "js = j # js'" using assms(2) by (cases js) auto
  from assms(1) obtain s' r where all: "all_settings ss cfg (j # js') d = Inr (s' # r)"
    and one: "(case dict_fromkeys (s' # r) of [x] \<Rightarrow> Some x | _ \<Rightarrow> None) = Some (l, dur)"
    by (auto simp: recovered_release_settings_def js split: list.splits)
  have "s' = (l, dur)" using one by (auto split: list.splits)
  with all_settings_hd [OF all] have "release_settings ss cfg j None d = Inr (l, dur)" by simp
  moreover have "job_policy_ok L j" "job_key j = Some k" using assms(3) by (simp_all add: js)
  ultimately show ?thesis
    using assms(4,5) release_settings_limit [of L j k d s ss cfg None l dur] by blast
qed

lemma release_recovered_slots_token:
  assumes inv: "queue_inv L A (M + job_tokens js) d" and pol: "\<forall>j\<in>set js. job_policy_ok L j"
    and step: "release_recovered_concurrency_slots ss cfg js d = Inr (fallback, e)"
  shows "queue_inv L A (M + job_tokens fallback) e \<and> (\<forall>j\<in>set fallback. job_policy_ok L j)"
proof -
  from step obtain gs where gs: "group_jobs cfg js [] = Inr gs"
    and loop: "for_each (\<lambda>(key, group) (fallback, d).
         and_then (recovered_release_settings ss cfg group d) (\<lambda>settings.
           case settings of None \<Rightarrow> Inr (fallback @ group, d)
           | Some (limit, duration_seconds) \<Rightarrow>
               and_then (release_recovered_concurrency_group ss cfg key (length group) limit
                   duration_seconds d) (\<lambda>(_, d). Inr (fallback, d)))) gs ([], d) = Inr (fallback, e)"
    (is "for_each ?f gs ([], d) = _") by (auto simp: release_recovered_concurrency_slots_def)
  have ok: "groups_ok (job_policy_ok L) gs" and tok: "group_tokens gs = job_tokens js"
    using group_jobs_groups [OF gs, of "job_policy_ok L"] pol by (simp_all add: groups_ok_def group_tokens_def)
  have "queue_inv L A (M + job_tokens fb') e' \<and> (\<forall>j\<in>set fb'. job_policy_ok L j)"
    if "for_each ?f hs (fb, c) = Inr (fb', e')" "groups_ok (job_policy_ok L) hs"
      "queue_inv L A (M + job_tokens fb + group_tokens hs) c" "\<forall>j\<in>set fb. job_policy_ok L j" for hs fb c fb' e'
    using that
  proof (induction hs arbitrary: fb c)
    case Nil
    then show ?case by (simp add: group_tokens_def)
  next
    case (Cons h hs)
    obtain k g where h: "h = (k, g)" by force
    have g: "g \<noteq> []" "\<forall>j\<in>set g. job_key j = Some k \<and> job_policy_ok L j"
      using Cons.prems(2) by (auto simp: h groups_ok_def)
    have gt: "job_tokens g = replicate_mset (length g) k" using g(2) by (intro job_tokens_same_key) auto
    have hs: "groups_ok (job_policy_ok L) hs" using Cons.prems(2) by (simp add: groups_ok_def)
    have ci: "queue_inv L A (M + job_tokens fb + group_tokens hs + replicate_mset (length g) k) c"
      using Cons.prems(3) by (simp add: h group_tokens_def gt ac_simps)
    from Cons.prems(1) obtain st where st: "recovered_release_settings ss cfg g c = Inr st"
      by (auto simp: h)
    show ?case
    proof (cases st)
      case None
      with Cons.prems(1) st have rest: "for_each ?f hs (fb @ g, c) = Inr (fb', e')" by (simp add: h)
      from ci gt have "queue_inv L A (M + job_tokens (fb @ g) + group_tokens hs) c" by (simp add: ac_simps)
      from Cons.IH [OF rest hs this] Cons.prems(4) g(2) show ?thesis by auto
    next
      case (Some x)
      obtain l dur where x: "x = (l, dur)" by force
      obtain s where s: "find_semaphore c k = Some s" "sem_limit s = L k"
        using ci by (rule token_has_semaphore [where k = k]) (use g(1) in auto)
      have l: "l = L k" using recovered_settings_limit [OF _ g s] st Some x by blast
      from Cons.prems(1) st Some x l obtain js' f where
        f: "release_recovered_concurrency_group ss cfg k (length g) (L k) dur c = Inr (js', f)"
        and rest: "for_each ?f hs (fb, f) = Inr (fb', e')" by (auto simp: h)
      have "queue_inv L A (M + job_tokens fb + group_tokens hs) f"
        using release_group_token [OF ci _ f] g(1) by simp
      from Cons.IH [OF rest hs this Cons.prems(4)] show ?thesis .
    qed
  qed
  from this [OF loop ok] inv tok show ?thesis by simp
qed

end
