(* ===== verification/Dispatch.thy ===== *)
theory Dispatch
  imports Concurrency
begin

text \<open>
  Deciding where a job goes, \<^verbatim>\<open>operations/dispatch.py\<close>: scheduled for later, ready, blocked
  behind the jobs of its concurrency key, or discarded.  \<open>dispatch_job\<close> handles one job,
  \<open>build_dispatch_rows\<close> prepares the rows of many jobs with one semaphore statement per group.
\<close>

section \<open>Decisions\<close>

datatype dispatch_outcome = READY | SCHEDULED | BLOCKED | DISCARDED

definition should_notify :: "dispatch_outcome \<Rightarrow> bool" where
  "should_notify out \<longleftrightarrow> out = READY"

text \<open>\<open>DispatchDecision\<close>: an outcome, or (with \<open>outcome=None\<close>) the question whether a slot of the
  key is free.\<close>

datatype dispatch_decision =
    Decided dispatch_outcome
  | NeedsSlot (dd_key: string) (dd_limit: int) (dd_duration: int) (dd_on_conflict: string)

definition dispatch_decision ::
  "session \<Rightarrow> backend_config \<Rightarrow> job \<Rightarrow> time \<Rightarrow> task option \<Rightarrow> error + dispatch_decision" where
  "dispatch_decision ss cfg j now task =
     (if (case scheduled_at j of None \<Rightarrow> False | Some t \<Rightarrow> now < t) then Inr (Decided SCHEDULED)
      else case job_key j of
        None \<Rightarrow> Inr (Decided READY)
      | Some key \<Rightarrow>
          and_then (concurrency_settings_for_job ss cfg j task) (\<lambda>(limit, duration_seconds, on_conflict).
            Inr (NeedsSlot key limit duration_seconds on_conflict)))"

definition concurrency_dispatch_outcome :: "string \<Rightarrow> bool \<Rightarrow> dispatch_outcome" where
  "concurrency_dispatch_outcome on_conflict acquired =
     (if acquired then READY else if on_conflict = ''discard'' then DISCARDED else BLOCKED)"

section \<open>One job\<close>

text \<open>The in-memory job is changed too when it is discarded.\<close>

definition discard_saved :: "job \<Rightarrow> time \<Rightarrow> db \<Rightarrow> error + job \<times> db" where
  "discard_saved j now d =
     (let (t, d) = timezone_now d;
          j' = j\<lparr>finished_at := Some now, return_value := JNull, job_updated_at := t\<rparr>
      in if job_id j \<notin> job_ids d then Inl (OperationalError ''Save with update_fields did not affect any rows.'')
         else Inr (j', update_job (job_id j) (\<lambda>r. r\<lparr>finished_at := Some now, return_value := JNull,
                job_updated_at := t\<rparr>) d))"

definition dispatch_job ::
  "session \<Rightarrow> backend_config \<Rightarrow> job \<Rightarrow> time option \<Rightarrow> bool \<Rightarrow> task option \<Rightarrow> db
     \<Rightarrow> error + (dispatch_outcome \<times> job) \<times> db" where
  "dispatch_job ss cfg j now check_conflicts task d =
     (let al = backend_alias cfg;
          (now, d) = (case now of None \<Rightarrow> timezone_now d | Some t \<Rightarrow> (t, d))
      in and_then (dispatch_decision ss cfg j now task) (\<lambda>decision.
         let (out, d) = (case decision of
               Decided out \<Rightarrow> (out, d)
             | NeedsSlot key limit duration_seconds on_conflict \<Rightarrow>
                 (let (acquired, d) = semaphore_acquire ss key limit duration_seconds d
                  in (concurrency_dispatch_outcome on_conflict acquired, d)))
         in case out of
              SCHEDULED \<Rightarrow> and_then (create_scheduled_execution j al (scheduled_at j) check_conflicts d)
                (\<lambda>d. Inr ((SCHEDULED, j), d))
            | READY \<Rightarrow> and_then (create_ready_execution (ref_of_job j) al (Some (job_queue_name j)) None
                (Some now) None check_conflicts d) (\<lambda>d. Inr ((READY, j), d))
            | BLOCKED \<Rightarrow> (case decision of
                Decided _ \<Rightarrow> Inl (TypeError [])
              | NeedsSlot key limit duration_seconds on_conflict \<Rightarrow>
                  and_then (create_blocked_execution (ref_of_job j) al (Some key)
                    (now + seconds duration_seconds) None None check_conflicts d)
                    (\<lambda>d. Inr ((BLOCKED, j), d)))
            | DISCARDED \<Rightarrow>
                (if check_conflicts
                 then and_then (finish_job_if_no_execution_state j JNull now True d)
                   (\<lambda>d. Inr ((DISCARDED, finished_columns JNull now j), d))
                 else and_then (discard_saved j now d) (\<lambda>(j, d). Inr ((DISCARDED, j), d)))))"

section \<open>Many jobs\<close>

record dispatch_entry =
  de_job :: job
  de_decision :: dispatch_decision
  de_outcome :: "dispatch_outcome option"

record dispatch_rows =
  dr_ready :: "ready_execution list"
  dr_scheduled :: "scheduled_execution list"
  dr_blocked :: "blocked_execution list"
  dr_discarded :: "job list"

definition no_rows :: dispatch_rows where
  "no_rows = \<lparr>dr_ready = [], dr_scheduled = [], dr_blocked = [], dr_discarded = []\<rparr>"

definition ready_queue_names :: "dispatch_rows \<Rightarrow> string list" where
  "ready_queue_names rows = dict_fromkeys (map re_queue_name (dr_ready rows))"

text \<open>\<open>_append_dispatch_row\<close> for an entry whose outcome is set; the result is the rows and the
  entry, whose job is marked finished when it is discarded.\<close>

definition append_dispatch_row ::
  "string \<Rightarrow> time \<Rightarrow> dispatch_entry \<Rightarrow> dispatch_outcome \<Rightarrow> dispatch_rows \<Rightarrow> error + dispatch_entry \<times> dispatch_rows" where
  "append_dispatch_row al now entry out rows =
     (let entry = entry\<lparr>de_outcome := Some out\<rparr>; j = de_job entry in
      case out of
        SCHEDULED \<Rightarrow> and_then (scheduled_execution_fields j al (scheduled_at j) (Some now)) (\<lambda>r.
          Inr (entry, rows\<lparr>dr_scheduled := dr_scheduled rows @ [r]\<rparr>))
      | READY \<Rightarrow> and_then (ready_execution_fields (ref_of_job j) al None None (Some now) (Some now)) (\<lambda>r.
          Inr (entry, rows\<lparr>dr_ready := dr_ready rows @ [r]\<rparr>))
      | BLOCKED \<Rightarrow> (case de_decision entry of
          Decided _ \<Rightarrow> Inl (TypeError [])
        | NeedsSlot key limit duration_seconds on_conflict \<Rightarrow>
            Inr (entry, rows\<lparr>dr_blocked := dr_blocked rows @ [\<lparr>be_id = 0, be_job = job_id j,
              be_backend_alias = al, be_queue_name = job_queue_name j, be_priority = job_priority j,
              be_concurrency_key = key, be_expires_at = now + seconds duration_seconds,
              be_created_at = now\<rparr>]\<rparr>))
      | DISCARDED \<Rightarrow>
          (let j = finished_columns JNull now j
           in Inr (entry\<lparr>de_job := j\<rparr>, rows\<lparr>dr_discarded := dr_discarded rows @ [j]\<rparr>)))"

text \<open>The entries are kept in a list and named by their position, as the code shares the entry
  objects between the list and the groups.\<close>

record dispatch_build =
  db_entries :: "dispatch_entry list"
  db_rows :: dispatch_rows
  db_state :: db

definition place_entry ::
  "string \<Rightarrow> time \<Rightarrow> nat \<Rightarrow> dispatch_outcome \<Rightarrow> dispatch_build \<Rightarrow> error + dispatch_build" where
  "place_entry al now i out b =
     and_then (append_dispatch_row al now (db_entries b ! i) out (db_rows b)) (\<lambda>(entry, rows).
       Inr (b\<lparr>db_entries := (db_entries b)[i := entry], db_rows := rows\<rparr>))"

fun group_entries :: "nat \<Rightarrow> dispatch_entry list \<Rightarrow> (dispatch_decision \<times> nat list) list
    \<Rightarrow> (dispatch_decision \<times> nat list) list" where
  "group_entries i [] groups = groups"
| "group_entries i (e # es) groups = group_entries (Suc i) es
     (case de_decision e of Decided _ \<Rightarrow> groups | NeedsSlot _ _ _ _ \<Rightarrow> dict_append (de_decision e) i groups)"

definition place_decided :: "string \<Rightarrow> time \<Rightarrow> nat \<Rightarrow> dispatch_build \<Rightarrow> error + dispatch_build" where
  "place_decided al now i b = (case de_decision (db_entries b ! i) of
      Decided out \<Rightarrow> place_entry al now i out b
    | NeedsSlot _ _ _ _ \<Rightarrow> Inr b)"

definition place_group ::
  "string \<Rightarrow> time \<Rightarrow> dispatch_decision \<times> nat list \<Rightarrow> dispatch_build \<Rightarrow> error + dispatch_build" where
  "place_group al now g b = (case g of (decision, members) \<Rightarrow>
     (case decision of
        Decided _ \<Rightarrow> Inr b
      | NeedsSlot key limit duration_seconds on_conflict \<Rightarrow>
          (let (acquired_count, d) = semaphore_acquire_many key (int (length members)) limit
                 duration_seconds (db_state b)
           in for_each (\<lambda>(index, i). place_entry al now i
                (concurrency_dispatch_outcome on_conflict (int index < acquired_count)))
                (enumerate 0 members) (b\<lparr>db_state := d\<rparr>))))"

text \<open>The two loops of the code: the decided entries in order, then the groups.\<close>

definition build_dispatch_rows ::
  "backend_config \<Rightarrow> dispatch_entry list \<Rightarrow> time \<Rightarrow> db \<Rightarrow> error + dispatch_build" where
  "build_dispatch_rows cfg entries now d =
     and_then (for_each (place_decided (backend_alias cfg) now) [0..<length entries]
         \<lparr>db_entries = entries, db_rows = no_rows, db_state = d\<rparr>) (\<lambda>b.
       for_each (place_group (backend_alias cfg) now) (group_entries 0 entries []) b)"

section \<open>Lemmas on one job\<close>

lemma decision_slot:
  assumes "dispatch_decision ss cfg j now task = Inr (NeedsSlot k l dur c)" and "job_policy_ok L j"
  shows "job_key j = Some k" and "l = L k" and "0 < L k"
proof -
  from assms(1) show k: "job_key j = Some k"
    by (auto simp: dispatch_decision_def split: if_splits option.splits)
  from assms(1) k have "concurrency_settings_for_job ss cfg j task = Inr (l, dur, c)"
    by (auto simp: dispatch_decision_def split: if_splits)
  from settings_limit [OF assms(2) k this] show "l = L k" .
  show "0 < L k" using assms(2) k by (simp add: job_policy_ok_def)
qed

lemma decision_decided:
  "dispatch_decision ss cfg j now task = Inr (Decided out) \<Longrightarrow>
     out = SCHEDULED \<and> (\<exists>t. scheduled_at j = Some t \<and> now < t) \<or> out = READY \<and> job_key j = None"
  by (auto simp: dispatch_decision_def split: if_splits option.splits)

lemma queue_inv_discard_saved:
  assumes "discard_saved j now d = Inr (j', e)" and "queue_inv L A M d" and "job_id j \<in> A"
  shows "queue_inv L (A - {job_id j}) M e"
proof -
  let ?c = "d\<lparr>clock := stl (clock d)\<rparr>"
  let ?f = "\<lambda>r. r\<lparr>finished_at := Some now, return_value := JNull, job_updated_at := shd (clock d)\<rparr>"
  have "e = update_job (job_id j) ?f ?c"
    using assms(1) by (auto simp: discard_saved_def timezone_now_def Let_def split: if_splits)
  moreover have "queue_inv L (A - {job_id j}) M (update_job (job_id j) ?f ?c)"
    using assms(2,3) by (intro queue_inv_finish_job) (simp_all add: keeps_policy_def)
  ultimately show ?thesis by simp
qed

text \<open>Dispatching a job in transit puts it into exactly one state, and a slot is taken for it when
  and only when it becomes ready.\<close>

lemma dispatch_job_inv:
  assumes inv: "queue_inv L A M d" and "job_id j \<in> A" and pol: "job_policy_ok L j"
    and key: "key_of d (job_id j) = job_key j"
    and step: "dispatch_job ss cfg j now check task d = Inr ((out, j'), e)"
  shows "queue_inv L (A - {job_id j}) M e"
proof -
  define nd where "nd = (case now of None \<Rightarrow> timezone_now d | Some t \<Rightarrow> (t, d))"
  obtain t c where nd: "nd = (t, c)" by force
  have ci: "queue_inv L A M c" and jc: "jobs c = jobs d"
    using inv nd by (auto simp: nd_def timezone_now_def split: option.splits)
  note step' = step [unfolded dispatch_job_def Let_def, folded nd_def, unfolded nd prod.case]
  then obtain dec where dec: "dispatch_decision ss cfg j t task = Inr dec" by auto
  have kc: "key_of c (job_id j) = job_key j" using key key_of_jobs_cong [OF jc] by simp
  have ready: "queue_inv L (A - {job_id j}) M f"
    if "create_ready_execution (ref_of_job j) al qn pr ra ca check g = Inr f"
      "queue_inv L A (M + token g (job_id j)) g" for f g al qn pr ra ca
    using queue_inv_create_ready_execution [OF that(1)] that(2) assms(2) by (simp add: ref_of_job_def)
  show ?thesis
  proof (cases dec)
    case (Decided o')
    with dec decision_decided have "o' = SCHEDULED \<or> o' = READY \<and> job_key j = None" by blast
    then show ?thesis
    proof
      assume "o' = SCHEDULED"
      with step' dec Decided ci assms(2) show ?thesis
        by (auto intro: queue_inv_create_scheduled_execution)
    next
      assume "o' = READY \<and> job_key j = None"
      with step' dec Decided have "create_ready_execution (ref_of_job j) (backend_alias cfg)
         (Some (job_queue_name j)) None (Some t) None check c = Inr e" by auto
      then show ?thesis
        by (rule ready) (use ci kc \<open>o' = READY \<and> job_key j = None\<close> in \<open>simp add: token_def\<close>)
    qed
  next
    case (NeedsSlot k l dur oc)
    note slot = decision_slot [OF dec [unfolded NeedsSlot] pol]
    obtain a f where f: "semaphore_acquire ss k (L k) dur c = (a, f)" by force
    note tok = semaphore_acquire_token [OF ci slot(3) f]
    have kf: "key_of f (job_id j) = Some k" using kc slot(1) key_of_jobs_cong [OF tok(3)] by simp
    show ?thesis
    proof (cases a)
      case True
      with step' dec NeedsSlot slot(2) f have "create_ready_execution (ref_of_job j) (backend_alias cfg)
         (Some (job_queue_name j)) None (Some t) None check f = Inr e"
        by (auto simp: concurrency_dispatch_outcome_def)
      then show ?thesis by (rule ready) (use tok(1) True kf in \<open>simp add: token_def\<close>)
    next
      case False
      then have fi: "queue_inv L A M f" using tok(1) by simp
      show ?thesis
      proof (cases "oc = ''discard''")
        case True
        with step' dec NeedsSlot slot(2) f False fi assms(2) show ?thesis
          by (auto simp: concurrency_dispatch_outcome_def split: if_splits
              intro: queue_inv_finish_if_no_state queue_inv_discard_saved)
      next
        case False
        with step' dec NeedsSlot slot(2) f \<open>\<not> a\<close> obtain ex where
          "create_blocked_execution (ref_of_job j) (backend_alias cfg) (Some k) ex None None check f = Inr e"
          by (auto simp: concurrency_dispatch_outcome_def)
        from queue_inv_create_blocked_execution [OF this fi] assms(2) kf show ?thesis
          by (simp add: ref_of_job_def)
      qed
    qed
  qed
qed

section \<open>Lemmas on many jobs\<close>

definition row_jobs :: "dispatch_rows \<Rightarrow> uuid list" where
  "row_jobs rows = map re_job (dr_ready rows) @ map se_job (dr_scheduled rows)
     @ map be_job (dr_blocked rows) @ map job_id (dr_discarded rows)"

abbreviation entry_id :: "dispatch_entry list \<Rightarrow> nat \<Rightarrow> uuid" where
  "entry_id entries i \<equiv> job_id (de_job (entries ! i))"

text \<open>What has been built when the entries at the positions \<open>P\<close> have been placed: one row for
  each of them, blocked rows under the key of the decision.\<close>

definition built :: "dispatch_entry list \<Rightarrow> dispatch_build \<Rightarrow> nat list \<Rightarrow> bool" where
  "built entries b P \<longleftrightarrow> length (db_entries b) = length entries
     \<and> (\<forall>i. i \<notin> set P \<longrightarrow> db_entries b ! i = entries ! i)
     \<and> mset (row_jobs (db_rows b)) = mset (map (entry_id entries) P)
     \<and> (\<forall>j\<in>set (dr_discarded (db_rows b)). finished_at j \<noteq> None)
     \<and> (\<forall>x\<in>set (dr_blocked (db_rows b)). \<exists>i\<in>set P. be_job x = entry_id entries i
          \<and> (\<exists>l dur c. de_decision (entries ! i) = NeedsSlot (be_concurrency_key x) l dur c))"

lemma append_row_effect:
  assumes "append_dispatch_row al now e out rows = Inr (e', rows')"
  shows "mset (row_jobs rows') = add_mset (job_id (de_job e)) (mset (row_jobs rows))"
    and "map re_job (dr_ready rows') = map re_job (dr_ready rows) @ (if out = READY then [job_id (de_job e)] else [])"
    and "\<forall>x\<in>set (dr_blocked rows'). x \<in> set (dr_blocked rows) \<or> be_job x = job_id (de_job e)
          \<and> (\<exists>l dur c. de_decision e = NeedsSlot (be_concurrency_key x) l dur c)"
    and "\<forall>j\<in>set (dr_discarded rows'). j \<in> set (dr_discarded rows) \<or> finished_at j \<noteq> None"
  using assms
  by (cases out; auto simp: append_dispatch_row_def Let_def row_jobs_def scheduled_execution_fields_def
      ready_execution_fields_def ref_of_job_def finished_columns_def
      split: dispatch_decision.splits option.splits)+

lemma built_place:
  assumes b: "built entries b P" and i: "i \<notin> set P" and "place_entry al now i out b = Inr b'"
  shows "built entries b' (P @ [i])" and "db_state b' = db_state b"
    and "map re_job (dr_ready (db_rows b')) =
      map re_job (dr_ready (db_rows b)) @ (if out = READY then [entry_id entries i] else [])"
proof -
  have e: "db_entries b ! i = entries ! i" using b i by (simp add: built_def)
  from assms(3) obtain e' rows' where app: "append_dispatch_row al now (entries ! i) out (db_rows b) = Inr (e', rows')"
    and b': "b' = b\<lparr>db_entries := (db_entries b)[i := e'], db_rows := rows'\<rparr>"
    by (auto simp: place_entry_def e)
  note eff = append_row_effect [OF app]
  have len: "length (db_entries b') = length entries" using b by (simp add: b' built_def)
  have same: "\<forall>i'. i' \<notin> set (P @ [i]) \<longrightarrow> db_entries b' ! i' = entries ! i'" using b by (simp add: b' built_def)
  have ms: "mset (row_jobs (db_rows b')) = mset (map (entry_id entries) (P @ [i]))"
    using b eff(1) by (simp add: b' built_def)
  have blk: "\<forall>x\<in>set (dr_blocked (db_rows b')). \<exists>i\<in>set (P @ [i]). be_job x = entry_id entries i
      \<and> (\<exists>l dur c. de_decision (entries ! i) = NeedsSlot (be_concurrency_key x) l dur c)"
    using b eff(3) by (simp add: b' built_def) blast
  have "\<forall>j\<in>set (dr_discarded (db_rows b')). finished_at j \<noteq> None"
    using b eff(4) by (auto simp: b' built_def)
  then show "built entries b' (P @ [i])" unfolding built_def using len same ms blk by blast
  show "db_state b' = db_state b" by (simp add: b')
  show "map re_job (dr_ready (db_rows b')) =
      map re_job (dr_ready (db_rows b)) @ (if out = READY then [entry_id entries i] else [])"
    using eff(2) by (simp add: b')
qed

definition is_decided :: "dispatch_entry \<Rightarrow> bool" where
  "is_decided e \<longleftrightarrow> (\<exists>out. de_decision e = Decided out)"

lemma place_decided_loop:
  assumes "for_each (place_decided al now) is b = Inr b'" and "built entries b P"
    and "distinct is" and "set is \<inter> set P = {}"
    and "\<forall>i\<in>set is. de_decision (entries ! i) = Decided READY \<longrightarrow> key_of d (entry_id entries i) = None"
  shows "built entries b' (P @ filter (\<lambda>i. is_decided (entries ! i)) is) \<and> db_state b' = db_state b
    \<and> tokens d (map re_job (dr_ready (db_rows b'))) = tokens d (map re_job (dr_ready (db_rows b)))"
  using assms
proof (induction "is" arbitrary: b P)
  case Nil
  then show ?case by simp
next
  case (Cons i "is")
  from Cons.prems(1) obtain c where c: "place_decided al now i b = Inr c"
    and rest: "for_each (place_decided al now) is c = Inr b'" by auto
  have i: "i \<notin> set P" using Cons.prems(4) by simp
  have e: "db_entries b ! i = entries ! i" using Cons.prems(2) i by (simp add: built_def)
  show ?case
  proof (cases "de_decision (entries ! i)")
    case (Decided o')
    with c e have pl: "place_entry al now i o' b = Inr c" by (simp add: place_decided_def)
    note one = built_place [OF Cons.prems(2) i pl]
    have tok: "tokens d (map re_job (dr_ready (db_rows c))) = tokens d (map re_job (dr_ready (db_rows b)))"
      using one(3) Cons.prems(5) Decided by (simp add: token_def)
    have "set is \<inter> set (P @ [i]) = {}" using Cons.prems(3,4) by auto
    from Cons.IH [OF rest one(1) _ this] Cons.prems(3,5) one(2) tok Decided show ?thesis
      by (simp add: is_decided_def)
  next
    case (NeedsSlot k l dur c')
    with c e have "c = b" by (simp add: place_decided_def)
    with Cons.IH [OF rest] Cons.prems NeedsSlot show ?thesis by (simp add: is_decided_def)
  qed
qed

lemma place_members:
  assumes "for_each (\<lambda>(index, i). place_entry al now i
      (concurrency_dispatch_outcome oc (int index < n))) (enumerate s is) b = Inr b'"
    and "built entries b P" and "distinct is" and "set is \<inter> set P = {}"
  shows "built entries b' (P @ is)" and "db_state b' = db_state b"
    and "map re_job (dr_ready (db_rows b')) =
      map re_job (dr_ready (db_rows b)) @ map (entry_id entries) (take (nat (n - int s)) is)"
proof -
  have "built entries b' (P @ is) \<and> db_state b' = db_state b \<and> map re_job (dr_ready (db_rows b')) =
      map re_job (dr_ready (db_rows b)) @ map (entry_id entries) (take (nat (n - int s)) is)"
    using assms
  proof (induction "is" arbitrary: s b P)
    case Nil
    then show ?case by simp
  next
    case (Cons i "is")
    from Cons.prems(1) obtain c where
      c: "place_entry al now i (concurrency_dispatch_outcome oc (int s < n)) b = Inr c"
      and rest: "for_each (\<lambda>(index, i). place_entry al now i
        (concurrency_dispatch_outcome oc (int index < n))) (enumerate (Suc s) is) c = Inr b'" by auto
    have i: "i \<notin> set P" using Cons.prems(4) by simp
    note one = built_place [OF Cons.prems(2) i c]
    have "set is \<inter> set (P @ [i]) = {}" using Cons.prems(3,4) by auto
    note IH = Cons.IH [OF rest one(1) _ this]
    have ready: "concurrency_dispatch_outcome oc (int s < n) = READY \<longleftrightarrow> int s < n"
      by (simp add: concurrency_dispatch_outcome_def)
    have "take (nat (n - int s)) (i # is) = (if int s < n then [i] else []) @ take (nat (n - int (Suc s))) is"
    proof (cases "int s < n")
      case True
      then have "nat (n - int s) = Suc (nat (n - int (Suc s)))" by linarith
      with True show ?thesis by simp
    qed simp
    with IH one(2,3) Cons.prems(3) ready show ?case by simp
  qed
  then show "built entries b' (P @ is)" "db_state b' = db_state b"
    "map re_job (dr_ready (db_rows b')) =
      map re_job (dr_ready (db_rows b)) @ map (entry_id entries) (take (nat (n - int s)) is)" by blast+
qed

text \<open>The groups cover the undecided entries, each under its own decision.\<close>

lemma concat_dict_append: "mset (concat (map snd (dict_append k v gs))) = add_mset v (mset (concat (map snd gs)))"
  by (induction k v gs rule: dict_append.induct) auto

lemma set_dict_append:
  "(k', vs) \<in> set (dict_append k v gs) \<Longrightarrow> x \<in> set vs \<Longrightarrow>
     k' = k \<and> x = v \<or> (\<exists>ws. (k', ws) \<in> set gs \<and> x \<in> set ws)"
  by (induction k v gs rule: dict_append.induct) (auto split: if_splits)

lemma mset_group_entries:
  "mset (concat (map snd (group_entries i es gs))) =
     mset (map (\<lambda>k. k + i) (filter (\<lambda>k. \<not> is_decided (es ! k)) [0..<length es])) + mset (concat (map snd gs))"
proof (induction i es gs rule: group_entries.induct)
  case (2 i e es gs)
  have "[0..<length (e # es)] = 0 # map Suc [0..<length es]"
    by (simp add: upt_conv_Cons map_Suc_upt del: upt_Suc)
  then show ?case using 2
    by (simp add: filter_map comp_def is_decided_def concat_dict_append image_mset.compositionality
        split: dispatch_decision.splits)
qed simp

lemma group_entries_decision:
  assumes "(dec, is) \<in> set (group_entries i es gs)" and "k \<in> set is"
  shows "(i \<le> k \<and> k < i + length es \<and> de_decision (es ! (k - i)) = dec)
    \<or> (\<exists>js. (dec, js) \<in> set gs \<and> k \<in> set js)"
  using assms
proof (induction i es gs rule: group_entries.induct)
  case (2 i e es gs)
  from "2.IH" [OF "2.prems"(1) [unfolded group_entries.simps] "2.prems"(2)] show ?case
  proof
    assume "Suc i \<le> k \<and> k < Suc i + length es \<and> de_decision (es ! (k - Suc i)) = dec"
    moreover from this have "k - i = Suc (k - Suc i)" by auto
    ultimately show ?case by auto
  next
    assume "\<exists>js. (dec, js) \<in> set (case de_decision e of Decided x \<Rightarrow> gs
        | NeedsSlot w x y z \<Rightarrow> dict_append (de_decision e) i gs) \<and> k \<in> set js"
    then show ?case by (cases "de_decision e") (auto dest: set_dict_append)
  qed
qed auto

text \<open>Placing the groups: the tokens obtained for a group are those of the entries placed as
  ready.\<close>

definition entry_ok :: "(string \<Rightarrow> int) \<Rightarrow> db \<Rightarrow> dispatch_entry \<Rightarrow> bool" where
  "entry_ok L d e \<longleftrightarrow> (case de_decision e of
      Decided out \<Rightarrow> out = SCHEDULED \<or> out = READY \<and> key_of d (job_id (de_job e)) = None
    | NeedsSlot k l dur c \<Rightarrow> key_of d (job_id (de_job e)) = Some k \<and> l = L k \<and> 0 < L k)"

lemma place_group_inv:
  assumes b: "built entries b P" and inv: "queue_inv L A (M + tokens (db_state b) (map re_job (dr_ready (db_rows b)))) (db_state b)"
    and mem: "distinct is" "set is \<inter> set P = {}"
    and dec: "\<forall>i\<in>set is. de_decision (entries ! i) = dec \<and> entry_ok L (db_state b) (entries ! i)"
    and step: "place_group al now (dec, is) b = Inr b'"
  shows "queue_inv L A (M + tokens (db_state b') (map re_job (dr_ready (db_rows b')))) (db_state b')"
    and "built entries b' (P @ is) \<or> (\<exists>out. dec = Decided out)" and "jobs (db_state b') = jobs (db_state b)"
proof -
  show "queue_inv L A (M + tokens (db_state b') (map re_job (dr_ready (db_rows b')))) (db_state b')"
    and "built entries b' (P @ is) \<or> (\<exists>out. dec = Decided out)" and "jobs (db_state b') = jobs (db_state b)"
  proof (atomize(full), cases "dec")
    case (Decided out)
    with step inv show "queue_inv L A (M + tokens (db_state b') (map re_job (dr_ready (db_rows b')))) (db_state b')
      \<and> (built entries b' (P @ is) \<or> (\<exists>out. dec = Decided out)) \<and> jobs (db_state b') = jobs (db_state b)"
      by (simp add: place_group_def)
  next
    case (NeedsSlot k l dur oc)
    obtain n d where acq: "semaphore_acquire_many k (int (length is)) l dur (db_state b) = (n, d)" by force
    let ?R = "map re_job (dr_ready (db_rows b))"
    have keys: "key_of (db_state b) (entry_id entries i) = Some k" "l = L k" "0 < L k" if "i \<in> set is" for i
      using dec that NeedsSlot by (auto simp: entry_ok_def)
    have d: "queue_inv L A (M + tokens (db_state b) ?R + replicate_mset (nat n) k) d" "jobs d = jobs (db_state b)"
      "n \<le> int (length is)"
    proof (atomize(full), cases "is = []")
      case True
      then have "n = 0" "d = db_state b" using acq by (simp_all add: semaphore_acquire_many_def)
      then show "queue_inv L A (M + tokens (db_state b) ?R + replicate_mset (nat n) k) d
        \<and> jobs d = jobs (db_state b) \<and> n \<le> int (length is)" using inv by simp
    next
      case False
      then obtain i where "i \<in> set is" by (cases "is") auto
      note tok = semaphore_acquire_many_token [OF inv keys(3) [OF this] acq [unfolded keys(2) [OF this]]]
      then show "queue_inv L A (M + tokens (db_state b) ?R + replicate_mset (nat n) k) d
        \<and> jobs d = jobs (db_state b) \<and> n \<le> int (length is)" by auto
    qed
    let ?b = "b\<lparr>db_state := d\<rparr>"
    have b': "built entries ?b P" using b by (simp add: built_def)
    have loop: "for_each (\<lambda>(index, i). place_entry al now i
        (concurrency_dispatch_outcome oc (int index < n))) (enumerate 0 is) ?b = Inr b'"
      using step acq NeedsSlot by (simp add: place_group_def)
    note pl = place_members [OF loop b' mem]
    have kd: "key_of d = key_of (db_state b)" using d(2) by (rule key_of_jobs_cong)
    have "tokens d (map (entry_id entries) (take (nat n) is)) = replicate_mset (nat n) k"
    proof -
      have "length (take (nat n) is) = nat n" using d(3) by simp
      moreover have "\<forall>i\<in>set (map (entry_id entries) (take (nat n) is)). key_of d i = Some k"
        using keys(1) kd by (auto dest: in_set_takeD)
      ultimately show ?thesis
        using tokens_same_key [of "map (entry_id entries) (take (nat n) is)" d k] by simp
    qed
    then have "tokens d (map re_job (dr_ready (db_rows b'))) = tokens (db_state b) ?R + replicate_mset (nat n) k"
      using pl(3) tokens_jobs_cong [OF d(2)] by simp
    with pl(1,2) d show "queue_inv L A (M + tokens (db_state b') (map re_job (dr_ready (db_rows b')))) (db_state b')
      \<and> (built entries b' (P @ is) \<or> (\<exists>out. dec = Decided out)) \<and> jobs (db_state b') = jobs (db_state b)"
      by (simp add: ac_simps)
  qed
qed

lemma place_groups_inv:
  assumes "for_each (place_group al now) gs b = Inr b'" and "built entries b P"
    and "queue_inv L A (M + tokens (db_state b) (map re_job (dr_ready (db_rows b)))) (db_state b)"
    and "distinct (concat (map snd gs))" and "set (concat (map snd gs)) \<inter> set P = {}"
    and "\<forall>(dec, is)\<in>set gs. \<forall>i\<in>set is. de_decision (entries ! i) = dec
          \<and> \<not> is_decided (entries ! i) \<and> entry_ok L (db_state b) (entries ! i)"
    and "\<forall>(dec, is)\<in>set gs. is \<noteq> []"
  shows "queue_inv L A (M + tokens (db_state b') (map re_job (dr_ready (db_rows b')))) (db_state b')
    \<and> built entries b' (P @ concat (map snd gs)) \<and> jobs (db_state b') = jobs (db_state b)"
  using assms
proof (induction gs arbitrary: b P)
  case Nil
  then show ?case by simp
next
  case (Cons g gs)
  obtain dec "is" where g: "g = (dec, is)" by force
  from Cons.prems(1) obtain c where c: "place_group al now (dec, is) b = Inr c"
    and rest: "for_each (place_group al now) gs c = Inr b'" by (auto simp: g)
  have mem: "distinct is" "set is \<inter> set P = {}" using Cons.prems(4,5) by (auto simp: g)
  have dec: "\<forall>i\<in>set is. de_decision (entries ! i) = dec \<and> entry_ok L (db_state b) (entries ! i)"
    using Cons.prems(6) by (simp add: g)
  note one = place_group_inv [OF Cons.prems(2,3) mem dec c]
  obtain i where "i \<in> set is" using Cons.prems(7) by (cases "is") (auto simp: g)
  then have "\<not> (\<exists>out. dec = Decided out)" using Cons.prems(6) by (auto simp: g is_decided_def)
  with one(2) have built: "built entries c (P @ is)" by blast
  have "entry_ok L (db_state c) = entry_ok L (db_state b)"
    using key_of_jobs_cong [OF one(3)] by (simp add: entry_ok_def fun_eq_iff cong: dispatch_decision.case_cong)
  then have "queue_inv L A (M + tokens (db_state b') (map re_job (dr_ready (db_rows b')))) (db_state b')
    \<and> built entries b' ((P @ is) @ concat (map snd gs)) \<and> jobs (db_state b') = jobs (db_state c)"
    using Cons.prems(4-7) by (intro Cons.IH [OF rest built one(1)]) (auto simp: g)
  with one(3) show ?case by (simp add: g)
qed

lemma dict_append_nonempty: "\<forall>(k, vs)\<in>set gs. vs \<noteq> [] \<Longrightarrow> \<forall>(k, vs)\<in>set (dict_append k v gs). vs \<noteq> []"
  by (induction k v gs rule: dict_append.induct) (auto split: if_splits)

lemma group_entries_nonempty:
  "\<forall>(dec, is)\<in>set gs. is \<noteq> [] \<Longrightarrow> \<forall>(dec, is)\<in>set (group_entries i es gs). is \<noteq> []"
proof (induction i es gs rule: group_entries.induct)
  case (2 i e es gs)
  have "\<forall>(dec, is)\<in>set (dict_append (de_decision e) i gs). is \<noteq> []"
    using "2.prems" by (rule dict_append_nonempty)
  then show ?case unfolding group_entries.simps
    by (intro "2.IH") (use "2.prems" in \<open>cases "de_decision e"; simp only: dispatch_decision.case\<close>)
qed simp

lemma mset_filter_split: "mset (filter P xs) + mset (filter (\<lambda>x. \<not> P x) xs) = mset xs"
  by (induction xs) auto

text \<open>Building the rows for jobs in transit: every entry gets exactly one row, and the transaction
  holds exactly the slots of the ready rows.\<close>

lemma build_dispatch_rows_inv:
  assumes inv: "queue_inv L A M d" and ok: "\<forall>e\<in>set entries. entry_ok L d e"
    and step: "build_dispatch_rows cfg entries now d = Inr b"
  shows "queue_inv L A (M + tokens (db_state b) (map re_job (dr_ready (db_rows b)))) (db_state b)"
    and "mset (row_jobs (db_rows b)) = mset (map (\<lambda>e. job_id (de_job e)) entries)"
    and "\<forall>x\<in>set (dr_blocked (db_rows b)). key_of d (be_job x) = Some (be_concurrency_key x)"
    and "jobs (db_state b) = jobs d"
    and "\<forall>j\<in>set (dr_discarded (db_rows b)). finished_at j \<noteq> None"
proof -
  let ?n = "length entries"
  let ?gs = "group_entries 0 entries []"
  let ?P = "filter (\<lambda>i. is_decided (entries ! i)) [0..<?n]"
  let ?b0 = "\<lparr>db_entries = entries, db_rows = no_rows, db_state = d\<rparr>"
  from step obtain c where c: "for_each (place_decided (backend_alias cfg) now) [0..<?n] ?b0 = Inr c"
    and gs: "for_each (place_group (backend_alias cfg) now) ?gs c = Inr b"
    by (auto simp: build_dispatch_rows_def)
  have b0: "built entries ?b0 []" by (simp add: built_def no_rows_def row_jobs_def)
  have "\<forall>i\<in>set [0..<?n]. de_decision (entries ! i) = Decided READY \<longrightarrow> key_of d (entry_id entries i) = None"
  proof (intro ballI impI)
    fix i assume "i \<in> set [0..<?n]" "de_decision (entries ! i) = Decided READY"
    moreover from this have "entry_ok L d (entries ! i)" using ok by simp
    ultimately show "key_of d (entry_id entries i) = None" by (simp add: entry_ok_def)
  qed
  from place_decided_loop [OF c b0 _ _ this]
  have cb: "built entries c ?P" "db_state c = d" "tokens d (map re_job (dr_ready (db_rows c))) = {#}"
    by (simp_all add: no_rows_def)
  have ms: "mset (concat (map snd ?gs)) = mset (filter (\<lambda>i. \<not> is_decided (entries ! i)) [0..<?n])"
    using mset_group_entries [of 0 entries "[]"] by simp
  then have "set (concat (map snd ?gs)) = set (filter (\<lambda>i. \<not> is_decided (entries ! i)) [0..<?n])"
    by (rule mset_eq_setD)
  moreover have "distinct (concat (map snd ?gs))" using ms mset_eq_imp_distinct_iff by fastforce
  moreover have "\<forall>(dec, is)\<in>set ?gs. \<forall>i\<in>set is. de_decision (entries ! i) = dec
      \<and> \<not> is_decided (entries ! i) \<and> entry_ok L (db_state c) (entries ! i)"
  proof (clarify, intro conjI)
    fix dec "is" i assume g: "(dec, is) \<in> set ?gs" "i \<in> set is"
    from group_entries_decision [OF this] have i: "i < ?n" "de_decision (entries ! i) = dec" by auto
    then show "de_decision (entries ! i) = dec" by blast
    have "i \<in> set (concat (map snd ?gs))" using g by force
    then have "i \<in> set (filter (\<lambda>i. \<not> is_decided (entries ! i)) [0..<?n])" using calculation(1) by blast
    then show "\<not> is_decided (entries ! i)" by simp
    show "entry_ok L (db_state c) (entries ! i)" using ok i cb(2) by simp
  qed
  ultimately have fin: "queue_inv L A (M + tokens (db_state b) (map re_job (dr_ready (db_rows b)))) (db_state b)
      \<and> built entries b (?P @ concat (map snd ?gs)) \<and> jobs (db_state b) = jobs (db_state c)"
    using inv cb group_entries_nonempty [of "[]" 0 entries] by (intro place_groups_inv [OF gs cb(1)]) auto
  then show "queue_inv L A (M + tokens (db_state b) (map re_job (dr_ready (db_rows b)))) (db_state b)"
    and "jobs (db_state b) = jobs d" using cb(2) by simp_all
  show "\<forall>j\<in>set (dr_discarded (db_rows b)). finished_at j \<noteq> None" using fin by (simp add: built_def)
  have "mset (?P @ concat (map snd ?gs)) = mset [0..<?n]"
    using ms mset_filter_split [of "\<lambda>i. is_decided (entries ! i)" "[0..<?n]"] by simp
  then have "mset (map (entry_id entries) (?P @ concat (map snd ?gs))) = mset (map (entry_id entries) [0..<?n])"
    by (metis mset_map)
  moreover have "map (entry_id entries) [0..<?n] = map (\<lambda>e. job_id (de_job e)) entries"
    by (rule nth_equalityI) simp_all
  ultimately show "mset (row_jobs (db_rows b)) = mset (map (\<lambda>e. job_id (de_job e)) entries)"
    using fin unfolding built_def by simp
  have placed: "set (?P @ concat (map snd ?gs)) \<subseteq> {0..<?n}"
    using \<open>mset (?P @ _) = mset [0..<?n]\<close> by (metis atLeastLessThan_upt mset_eq_setD order_refl)
  show "\<forall>x\<in>set (dr_blocked (db_rows b)). key_of d (be_job x) = Some (be_concurrency_key x)"
  proof
    fix x assume "x \<in> set (dr_blocked (db_rows b))"
    then obtain i l dur c' where i: "i \<in> set (?P @ concat (map snd ?gs))" "be_job x = entry_id entries i"
      "de_decision (entries ! i) = NeedsSlot (be_concurrency_key x) l dur c'"
      using fin unfolding built_def by blast
    then have "i < ?n" using placed by auto
    then have "entry_ok L d (entries ! i)" using ok by simp
    with i show "key_of d (be_job x) = Some (be_concurrency_key x)" by (simp add: entry_ok_def)
  qed
qed

end
