(* ===== verification/Enqueue.thy ===== *)
theory Enqueue
  imports Dispatch
begin

text \<open>
  Enqueueing, \<^verbatim>\<open>operations/enqueue.py\<close>: validation, the submission built from a task call
  (payload, concurrency key and policy), and the transactions that create and dispatch one job or
  many.  The identifiers \<open>uuid4()\<close> would draw are arguments.
\<close>

section \<open>Validation\<close>

definition validate_queue_allowed :: "backend_config \<Rightarrow> string \<Rightarrow> error + unit" where
  "validate_queue_allowed cfg queue_name =
     (if allowed_queues cfg \<noteq> [] \<and> queue_name \<notin> set (allowed_queues cfg)
      then Inl (EnqueueError (''queue '' @ py_repr queue_name @ '' is not allowed for backend ''
             @ py_repr (backend_alias cfg)))
      else Inr ())"

definition validate_priority :: "option_value \<Rightarrow> error + unit" where
  "validate_priority p = (case p of
      OInt n \<Rightarrow> (if n < -100 \<or> 100 < n
        then Inl (EnqueueError ''priority must be an integer from -100 to 100'') else Inr ())
    | _ \<Rightarrow> Inl (EnqueueError ''priority must be an integer from -100 to 100''))"

definition resolve_concurrency_key ::
  "task \<Rightarrow> pyval list \<Rightarrow> (string \<times> pyval) list \<Rightarrow> error + string option" where
  "resolve_concurrency_key t args kwargs =
     (let opt = task_option t ''concurrency_key'' ONone in
      if is_missing opt then Inr None
      else
        and_then (case opt of
            OCallable f \<Rightarrow> f args kwargs
          | OStr template \<Rightarrow>
              (case bound_format t template args kwargs of
                 Inr s \<Rightarrow> Inr (OStr s)
               | Inl (LookupError _) \<Rightarrow> Inl (EnqueueError ''could not resolve concurrency_key'')
               | Inl (ValueError _) \<Rightarrow> Inl (EnqueueError ''could not resolve concurrency_key'')
               | Inl e \<Rightarrow> Inl e)
          | _ \<Rightarrow> Inl (EnqueueError ''concurrency_key must be a string or callable'')) (\<lambda>v.
        case v of
          OStr s \<Rightarrow> (if s = [] \<or> 255 < length s
            then Inl (EnqueueError ''concurrency_key must resolve to a non-empty string up to 255 chars'')
            else Inr (Some s))
        | _ \<Rightarrow> Inl (EnqueueError ''concurrency_key must resolve to a non-empty string up to 255 chars'')))"

definition concurrency_policy ::
  "backend_config \<Rightarrow> task \<Rightarrow> string option \<Rightarrow> error + int option \<times> int option \<times> string option" where
  "concurrency_policy cfg t key = (case key of
      None \<Rightarrow> Inr (None, None, None)
    | Some _ \<Rightarrow> and_then (concurrency_settings cfg t) (\<lambda>(limit, duration, on_conflict).
        Inr (Some limit, Some duration, Some on_conflict)))"

text \<open>\<open>IntegerField\<close> turns the priority into a number when the row is written.\<close>

definition column_int :: "option_value \<Rightarrow> error + int" where
  "column_int v = (case v of
      OInt n \<Rightarrow> Inr n
    | OBool b \<Rightarrow> Inr (if b then 1 else 0)
    | OStr s \<Rightarrow> (if isdecimal (strip s) then Inr (int (nat_of_digits (strip s)))
        else Inl (ValueError ''Field expected a number''))
    | _ \<Rightarrow> Inl (TypeError ''Field expected a number''))"

text \<open>\<open>_prepare_submission\<close>: the fields of the new job, with its identifier.\<close>

definition prepare_submission ::
  "session \<Rightarrow> backend_config \<Rightarrow> task \<Rightarrow> pyval list \<Rightarrow> (string \<times> pyval) list \<Rightarrow> bool \<Rightarrow> uuid \<Rightarrow> error + job" where
  "prepare_submission ss cfg t args kwargs validate new_id =
     and_then (if validate then and_then (validate_queue_allowed cfg (t_queue_name t))
                  (\<lambda>_. validate_priority (t_priority t)) else Inr ()) (\<lambda>_.
     and_then (normalize_payload (float_repr ss) args (map (\<lambda>(k, v). (PStr k, v)) kwargs)) (\<lambda>pl.
     and_then (resolve_concurrency_key t args kwargs) (\<lambda>key.
     and_then (concurrency_policy cfg t key) (\<lambda>(limit, duration, on_conflict).
     and_then (column_int (t_priority t)) (\<lambda>pr.
       Inr \<lparr>job_id = new_id, task_path = module_path t, job_queue_name = t_queue_name t,
            job_priority = pr, payload = pl, job_backend_alias = backend_alias cfg,
            scheduled_at = run_after t, concurrency_key = key, concurrency_limit = limit,
            concurrency_duration = duration, concurrency_on_conflict = on_conflict,
            finished_at = None, return_value = JNull, job_created_at = 0, job_updated_at = 0\<rparr>)))))"

section \<open>One job\<close>

definition enqueue_transition ::
  "session \<Rightarrow> backend_config \<Rightarrow> task \<Rightarrow> job \<Rightarrow> db \<Rightarrow> error + (dispatch_outcome \<times> job) \<times> db" where
  "enqueue_transition ss cfg t j d =
     and_then (create_job j d) (\<lambda>(j, d). dispatch_job ss cfg j None False (Some t) d)"

definition enqueue_job_with_dispatch ::
  "session \<Rightarrow> backend_config \<Rightarrow> task \<Rightarrow> pyval list \<Rightarrow> (string \<times> pyval) list \<Rightarrow> bool \<Rightarrow> uuid \<Rightarrow> db
     \<Rightarrow> error + (dispatch_outcome \<times> job) \<times> db" where
  "enqueue_job_with_dispatch ss cfg t args kwargs validate new_id d =
     and_then (prepare_submission ss cfg t args kwargs validate new_id) (\<lambda>j.
     and_then (enqueue_transition ss cfg t j d) (\<lambda>((out, j), d).
       Inr ((out, j), if should_notify out
         then notify_ready_queues_on_commit ss cfg [job_queue_name j] d else d)))"

definition enqueue_job ::
  "session \<Rightarrow> backend_config \<Rightarrow> task \<Rightarrow> pyval list \<Rightarrow> (string \<times> pyval) list \<Rightarrow> uuid \<Rightarrow> db \<Rightarrow> error + job \<times> db" where
  "enqueue_job ss cfg t args kwargs new_id d =
     and_then (enqueue_job_with_dispatch ss cfg t args kwargs True new_id d) (\<lambda>((out, j), d). Inr (j, d))"

section \<open>Many jobs\<close>

fun prepare_submissions ::
  "session \<Rightarrow> backend_config \<Rightarrow> bool \<Rightarrow> ((task \<times> pyval list \<times> (string \<times> pyval) list) \<times> uuid) list \<Rightarrow> error + job list" where
  "prepare_submissions ss cfg validate [] = Inr []"
| "prepare_submissions ss cfg validate (((t, args, kwargs), i) # calls) =
     and_then (prepare_submission ss cfg t args kwargs validate i) (\<lambda>j.
     and_then (prepare_submissions ss cfg validate calls) (\<lambda>js. Inr (j # js)))"

fun prepare_entries ::
  "session \<Rightarrow> backend_config \<Rightarrow> time \<Rightarrow> job list \<Rightarrow> error + dispatch_entry list" where
  "prepare_entries ss cfg now [] = Inr []"
| "prepare_entries ss cfg now (j # js) =
     (let j = j\<lparr>job_created_at := now, job_updated_at := now\<rparr> in
      and_then (dispatch_decision ss cfg j now None) (\<lambda>dec.
      and_then (prepare_entries ss cfg now js) (\<lambda>es.
        Inr (\<lparr>de_job = j, de_decision = dec, de_outcome = None\<rparr> # es))))"

text \<open>The bulk inserts: the jobs, then the ready, scheduled and blocked rows, then one bulk update
  for the discarded jobs.\<close>

definition create_jobs :: "job list \<Rightarrow> db \<Rightarrow> error + db" where
  "create_jobs js d = for_each (\<lambda>j d. and_then (create_job j d) (\<lambda>(_, d). Inr d)) js d"

definition bulk_update_results :: "job list \<Rightarrow> db \<Rightarrow> db" where
  "bulk_update_results js d = fold (\<lambda>j. update_job (job_id j) (\<lambda>r. r\<lparr>finished_at := finished_at j,
     return_value := return_value j, job_updated_at := job_updated_at j\<rparr>)) js d"

definition insert_dispatch_rows :: "dispatch_rows \<Rightarrow> db \<Rightarrow> error + db" where
  "insert_dispatch_rows rows d =
     and_then (bulk_create_ready_executions (dr_ready rows) False d) (\<lambda>d.
     and_then (for_each create_scheduled (dr_scheduled rows) d) (\<lambda>d.
       for_each create_blocked (dr_blocked rows) d))"

definition enqueue_bulk_once ::
  "session \<Rightarrow> backend_config \<Rightarrow> job list \<Rightarrow> db \<Rightarrow> error + (dispatch_entry list \<times> string list) \<times> db" where
  "enqueue_bulk_once ss cfg submissions d =
     (let (now, d) = timezone_now d in
      and_then (prepare_entries ss cfg now submissions) (\<lambda>prepared.
      and_then (create_jobs (map de_job prepared) d) (\<lambda>d.
      and_then (build_dispatch_rows cfg prepared now d) (\<lambda>b.
        let rows = db_rows b in
        and_then (insert_dispatch_rows rows (db_state b)) (\<lambda>d.
          Inr ((db_entries b, ready_queue_names rows),
               if dr_discarded rows = [] then d else bulk_update_results (dr_discarded rows) d))))))"

definition enqueue_jobs_bulk ::
  "session \<Rightarrow> backend_config \<Rightarrow> ((task \<times> pyval list \<times> (string \<times> pyval) list) \<times> uuid) list \<Rightarrow> bool \<Rightarrow> db
     \<Rightarrow> error + (job \<times> task \<times> dispatch_outcome option) list \<times> db" where
  "enqueue_jobs_bulk ss cfg calls validate d =
     and_then (prepare_submissions ss cfg validate calls) (\<lambda>submissions.
       if submissions = [] then Inr ([], d)
       else and_then (enqueue_bulk_once ss cfg submissions d) (\<lambda>((prepared, names), d).
         Inr (map2 (\<lambda>e c. (de_job e, fst (fst c), de_outcome e)) prepared calls,
              notify_ready_queues_on_commit ss cfg names d)))"

section \<open>Lemmas\<close>

text \<open>Calls whose task declares, for the key they resolve to, the limit of that key.\<close>

definition call_limit_ok ::
  "(string \<Rightarrow> int) \<Rightarrow> backend_config \<Rightarrow> task \<Rightarrow> pyval list \<Rightarrow> (string \<times> pyval) list \<Rightarrow> bool" where
  "call_limit_ok L cfg t args kwargs \<longleftrightarrow>
     (case (resolve_concurrency_key t args kwargs, concurrency_settings cfg t) of
        (Inr (Some k), Inr (l, _, _)) \<Rightarrow> l = L k | _ \<Rightarrow> True)"

lemma resolved_key_nonempty: "resolve_concurrency_key t args kwargs = Inr (Some k) \<Longrightarrow> k \<noteq> [] \<and> length k \<le> 255"
  by (auto simp: resolve_concurrency_key_def Let_def split: if_splits option_value.splits)

lemma concurrency_settings_limit_pos: "concurrency_settings cfg t = Inr (l, dur, c) \<Longrightarrow> 0 < l \<and> 0 < dur"
  by (auto simp: concurrency_settings_def Let_def dest: positive_int_option_pos split: if_splits)

lemma prepare_submission_ok:
  assumes "prepare_submission ss cfg t args kwargs val i = Inr j" and "call_limit_ok L cfg t args kwargs"
  shows "job_policy_ok L j" and "finished_at j = None" and "job_id j = i"
proof -
  from assms(1) obtain key lim dur oc where
    key: "resolve_concurrency_key t args kwargs = Inr key"
    and pol: "concurrency_policy cfg t key = Inr (lim, dur, oc)"
    and j: "concurrency_key j = key" "concurrency_limit j = lim" "concurrency_duration j = dur"
      "finished_at j = None" "job_id j = i"
    by (auto simp: prepare_submission_def)
  show "job_policy_ok L j"
  proof (cases key)
    case None
    with j show ?thesis by (simp add: job_policy_ok_def job_key_def)
  next
    case (Some k)
    with pol obtain l u c where set: "concurrency_settings cfg t = Inr (l, u, c)" and "lim = Some l"
      by (auto simp: concurrency_policy_def)
    moreover have "l = L k" using assms(2) key Some set by (simp add: call_limit_ok_def)
    moreover have "0 < l" using concurrency_settings_limit_pos [OF set] by simp
    moreover have "k \<noteq> []" using resolved_key_nonempty key Some by blast
    ultimately show ?thesis using j Some by (simp add: job_policy_ok_def job_key_def)
  qed
  show "finished_at j = None" "job_id j = i" by (rule j)+
qed

text \<open>A new job as it is stored keeps its key and policy.\<close>

lemma create_job_policy:
  assumes "create_job j d = Inr (j', e)" and "job_policy_ok L j"
  shows "job_policy_ok L j'" and "job_key j' = job_key j"
  using assms unfolding create_job_Inr
  by (simp_all add: job_policy_ok_def job_key_def cong: option.case_cong)

lemma enqueue_transition_inv:
  assumes inv: "queue_inv L A M d" and "job_policy_ok L j" and "finished_at j = None"
    and step: "enqueue_transition ss cfg t j d = Inr (r, e)"
  shows "queue_inv L A M e"
proof -
  obtain out j'' where r: "r = (out, j'')" by force
  from step obtain j' c where c: "create_job j d = Inr (j', c)"
    and disp: "dispatch_job ss cfg j' None False (Some t) c = Inr ((out, j''), e)"
    by (auto simp: enqueue_transition_def r)
  note new = queue_inv_create_job [OF c inv assms(3,2)] and pol = create_job_policy [OF c assms(2)]
  have "key_of c (job_id j') = job_key j'" using new(3,4) by (simp add: key_of_def)
  from dispatch_job_inv [OF new(1) _ pol(1) this disp] new(4)
  have "queue_inv L (insert (job_id j) A - {job_id j}) M e" by simp
  moreover have "insert (job_id j) A - {job_id j} = A" using new(2) inv by (auto simp: queue_inv_def)
  ultimately show ?thesis by simp
qed

lemma enqueue_job_with_dispatch_inv:
  assumes "queue_inv L A M d" and "call_limit_ok L cfg t args kwargs"
    and "enqueue_job_with_dispatch ss cfg t args kwargs val i d = Inr (r, e)"
  shows "queue_inv L A M e"
proof -
  obtain out j' where r: "r = (out, j')" by force
  from assms(3) obtain j c where j: "prepare_submission ss cfg t args kwargs val i = Inr j"
    and c: "enqueue_transition ss cfg t j d = Inr ((out, j'), c)"
    and e: "e = (if should_notify out then notify_ready_queues_on_commit ss cfg [job_queue_name j'] c else c)"
    by (auto simp: enqueue_job_with_dispatch_def r)
  from enqueue_transition_inv [OF assms(1) prepare_submission_ok(1,2) [OF j assms(2)] c] e
  show ?thesis by simp
qed

subsection \<open>Bulk\<close>

lemma create_jobs_inv:
  assumes "create_jobs js d = Inr e" and "queue_inv L A M d"
    and "\<forall>j\<in>set js. job_policy_ok L j \<and> finished_at j = None"
  shows "queue_inv L (A \<union> job_id ` set js) M e \<and> distinct (map job_id js) \<and> job_ids d \<inter> job_id ` set js = {}
    \<and> job_ids d \<subseteq> job_ids e \<and> (\<forall>j\<in>set js. key_of e (job_id j) = job_key j)
    \<and> (\<forall>i\<in>job_ids d. key_of e i = key_of d i)"
  using assms
proof (induction js arbitrary: d A)
  case Nil
  then show ?case by (simp add: create_jobs_def)
next
  case (Cons j js)
  from Cons.prems(1) obtain j' c where c: "create_job j d = Inr (j', c)" and rest: "create_jobs js c = Inr e"
    by (auto simp: create_jobs_def)
  have j: "job_policy_ok L j" "finished_at j = None" using Cons.prems(3) by simp_all
  note new = queue_inv_create_job [OF c Cons.prems(2) j(2,1)]
  have ids: "job_ids c = insert (job_id j) (job_ids d)"
    using c unfolding create_job_Inr by (auto simp: job_ids_def)
  have kj: "key_of c (job_id j) = job_key j"
    using new(3) create_job_policy(2) [OF c j(1)] by (simp add: key_of_def)
  have old: "key_of c i = key_of d i" if "i \<in> job_ids d" for i
    using that c unfolding create_job_Inr
    by (auto simp: key_of_def find_job_def job_ids_def find_append_new find_None_iff split: option.splits)
  note IH = Cons.IH [OF rest new(1)]
  have "queue_inv L (insert (job_id j) A \<union> job_id ` set js) M e" "distinct (map job_id js)"
    "job_ids c \<inter> job_id ` set js = {}" "job_ids c \<subseteq> job_ids e"
    "\<forall>j\<in>set js. key_of e (job_id j) = job_key j" "\<forall>i\<in>job_ids c. key_of e i = key_of c i"
    using IH Cons.prems(3) by simp_all
  with kj old new(2) show ?case by (auto simp: ids)
qed

lemma create_scheduled_frame:
  "create_scheduled r d = Inr e \<Longrightarrow> jobs e = jobs d"
  by (auto simp: create_scheduled_def insert_scheduled_def timezone_now_def split: if_splits)

lemma bulk_ready_jobs: "bulk_create_ready_executions rows b d = Inr e \<Longrightarrow> jobs e = jobs d"
proof -
  assume step: "bulk_create_ready_executions rows b d = Inr e"
  have "jobs e = jobs d" if "for_each create_ready rows d = Inr e"
    using that by (rule for_each_invariant [where I = "\<lambda>c. jobs c = jobs d"]) (auto dest: create_ready_frame(1))
  with step show ?thesis by (auto simp: bulk_create_ready_executions_def split: if_splits)
qed

text \<open>Jobs in transit whose result columns are written: those that become finished arrive.\<close>

lemma bulk_update_results_inv:
  assumes "queue_inv L A M d" and "distinct (map job_id js)" and "job_id ` set js \<subseteq> A"
  shows "queue_inv L (A - job_id ` set (filter (\<lambda>j. finished_at j \<noteq> None) js)) M (bulk_update_results js d)
    \<and> key_of (bulk_update_results js d) = key_of d"
  using assms
proof (induction js arbitrary: A d)
  case Nil
  then show ?case by (simp add: bulk_update_results_def)
next
  case (Cons j js)
  let ?f = "\<lambda>r. r\<lparr>finished_at := finished_at j, return_value := return_value j, job_updated_at := job_updated_at j\<rparr>"
  let ?A = "if finished_at j \<noteq> None then A - {job_id j} else A"
  have f: "keeps_policy ?f" by (simp add: keeps_policy_def)
  have i: "job_id j \<in> A" using Cons.prems(3) by simp
  have one: "queue_inv L ?A M (update_job (job_id j) ?f d)"
  proof (cases "finished_at j")
    case None
    with transit_facts(2) [OF Cons.prems(1) i] i show ?thesis
      by (intro queue_inv_update_job_gen [OF Cons.prems(1) f]) auto
  qed (use Cons.prems f in \<open>auto intro: queue_inv_finish_job\<close>)
  have "job_id j \<notin> job_id ` set js" using Cons.prems(2) by simp
  moreover from this have "job_id ` set js \<subseteq> ?A" using Cons.prems(3) by (simp add: subset_Diff_insert)
  ultimately have
    "queue_inv L (?A - job_id ` set (filter (\<lambda>j. finished_at j \<noteq> None) js)) M
       (bulk_update_results js (update_job (job_id j) ?f d))"
    "key_of (bulk_update_results js (update_job (job_id j) ?f d)) = key_of (update_job (job_id j) ?f d)"
    using Cons.IH [OF one] Cons.prems(2) by simp_all
  moreover have "?A - job_id ` set (filter (\<lambda>j. finished_at j \<noteq> None) js)
      = A - job_id ` set (filter (\<lambda>j. finished_at j \<noteq> None) (j # js))" by auto
  ultimately show ?case using key_of_update_job [OF f] by (simp add: bulk_update_results_def)
qed

text \<open>Writing the rows that have been built for jobs in transit.\<close>

lemma insert_dispatch_rows_inv:
  assumes inv: "queue_inv L A (M + tokens d (map re_job (dr_ready rows))) d"
    and "distinct (row_jobs rows)" and sub: "set (row_jobs rows) \<subseteq> A \<union> job_id ` set (dr_discarded rows)"
    and blk: "\<forall>x\<in>set (dr_blocked rows). key_of d (be_job x) = Some (be_concurrency_key x)"
    and step: "insert_dispatch_rows rows d = Inr e"
  shows "queue_inv L (A - (re_job ` set (dr_ready rows) \<union> se_job ` set (dr_scheduled rows)
      \<union> be_job ` set (dr_blocked rows))) M e" and "jobs e = jobs d"
proof -
  from step obtain g h where g: "bulk_create_ready_executions (dr_ready rows) False d = Inr g"
    and h: "for_each create_scheduled (dr_scheduled rows) g = Inr h"
    and k: "for_each create_blocked (dr_blocked rows) h = Inr e" by (auto simp: insert_dispatch_rows_def)
  let ?R = "re_job ` set (dr_ready rows)" and ?S = "se_job ` set (dr_scheduled rows)"
  let ?B = "be_job ` set (dr_blocked rows)"
  have dist: "distinct (map re_job (dr_ready rows))" "distinct (map se_job (dr_scheduled rows))"
    "distinct (map be_job (dr_blocked rows))" and dis: "?R \<inter> ?S = {}" "?R \<inter> ?B = {}" "?S \<inter> ?B = {}"
    and nd: "(?R \<union> ?S \<union> ?B) \<inter> job_id ` set (dr_discarded rows) = {}"
    using assms(2) unfolding row_jobs_def by auto
  have A: "?R \<subseteq> A" "?S \<subseteq> A" "?B \<subseteq> A"
    using sub nd unfolding row_jobs_def set_append set_map by blast+
  have gi: "queue_inv L (A - ?R) M g" using g inv dist(1) A(1) by (rule queue_inv_bulk_create_ready)
  have hi: "queue_inv L (A - ?R - ?S) M h \<and> jobs h = jobs d"
    by (rule for_each_transit [OF h _ bulk_ready_jobs [OF g] dist(2), where t = "\<lambda>_. {#}"])
       (use gi A dis in \<open>auto dest: queue_inv_create_scheduled create_scheduled_frame\<close>)
  have "queue_inv L (A - ?R - ?S - ?B) M e \<and> jobs e = jobs d"
  proof (rule for_each_transit [OF k, where t = "\<lambda>_. {#}"])
    show "queue_inv L (C - {be_job x}) N e' \<and> jobs e' = jobs d"
      if "x \<in> set (dr_blocked rows)" "create_blocked x d' = Inr e'" "jobs d' = jobs d"
        "queue_inv L C (N + {#}) d'" "be_job x \<in> C" for x d' e' C N
      using that blk key_of_jobs_cong [OF that(3)] queue_inv_create_blocked [OF that(2) _ that(5)]
        create_blocked_frame [OF that(2)] by simp
  qed (use hi A dis dist(3) in auto)
  moreover have "A - ?R - ?S - ?B = A - (?R \<union> ?S \<union> ?B)" by blast
  ultimately show "queue_inv L (A - (?R \<union> ?S \<union> ?B)) M e" "jobs e = jobs d" by simp_all
qed

lemma prepare_entries_ok:
  assumes "prepare_entries ss cfg now js = Inr es" and "\<forall>j\<in>set js. job_policy_ok L j \<and> finished_at j = None"
  shows "map (\<lambda>e. job_id (de_job e)) es = map job_id js"
    and "\<forall>e\<in>set es. job_policy_ok L (de_job e) \<and> finished_at (de_job e) = None
      \<and> dispatch_decision ss cfg (de_job e) now None = Inr (de_decision e)"
proof -
  have "map (\<lambda>e. job_id (de_job e)) es = map job_id js \<and> (\<forall>e\<in>set es. job_policy_ok L (de_job e)
      \<and> finished_at (de_job e) = None \<and> dispatch_decision ss cfg (de_job e) now None = Inr (de_decision e))"
    using assms
  proof (induction js arbitrary: es)
    case (Cons j js)
    let ?j = "j\<lparr>job_created_at := now, job_updated_at := now\<rparr>"
    from Cons.prems(1) obtain dec es' where d: "dispatch_decision ss cfg ?j now None = Inr dec"
      and rest: "prepare_entries ss cfg now js = Inr es'"
      and es: "es = \<lparr>de_job = ?j, de_decision = dec, de_outcome = None\<rparr> # es'"
      by (auto simp: Let_def)
    have "job_policy_ok L ?j = job_policy_ok L j"
      by (simp add: job_policy_ok_def job_key_def cong: option.case_cong)
    with Cons.IH [OF rest] Cons.prems(2) d show ?case by (simp add: es)
  qed simp
  then show "map (\<lambda>e. job_id (de_job e)) es = map job_id js"
    and "\<forall>e\<in>set es. job_policy_ok L (de_job e) \<and> finished_at (de_job e) = None
      \<and> dispatch_decision ss cfg (de_job e) now None = Inr (de_decision e)" by blast+
qed

lemma decision_entry_ok:
  assumes "dispatch_decision ss cfg (de_job e) now None = Inr (de_decision e)"
    and "job_policy_ok L (de_job e)" and "key_of d (job_id (de_job e)) = job_key (de_job e)"
  shows "entry_ok L d e"
proof (cases "de_decision e")
  case (Decided out)
  with assms(1) decision_decided show ?thesis using assms(3) by (fastforce simp: entry_ok_def)
next
  case (NeedsSlot k l dur c)
  from decision_slot [OF assms(1) [unfolded NeedsSlot] assms(2)] NeedsSlot assms(3)
  show ?thesis by (simp add: entry_ok_def)
qed

lemma enqueue_bulk_once_inv:
  assumes inv: "queue_inv L A M d" and subs: "\<forall>j\<in>set js. job_policy_ok L j \<and> finished_at j = None"
    and step: "enqueue_bulk_once ss cfg js d = Inr (r, e)"
  shows "queue_inv L A M e"
proof -
  let ?now = "shd (clock d)"
  let ?c = "d\<lparr>clock := stl (clock d)\<rparr>"
  obtain es' ns where r: "r = (es', ns)" by force
  from step obtain es f b k where es: "prepare_entries ss cfg ?now js = Inr es"
    and f: "create_jobs (map de_job es) ?c = Inr f"
    and b: "build_dispatch_rows cfg es ?now f = Inr b"
    and k: "insert_dispatch_rows (db_rows b) (db_state b) = Inr k"
    and e: "e = (if dr_discarded (db_rows b) = [] then k else bulk_update_results (dr_discarded (db_rows b)) k)"
    by (auto simp: enqueue_bulk_once_def timezone_now_def Let_def r)
  note pe = prepare_entries_ok [OF es subs]
  have ci: "queue_inv L A M ?c" using inv by simp
  let ?ids = "map (\<lambda>e. job_id (de_job e)) es"
  have new: "queue_inv L (A \<union> set ?ids) M f" "distinct ?ids" "job_ids d \<inter> set ?ids = {}"
    and keys: "\<forall>e\<in>set es. key_of f (job_id (de_job e)) = job_key (de_job e)"
    using create_jobs_inv [OF f ci] pe(2) by (auto simp: image_image comp_def job_ids_def)
  have "\<forall>e\<in>set es. entry_ok L f e" using pe(2) keys by (auto intro: decision_entry_ok)
  note bd = build_dispatch_rows_inv [OF new(1) this b]
  let ?D = "job_id ` set (dr_discarded (db_rows b))"
  let ?rest = "re_job ` set (dr_ready (db_rows b)) \<union> se_job ` set (dr_scheduled (db_rows b))
    \<union> be_job ` set (dr_blocked (db_rows b))"
  have all: "set (row_jobs (db_rows b)) = set ?ids" and dist: "distinct (row_jobs (db_rows b))"
    using mset_eq_setD [OF bd(2)] mset_eq_imp_distinct_iff [OF bd(2)] new(2) by simp_all
  have parts: "?rest \<union> ?D = set ?ids" "?rest \<inter> ?D = {}" "distinct (map job_id (dr_discarded (db_rows b)))"
    using all dist unfolding row_jobs_def by auto
  have blk: "\<forall>x\<in>set (dr_blocked (db_rows b)). key_of (db_state b) (be_job x) = Some (be_concurrency_key x)"
    using bd(3) key_of_jobs_cong [OF bd(4)] by simp
  have ki: "queue_inv L (A \<union> set ?ids - ?rest) M k"
    by (rule insert_dispatch_rows_inv(1) [OF bd(1) dist _ blk k]) (use all in blast)
  have "queue_inv L (A \<union> set ?ids - ?rest - job_id ` set (filter (\<lambda>j. finished_at j \<noteq> None)
      (dr_discarded (db_rows b)))) M (bulk_update_results (dr_discarded (db_rows b)) k)"
    using bulk_update_results_inv [OF ki parts(3)] parts(1,2) by blast
  moreover have "filter (\<lambda>j. finished_at j \<noteq> None) (dr_discarded (db_rows b)) = dr_discarded (db_rows b)"
    using bd(5) unfolding filter_id_conv .
  moreover have "A \<inter> set ?ids = {}" using new(3) inv unfolding queue_inv_def by blast
  then have "A \<union> set ?ids - ?rest - ?D = A" using parts(1) by blast
  moreover have "e = bulk_update_results (dr_discarded (db_rows b)) k"
    using e by (simp add: bulk_update_results_def split: if_splits)
  ultimately show ?thesis by (simp only:)
qed

lemma prepare_submissions_ok:
  assumes "prepare_submissions ss cfg val calls = Inr js"
    and "\<forall>((t, args, kwargs), i)\<in>set calls. call_limit_ok L cfg t args kwargs"
  shows "\<forall>j\<in>set js. job_policy_ok L j \<and> finished_at j = None"
  using assms
proof (induction ss cfg val calls arbitrary: js rule: prepare_submissions.induct)
  case (2 ss cfg val t args kwargs i calls)
  then show ?case by (fastforce dest: prepare_submission_ok)
qed simp

lemma enqueue_jobs_bulk_inv:
  assumes "queue_inv L A M d"
    and "\<forall>((t, args, kwargs), i)\<in>set calls. call_limit_ok L cfg t args kwargs"
    and "enqueue_jobs_bulk ss cfg calls val d = Inr (r, e)"
  shows "queue_inv L A M e"
proof -
  from assms(3) obtain js where js: "prepare_submissions ss cfg val calls = Inr js"
    by (auto simp: enqueue_jobs_bulk_def)
  show ?thesis
  proof (cases "js = []")
    case True
    with assms js show ?thesis by (simp add: enqueue_jobs_bulk_def)
  next
    case False
    with assms(3) js obtain r' names c where "enqueue_bulk_once ss cfg js d = Inr (r', c)"
      and "e = notify_ready_queues_on_commit ss cfg names c"
      by (auto simp: enqueue_jobs_bulk_def)
    with enqueue_bulk_once_inv [OF assms(1) prepare_submissions_ok [OF js assms(2)]] show ?thesis by simp
  qed
qed

end
