(* ===== verification/Claiming.thy ===== *)
theory Claiming
  imports Concurrency
begin

text \<open>
  Claiming ready jobs, \<^verbatim>\<open>operations/claiming.py\<close> with the statements of \<^verbatim>\<open>sql/postgres.py\<close>
  and \<^verbatim>\<open>sql/mysql.py\<close> it uses: selecting ready rows in the order of the worker's queue
  selectors, skipping paused queues and rows locked by other workers, and turning the ready rows into
  claimed ones.
\<close>

section \<open>Selecting ready rows\<close>

type_synonym ready_row = "ready_execution \<times> job"

text \<open>The base query: the ready rows of the backend with their jobs, without paused queues.\<close>

definition ready_queryset :: "backend_config \<Rightarrow> db \<Rightarrow> ready_row list" where
  "ready_queryset cfg d = exclude_active_pauses (\<lambda>(r, j). re_queue_name r) (backend_alias cfg) d
     (with_jobs d re_job (filter (\<lambda>r. re_backend_alias r = backend_alias cfg) (ready_executions d)))"

abbreviation claim_order :: "ready_row \<Rightarrow> int \<times> nat" where
  "claim_order \<equiv> \<lambda>(r, j). (- re_priority r, re_id r)"

definition ordered_rows :: "ready_row list \<Rightarrow> ready_row list" where
  "ordered_rows rows = order_by claim_order rows"

definition lock_ready :: "session \<Rightarrow> backend_config \<Rightarrow> ready_row list \<Rightarrow> ready_row list" where
  "lock_ready ss cfg rows = locked_queryset ss cfg TReady (\<lambda>(r, j). re_id r) rows"

text \<open>\<open>sql/mysql.py: select_ready_row_ids\<close>, which names \<open>SKIP LOCKED\<close> whenever the
  configuration asks for it, and the lookup of the rows by id.\<close>

definition select_ready_row_ids :: "session \<Rightarrow> backend_config \<Rightarrow> int \<Rightarrow> db \<Rightarrow> error + nat list" where
  "select_ready_row_ids ss cfg limit d =
     (if use_skip_locked cfg \<and> \<not> cap_skip_locked (caps ss)
      then Inl (OperationalError ''You have an error in your SQL syntax'')
      else
        let rows = filter (\<lambda>r. re_backend_alias r = backend_alias cfg
               \<and> \<not> list_ex (\<lambda>p. pause_backend_alias p = backend_alias cfg
                     \<and> pause_queue_name p = re_queue_name r) (pauses d)) (ready_executions d);
            visible = (if use_skip_locked cfg then filter (\<lambda>r. \<not> locked ss TReady (re_id r)) rows else rows)
        in Inr (map re_id (first_n limit (order_by (\<lambda>r. (- re_priority r, re_id r)) visible))))"

definition rows_by_id :: "ready_row list \<Rightarrow> nat list \<Rightarrow> ready_row list" where
  "rows_by_id queryset ids = List.map_filter (\<lambda>i. find (\<lambda>(r, j). re_id r = i) queryset) ids"

text \<open>\<open>sql/postgres.py: select_ready_rows_by_exact_queues\<close>: one common table expression per
  selector, each limited by what the earlier ones left.\<close>

fun exact_queue_ctes ::
  "session \<Rightarrow> backend_config \<Rightarrow> int \<Rightarrow> ready_row list \<Rightarrow> string list \<Rightarrow> nat \<Rightarrow> ready_row list" where
  "exact_queue_ctes ss cfg limit queryset [] prior = []"
| "exact_queue_ctes ss cfg limit queryset (s # sels) prior =
     (let rows = first_n (max 0 (limit - int prior))
            (lock_ready ss cfg (ordered_rows (filter (\<lambda>(r, j). re_queue_name r = s) queryset)))
      in rows @ exact_queue_ctes ss cfg limit queryset sels (prior + length rows))"

definition select_ready_rows_by_exact_queues ::
  "session \<Rightarrow> backend_config \<Rightarrow> string list \<Rightarrow> int \<Rightarrow> ready_row list \<Rightarrow> ready_row list" where
  "select_ready_rows_by_exact_queues ss cfg selectors limit queryset =
     (let selectors = dict_fromkeys selectors in
      if selectors = [] \<or> limit \<le> 0 then []
      else exact_queue_ctes ss cfg limit queryset selectors 0)"

text \<open>The ORM loop for the other databases.\<close>

fun exact_queue_loop ::
  "session \<Rightarrow> backend_config \<Rightarrow> int \<Rightarrow> ready_row list \<Rightarrow> string list \<Rightarrow> ready_row list \<Rightarrow> ready_row list" where
  "exact_queue_loop ss cfg limit queryset [] selected = selected"
| "exact_queue_loop ss cfg limit queryset (s # sels) selected =
     (let remaining = limit - int (length selected) in
      if remaining \<le> 0 then selected
      else
        let rows = first_n remaining (lock_ready ss cfg (ordered_rows
              (filter (\<lambda>(r, j). re_queue_name r = s)
                (filter (\<lambda>(r, j). re_id r \<notin> (\<lambda>(r, j). re_id r) ` set selected) queryset))))
        in exact_queue_loop ss cfg limit queryset sels (selected @ rows))"

definition select_exact_queue_rows ::
  "session \<Rightarrow> backend_config \<Rightarrow> string list \<Rightarrow> int \<Rightarrow> ready_row list \<Rightarrow> ready_row list" where
  "select_exact_queue_rows ss cfg selectors limit queryset =
     (if family ss = Postgresql then select_ready_rows_by_exact_queues ss cfg selectors limit queryset
      else exact_queue_loop ss cfg limit queryset selectors [])"

definition selectors_are_exact_queues :: "string list \<Rightarrow> bool" where
  "selectors_are_exact_queues selectors = list_all (\<lambda>s. \<not> endswith_star s) selectors"

text \<open>The rank of a queue is the position of the first selector whose condition it meets.\<close>

definition meets_condition :: "backend_family \<Rightarrow> string \<Rightarrow> string \<Rightarrow> bool" where
  "meets_condition fam selector q = (case queue_selector_condition (SelTuple [selector]) of
      None \<Rightarrow> True | Some atoms \<Rightarrow> list_ex (eval_atom fam q) atoms)"

fun selector_rank :: "backend_family \<Rightarrow> string list \<Rightarrow> string \<Rightarrow> nat" where
  "selector_rank fam [] q = 0"
| "selector_rank fam (s # sels) q = (if meets_condition fam s q then 0 else Suc (selector_rank fam sels q))"

definition ordered_selector_rows_queryset ::
  "backend_family \<Rightarrow> string list \<Rightarrow> ready_row list \<Rightarrow> ready_row list" where
  "ordered_selector_rows_queryset fam selectors queryset =
     order_by (\<lambda>(r, j). (int (selector_rank fam selectors (re_queue_name r)), claim_order (r, j)))
       (filter_by_queue_selectors fam (\<lambda>(r, j). re_queue_name r) queryset (SelTuple selectors))"

definition select_ready_rows ::
  "session \<Rightarrow> backend_config \<Rightarrow> int \<Rightarrow> selectors \<Rightarrow> ready_row list \<Rightarrow> db \<Rightarrow> error + ready_row list" where
  "select_ready_rows ss cfg limit queues queryset d =
     (if selectors_match_all queues then
        (if family ss \<in> {Mysql, Mariadb}
         then and_then (select_ready_row_ids ss cfg limit d) (\<lambda>ids. Inr (rows_by_id queryset ids))
         else Inr (first_n limit (lock_ready ss cfg (ordered_rows queryset))))
      else
        let selectors = normalize_queue_selectors queues;
            has_star = ''*'' \<in> set selectors;
            ordered_selectors = takeWhile (\<lambda>s. s \<noteq> ''*'') selectors;
            selected = (if ordered_selectors = [] then []
              else if selectors_are_exact_queues ordered_selectors
              then select_exact_queue_rows ss cfg ordered_selectors limit queryset
              else first_n limit (lock_ready ss cfg
                     (ordered_selector_rows_queryset (family ss) ordered_selectors queryset)));
            remaining = limit - int (length selected)
        in if remaining \<le> 0 \<or> \<not> has_star then Inr selected
           else Inr (selected @ first_n remaining (lock_ready ss cfg (ordered_rows
             (filter (\<lambda>(r, j). re_id r \<notin> (\<lambda>(r, j). re_id r) ` set selected) queryset)))))"

section \<open>Claiming\<close>

record claimed_job =
  cj_job :: job
  cj_claimed_at :: time
  cj_worker_ids :: "string list"
  cj_process_id :: "nat option"

definition claimed_row :: "uuid \<Rightarrow> nat option \<Rightarrow> time \<Rightarrow> claimed_execution" where
  "claimed_row i p t = \<lparr>ce_id = 0, ce_job = i, ce_process = p, ce_created_at = t\<rparr>"

text \<open>\<open>sql/postgres.py: consume_ready_and_create_claimed_executions\<close>: the ready rows are deleted and
  a claimed row is inserted for those without another state; the result is the jobs inserted.\<close>

definition consume_ready_and_create_claimed_executions ::
  "ready_row list \<Rightarrow> nat option \<Rightarrow> time \<Rightarrow> db \<Rightarrow> error + uuid list \<times> db" where
  "consume_ready_and_create_claimed_executions rows process_id claimed_at d =
     (let ids = (\<lambda>(r, j). re_id r) ` set rows;
          deleted = map re_job (filter (\<lambda>r. re_id r \<in> ids) (ready_executions d));
          created = filter (no_state (state_models_except [Ready]) d) deleted
      in and_then (for_each (\<lambda>i. insert_claimed (claimed_row i process_id claimed_at)) created
             (delete_pks Ready ids d)) (\<lambda>d. Inr (created, d)))"

definition create_claimed_executions :: "job list \<Rightarrow> nat option \<Rightarrow> time \<Rightarrow> db \<Rightarrow> error + db" where
  "create_claimed_executions js process_id claimed_at d =
     for_each (\<lambda>j. create_claimed (claimed_row (job_id j) process_id claimed_at)) js d"

definition claimed_jobs_of :: "job list \<Rightarrow> time \<Rightarrow> process option \<Rightarrow> claimed_job list" where
  "claimed_jobs_of js claimed_at process = map (\<lambda>j. \<lparr>cj_job = j, cj_claimed_at = claimed_at,
     cj_worker_ids = (case process of None \<Rightarrow> [] | Some p \<Rightarrow> [proc_name p]),
     cj_process_id = map_option proc_id process\<rparr>) js"

definition claim_ready_jobs_once ::
  "session \<Rightarrow> backend_config \<Rightarrow> int \<Rightarrow> selectors \<Rightarrow> process option \<Rightarrow> db \<Rightarrow> error + claimed_job list \<times> db" where
  "claim_ready_jobs_once ss cfg limit queues process d =
     (let al = backend_alias cfg; process_id = map_option proc_id process in
      and_then (guard_that (case process of None \<Rightarrow> True | Some p \<Rightarrow> proc_backend_alias p = al)
          (EnqueueError (case process of None \<Rightarrow> [] | Some p \<Rightarrow>
             ''process '' @ py_repr (proc_name p) @ '' belongs to backend '' @ py_repr (proc_backend_alias p)))) (\<lambda>_.
      and_then (select_ready_rows ss cfg limit queues (ready_queryset cfg d) d) (\<lambda>ready_rows.
      if ready_rows = [] then Inr ([], d)
      else
        and_then (ensure_state_rows_belong_to_backend ready_rows al) (\<lambda>_.
        and_then (if family ss = Postgresql then Inr ()
            else ensure_job_ids_have_no_other_execution_state (map (\<lambda>(r, j). re_job r) ready_rows) [Ready] d) (\<lambda>_.
        let paused = lock_active_pauses al (Some (dict_fromkeys (map (\<lambda>(r, j). re_queue_name r) ready_rows))) d;
            ready_rows = filter (\<lambda>(r, j). re_queue_name r \<notin> paused) ready_rows
        in if ready_rows = [] then Inr ([], d)
           else
             let (claimed_at, d) = timezone_now d in
             if family ss = Postgresql
             then and_then (consume_ready_and_create_claimed_executions ready_rows process_id claimed_at d) (\<lambda>(created, e).
               if length created \<noteq> length ready_rows
               then and_then (ensure_job_ids_have_no_other_execution_state (map (\<lambda>(r, j). re_job r) ready_rows) [] e)
                      (\<lambda>_. Inl (EnqueueError ''could not claim selected jobs''))
               else Inr (claimed_jobs_of (map snd ready_rows) claimed_at process, e))
             else
               let (consumed, e) = consume_selected_rows ss Ready (\<lambda>x. re_id (fst x)) ready_rows d in
               if consumed = [] then Inr ([], e)
               else and_then (create_claimed_executions (map snd consumed) process_id claimed_at e) (\<lambda>e.
                 Inr (claimed_jobs_of (map snd consumed) claimed_at process, e)))))))"

definition claim_ready_jobs ::
  "session \<Rightarrow> backend_config \<Rightarrow> int \<Rightarrow> selectors \<Rightarrow> process option \<Rightarrow> db \<Rightarrow> error + claimed_job list \<times> db" where
  "claim_ready_jobs ss cfg limit queues process d =
     (if limit \<le> 0 then Inr ([], d) else claim_ready_jobs_once ss cfg limit queues process d)"

section \<open>Lemmas on the selection\<close>

abbreviation ready_selection :: "db \<Rightarrow> ready_row list \<Rightarrow> bool" where
  "ready_selection d \<equiv> selection re_id re_job (ready_executions d) d"

lemma ready_queryset_selection:
  assumes "queue_inv L A M d"
  shows "ready_selection d (ready_queryset cfg d)"
  unfolding ready_queryset_def exclude_active_pauses_def
  using ready.distinct_pk [OF assms]
  by (intro selection_filter selection_with_jobs) (auto simp: distinct_map_filter)

lemma set_lock_ready: "set (lock_ready ss cfg rows) \<subseteq> set rows"
  by (simp add: lock_ready_def set_locked_queryset)

lemma set_ordered_rows [simp]: "set (ordered_rows rows) = set rows"
  by (simp add: ordered_rows_def)

lemma case_prod_fst [simp]: "(\<lambda>(r, j). f r) = (\<lambda>x. f (fst x))"
  by (simp add: case_prod_unfold)

lemma set_first_lock_filter:
  "x \<in> set (first_n n (lock_ready ss cfg (ordered_rows (filter P rows)))) \<Longrightarrow> x \<in> set rows \<and> P x"
  by (drule first_n_subsetD, drule subsetD [OF set_lock_ready]) simp

lemma select_part:
  "ready_selection d q \<Longrightarrow> ready_selection d (first_n n (lock_ready ss cfg (ordered_rows (filter P q))))"
  unfolding lock_ready_def ordered_rows_def
  by (intro selection_first_n selection_locked selection_sort selection_filter)

lemma exact_queue_ctes_rows:
  assumes "ready_selection d q" and "distinct sels"
  shows "ready_selection d (exact_queue_ctes ss cfg limit q sels prior)"
    and "\<forall>(r, j)\<in>set (exact_queue_ctes ss cfg limit q sels prior). (r, j) \<in> set q \<and> re_queue_name r \<in> set sels"
proof -
  have "ready_selection d (exact_queue_ctes ss cfg limit q sels prior)
    \<and> (\<forall>(r, j)\<in>set (exact_queue_ctes ss cfg limit q sels prior). (r, j) \<in> set q \<and> re_queue_name r \<in> set sels)"
    using assms
  proof (induction sels arbitrary: prior)
    case Nil
    then show ?case by (simp add: selection_def)
  next
    case (Cons s sels)
    define rows where "rows = first_n (max 0 (limit - int prior))
       (lock_ready ss cfg (ordered_rows (filter (\<lambda>(r, j). re_queue_name r = s) q)))"
    define rest where "rest = exact_queue_ctes ss cfg limit q sels (prior + length rows)"
    have eq: "exact_queue_ctes ss cfg limit q (s # sels) prior = rows @ rest"
      by (simp only: exact_queue_ctes.simps Let_def rows_def rest_def)
    have "ready_selection d rest \<and> (\<forall>(r, j)\<in>set rest. (r, j) \<in> set q \<and> re_queue_name r \<in> set sels)"
      unfolding rest_def using Cons.prems by (intro Cons.IH) simp_all
    then have IH: "ready_selection d rest" and all: "\<forall>(r, j)\<in>set rest. (r, j) \<in> set q \<and> re_queue_name r \<in> set sels"
      by blast+
    have inq: "y \<in> set q \<and> re_queue_name (fst y) \<in> set sels" if "y \<in> set rest" for y
      using that all by auto
    have rows: "x \<in> set q \<and> re_queue_name (fst x) = s" if "x \<in> set rows" for x
      using set_first_lock_filter [OF that [unfolded rows_def]] by auto
    have sel: "ready_selection d rows" unfolding rows_def using Cons.prems(1) by (rule select_part)
    have "x = y" if "x \<in> set q" "y \<in> set q" "re_id (fst x) = re_id (fst y)" for x y
      using that Cons.prems(1) by (auto simp: selection_def distinct_map inj_on_def)
    then have "re_id (fst x) \<noteq> re_id (fst y)" if "x \<in> set rows" "y \<in> set rest" for x y
      using that rows [of x] inq [of y] Cons.prems(2) by (metis distinct.simps(2))
    then have "(\<lambda>x. re_id (fst x)) ` set rows \<inter> (\<lambda>x. re_id (fst x)) ` set rest = {}" by blast
    with sel IH have "ready_selection d (rows @ rest)" by (rule selection_append)
    moreover have "\<forall>(r, j)\<in>set (rows @ rest). (r, j) \<in> set q \<and> re_queue_name r \<in> set (s # sels)"
      using rows inq by force
    ultimately show ?case unfolding eq by blast
  qed
  then show "ready_selection d (exact_queue_ctes ss cfg limit q sels prior)"
    and "\<forall>(r, j)\<in>set (exact_queue_ctes ss cfg limit q sels prior). (r, j) \<in> set q \<and> re_queue_name r \<in> set sels"
    by blast+
qed

lemma exact_queue_loop_rows:
  assumes "ready_selection d q" and "ready_selection d acc" and "set acc \<subseteq> set q"
    and "\<forall>x\<in>set acc. re_queue_name (fst x) \<in> Q" and "set sels \<subseteq> Q"
  shows "ready_selection d (exact_queue_loop ss cfg limit q sels acc)
    \<and> set (exact_queue_loop ss cfg limit q sels acc) \<subseteq> set q
    \<and> (\<forall>x\<in>set (exact_queue_loop ss cfg limit q sels acc). re_queue_name (fst x) \<in> Q)"
  using assms
proof (induction sels arbitrary: acc)
  case Nil
  then show ?case by simp
next
  case (Cons s sels)
  define rem where "rem = limit - int (length acc)"
  define rows where "rows = first_n rem (lock_ready ss cfg (ordered_rows (filter (\<lambda>(r, j). re_queue_name r = s)
     (filter (\<lambda>(r, j). re_id r \<notin> (\<lambda>(r, j). re_id r) ` set acc) q))))"
  have eq: "exact_queue_loop ss cfg limit q (s # sels) acc =
      (if rem \<le> 0 then acc else exact_queue_loop ss cfg limit q sels (acc @ rows))"
    by (simp only: exact_queue_loop.simps Let_def rows_def rem_def)
  have rows: "x \<in> set q \<and> re_queue_name (fst x) = s \<and> re_id (fst x) \<notin> (\<lambda>x. re_id (fst x)) ` set acc"
    if "x \<in> set rows" for x
    using set_first_lock_filter [OF that [unfolded rows_def]] by auto
  have "ready_selection d rows" unfolding rows_def using Cons.prems(1) by (intro select_part selection_filter)
  moreover have "p \<notin> (\<lambda>x. re_id (fst x)) ` set acc" if "p \<in> (\<lambda>x. re_id (fst x)) ` set rows" for p
    using that rows by (elim imageE) simp
  then have "(\<lambda>x. re_id (fst x)) ` set acc \<inter> (\<lambda>x. re_id (fst x)) ` set rows = {}"
    unfolding disjoint_iff by blast
  ultimately have sel: "ready_selection d (acc @ rows)"
    using Cons.prems(2) by (intro selection_append)
  have "set (acc @ rows) \<subseteq> set q" using Cons.prems(3) rows by auto
  moreover have "\<forall>x\<in>set (acc @ rows). re_queue_name (fst x) \<in> Q" using Cons.prems(4,5) rows by auto
  moreover have "set sels \<subseteq> Q" using Cons.prems(5) by simp
  ultimately have "ready_selection d (exact_queue_loop ss cfg limit q sels (acc @ rows))
    \<and> set (exact_queue_loop ss cfg limit q sels (acc @ rows)) \<subseteq> set q
    \<and> (\<forall>x\<in>set (exact_queue_loop ss cfg limit q sels (acc @ rows)). re_queue_name (fst x) \<in> Q)"
    using Cons.IH [OF Cons.prems(1) sel] by blast
  with Cons.prems(2-4) show ?case unfolding eq by simp
qed

subsection \<open>The exact-queue statement and the loop agree\<close>

definition lockable :: "session \<Rightarrow> backend_config \<Rightarrow> ready_row \<Rightarrow> bool" where
  "lockable ss cfg x \<longleftrightarrow> \<not> (use_skip_locked cfg \<and> cap_skip_locked (caps ss) \<and> locked ss TReady (re_id (fst x)))"

lemma lock_ready_filter: "lock_ready ss cfg rows = filter (lockable ss cfg) rows"
  by (auto simp: lock_ready_def locked_queryset_def lockable_def case_prod_unfold intro!: filter_cong)

definition taken :: "session \<Rightarrow> backend_config \<Rightarrow> int \<Rightarrow> ready_row list \<Rightarrow> ready_row list \<Rightarrow> string \<Rightarrow> bool" where
  "taken ss cfg limit q acc s \<longleftrightarrow> limit \<le> int (length acc)
     \<or> (\<forall>x\<in>set q. re_queue_name (fst x) = s \<longrightarrow> lockable ss cfg x \<longrightarrow> re_id (fst x) \<in> (\<lambda>x. re_id (fst x)) ` set acc)"

lemma taken_append: "taken ss cfg limit q acc s \<Longrightarrow> taken ss cfg limit q (acc @ rows) s"
  by (auto simp: taken_def)

lemma loop_full: "limit \<le> int (length acc) \<Longrightarrow> exact_queue_loop ss cfg limit q sels acc = acc"
  by (cases sels) simp_all

definition queue_rows :: "session \<Rightarrow> backend_config \<Rightarrow> ready_row list \<Rightarrow> ready_row list \<Rightarrow> string \<Rightarrow> ready_row list" where
  "queue_rows ss cfg q acc s = lock_ready ss cfg (ordered_rows (filter (\<lambda>(r, j). re_queue_name r = s)
     (filter (\<lambda>(r, j). re_id r \<notin> (\<lambda>(r, j). re_id r) ` set acc) q)))"

lemma set_queue_rows: "set (queue_rows ss cfg q acc s) = {x \<in> set q. re_queue_name (fst x) = s \<and> lockable ss cfg x
    \<and> re_id (fst x) \<notin> (\<lambda>x. re_id (fst x)) ` set acc}"
  by (auto simp: queue_rows_def lock_ready_filter)

lemma loop_step:
  "exact_queue_loop ss cfg limit q (s # sels) acc = (if limit \<le> int (length acc) then acc
     else exact_queue_loop ss cfg limit q sels (acc @ first_n (limit - int (length acc)) (queue_rows ss cfg q acc s)))"
  by (simp add: queue_rows_def Let_def)

lemma loop_skips_taken:
  assumes "taken ss cfg limit q acc s"
  shows "exact_queue_loop ss cfg limit q (s # sels) acc = exact_queue_loop ss cfg limit q sels acc"
proof (cases "limit \<le> int (length acc)")
  case True
  then show ?thesis by (simp add: loop_full)
next
  case False
  then have "set (queue_rows ss cfg q acc s) = {}" using assms by (auto simp: taken_def set_queue_rows)
  then have "queue_rows ss cfg q acc s = []" by simp
  with False show ?thesis unfolding loop_step by (simp add: first_n_def)
qed

lemma loop_takes:
  assumes "\<not> limit \<le> int (length acc)"
  shows "taken ss cfg limit q (acc @ first_n (limit - int (length acc)) (queue_rows ss cfg q acc s)) s"
proof (cases "int (length (queue_rows ss cfg q acc s)) < limit - int (length acc)")
  case True
  then have "first_n (limit - int (length acc)) (queue_rows ss cfg q acc s) = queue_rows ss cfg q acc s"
    by (simp add: first_n_def)
  moreover have "re_id (fst x) \<in> (\<lambda>x. re_id (fst x)) ` set (acc @ queue_rows ss cfg q acc s)"
    if "x \<in> set q" "re_queue_name (fst x) = s" "lockable ss cfg x" for x
    using that unfolding set_append set_queue_rows image_Un
    by (cases "re_id (fst x) \<in> (\<lambda>x. re_id (fst x)) ` set acc") simp_all
  ultimately show ?thesis unfolding taken_def by auto
next
  case False
  then show ?thesis by (simp add: taken_def first_n_def)
qed

text \<open>A repeated selector changes nothing.\<close>

lemma loop_dict_fromkeys:
  assumes "\<forall>s\<in>S. taken ss cfg limit q acc s"
  shows "exact_queue_loop ss cfg limit q (filter (\<lambda>s. s \<notin> S) (dict_fromkeys sels)) acc
    = exact_queue_loop ss cfg limit q sels acc"
  using assms
proof (induction sels arbitrary: acc S)
  case (Cons s sels)
  show ?case
  proof (cases "s \<in> S")
    case True
    then have "filter (\<lambda>s. s \<notin> S) (dict_fromkeys (s # sels)) = filter (\<lambda>s. s \<notin> S) (dict_fromkeys sels)"
      by (auto intro: filter_cong)
    with Cons True show ?thesis using loop_skips_taken [of ss cfg limit q acc s sels] by metis
  next
    case False
    then have eq: "filter (\<lambda>s. s \<notin> S) (dict_fromkeys (s # sels))
        = s # filter (\<lambda>x. x \<notin> insert s S) (dict_fromkeys sels)"
      by (auto intro: filter_cong)
    show ?thesis
    proof (cases "limit \<le> int (length acc)")
      case True
      then show ?thesis by (simp add: loop_full)
    next
      case False
      let ?acc = "acc @ first_n (limit - int (length acc)) (queue_rows ss cfg q acc s)"
      have "\<forall>x\<in>insert s S. taken ss cfg limit q ?acc x"
        using loop_takes [OF False] taken_append Cons.prems by blast
      from Cons.IH [OF this] False show ?thesis unfolding eq loop_step by simp
    qed
  qed
qed simp

lemma loop_is_ctes:
  assumes "distinct sels" and sel: "ready_selection d q" and "set acc \<subseteq> set q"
    and "\<forall>x\<in>set acc. re_queue_name (fst x) \<notin> set sels"
  shows "exact_queue_loop ss cfg limit q sels acc = acc @ exact_queue_ctes ss cfg limit q sels (length acc)"
  using assms
proof (induction sels arbitrary: acc)
  case (Cons s sels)
  have same: "filter (\<lambda>(r, j). re_queue_name r = s)
      (filter (\<lambda>(r, j). re_id r \<notin> (\<lambda>(r, j). re_id r) ` set acc) q) = filter (\<lambda>(r, j). re_queue_name r = s) q"
  proof -
    have "re_id (fst x) \<notin> (\<lambda>x. re_id (fst x)) ` set acc" if "x \<in> set q" "re_queue_name (fst x) = s" for x
    proof
      assume "re_id (fst x) \<in> (\<lambda>x. re_id (fst x)) ` set acc"
      then obtain y where y: "y \<in> set acc" "re_id (fst x) = re_id (fst y)" by auto
      with that(1) Cons.prems(2,3) have "x = y" by (auto simp: selection_def distinct_map inj_on_def)
      with that(2) y(1) Cons.prems(4) show False by simp
    qed
    then show ?thesis by (auto intro!: filter_cong)
  qed
  let ?rows = "first_n (limit - int (length acc)) (queue_rows ss cfg q acc s)"
  have cte: "exact_queue_ctes ss cfg limit q (s # sels) (length acc) =
      first_n (max 0 (limit - int (length acc))) (queue_rows ss cfg q acc s)
      @ exact_queue_ctes ss cfg limit q sels (length acc
          + length (first_n (max 0 (limit - int (length acc))) (queue_rows ss cfg q acc s)))"
    by (simp only: exact_queue_ctes.simps Let_def queue_rows_def same)
  have none: "exact_queue_ctes ss cfg limit q xs n = []" if "limit \<le> int n" for xs n
    using that by (induction xs) (simp_all add: first_n_def)
  show ?case
  proof (cases "limit \<le> int (length acc)")
    case True
    then show ?thesis by (simp add: loop_full none del: exact_queue_ctes.simps)
  next
    case False
    have in_q: "x \<in> set q \<and> re_queue_name (fst x) = s" if "x \<in> set ?rows" for x
      using first_n_subsetD [OF that] by (simp add: set_queue_rows)
    have "exact_queue_loop ss cfg limit q sels (acc @ ?rows)
        = (acc @ ?rows) @ exact_queue_ctes ss cfg limit q sels (length (acc @ ?rows))"
      using Cons.prems in_q by (intro Cons.IH) auto
    with False show ?thesis unfolding loop_step cte by simp
  qed
qed simp

subsection \<open>Every path selects distinct ready rows of the base query\<close>

lemma rows_by_id_Cons: "rows_by_id q (i # ids) =
    (case find (\<lambda>x. re_id (fst x) = i) q of None \<Rightarrow> rows_by_id q ids | Some x \<Rightarrow> x # rows_by_id q ids)"
  by (simp add: rows_by_id_def map_filter_def split: option.splits)

lemma rows_by_id_Nil [simp]: "rows_by_id q [] = []"
  by (simp add: rows_by_id_def map_filter_def)

lemma rows_by_id_set: "set (rows_by_id q ids) \<subseteq> set q"
proof (induction ids)
  case (Cons i ids)
  have "x \<in> set q" if "find (\<lambda>x. re_id (fst x) = i) q = Some x" for x
    using that by (auto simp: find_Some_iff)
  with Cons show ?case by (auto simp: rows_by_id_Cons split: option.splits)
qed simp

lemma rows_by_id_ids: "map (\<lambda>x. re_id (fst x)) (rows_by_id q ids) =
    filter (\<lambda>i. i \<in> (\<lambda>x. re_id (fst x)) ` set q) ids"
proof (induction ids)
  case (Cons i ids)
  have "find (\<lambda>x. re_id (fst x) = i) q = None \<longleftrightarrow> i \<notin> (\<lambda>x. re_id (fst x)) ` set q"
    unfolding find_None_iff image_iff by metis
  moreover have "re_id (fst x) = i" if "find (\<lambda>x. re_id (fst x) = i) q = Some x" for x
    using that by (auto simp: find_Some_iff)
  ultimately show ?case using Cons by (cases "find (\<lambda>x. re_id (fst x) = i) q") (simp_all add: rows_by_id_Cons)
qed simp

lemma select_ready_row_ids_distinct:
  assumes "queue_inv L A M d" and "select_ready_row_ids ss cfg n d = Inr ids"
  shows "distinct ids"
proof -
  have "distinct (map re_id (ready_executions d))" using ready.distinct_pk [OF assms(1)] .
  then have "distinct (map re_id (first_n n (order_by (\<lambda>r. (- re_priority r, re_id r)) (filter P (ready_executions d)))))"
    for P unfolding first_n_def by (simp add: take_map [symmetric] distinct_map_sort_key distinct_map_filter)
  with assms(2) show ?thesis
    by (auto simp: select_ready_row_ids_def Let_def split: if_splits)
qed

lemma selection_subset:
  "selection pk jb table d q \<Longrightarrow> set rows \<subseteq> set q \<Longrightarrow> distinct (map (\<lambda>x. pk (fst x)) rows) \<Longrightarrow>
   selection pk jb table d rows"
  by (auto simp: selection_def)

lemma select_ready_rows_selection:
  assumes inv: "queue_inv L A M d" and step: "select_ready_rows ss cfg n queues (ready_queryset cfg d) d = Inr rows"
  shows "ready_selection d rows \<and> set rows \<subseteq> set (ready_queryset cfg d)"
proof -
  let ?q = "ready_queryset cfg d"
  have q: "ready_selection d ?q" using inv by (rule ready_queryset_selection)
  have part: "ready_selection d (first_n m (lock_ready ss cfg (ordered_rows (filter P ?q))))
      \<and> set (first_n m (lock_ready ss cfg (ordered_rows (filter P ?q)))) \<subseteq> set ?q" for m P
    by (intro conjI select_part [OF q] subsetI) (drule set_first_lock_filter, erule conjunct1)
  show ?thesis
  proof (cases "selectors_match_all queues")
    case True
    show ?thesis
    proof (cases "family ss \<in> {Mysql, Mariadb}")
      case fam: True
      with step True obtain ids where ids: "select_ready_row_ids ss cfg n d = Inr ids" "rows = rows_by_id ?q ids"
        by (auto simp: select_ready_rows_def)
      have "distinct (map (\<lambda>x. re_id (fst x)) rows)"
        using select_ready_row_ids_distinct [OF inv ids(1)] unfolding ids(2) rows_by_id_ids by simp
      then show ?thesis using selection_subset [OF q, of rows] rows_by_id_set [of ?q ids] ids(2) by blast
    next
      case False
      with step True part [of n "\<lambda>_. True"] show ?thesis by (auto simp: select_ready_rows_def)
    qed
  next
    case False
    define sels where "sels = takeWhile (\<lambda>s. s \<noteq> ''*'') (normalize_queue_selectors queues)"
    define selected where "selected = (if sels = [] then []
       else if selectors_are_exact_queues sels then select_exact_queue_rows ss cfg sels n ?q
       else first_n n (lock_ready ss cfg (ordered_selector_rows_queryset (family ss) sels ?q)))"
    define rest where "rest = first_n (n - int (length selected)) (lock_ready ss cfg (ordered_rows
       (filter (\<lambda>(r, j). re_id r \<notin> (\<lambda>(r, j). re_id r) ` set selected) ?q)))"
    have rows: "rows = selected \<or> rows = selected @ rest"
      using step [unfolded select_ready_rows_def Let_def, folded sels_def, folded selected_def,
          folded rest_def] False by (auto split: if_splits)
    have sel: "ready_selection d selected \<and> set selected \<subseteq> set ?q"
    proof (cases "sels = []")
      case True
      then show ?thesis by (simp add: selected_def selection_def)
    next
      case ne: False
      show ?thesis
      proof (cases "selectors_are_exact_queues sels")
        case True
        have "ready_selection d (select_exact_queue_rows ss cfg sels n ?q)
            \<and> set (select_exact_queue_rows ss cfg sels n ?q) \<subseteq> set ?q"
          using exact_queue_ctes_rows [OF q distinct_dict_fromkeys, of ss cfg n sels 0]
            exact_queue_loop_rows [OF q, of "[]" "set sels" sels ss cfg n]
          by (auto simp: select_exact_queue_rows_def select_ready_rows_by_exact_queues_def Let_def selection_def)
        with True ne show ?thesis by (simp add: selected_def)
      next
        case not_exact: False
        define fq where "fq = filter_by_queue_selectors (family ss) (\<lambda>(r, j). re_queue_name r) ?q (SelTuple sels)"
        have fq: "ready_selection d fq" "set fq \<subseteq> set ?q"
          using q unfolding fq_def filter_by_queue_selectors_def
          by (auto simp: selection_def distinct_map_filter split: option.splits)
        have eq: "selected = first_n n (lock_ready ss cfg (order_by (\<lambda>(r, j).
            (int (selector_rank (family ss) sels (re_queue_name r)), claim_order (r, j))) fq))"
          using ne not_exact by (simp add: selected_def ordered_selector_rows_queryset_def fq_def)
        have "ready_selection d selected"
          unfolding eq lock_ready_def using fq(1) by (intro selection_first_n selection_locked selection_sort)
        moreover have "set selected \<subseteq> set ?q"
        proof
          fix x assume "x \<in> set selected"
          from subsetD [OF set_lock_ready first_n_subsetD [OF this [unfolded eq]]] fq(2)
          show "x \<in> set ?q" by auto
        qed
        ultimately have "ready_selection d selected" "set selected \<subseteq> set ?q" by blast+
        then show ?thesis by blast
      qed
    qed
    have r: "ready_selection d rest \<and> set rest \<subseteq> set ?q" unfolding rest_def by (rule part)
    have "p \<notin> (\<lambda>x. re_id (fst x)) ` set selected" if "p \<in> (\<lambda>x. re_id (fst x)) ` set rest" for p
    proof -
      from that obtain x where x: "x \<in> set rest" "p = re_id (fst x)" by auto
      from set_first_lock_filter [OF x(1) [unfolded rest_def]] x(2) show ?thesis by auto
    qed
    then have "(\<lambda>x. re_id (fst x)) ` set selected \<inter> (\<lambda>x. re_id (fst x)) ` set rest = {}"
      unfolding disjoint_iff by blast
    with sel r have "ready_selection d (selected @ rest)" by (intro selection_append) auto
    with rows sel r show ?thesis by auto
  qed
qed

section \<open>Claiming keeps the invariant\<close>

lemma create_claimed_jobs: "create_claimed r d = Inr e \<Longrightarrow> jobs e = jobs d"
  by (auto simp: create_claimed_def insert_claimed_def timezone_now_def split: if_splits)

lemma insert_claimed_jobs: "insert_claimed r d = Inr e \<Longrightarrow> jobs e = jobs d"
  by (auto simp: insert_claimed_def split: if_splits)

lemma create_claimed_executions_inv:
  assumes "create_claimed_executions js p t d = Inr e"
    and "queue_inv L A (M + tokens d (map job_id js)) d"
    and "distinct (map job_id js)" and "job_id ` set js \<subseteq> A"
  shows "queue_inv L (A - job_id ` set js) M e"
proof -
  have "queue_inv L (A - job_id ` set js) M e \<and> jobs e = jobs d"
  proof (rule for_each_transit [OF assms(1) [unfolded create_claimed_executions_def] _ refl assms(3,4)])
    show "queue_inv L A (M + sum_list (map (\<lambda>j. token d (job_id j)) js)) d"
      using assms(2) by (simp add: tokens_def comp_def)
    show "queue_inv L (B - {job_id j}) N e' \<and> jobs e' = jobs d"
      if "create_claimed (claimed_row (job_id j) p t) d' = Inr e'" "jobs d' = jobs d"
        "queue_inv L B (N + token d (job_id j)) d'" "job_id j \<in> B" for j d' e' B N
      using that queue_inv_create_claimed [OF that(1)] create_claimed_jobs [OF that(1)]
        token_jobs_cong [OF that(2)] by (simp add: claimed_row_def)
  qed
  then show ?thesis by blast
qed

lemma insert_claimed_inv:
  assumes "for_each (\<lambda>i. insert_claimed (claimed_row i p t)) is d = Inr e"
    and "queue_inv L A (M + tokens d is) d" and "distinct is" and "set is \<subseteq> A"
  shows "queue_inv L (A - set is) M e"
proof -
  have "queue_inv L (A - (\<lambda>i. i) ` set is) M e \<and> jobs e = jobs d"
  proof (rule for_each_transit [OF assms(1) _ refl])
    show "queue_inv L A (M + sum_list (map (token d) is)) d" using assms(2) by (simp add: tokens_def)
    show "queue_inv L (B - {i}) N e' \<and> jobs e' = jobs d"
      if "insert_claimed (claimed_row i p t) d' = Inr e'" "jobs d' = jobs d"
        "queue_inv L B (N + token d i) d'" "i \<in> B" for i d' e' B N
      using that queue_inv_insert_claimed [OF that(1)] insert_claimed_jobs [OF that(1)]
        token_jobs_cong [OF that(2)] by (simp add: claimed_row_def)
  qed (use assms in auto)
  then show ?thesis by simp
qed

text \<open>The selected rows, consumed and claimed, leave no job in transit and no slot without an
  owner: the slot of a ready job becomes the slot of the claimed one.\<close>

lemma postgres_claim_inv:
  assumes inv: "queue_inv L A M d" and sel: "ready_selection d rows"
    and step: "consume_ready_and_create_claimed_executions rows p t d = Inr (created, e)"
    and len: "length created = length rows"
  shows "queue_inv L A M e"
proof -
  let ?ids = "(\<lambda>x. re_id (fst x)) ` set rows"
  define deleted where "deleted = map re_job (filter (\<lambda>r. re_id r \<in> ?ids) (ready_executions d))"
  have created: "created = filter (no_state (state_models_except [Ready]) d) deleted"
    and ins: "for_each (\<lambda>i. insert_claimed (claimed_row i p t)) created (delete_pks Ready ?ids d) = Inr e"
    using step by (auto simp: consume_ready_and_create_claimed_executions_def Let_def deleted_def)
  have sub: "fst ` set rows \<subseteq> set (ready_executions d)" and dist: "distinct (map (\<lambda>x. re_id (fst x)) rows)"
    using sel by (auto simp: selection_def)
  have dr: "distinct (map fst rows)" using dist by (auto simp: distinct_map inj_on_def)
  have "mset (filter (\<lambda>r. re_id r \<in> re_id ` set (map fst rows)) (ready_executions d)) = mset (map fst rows)"
    using ready.distinct_pk [OF inv] sub dr by (intro mset_filter_selected) auto
  moreover have "re_id ` set (map fst rows) = ?ids" by (simp add: image_image)
  ultimately have "image_mset re_job (mset (filter (\<lambda>r. re_id r \<in> ?ids) (ready_executions d)))
      = image_mset re_job (mset (map fst rows))" by simp
  then have ms: "mset deleted = mset (map (\<lambda>x. re_job (fst x)) rows)"
    by (simp add: deleted_def image_mset.compositionality comp_def)
  have jb: "map (\<lambda>x. re_job (fst x)) rows = map (\<lambda>x. job_id (snd x)) rows"
    using selection_job [OF sel] by auto
  have "length deleted = length created" using len mset_eq_length [OF ms] by simp
  then have cd: "created = deleted" unfolding created
    by (metis filter_True length_filter_less nat_neq_iff)
  obtain rows' f where con: "consume_selected_rows ss Ready (\<lambda>x. re_id (fst x)) rows d = (rows', f)" for ss
    using ready.consume_selected [OF sub dist] by (metis surj_pair)
  note f = ready.consumed_selection [OF inv sel con]
  have f_eq: "f = delete_pks Ready ?ids d" using f(5) by (simp add: image_image)
  have tok: "tokens d (map (\<lambda>x. job_id (snd x)) rows) = tokens f created"
    using tokens_mset_cong [OF ms] tokens_jobs_cong [OF f(2)] unfolding cd jb by simp
  have set: "set created = (\<lambda>x. job_id (snd x)) ` set rows"
    using mset_eq_setD [OF ms] unfolding cd jb by simp
  have "distinct created"
    using mset_eq_imp_distinct_iff [OF ms] ready.selection_distinct_jobs [OF inv sel] unfolding cd jb by simp
  moreover have "queue_inv L (A \<union> set created) (M + tokens f created) f"
    using f(4) tok by (simp add: slot_tokens_def slot_model_def set)
  ultimately have "queue_inv L (A \<union> set created - set created) M e"
    using ins unfolding f_eq [symmetric] by (intro insert_claimed_inv) auto
  moreover have "A \<union> set created - set created = A"
    using ready.selected_not_in_transit(1) [OF inv sel] unfolding set by fastforce
  ultimately show ?thesis by simp
qed

lemma claim_ready_jobs_inv:
  assumes inv: "queue_inv L A M d" and step: "claim_ready_jobs ss cfg n queues pr d = Inr (js, e)"
  shows "queue_inv L A M e"
proof (cases "n \<le> 0")
  case True
  with assms show ?thesis by (simp add: claim_ready_jobs_def)
next
  case False
  with step have once: "claim_ready_jobs_once ss cfg n queues pr d = Inr (js, e)" by (simp add: claim_ready_jobs_def)
  from once obtain rows0 where r0: "select_ready_rows ss cfg n queues (ready_queryset cfg d) d = Inr rows0"
    by (auto simp: claim_ready_jobs_once_def Let_def)
  define paused where "paused = lock_active_pauses (backend_alias cfg)
     (Some (dict_fromkeys (map (\<lambda>(r, j). re_queue_name r) rows0))) d"
  define rows where "rows = filter (\<lambda>(r, j). re_queue_name r \<notin> paused) rows0"
  define c where "c = d\<lparr>clock := stl (clock d)\<rparr>"
  have ci: "queue_inv L A M c" using inv by (simp add: c_def)
  have "ready_selection d rows" unfolding rows_def
    using select_ready_rows_selection [OF inv r0] by (intro selection_filter) blast
  then have sel: "ready_selection c rows" by (simp add: c_def selection_def find_job_def)
  note step' = once [unfolded claim_ready_jobs_once_def Let_def r0 and_then_simps(2) timezone_now_def prod.case,
      folded c_def, folded paused_def, folded rows_def]
  show ?thesis
  proof (cases "rows0 = [] \<or> rows = []")
    case True
    with step' r0 inv show ?thesis by (auto split: if_splits)
  next
    case ne: False
    show ?thesis
    proof (cases "family ss = Postgresql")
      case True
      with step' ne r0 obtain created where
        "consume_ready_and_create_claimed_executions rows (map_option proc_id pr) (shd (clock d)) c = Inr (created, e)"
        "length created = length rows"
        by (auto split: if_splits)
      from postgres_claim_inv [OF ci sel this] show ?thesis .
    next
      case False
      obtain rows' f where con: "consume_selected_rows ss Ready (\<lambda>x. re_id (fst x)) rows c = (rows', f)" by force
      note f = ready.consumed_selection [OF ci sel con]
      from step' ne False con f(1) r0 have cr: "create_claimed_executions (map snd rows) (map_option proc_id pr) (shd (clock d)) f = Inr e"
        by (auto split: if_splits)
      let ?I = "(\<lambda>x. job_id (snd x)) ` set rows"
      have "queue_inv L (A \<union> ?I - job_id ` set (map snd rows)) M e"
        using f(4) ready.selection_distinct_jobs [OF ci sel] tokens_jobs_cong [OF f(2)]
        by (intro create_claimed_executions_inv [OF cr])
           (simp_all add: slot_tokens_def slot_model_def comp_def image_image)
      moreover have "job_id ` set (map snd rows) = ?I" by (simp add: image_image)
      moreover have "A \<union> ?I - ?I = A"
        using ready.selected_not_in_transit(1) [OF ci sel] by fastforce
      ultimately show ?thesis by simp
    qed
  qed
qed

end
