(* ===== verification/Execution.thy ===== *)
theory Execution
  imports Claiming
begin

text \<open>
  Executing a claimed job, \<^verbatim>\<open>operations/execution.py\<close> with the PostgreSQL statement
  \<open>delete_claimed_and_finish_job_if_no_execution_state\<close>: running the task, completing or failing
  the job, and releasing its concurrency slot.  The call of the task is a parameter: it is code of the
  application, which may return any value or raise any exception.
\<close>

section \<open>Completing and failing\<close>

text \<open>The argument of the entry points: a \<open>Job\<close> object, a \<open>ClaimedJob\<close> or a job id.\<close>

datatype job_argument = JobObject job | ClaimedObject claimed_job | JobId uuid

definition resolve_claimed_job :: "backend_config \<Rightarrow> job_argument \<Rightarrow> db \<Rightarrow> error + job" where
  "resolve_claimed_job cfg a d = (case a of
      JobId i \<Rightarrow> (case find_job d i of
        Some j \<Rightarrow> (if job_backend_alias j = backend_alias cfg then Inr j else Inl ClaimedDoesNotExist)
      | None \<Rightarrow> Inl ClaimedDoesNotExist)
    | JobObject j \<Rightarrow> (if job_backend_alias j \<noteq> backend_alias cfg then Inl ClaimedDoesNotExist else Inr j)
    | ClaimedObject c \<Rightarrow> (if job_backend_alias (cj_job c) \<noteq> backend_alias cfg
        then Inl ClaimedDoesNotExist else Inr (cj_job c)))"

definition claimed_pks :: "uuid \<Rightarrow> db \<Rightarrow> nat set" where
  "claimed_pks i d = ce_id ` set (filter (\<lambda>c. ce_job c = i) (claimed_executions d))"

definition delete_claimed_execution :: "uuid \<Rightarrow> db \<Rightarrow> error + db" where
  "delete_claimed_execution i d =
     (if \<not> has_state Claimed d i then Inl ClaimedDoesNotExist
      else Inr (delete_pks Claimed (claimed_pks i d) d))"

text \<open>\<open>sql/postgres.py\<close>: one statement deletes the claim and finishes the job, with the two row
  counts as result; its conditions read the state before the statement.\<close>

definition delete_claimed_and_finish_job ::
  "job \<Rightarrow> json \<Rightarrow> time \<Rightarrow> db \<Rightarrow> (nat \<times> nat) \<times> db" where
  "delete_claimed_and_finish_job j v t d =
     (let deleted = state_count Claimed d (job_id j);
          (updated, e) = (if deleted = 0 then (0, d) else finish_rows j (state_models_except [Claimed]) v t d)
      in ((deleted, updated), delete_pks Claimed (claimed_pks (job_id j) d) e))"

definition delete_claimed_and_finish_job_if_no_execution_state ::
  "job \<Rightarrow> json \<Rightarrow> time \<Rightarrow> db \<Rightarrow> error + db" where
  "delete_claimed_and_finish_job_if_no_execution_state j v t d =
     (let ((deleted, updated), e) = delete_claimed_and_finish_job j v t d in
      if deleted \<noteq> 1 then Inl ClaimedDoesNotExist
      else if updated \<noteq> 1 then Inl (already_has_state (job_id j))
      else Inr e)"

definition complete_transition ::
  "session \<Rightarrow> backend_config \<Rightarrow> job \<Rightarrow> json \<Rightarrow> task option \<Rightarrow> db \<Rightarrow> error + job \<times> db" where
  "complete_transition ss cfg j v task d =
     (let (now, d) = timezone_now d in
      and_then
        (if preserve_finished_jobs cfg then
           (if family ss = Postgresql
            then and_then (delete_claimed_and_finish_job_if_no_execution_state j v now d)
                   (\<lambda>d. Inr (finished_columns v now j, d))
            else and_then (delete_claimed_execution (job_id j) d) (\<lambda>d.
                 and_then (finish_job_if_no_execution_state j v now False d)
                   (\<lambda>d. Inr (finished_columns v now j, d))))
         else
           and_then (delete_claimed_execution (job_id j) d) (\<lambda>d.
           and_then (ensure_no_other_execution_state (job_id j) [Claimed] d) (\<lambda>_.
             Inr (j, snd (delete_jobs {job_id j} d)))))
        (\<lambda>(completed, d). and_then (release_concurrency_slot ss cfg j task d) (\<lambda>d. Inr (completed, d))))"

definition complete_claimed_job ::
  "session \<Rightarrow> backend_config \<Rightarrow> job_argument \<Rightarrow> json \<Rightarrow> task option \<Rightarrow> db \<Rightarrow> error + job \<times> db" where
  "complete_claimed_job ss cfg a v task d =
     and_then (resolve_claimed_job cfg a d) (\<lambda>j. complete_transition ss cfg j v task d)"

text \<open>An exception as \<open>fail_claimed_job\<close> records it.\<close>

record exception_info =
  ei_class :: string
  ei_message :: string
  ei_traceback :: string

definition fail_transition ::
  "session \<Rightarrow> backend_config \<Rightarrow> job \<Rightarrow> exception_info \<Rightarrow> task option \<Rightarrow> db \<Rightarrow> error + db" where
  "fail_transition ss cfg j err task d =
     and_then (delete_claimed_execution (job_id j) d) (\<lambda>d.
     and_then (ensure_no_other_execution_state (job_id j) [Claimed] d) (\<lambda>_.
     and_then (create_failed \<lparr>fe_id = 0, fe_job = job_id j, fe_exception_class = ei_class err,
         fe_message = ei_message err, fe_traceback = ei_traceback err, fe_retry_at = None,
         fe_created_at = 0\<rparr> d) (\<lambda>d.
       release_concurrency_slot ss cfg j task d)))"

definition fail_claimed_job ::
  "session \<Rightarrow> backend_config \<Rightarrow> job_argument \<Rightarrow> exception_info \<Rightarrow> task option \<Rightarrow> db \<Rightarrow> error + job \<times> db" where
  "fail_claimed_job ss cfg a err task d =
     and_then (resolve_claimed_job cfg a d) (\<lambda>j.
     and_then (fail_transition ss cfg j err task d) (\<lambda>d. Inr (j, d)))"

section \<open>Executing\<close>

definition load_claimed_job :: "backend_config \<Rightarrow> uuid \<Rightarrow> db \<Rightarrow> error + claimed_job" where
  "load_claimed_job cfg i d =
     (case filter (\<lambda>(c, j). ce_job c = i \<and> job_backend_alias j = backend_alias cfg)
             (with_jobs d ce_job (claimed_executions d)) of
        [] \<Rightarrow> Inl ClaimedDoesNotExist
      | (c, j) # _ \<Rightarrow>
          Inr \<lparr>cj_job = j, cj_claimed_at = ce_created_at c,
               cj_worker_ids = (case ce_process c of None \<Rightarrow> []
                 | Some p \<Rightarrow> (case find (\<lambda>q. proc_id q = p) (processes d) of
                     None \<Rightarrow> [] | Some q \<Rightarrow> [proc_name q])),
               cj_process_id = ce_process c\<rparr>)"

text \<open>\<open>dict(xs)\<close> of a list takes its elements as pairs, which lists, strings and objects of two
  elements are; a key has to be text to name an argument.\<close>

fun dict_item :: "json \<Rightarrow> (string \<times> json) option" where
  "dict_item (JList [JStr k, v]) = Some (k, v)"
| "dict_item (JStr [a, b]) = Some ([a], JStr [b])"
| "dict_item (JObject [(k, v), (k', v')]) = Some (k, JStr k')"
| "dict_item _ = None"

text \<open>\<open>payload.get("args", [])\<close> and \<open>payload.get("kwargs", {})\<close>, converted by \<open>list\<close> and
  \<open>dict\<close>; a payload of another shape raises.\<close>

definition payload_args :: "json \<Rightarrow> (json list \<times> (string \<times> json) list) option" where
  "payload_args p = (case p of
      JObject kvs \<Rightarrow>
        (case ((case map_of kvs ''args'' of None \<Rightarrow> Some [] | Some (JList xs) \<Rightarrow> Some xs
                 | Some (JStr s) \<Rightarrow> Some (map (\<lambda>c. JStr [c]) s)
                 | Some (JObject o') \<Rightarrow> Some (map (\<lambda>(k, v). JStr k) o') | Some _ \<Rightarrow> None),
               (case map_of kvs ''kwargs'' of None \<Rightarrow> Some [] | Some (JObject o') \<Rightarrow> Some o'
                 | Some (JList xs) \<Rightarrow> map_option dict_of_pairs (those (map dict_item xs))
                 | Some (JStr []) \<Rightarrow> Some [] | Some _ \<Rightarrow> None)) of
           (Some args, Some kwargs) \<Rightarrow> Some (args, kwargs) | _ \<Rightarrow> None)
    | _ \<Rightarrow> None)"

definition exception_path :: "error \<Rightarrow> string" where
  "exception_path e = (case e of
      EnqueueError _ \<Rightarrow> ''dj_queue.exceptions.EnqueueError''
    | DispatchPolicyError _ \<Rightarrow> ''dj_queue.exceptions.DispatchPolicyError''
    | ClaimedDoesNotExist \<Rightarrow> ''dj_queue.models.jobs.ClaimedExecution.DoesNotExist''
    | FailedDoesNotExist \<Rightarrow> ''dj_queue.models.jobs.FailedExecution.DoesNotExist''
    | JobDoesNotExist \<Rightarrow> ''dj_queue.models.jobs.Job.DoesNotExist''
    | RecurringExecutionDoesNotExist \<Rightarrow> ''dj_queue.models.recurring.RecurringExecution.DoesNotExist''
    | IntegrityError \<Rightarrow> ''django.db.utils.IntegrityError''
    | OperationalError _ \<Rightarrow> ''django.db.utils.OperationalError''
    | ImportError _ \<Rightarrow> ''builtins.ImportError'' | AttributeError _ \<Rightarrow> ''builtins.AttributeError''
    | ValueError _ \<Rightarrow> ''builtins.ValueError'' | TypeError _ \<Rightarrow> ''builtins.TypeError''
    | LookupError _ \<Rightarrow> ''builtins.LookupError''
    | ImproperlyConfigured _ \<Rightarrow> ''django.core.exceptions.ImproperlyConfigured''
    | OverflowError \<Rightarrow> ''builtins.OverflowError''
    | ZoneInfoNotFoundError _ \<Rightarrow> ''zoneinfo._common.ZoneInfoNotFoundError'')"

definition info_of :: "error \<Rightarrow> exception_info" where
  "info_of e = \<lparr>ei_class = exception_path e, ei_message = error_text e, ei_traceback = []\<rparr>"

text \<open>The task call: the arguments and, for tasks that take a context, the claim it describes.\<close>

type_synonym task_call = "task \<Rightarrow> claimed_job option \<Rightarrow> json list \<Rightarrow> (string \<times> json) list \<Rightarrow> exception_info + pyval"

definition call_task ::
  "task_call \<Rightarrow> backend_config \<Rightarrow> task \<Rightarrow> claimed_job option \<Rightarrow> job \<Rightarrow> json list \<Rightarrow> (string \<times> json) list \<Rightarrow> db
     \<Rightarrow> exception_info + pyval" where
  "call_task run cfg t claimed j args kwargs d =
     (if takes_context t then
        (case claimed of
           Some c \<Rightarrow> run t (Some c) args kwargs
         | None \<Rightarrow> (case load_claimed_job cfg (job_id j) d of
             Inl e \<Rightarrow> Inl (info_of e) | Inr c \<Rightarrow> run t (Some c) args kwargs))
      else run t None args kwargs)"

definition execute_claimed_job ::
  "session \<Rightarrow> backend_config \<Rightarrow> task_call \<Rightarrow> job_argument \<Rightarrow> db \<Rightarrow> error + job \<times> db" where
  "execute_claimed_job ss cfg run a d =
     and_then (case a of
         ClaimedObject c \<Rightarrow> Inr (Some c, cj_job c)
       | JobObject j \<Rightarrow> Inr (None, j)
       | JobId i \<Rightarrow> and_then (load_claimed_job cfg i d) (\<lambda>c. Inr (Some c, cj_job c))) (\<lambda>(claimed, j).
       case import_task ss (task_path j) of
         Inl e \<Rightarrow> fail_claimed_job ss cfg (JobObject j) (info_of e) None d
       | Inr t \<Rightarrow>
           (case payload_args (payload j) of
              None \<Rightarrow> fail_claimed_job ss cfg (JobObject j) (info_of (TypeError [])) (Some t) d
            | Some (args, kwargs) \<Rightarrow>
                (case call_task run cfg t claimed j args kwargs d of
                   Inl err \<Rightarrow> fail_claimed_job ss cfg (JobObject j) err (Some t) d
                 | Inr v \<Rightarrow>
                     (case normalize_return_value (float_repr ss) v of
                        Inl e \<Rightarrow> fail_claimed_job ss cfg (JobObject j) (info_of e) (Some t) d
                      | Inr v \<Rightarrow> complete_claimed_job ss cfg (JobObject j) v (Some t) d))))"

section \<open>Lemmas\<close>

lemma row_states:
  assumes "queue_inv L A M d" and "has_state m d i"
  shows "i \<notin> A" and "i \<in> job_ids d" and "state_count m d i = 1" and "m' \<noteq> m \<Longrightarrow> \<not> has_state m' d i"
proof -
  from assms(2) obtain p where p: "(p, i) \<in> set (state_keys m d)" by (auto simp: has_state_def)
  note live = row_job_live [OF assms(1) p]
  show "i \<notin> A" "i \<in> job_ids d" using live by blast+
  have one: "0 < state_count m d i" "live_count d i = 1" using assms(2) live(3) by (simp_all add: has_state_iff_count)
  then show "state_count m d i = 1" using state_count_le_live [of m d i] by simp
  show "\<not> has_state m' d i" if "m' \<noteq> m"
    using one that unfolding has_state_iff_count live_count_unfold by (cases m; cases m') auto
qed

lemma claimed_rows_one:
  assumes "queue_inv L A M d" and "has_state Claimed d i"
  shows "map ce_job (filter (\<lambda>c. ce_job c = i) (claimed_executions d)) = [i]"
proof -
  have "length (filter (\<lambda>c. ce_job c = i) (claimed_executions d)) = 1"
    using row_states(3) [OF assms] by (simp add: state_count_def claimed.keys count_if_map count_if_def comp_def)
  then obtain c where c: "filter (\<lambda>c. ce_job c = i) (claimed_executions d) = [c]"
    by (auto simp: length_Suc_conv)
  have "\<forall>x\<in>set (filter (\<lambda>c. ce_job c = i) (claimed_executions d)). ce_job x = i" by simp
  then show ?thesis unfolding c by simp
qed

lemma queue_inv_unclaim:
  assumes inv: "queue_inv L A M d" and cl: "has_state Claimed d i"
  shows "queue_inv L (insert i A) (M + token d i) (delete_pks Claimed (claimed_pks i d) d)"
proof -
  let ?rows = "filter (\<lambda>c. ce_job c = i) (claimed_executions d)"
  have one: "map ce_job ?rows = [i]" using assms by (rule claimed_rows_one)
  then have "ce_job ` set ?rows = {i}" by (metis list.set(1) list.set(2) list.set_map)
  moreover have "distinct (map ce_id ?rows)" using claimed.distinct_pk [OF inv] by (simp add: distinct_map_filter)
  ultimately show ?thesis
    using queue_inv_consumed [OF inv claimed.keys, where rows = ?rows] one
    by (simp add: slot_tokens_def slot_model_def claimed_pks_def)
qed

lemma delete_claimed_execution_inv:
  assumes "queue_inv L A M d" and "delete_claimed_execution i d = Inr e"
  shows "queue_inv L (insert i A) (M + token d i) e" and "jobs e = jobs d" and "i \<notin> A"
  using assms queue_inv_unclaim [OF assms(1)] row_states(1) [OF assms(1)]
  by (auto simp: delete_claimed_execution_def split: if_splits)

text \<open>The single statement and the two statements of the other databases have the same effect.\<close>

lemma has_state_delete_other: "m \<noteq> m' \<Longrightarrow> has_state m (delete_pks m' P d) i = has_state m d i"
  by (simp add: has_state_def state_keys_delete_pks)

lemma finish_rows_delete_claimed:
  "finish_rows j (state_models_except [Claimed]) v t (delete_pks Claimed P d) =
     (let (n, e) = finish_rows j (state_models_except [Claimed]) v t d in (n, delete_pks Claimed P e))"
proof -
  have "no_state (state_models_except [Claimed]) (delete_pks Claimed P d) i =
      no_state (state_models_except [Claimed]) d i" for i
    by (auto simp: no_state_def list_all_iff state_models_except_def has_state_delete_other)
  moreover have "find_job (delete_pks Claimed P d) i = find_job d i" for i by (simp add: find_job_def)
  moreover have "update_job i f (delete_pks Claimed P d) = delete_pks Claimed P (update_job i f d)" for i f
    by (simp add: update_job_def delete_pks_def)
  ultimately show ?thesis by (simp add: finish_rows_def split: option.splits)
qed

lemma claimed_pks_none: "\<not> has_state Claimed d i \<Longrightarrow> state_count Claimed d i = 0"
  by (simp add: has_state_iff_count)

lemma postgres_finish_is_two_steps:
  assumes "state_count Claimed d (job_id j) \<le> 1"
  shows "delete_claimed_and_finish_job_if_no_execution_state j v t d =
    and_then (delete_claimed_execution (job_id j) d) (finish_job_if_no_execution_state j v t False)"
proof (cases "has_state Claimed d (job_id j)")
  case False
  then show ?thesis
    by (simp add: delete_claimed_and_finish_job_if_no_execution_state_def delete_claimed_and_finish_job_def
        delete_claimed_execution_def claimed_pks_none)
next
  case True
  then have one: "state_count Claimed d (job_id j) = 1" using assms by (simp add: has_state_iff_count)
  obtain n e where "finish_rows j (state_models_except [Claimed]) v t d = (n, e)" by force
  with one True show ?thesis
    by (simp add: delete_claimed_and_finish_job_if_no_execution_state_def delete_claimed_and_finish_job_def
        delete_claimed_execution_def finish_job_if_no_execution_state_def finish_rows_delete_claimed)
qed

text \<open>The in-memory job has the key and the policy of its row.\<close>

definition current_job :: "(string \<Rightarrow> int) \<Rightarrow> db \<Rightarrow> job \<Rightarrow> bool" where
  "current_job L d j \<longleftrightarrow> job_policy_ok L j \<and> (job_id j \<in> job_ids d \<longrightarrow> key_of d (job_id j) = job_key j)"

lemma current_job_clock [simp]: "current_job L (d\<lparr>clock := c\<rparr>) j = current_job L d j"
  by (simp add: current_job_def job_ids_def)

lemma token_current:
  assumes "current_job L d j" and "job_id j \<in> job_ids d"
  shows "token d (job_id j) = (case job_key j of None \<Rightarrow> {#} | Some k \<Rightarrow> {#k#})"
  using assms by (simp add: token_def current_job_def)

text \<open>Both ways of completing, and failing, leave the slot as a token to be released.\<close>

lemma complete_transition_inv:
  assumes inv: "queue_inv L A M d" and cur: "current_job L d j"
    and step: "complete_transition ss cfg j v task d = Inr (j', e)"
  shows "queue_inv L A M e"
proof -
  let ?i = "job_id j"
  define c where "c = d\<lparr>clock := stl (clock d)\<rparr>"
  have ci: "queue_inv L A M c" and cc: "current_job L c j" using inv cur by (simp_all add: c_def)
  have count: "state_count Claimed c ?i \<le> 1"
    using row_states(3) [OF ci, of Claimed ?i] by (cases "has_state Claimed c ?i") (simp_all add: claimed_pks_none)
  note step' = step [unfolded complete_transition_def timezone_now_def Let_def prod.case, folded c_def,
      unfolded postgres_finish_is_two_steps [OF count]]
  then obtain f where f: "delete_claimed_execution ?i c = Inr f" by (auto split: if_splits)
  note del = delete_claimed_execution_inv [OF ci f]
  have "?i \<in> job_ids c"
    using f row_states(2) [OF ci, of Claimed ?i] by (auto simp: delete_claimed_execution_def split: if_splits)
  then have tok: "token c ?i = (case job_key j of None \<Rightarrow> {#} | Some k \<Rightarrow> {#k#})" by (rule token_current [OF cc])
  have same: "insert ?i A - {?i} = A" using del(3) by blast
  obtain g where rel: "release_concurrency_slot ss cfg j task g = Inr e"
    and g: "queue_inv L A (M + token c ?i) g"
  proof (cases "preserve_finished_jobs cfg")
    case True
    with step' f obtain g where g: "finish_job_if_no_execution_state j v (shd (clock d)) False f = Inr g"
      and rel: "release_concurrency_slot ss cfg j task g = Inr e"
      by (auto simp: and_then_assoc split: if_splits)
    have "queue_inv L (insert ?i A - {?i}) (M + token c ?i) g"
      by (rule queue_inv_finish_if_no_state [OF g del(1)]) simp
    with that rel same show thesis by simp
  next
    case False
    with step' f have rel: "release_concurrency_slot ss cfg j task (snd (delete_jobs {?i} f)) = Inr e" by auto
    have "queue_inv L (insert ?i A - {?i}) (M + token c ?i) (snd (delete_jobs {?i} f))"
      using transit_facts(2) [OF del(1)] by (intro queue_inv_delete_jobs [OF del(1)]) simp
    with that rel same show thesis by simp
  qed
  have "job_policy_ok L j" using cur by (simp add: current_job_def)
  from release_concurrency_slot_token [OF g [unfolded tok] this rel] show ?thesis .
qed

lemma fail_transition_inv:
  assumes inv: "queue_inv L A M d" and cur: "current_job L d j"
    and step: "fail_transition ss cfg j err task d = Inr e"
  shows "queue_inv L A M e"
proof -
  let ?i = "job_id j"
  from step obtain f g r where f: "delete_claimed_execution ?i d = Inr f"
    and g: "create_failed r f = Inr g" "fe_job r = ?i"
    and rel: "release_concurrency_slot ss cfg j task g = Inr e" by (auto simp: fail_transition_def)
  note del = delete_claimed_execution_inv [OF inv f]
  have "?i \<in> job_ids d"
    using f row_states(2) [OF inv, of Claimed ?i] by (auto simp: delete_claimed_execution_def split: if_splits)
  then have tok: "token d ?i = (case job_key j of None \<Rightarrow> {#} | Some k \<Rightarrow> {#k#})" by (rule token_current [OF cur])
  have "queue_inv L (insert ?i A - {?i}) (M + token d ?i) g"
    using queue_inv_create_failed [OF g(1) del(1)] g(2) by simp
  moreover have "insert ?i A - {?i} = A" using del(3) by blast
  moreover have "job_policy_ok L j" using cur by (simp add: current_job_def)
  ultimately show ?thesis using release_concurrency_slot_token [OF _ _ rel, of L A M] tok by simp
qed

definition current_argument :: "(string \<Rightarrow> int) \<Rightarrow> db \<Rightarrow> job_argument \<Rightarrow> bool" where
  "current_argument L d a = (case a of JobObject j \<Rightarrow> current_job L d j
     | ClaimedObject c \<Rightarrow> current_job L d (cj_job c) | JobId i \<Rightarrow> True)"

lemma current_stored: "queue_inv L A M d \<Longrightarrow> find_job d i = Some j \<Longrightarrow> current_job L d j"
  using find_job_Some [of d i j] by (auto simp: current_job_def policy_of_job key_of_def)

lemma resolve_current:
  assumes "queue_inv L A M d" and "current_argument L d a" and "resolve_claimed_job cfg a d = Inr j"
  shows "current_job L d j"
  using assms by (auto simp: resolve_claimed_job_def current_argument_def
      split: job_argument.splits option.splits if_splits intro: current_stored)

lemma complete_claimed_job_inv:
  assumes "queue_inv L A M d" and "current_argument L d a" and "complete_claimed_job ss cfg a v task d = Inr (j, e)"
  shows "queue_inv L A M e"
proof -
  from assms(3) obtain j' where "resolve_claimed_job cfg a d = Inr j'"
    and step: "complete_transition ss cfg j' v task d = Inr (j, e)" by (auto simp: complete_claimed_job_def)
  from resolve_current [OF assms(1,2) this(1)] step show ?thesis by (rule complete_transition_inv [OF assms(1)])
qed

lemma fail_claimed_job_inv:
  assumes "queue_inv L A M d" and "current_argument L d a" and "fail_claimed_job ss cfg a err task d = Inr (j, e)"
  shows "queue_inv L A M e"
proof -
  from assms(3) have "resolve_claimed_job cfg a d = Inr j"
    and step: "fail_transition ss cfg j err task d = Inr e" by (auto simp: fail_claimed_job_def)
  from resolve_current [OF assms(1,2) this(1)] step show ?thesis by (rule fail_transition_inv [OF assms(1)])
qed

lemma execute_claimed_job_inv:
  assumes inv: "queue_inv L A M d" and cur: "current_argument L d a"
    and step: "execute_claimed_job ss cfg run a d = Inr (j, e)"
  shows "queue_inv L A M e"
proof -
  obtain cl j0 where j0: "(case a of ClaimedObject c \<Rightarrow> Inr (Some c, cj_job c) | JobObject j \<Rightarrow> Inr (None, j)
      | JobId i \<Rightarrow> and_then (load_claimed_job cfg i d) (\<lambda>c. Inr (Some c, cj_job c))) = Inr (cl, j0)"
    using step by (auto simp: execute_claimed_job_def)
  have "current_job L d j0"
  proof (cases a)
    case (JobId i)
    with j0 obtain c rest where first: "filter (\<lambda>(c, j). ce_job c = i \<and> job_backend_alias j = backend_alias cfg)
        (with_jobs d ce_job (claimed_executions d)) = (c, j0) # rest"
      by (auto simp: load_claimed_job_def split: list.splits)
    have "(c, j0) \<in> set (filter (\<lambda>(c, j). ce_job c = i \<and> job_backend_alias j = backend_alias cfg)
        (with_jobs d ce_job (claimed_executions d)))"
      unfolding first by simp
    then have "(c, j0) \<in> set (with_jobs d ce_job (claimed_executions d))" by simp
    then show ?thesis using current_stored [OF inv] by (auto simp: set_with_jobs)
  qed (use cur j0 in \<open>auto simp: current_argument_def\<close>)
  then have "current_argument L d (JobObject j0)" by (simp add: current_argument_def)
  note outs = complete_claimed_job_inv [OF inv this] fail_claimed_job_inv [OF inv this]
  from step j0 show ?thesis
    unfolding execute_claimed_job_def
    by (auto split: sum.splits option.splits intro: outs)
qed

end
