(* ===== verification/Jobs.thy ===== *)
theory Jobs
  imports Enqueue Execution
begin

text \<open>
  Moving jobs between states on request or when they are due, \<^verbatim>\<open>operations/jobs.py\<close>: promoting
  scheduled jobs, retrying failed jobs, enqueueing a job again and discarding jobs.  All of them consume
  execution rows and either dispatch the jobs again (\<open>redispatch_jobs\<close>) or delete them.  One attempt
  of a transaction is modelled; the retry wrapper is in \<open>Db_Layer\<close>.
\<close>

section \<open>Dispatching again\<close>

definition reset_job :: "time \<Rightarrow> job \<Rightarrow> job" where
  "reset_job now j = j\<lparr>return_value := JNull, finished_at := None, job_updated_at := now\<rparr>"

text \<open>The loop that prepares the entries: the jobs (reset in place when asked for), the entries and,
  when policy errors are isolated, the jobs whose policy is unusable.\<close>

fun prepare_redispatch ::
  "session \<Rightarrow> backend_config \<Rightarrow> time \<Rightarrow> bool \<Rightarrow> bool \<Rightarrow> job list
     \<Rightarrow> error + job list \<times> dispatch_entry list \<times> (job \<times> error) list" where
  "prepare_redispatch ss cfg now isolate reset [] = Inr ([], [], [])"
| "prepare_redispatch ss cfg now isolate reset (j # js) =
     (let j = (if reset then reset_job now j else j) in
      case dispatch_decision ss cfg j now None of
        Inl (DispatchPolicyError msg) \<Rightarrow>
          (if \<not> isolate then Inl (DispatchPolicyError msg)
           else and_then (prepare_redispatch ss cfg now isolate reset js) (\<lambda>(js, es, fs).
             Inr (j # js, es, (j, DispatchPolicyError msg) # fs)))
      | Inl e \<Rightarrow> Inl e
      | Inr dec \<Rightarrow> and_then (prepare_redispatch ss cfg now isolate reset js) (\<lambda>(js, es, fs).
          Inr (j # js, \<lparr>de_job = j, de_decision = dec, de_outcome = None\<rparr> # es, fs)))"

text \<open>\<open>build_dispatch_rows\<close> marks the discarded jobs finished in place: the other lists hold the
  same objects.\<close>

definition as_discarded :: "dispatch_rows \<Rightarrow> job \<Rightarrow> job" where
  "as_discarded rows j = (case find (\<lambda>x. job_id x = job_id j) (dr_discarded rows) of Some x \<Rightarrow> x | None \<Rightarrow> j)"

definition policy_failure_row :: "job \<times> error \<Rightarrow> failed_execution" where
  "policy_failure_row f = \<lparr>fe_id = 0, fe_job = job_id (fst f), fe_exception_class = exception_path (snd f),
     fe_message = error_text (snd f), fe_traceback = [], fe_retry_at = None, fe_created_at = 0\<rparr>"

type_synonym redispatched = "job list \<times> string list \<times> (job \<times> error) list"

definition redispatch_jobs ::
  "session \<Rightarrow> backend_config \<Rightarrow> bool \<Rightarrow> bool \<Rightarrow> job list \<Rightarrow> db \<Rightarrow> error + redispatched \<times> db" where
  "redispatch_jobs ss cfg isolate reset js d =
     (let (now, d) = timezone_now d in
      and_then (ensure_job_ids_have_no_other_execution_state (map job_id js) [] d) (\<lambda>_.
      and_then (prepare_redispatch ss cfg now isolate reset js) (\<lambda>(js, prepared, failures).
      and_then (build_dispatch_rows cfg prepared now d) (\<lambda>b.
        let rows = db_rows b;
            updated = (if reset then map (as_discarded rows) js else dr_discarded rows);
            d = (if updated = [] then db_state b else bulk_update_results updated (db_state b))
        in and_then (insert_dispatch_rows rows d) (\<lambda>d.
           and_then (for_each create_failed (map policy_failure_row failures) d) (\<lambda>d.
             Inr ((map (\<lambda>e. as_discarded rows (de_job e)) prepared, ready_queue_names rows, failures), d)))))))"

text \<open>The common tail of the transitions: consume the selected rows and dispatch their jobs.\<close>

definition consume_and_redispatch ::
  "session \<Rightarrow> backend_config \<Rightarrow> state_model \<Rightarrow> ('r \<Rightarrow> nat) \<Rightarrow> bool \<Rightarrow> ('r \<times> job) list \<Rightarrow> db
     \<Rightarrow> error + redispatched \<times> db" where
  "consume_and_redispatch ss cfg m pk reset rows d =
     (let (rows, d) = consume_selected_rows ss m (\<lambda>x. pk (fst x)) rows d
      in if rows = [] then Inr (([], [], []), d)
         else redispatch_jobs ss cfg True reset (map snd rows) d)"

section \<open>Scheduled jobs\<close>

definition promote_scheduled_jobs ::
  "session \<Rightarrow> backend_config \<Rightarrow> int \<Rightarrow> db \<Rightarrow> error + job list \<times> db" where
  "promote_scheduled_jobs ss cfg batch_size d =
     (let (now, d) = timezone_now d;
          scheduled_rows = first_n batch_size (locked_queryset ss cfg TScheduled (\<lambda>x. se_id (fst x))
            (with_jobs d se_job
              (order_by (\<lambda>s. (se_scheduled_at s, - se_priority s, se_id s))
                (filter (\<lambda>s. se_backend_alias s = backend_alias cfg \<and> se_scheduled_at s \<le> now)
                  (scheduled_executions d)))))
      in if scheduled_rows = [] then Inr ([], d)
         else and_then (ensure_state_rows_belong_to_backend scheduled_rows (backend_alias cfg)) (\<lambda>_.
           and_then (consume_and_redispatch ss cfg Scheduled se_id False scheduled_rows d)
             (\<lambda>((promoted, names, failures), d).
               Inr (promoted, notify_ready_queues_on_commit ss cfg names d))))"

definition dispatch_scheduled_job_now ::
  "session \<Rightarrow> backend_config \<Rightarrow> uuid \<Rightarrow> db \<Rightarrow> error + (job \<times> dispatch_outcome) \<times> db" where
  "dispatch_scheduled_job_now ss cfg i d =
     (case locked_queryset ss cfg TScheduled (\<lambda>x. se_id (fst x))
         (with_jobs d se_job (order_by se_id
           (filter (\<lambda>s. se_job s = i \<and> se_backend_alias s = backend_alias cfg) (scheduled_executions d)))) of
        [] \<Rightarrow> Inl (EnqueueError ''job is not scheduled'')
      | scheduled # _ \<Rightarrow>
          and_then (ensure_state_rows_belong_to_backend [scheduled] (backend_alias cfg)) (\<lambda>_.
          let (rows, d) = consume_selected_rows ss Scheduled (\<lambda>x. se_id (fst x)) [scheduled] d in
          if rows = [] then Inl (EnqueueError ''job is not scheduled'')
          else
            let (t, d) = timezone_now d;
                j = (snd scheduled)\<lparr>scheduled_at := None, job_updated_at := t\<rparr>
            in and_then (dispatch_job ss cfg j None True None
                  (update_job (job_id j) (\<lambda>r. r\<lparr>scheduled_at := None, job_updated_at := t\<rparr>) d))
                 (\<lambda>((out, j), d). Inr ((j, out), if should_notify out
                    then notify_ready_queues_on_commit ss cfg [job_queue_name j] d else d))))"

section \<open>Failed jobs\<close>

text \<open>The optional restriction to given jobs, \<open>job_id__in\<close>.\<close>

definition job_filter :: "uuid list option \<Rightarrow> uuid \<Rightarrow> bool" where
  "job_filter ids i = (case ids of None \<Rightarrow> True | Some is \<Rightarrow> i \<in> set is)"

text \<open>\<open>.get(job_id=\<dots>, job__backend_alias=\<dots>)\<close>: exactly one row, or \<open>DoesNotExist\<close>.\<close>

definition get_failed :: "uuid \<Rightarrow> string \<Rightarrow> db \<Rightarrow> error + failed_execution \<times> job" where
  "get_failed i al d =
     (case filter (\<lambda>(f, j). fe_job f = i \<and> job_backend_alias j = al) (with_jobs d fe_job (failed_executions d)) of
        [] \<Rightarrow> Inl FailedDoesNotExist
      | [x] \<Rightarrow> Inr x
      | _ \<Rightarrow> Inl (LookupError ''get() returned more than one FailedExecution''))"

definition schedule_failed_job_retry ::
  "backend_config \<Rightarrow> uuid \<Rightarrow> time option \<Rightarrow> db \<Rightarrow> error + job \<times> db" where
  "schedule_failed_job_retry cfg i retry_at d =
     (case retry_at of
        None \<Rightarrow> Inl (EnqueueError ''retry_at is required'')
      | Some t \<Rightarrow> and_then (get_failed i (backend_alias cfg) d) (\<lambda>(f, j).
          Inr (j, d\<lparr>failed_executions := map (\<lambda>r. if fe_id r = fe_id f then r\<lparr>fe_retry_at := Some t\<rparr> else r)
            (failed_executions d)\<rparr>)))"

definition retry_failed_job ::
  "session \<Rightarrow> backend_config \<Rightarrow> uuid \<Rightarrow> db \<Rightarrow> error + job \<times> db" where
  "retry_failed_job ss cfg i d =
     and_then (get_failed i (backend_alias cfg) d) (\<lambda>failed.
       let (rows, d) = consume_selected_rows ss Failed (\<lambda>x. fe_id (fst x)) [failed] d in
       if rows = [] then Inl (EnqueueError ''job is not failed'')
       else and_then (redispatch_jobs ss cfg False True (map snd rows) d) (\<lambda>((js, names, failures), d).
         case js of
           [] \<Rightarrow> Inl (LookupError ''list index out of range'')
         | j # _ \<Rightarrow> Inr (j, notify_ready_queues_on_commit ss cfg names d)))"

definition retry_failed_rows ::
  "session \<Rightarrow> backend_config \<Rightarrow> (failed_execution \<times> job) list \<Rightarrow> db \<Rightarrow> error + job list \<times> db" where
  "retry_failed_rows ss cfg failed_rows d =
     (if failed_rows = [] then Inr ([], d)
      else and_then (consume_and_redispatch ss cfg Failed fe_id True failed_rows d)
        (\<lambda>((js, names, failures), d). Inr (js, notify_ready_queues_on_commit ss cfg names d)))"

definition retry_failed_jobs ::
  "session \<Rightarrow> backend_config \<Rightarrow> uuid list option \<Rightarrow> int \<Rightarrow> db \<Rightarrow> error + nat \<times> db" where
  "retry_failed_jobs ss cfg ids batch_size d =
     and_then (retry_failed_rows ss cfg
       (first_n batch_size (locked_queryset ss cfg TFailed (\<lambda>x. fe_id (fst x))
         (filter (\<lambda>(f, j). job_backend_alias j = backend_alias cfg)
           (with_jobs d fe_job (order_by fe_id
             (filter (\<lambda>f. job_filter ids (fe_job f)) (failed_executions d)))))))
       d) (\<lambda>(js, d). Inr (length js, d))"

text \<open>A row without \<open>retry_at\<close> is not due.\<close>

definition promote_failed_job_retries ::
  "session \<Rightarrow> backend_config \<Rightarrow> int \<Rightarrow> db \<Rightarrow> error + job list \<times> db" where
  "promote_failed_job_retries ss cfg batch_size d =
     (let (now, d) = timezone_now d in
      retry_failed_rows ss cfg
       (first_n batch_size (locked_queryset ss cfg TFailed (\<lambda>x. fe_id (fst x))
         (filter (\<lambda>(f, j). job_backend_alias j = backend_alias cfg)
           (with_jobs d fe_job (order_by (\<lambda>f. (the (fe_retry_at f), fe_id f))
             (filter (\<lambda>f. case fe_retry_at f of None \<Rightarrow> False | Some t \<Rightarrow> t \<le> now) (failed_executions d)))))))
       d)"

section \<open>Enqueueing again\<close>

text \<open>\<open>task.using(\<dots>)\<close> of the tasks framework is a parameter; \<open>run_after = None\<close> stands for
  the default that keeps the scheduled time of the source job.\<close>

definition source_call ::
  "session \<Rightarrow> backend_config \<Rightarrow> (task \<Rightarrow> int \<Rightarrow> string \<Rightarrow> time option \<Rightarrow> string \<Rightarrow> error + task) \<Rightarrow> uuid
     \<Rightarrow> time option option \<Rightarrow> db \<Rightarrow> error + task \<times> pyval list \<times> (string \<times> pyval) list" where
  "source_call ss cfg using i after d =
     (case find_job d i of
        None \<Rightarrow> Inl JobDoesNotExist
      | Some source \<Rightarrow>
          (if job_backend_alias source \<noteq> backend_alias cfg then Inl JobDoesNotExist
           else and_then (import_task ss (task_path source)) (\<lambda>t.
             and_then (if has_using t
                 then using t (job_priority source) (job_queue_name source)
                   (case after of None \<Rightarrow> scheduled_at source | Some x \<Rightarrow> x) (job_backend_alias source)
                 else Inr t) (\<lambda>t.
             case payload_args (payload source) of
               None \<Rightarrow> Inl (TypeError [])
             | Some (args, kwargs) \<Rightarrow>
                 Inr (t, map py_of_json args, map (\<lambda>(k, v). (k, py_of_json v)) kwargs)))))"

definition enqueue_job_again ::
  "session \<Rightarrow> backend_config \<Rightarrow> (task \<Rightarrow> int \<Rightarrow> string \<Rightarrow> time option \<Rightarrow> string \<Rightarrow> error + task) \<Rightarrow> uuid
     \<Rightarrow> time option option \<Rightarrow> uuid \<Rightarrow> db \<Rightarrow> error + job \<times> db" where
  "enqueue_job_again ss cfg using i after new_id d =
     and_then (source_call ss cfg using i after d) (\<lambda>(t, args, kwargs).
     and_then (enqueue_job_with_dispatch ss cfg t args kwargs True new_id d) (\<lambda>((out, j), d). Inr (j, d)))"

section \<open>Discarding\<close>

text \<open>\<open>_discard_state_jobs\<close> after its query: the rows are consumed, the jobs deleted and, for ready
  jobs, their slots released.\<close>

definition discard_rows ::
  "session \<Rightarrow> backend_config \<Rightarrow> state_model \<Rightarrow> ('r \<Rightarrow> nat) \<Rightarrow> bool \<Rightarrow> ('r \<times> job) list \<Rightarrow> db \<Rightarrow> error + nat \<times> db" where
  "discard_rows ss cfg m pk release rows d =
     (if rows = [] then Inr (0, d)
      else and_then (ensure_state_rows_belong_to_backend rows (backend_alias cfg)) (\<lambda>_.
        let (rows, d) = consume_selected_rows ss m (\<lambda>x. pk (fst x)) rows d in
        if rows = [] then Inr (0, d)
        else let row_job_ids = map (\<lambda>x. job_id (snd x)) rows in
          and_then (ensure_job_ids_have_no_other_execution_state row_job_ids [] d) (\<lambda>_.
          case those (map (find_job d) row_job_ids) of
            None \<Rightarrow> Inl (LookupError [])
          | Some js \<Rightarrow>
              and_then (if release
                  then for_each (\<lambda>j. release_concurrency_slot ss cfg j None) js (snd (delete_jobs (set row_job_ids) d))
                  else Inr (snd (delete_jobs (set row_job_ids) d)))
                (\<lambda>d. Inr (length js, d)))))"

definition discard_failed_jobs ::
  "session \<Rightarrow> backend_config \<Rightarrow> uuid list option \<Rightarrow> int \<Rightarrow> db \<Rightarrow> error + nat \<times> db" where
  "discard_failed_jobs ss cfg ids batch_size d =
     discard_rows ss cfg Failed fe_id False
       (first_n batch_size (locked_queryset ss cfg TFailed (\<lambda>x. fe_id (fst x))
         (filter (\<lambda>(f, j). job_backend_alias j = backend_alias cfg)
           (with_jobs d fe_job (order_by fe_id (filter (\<lambda>f. job_filter ids (fe_job f)) (failed_executions d))))))) d"

definition discard_failed_job :: "session \<Rightarrow> backend_config \<Rightarrow> uuid \<Rightarrow> db \<Rightarrow> error + nat \<times> db" where
  "discard_failed_job ss cfg i d = discard_failed_jobs ss cfg (Some [i]) 1 d"

definition discard_ready_query ::
  "session \<Rightarrow> backend_config \<Rightarrow> (ready_execution \<Rightarrow> bool) \<Rightarrow> int \<Rightarrow> db \<Rightarrow> error + nat \<times> db" where
  "discard_ready_query ss cfg P batch_size d =
     discard_rows ss cfg Ready re_id True
       (first_n batch_size (locked_queryset ss cfg TReady (\<lambda>x. re_id (fst x))
         (with_jobs d re_job (order_by re_id
           (filter (\<lambda>r. re_backend_alias r = backend_alias cfg \<and> P r) (ready_executions d)))))) d"

definition discard_ready_jobs ::
  "session \<Rightarrow> backend_config \<Rightarrow> uuid list option \<Rightarrow> int \<Rightarrow> db \<Rightarrow> error + nat \<times> db" where
  "discard_ready_jobs ss cfg ids = discard_ready_query ss cfg (\<lambda>r. job_filter ids (re_job r))"

definition discard_ready_jobs_for_queue ::
  "session \<Rightarrow> backend_config \<Rightarrow> string \<Rightarrow> int \<Rightarrow> db \<Rightarrow> error + nat \<times> db" where
  "discard_ready_jobs_for_queue ss cfg queue_name = discard_ready_query ss cfg (\<lambda>r. re_queue_name r = queue_name)"

definition discard_scheduled_jobs ::
  "session \<Rightarrow> backend_config \<Rightarrow> uuid list option \<Rightarrow> int \<Rightarrow> db \<Rightarrow> error + nat \<times> db" where
  "discard_scheduled_jobs ss cfg ids batch_size d =
     discard_rows ss cfg Scheduled se_id False
       (first_n batch_size (locked_queryset ss cfg TScheduled (\<lambda>x. se_id (fst x))
         (with_jobs d se_job (order_by se_id
           (filter (\<lambda>s. se_backend_alias s = backend_alias cfg \<and> job_filter ids (se_job s)) (scheduled_executions d)))))) d"

definition discard_blocked_jobs ::
  "session \<Rightarrow> backend_config \<Rightarrow> uuid list option \<Rightarrow> int \<Rightarrow> db \<Rightarrow> error + nat \<times> db" where
  "discard_blocked_jobs ss cfg ids batch_size d =
     discard_rows ss cfg Blocked be_id False
       (first_n batch_size (locked_queryset ss cfg TBlocked (\<lambda>x. be_id (fst x))
         (with_jobs d be_job (order_by be_id
           (filter (\<lambda>b. be_backend_alias b = backend_alias cfg \<and> job_filter ids (be_job b)) (blocked_executions d)))))) d"

section \<open>Lemmas on dispatching again\<close>

lemma prepare_redispatch_ok:
  assumes "prepare_redispatch ss cfg now isolate reset js = Inr (js', es, fs)"
    and "\<forall>j\<in>set js. job_policy_ok L j \<and> key_of d (job_id j) = job_key j \<and> finished_at j = None"
  shows "map job_id js' = map job_id js"
    and "mset (map (\<lambda>e. job_id (de_job e)) es) + mset (map (\<lambda>f. job_id (fst f)) fs) = mset (map job_id js)"
    and "\<forall>e\<in>set es. entry_ok L d e" and "\<forall>j\<in>set js'. finished_at j = None"
proof -
  have "map job_id js' = map job_id js
    \<and> mset (map (\<lambda>e. job_id (de_job e)) es) + mset (map (\<lambda>f. job_id (fst f)) fs) = mset (map job_id js)
    \<and> (\<forall>e\<in>set es. entry_ok L d e) \<and> (\<forall>j\<in>set js'. finished_at j = None)"
    using assms
  proof (induction js arbitrary: js' es fs)
    case Nil
    then show ?case by simp
  next
    case (Cons j js)
    define j0 where "j0 = (if reset then reset_job now j else j)"
    have same: "job_id j0 = job_id j" "job_key j0 = job_key j" "finished_at j0 = None" "job_policy_ok L j0"
      using Cons.prems(2) by (simp_all add: j0_def reset_job_def job_policy_ok_def job_key_def cong: option.case_cong)
    note step = Cons.prems(1) [unfolded prepare_redispatch.simps Let_def, folded j0_def]
    show ?case
    proof (cases "dispatch_decision ss cfg j0 now None")
      case (Inl err)
      with step obtain msg js1 fs1 where
        "prepare_redispatch ss cfg now isolate reset js = Inr (js1, es, fs1)"
        "js' = j0 # js1" "fs = (j0, DispatchPolicyError msg) # fs1"
        by (auto split: error.splits if_splits)
      with Cons.IH [OF this(1)] Cons.prems(2) same show ?thesis by simp
    next
      case (Inr dec)
      let ?e = "\<lparr>de_job = j0, de_decision = dec, de_outcome = None\<rparr>"
      from Inr step obtain js1 es1 where
        one: "prepare_redispatch ss cfg now isolate reset js = Inr (js1, es1, fs)" "js' = j0 # js1" "es = ?e # es1"
        by auto
      have "entry_ok L d ?e" using Inr same Cons.prems(2) by (intro decision_entry_ok) auto
      with Cons.IH [OF one(1)] one Cons.prems(2) same show ?thesis by simp
    qed
  qed
  then show "map job_id js' = map job_id js"
    and "mset (map (\<lambda>e. job_id (de_job e)) es) + mset (map (\<lambda>f. job_id (fst f)) fs) = mset (map job_id js)"
    and "\<forall>e\<in>set es. entry_ok L d e" and "\<forall>j\<in>set js'. finished_at j = None" by blast+
qed

lemma job_id_as_discarded [simp]: "job_id (as_discarded rows j) = job_id j"
  by (auto simp: as_discarded_def find_Some_iff split: option.splits)

lemma finished_as_discarded:
  assumes "\<forall>x\<in>set (dr_discarded rows). finished_at x \<noteq> None" and "finished_at j = None"
  shows "finished_at (as_discarded rows j) \<noteq> None \<longleftrightarrow> job_id j \<in> job_id ` set (dr_discarded rows)"
proof (cases "find (\<lambda>x. job_id x = job_id j) (dr_discarded rows)")
  case None
  moreover from this have "job_id j \<notin> job_id ` set (dr_discarded rows)" by (auto simp: find_None_iff)
  ultimately show ?thesis using assms(2) by (simp add: as_discarded_def)
next
  case (Some x)
  then have "x \<in> set (dr_discarded rows)" "job_id x = job_id j" by (auto simp: find_Some_iff)
  with Some assms(1) show ?thesis by (auto simp: as_discarded_def intro: rev_image_eqI)
qed

lemma tokens_key_cong: "key_of d = key_of e \<Longrightarrow> tokens d is = tokens e is"
  by (simp add: tokens_def token_def [abs_def])

lemma created_failed_keys: "create_failed r d = Inr e \<Longrightarrow> jobs e = jobs d"
  by (auto simp: create_failed_def insert_failed_def timezone_now_def split: if_splits)

lemma image_restrict: "D \<subseteq> f ` S \<Longrightarrow> f ` {x \<in> S. f x \<in> D} = D"
  by auto

text \<open>The jobs that the bulk update writes arrive when they are discarded, and only then.\<close>

lemma updated_results_inv:
  assumes inv: "queue_inv L A M d" and js: "distinct (map job_id js)" "job_id ` set js \<subseteq> A"
    "\<forall>j\<in>set js. finished_at j = None"
    and D: "distinct (map job_id (dr_discarded rows))" "job_id ` set (dr_discarded rows) \<subseteq> job_id ` set js"
      "\<forall>x\<in>set (dr_discarded rows). finished_at x \<noteq> None"
    and U: "updated = (if reset then map (as_discarded rows) js else dr_discarded rows)"
  shows "queue_inv L (A - job_id ` set (dr_discarded rows)) M (bulk_update_results updated d)"
    and "key_of (bulk_update_results updated d) = key_of d"
proof -
  have ids: "distinct (map job_id updated)" "job_id ` set updated \<subseteq> A"
    using js D order_trans [OF D(2) js(2)] U by (auto simp: comp_def image_image)
  have "job_id ` set (filter (\<lambda>j. finished_at j \<noteq> None) updated) = job_id ` set (dr_discarded rows)"
  proof (cases reset)
    case False
    then have "filter (\<lambda>j. finished_at j \<noteq> None) updated = updated"
      using D(3) U unfolding filter_id_conv by simp
    then show ?thesis using False U by (simp only: if_False)
  next
    case True
    have "finished_at (as_discarded rows j) \<noteq> None \<longleftrightarrow> job_id j \<in> job_id ` set (dr_discarded rows)"
      if "j \<in> set js" for j using finished_as_discarded [OF D(3)] js(3) that by blast
    then have "filter (\<lambda>j. finished_at (as_discarded rows j) \<noteq> None) js
        = filter (\<lambda>j. job_id j \<in> job_id ` set (dr_discarded rows)) js" by (intro filter_cong) simp_all
    then have "map job_id (filter (\<lambda>j. finished_at j \<noteq> None) updated)
        = map job_id (filter (\<lambda>j. job_id j \<in> job_id ` set (dr_discarded rows)) js)"
      using True U by (simp add: filter_map comp_def)
    then have "job_id ` set (filter (\<lambda>j. finished_at j \<noteq> None) updated)
        = job_id ` set (filter (\<lambda>j. job_id j \<in> job_id ` set (dr_discarded rows)) js)"
      unfolding list.set_map [symmetric] by (simp only:)
    also have "\<dots> = job_id ` set (dr_discarded rows)"
      unfolding set_filter by (rule image_restrict [OF D(2)])
    finally show ?thesis .
  qed
  with bulk_update_results_inv [OF inv ids]
  show "queue_inv L (A - job_id ` set (dr_discarded rows)) M (bulk_update_results updated d)"
    "key_of (bulk_update_results updated d) = key_of d" by simp_all
qed

lemma create_failures_inv:
  assumes "for_each create_failed rows d = Inr e" and "queue_inv L A M d"
    and "distinct (map fe_job rows)" and "set (map fe_job rows) \<subseteq> A"
  shows "queue_inv L (A - set (map fe_job rows)) M e"
proof -
  have "queue_inv L (A - fe_job ` set rows) M e \<and> jobs e = jobs d"
    using assms by (intro for_each_transit [OF assms(1) _ refl, where t = "\<lambda>_. {#}"])
      (auto dest: queue_inv_create_failed created_failed_keys)
  then show ?thesis by simp
qed

text \<open>Dispatching jobs in transit again puts each of them into exactly one state: the one the
  dispatcher decides, or failed when its policy is unusable.\<close>

lemma redispatch_jobs_inv:
  assumes inv: "queue_inv L A M d" and js: "distinct (map job_id js)" "job_id ` set js \<subseteq> A"
    and ok: "\<forall>j\<in>set js. job_policy_ok L j \<and> key_of d (job_id j) = job_key j \<and> finished_at j = None"
    and step: "redispatch_jobs ss cfg isolate reset js d = Inr (r, e)"
  shows "queue_inv L (A - job_id ` set js) M e"
proof -
  define c where "c = d\<lparr>clock := stl (clock d)\<rparr>"
  note step' = step [unfolded redispatch_jobs_def timezone_now_def Let_def prod.case, folded c_def]
  then obtain js' es fs b where prep: "prepare_redispatch ss cfg (shd (clock d)) isolate reset js = Inr (js', es, fs)"
    and b: "build_dispatch_rows cfg es (shd (clock d)) c = Inr b" by auto
  define rows where "rows = db_rows b"
  define updated where "updated = (if reset then map (as_discarded rows) js' else dr_discarded rows)"
  define f where "f = (if updated = [] then db_state b else bulk_update_results updated (db_state b))"
  note defs = rows_def updated_def f_def
  note step'' = step' [unfolded prep b and_then_simps prod.case, unfolded prep b and_then_simps prod.case,
      folded rows_def, folded updated_def, folded f_def]
  then obtain g where g: "insert_dispatch_rows rows f = Inr g"
    and e: "for_each create_failed (map policy_failure_row fs) g = Inr e" by auto
  have ci: "queue_inv L A M c" using inv by (simp add: c_def)
  have ok': "\<forall>j\<in>set js. job_policy_ok L j \<and> key_of c (job_id j) = job_key j \<and> finished_at j = None"
    using ok by (simp add: c_def)
  note pr = prepare_redispatch_ok [OF prep ok']
  note bd = build_dispatch_rows_inv [OF ci pr(3) b, folded rows_def]
  let ?I = "job_id ` set js" and ?E = "set (map (\<lambda>e. job_id (de_job e)) es)" and ?F = "set (map (\<lambda>f. job_id (fst f)) fs)"
  let ?D = "job_id ` set (dr_discarded rows)"
  let ?rest = "re_job ` set (dr_ready rows) \<union> se_job ` set (dr_scheduled rows) \<union> be_job ` set (dr_blocked rows)"
  have all: "distinct (map (\<lambda>e. job_id (de_job e)) es @ map (\<lambda>f. job_id (fst f)) fs)" "?E \<union> ?F = ?I"
    using mset_eq_imp_distinct_iff [of "map (\<lambda>e. job_id (de_job e)) es @ map (\<lambda>f. job_id (fst f)) fs" "map job_id js"]
      mset_eq_setD [of "map (\<lambda>e. job_id (de_job e)) es @ map (\<lambda>f. job_id (fst f)) fs" "map job_id js"] pr(2) js(1)
    by simp_all
  have rj: "set (row_jobs rows) = ?E" "distinct (row_jobs rows)"
    using mset_eq_setD [OF bd(2)] mset_eq_imp_distinct_iff [OF bd(2)] all(1) by simp_all
  have parts: "?rest \<union> ?D = ?E" "distinct (map job_id (dr_discarded rows))"
    using rj unfolding row_jobs_def by auto
  have js': "distinct (map job_id js')" "job_id ` set js' = ?I"
    using pr(1) js(1) by (simp, metis list.set_map)
  have "?D \<subseteq> ?I" unfolding all(2) [symmetric] parts(1) [symmetric] by (simp only: Un_upper2 le_supI1)
  then have sub: "job_id ` set js' \<subseteq> A" "?D \<subseteq> job_id ` set js'" using js(2) by (simp_all only: js'(2))
  have "f = bulk_update_results updated (db_state b)" by (simp add: f_def bulk_update_results_def)
  then have upd: "queue_inv L (A - ?D) (M + tokens (db_state b) (map re_job (dr_ready rows))) f"
    "key_of f = key_of (db_state b)"
    using updated_results_inv [OF bd(1) js'(1) sub(1) pr(4) parts(2) sub(2) bd(5) updated_def] by simp_all
  have kf: "key_of f = key_of c" using upd(2) key_of_jobs_cong [OF bd(4)] by simp
  have subD: "set (row_jobs rows) \<subseteq> A - ?D \<union> ?D" using js(2) unfolding all(2) [symmetric] rj(1) by blast
  have gi: "queue_inv L (A - ?D - ?rest) M g"
    by (rule insert_dispatch_rows_inv(1) [OF _ rj(2) _ _ g])
       (use upd(1) tokens_key_cong [OF upd(2)] bd(3) kf subD in simp_all)
  moreover have "A - ?D - ?rest = A - ?E" using parts(1) by blast
  ultimately have gE: "queue_inv L (A - ?E) M g" by (simp only:)
  have fj: "map fe_job (map policy_failure_row fs) = map (\<lambda>f. job_id (fst f)) fs" by (simp add: policy_failure_row_def)
  have "?E \<inter> ?F = {}" using all(1) by (simp only: distinct_append)
  moreover have "?F \<subseteq> A" using js(2) unfolding all(2) [symmetric] by (simp only: Un_subset_iff)
  ultimately have "?F \<subseteq> A - ?E" by blast
  then have "queue_inv L (A - ?E - ?F) M e"
    using create_failures_inv [OF e gE, unfolded fj] all(1) by (simp only: distinct_append list.set_map [symmetric])
  moreover have "A - ?E - ?F = A - ?I" using all(2) by blast
  ultimately show ?thesis by (simp only:)
qed

text \<open>For the tables whose rows hold no slot.\<close>

context execution_table
begin

lemma consumed_jobs:
  assumes inv: "queue_inv L A M d" and sel: "selection pk jb (table d) d rows"
    and con: "consume_selected_rows ss m (\<lambda>x. pk (fst x)) rows d = (rows', e)"
  shows "rows' = rows" and "distinct (map job_id (map snd rows))"
    and "queue_inv L (A \<union> job_id ` set (map snd rows)) (M + slot_tokens m d (map job_id (map snd rows))) e"
    and "A \<union> job_id ` set (map snd rows) - job_id ` set (map snd rows) = A"
    and "\<forall>j\<in>set (map snd rows). find_job e (job_id j) = Some j \<and> job_policy_ok L j
      \<and> key_of e (job_id j) = job_key j \<and> finished_at j = None"
proof -
  note c = consumed_selection [OF inv sel con]
  show "rows' = rows" by (rule c(1))
  show "distinct (map job_id (map snd rows))"
    using selection_distinct_jobs [OF inv sel] by (simp add: comp_def)
  show q: "queue_inv L (A \<union> job_id ` set (map snd rows)) (M + slot_tokens m d (map job_id (map snd rows))) e"
    using c(4) by (simp add: image_image comp_def)
  show "A \<union> job_id ` set (map snd rows) - job_id ` set (map snd rows) = A"
    using selected_not_in_transit(1) [OF inv sel] by fastforce
  show "\<forall>j\<in>set (map snd rows). find_job e (job_id j) = Some j \<and> job_policy_ok L j
      \<and> key_of e (job_id j) = job_key j \<and> finished_at j = None"
  proof
    fix j assume "j \<in> set (map snd rows)"
    then obtain r where r: "(r, j) \<in> set rows" by auto
    then have "find_job d (job_id j) = Some j"
      using sel selection_job [OF sel r] by (auto simp: selection_def)
    then have find: "find_job e (job_id j) = Some j" using c(2) by (simp add: find_job_def)
    moreover have "j \<in> set (jobs e)" "job_id j \<in> A \<union> job_id ` set (map snd rows)"
      using find_job_Some [OF find] \<open>j \<in> set (map snd rows)\<close> by blast+
    then have "finished_at j = None" using q unfolding queue_inv_def partitioned_def by auto
    ultimately show "find_job e (job_id j) = Some j \<and> job_policy_ok L j \<and> key_of e (job_id j) = job_key j
        \<and> finished_at j = None"
      using q find_job_Some [OF find] by (simp add: key_of_def queue_inv_def policies_ok_def)
  qed
qed

lemma consume_and_redispatch_inv:
  assumes inv: "queue_inv L A M d" and sel: "selection pk jb (table d) d rows" and "\<not> slot_model m"
    and step: "consume_and_redispatch ss cfg m pk reset rows d = Inr (r, e)"
  shows "queue_inv L A M e"
proof -
  obtain rows' c where con: "consume_selected_rows ss m (\<lambda>x. pk (fst x)) rows d = (rows', c)" by force
  note cj = consumed_jobs [OF inv sel con]
  have ci: "queue_inv L (A \<union> job_id ` set (map snd rows)) M c"
    using cj(3) assms(3) by (simp add: slot_tokens_def)
  show ?thesis
  proof (cases "rows = []")
    case True
    with step con cj(1) ci show ?thesis by (auto simp: consume_and_redispatch_def)
  next
    case False
    with step con cj(1) have "redispatch_jobs ss cfg True reset (map snd rows) c = Inr (r, e)"
      by (simp add: consume_and_redispatch_def)
    from redispatch_jobs_inv [OF ci cj(2) _ _ this] cj(4,5) show ?thesis by simp
  qed
qed

end

section \<open>Lemmas on discarding\<close>

lemma release_slots_token:
  assumes "for_each (\<lambda>j. release_concurrency_slot ss cfg j task) js d = Inr e"
    and "queue_inv L A (M + job_tokens js) d" and "\<forall>j\<in>set js. job_policy_ok L j"
  shows "queue_inv L A M e"
  using assms
proof (induction js arbitrary: d)
  case Nil
  then show ?case by simp
next
  case (Cons j js)
  from Cons.prems(1) obtain c where c: "release_concurrency_slot ss cfg j task d = Inr c"
    and rest: "for_each (\<lambda>j. release_concurrency_slot ss cfg j task) js c = Inr e" by auto
  have "queue_inv L A (M + job_tokens js + (case job_key j of None \<Rightarrow> {#} | Some k \<Rightarrow> {#k#})) d"
    using Cons.prems(2) by (simp add: job_token_def ac_simps)
  from release_concurrency_slot_token [OF this _ c] Cons.prems(3) have "queue_inv L A (M + job_tokens js) c" by simp
  from Cons.IH [OF rest this] Cons.prems(3) show ?case by simp
qed

lemma tokens_job_tokens:
  "\<forall>j\<in>set js. key_of d (job_id j) = job_key j \<Longrightarrow> tokens d (map job_id js) = job_tokens js"
  by (induction js) (simp_all add: token_def job_token_def)

lemma those_find_jobs:
  "\<forall>j\<in>set js. find_job d (job_id j) = Some j \<Longrightarrow> those (map (find_job d) (map job_id js)) = Some js"
  by (induction js) simp_all

context execution_table
begin

lemma discard_rows_inv:
  assumes inv: "queue_inv L A M d" and sel: "selection pk jb (table d) d rows"
    and rel: "release = slot_model m" and step: "discard_rows ss cfg m pk release rows d = Inr (n, e)"
  shows "queue_inv L A M e" and "n = length rows"
proof -
  obtain rows' c where con: "consume_selected_rows ss m (\<lambda>x. pk (fst x)) rows d = (rows', c)" by force
  note cj = consumed_jobs [OF inv sel con]
  let ?js = "map snd rows"
  let ?I = "job_id ` set ?js"
  have ids: "map (\<lambda>x. job_id (snd x)) rows = map job_id ?js" by simp
  have jc: "jobs c = jobs d" by (rule consumed_selection(2) [OF inv sel con])
  show "queue_inv L A M e" "n = length rows"
  proof (atomize(full), cases "rows = []")
    case True
    with step inv show "queue_inv L A M e \<and> n = length rows"
      by (simp add: discard_rows_def)
  next
    case False
    define f where "f = snd (delete_jobs (set (map (\<lambda>x. job_id (snd x)) rows)) c)"
    have th: "those (map (find_job c) (map (\<lambda>x. job_id (snd x)) rows)) = Some ?js"
      unfolding ids using cj(5) by (intro those_find_jobs) blast
    have con': "consume_selected_rows ss m (\<lambda>x. pk (fst x)) rows d = (rows, c)" using con cj(1) by simp
    note st = step [unfolded discard_rows_def rel con' Let_def prod.case th option.case, folded f_def]
    from st False have rel: "(if slot_model m then for_each (\<lambda>j. release_concurrency_slot ss cfg j None) ?js f
        else Inr f) = Inr e" and n: "n = length ?js" by auto
    have "\<forall>i\<in>?I. live_count c i = 0" by (intro ballI transit_facts(2) [OF cj(3)] UnI2)
    from queue_inv_delete_jobs [OF cj(3) this] cj(4)
    have fi: "queue_inv L A (M + slot_tokens m d (map job_id ?js)) f"
      by (simp add: f_def image_image)
    show "queue_inv L A M e \<and> n = length rows"
    proof (cases "slot_model m")
      case False
      with rel fi n show ?thesis by (simp add: slot_tokens_def)
    next
      case True
      have "\<forall>j\<in>set ?js. key_of d (job_id j) = job_key j" using cj(5) key_of_jobs_cong [OF jc] by simp
      then have "slot_tokens m d (map job_id ?js) = job_tokens ?js"
        unfolding slot_tokens_def using True tokens_job_tokens [of ?js d] by simp
      with True rel fi have "for_each (\<lambda>j. release_concurrency_slot ss cfg j None) ?js f = Inr e"
        and fi': "queue_inv L A (M + job_tokens ?js) f" by simp_all
      note loop = this(1)
      have "queue_inv L A M e" using cj(5) by (intro release_slots_token [OF loop fi']) blast
      then show ?thesis using n by simp
    qed
  qed
qed

end

section \<open>The operations keep the invariant\<close>

lemma promote_scheduled_jobs_inv:
  assumes inv: "queue_inv L A M d" and step: "promote_scheduled_jobs ss cfg n d = Inr (js, e)"
  shows "queue_inv L A M e"
proof -
  define c where "c = d\<lparr>clock := stl (clock d)\<rparr>"
  define rows where "rows = first_n n (locked_queryset ss cfg TScheduled (\<lambda>x. se_id (fst x))
    (with_jobs c se_job (order_by (\<lambda>s. (se_scheduled_at s, - se_priority s, se_id s))
      (filter (\<lambda>s. se_backend_alias s = backend_alias cfg \<and> se_scheduled_at s \<le> shd (clock d))
        (scheduled_executions c)))))"
  have ci: "queue_inv L A M c" using inv by (simp add: c_def)
  have sel: "selection se_id se_job (scheduled_executions c) c rows"
    unfolding rows_def by (intro selection_first_n selection_locked scheduled.selection_query [OF ci])
  note step' = step [unfolded promote_scheduled_jobs_def timezone_now_def Let_def prod.case,
      folded c_def, folded rows_def]
  show ?thesis
  proof (cases "rows = []")
    case True
    with step' ci show ?thesis by auto
  next
    case False
    with step' obtain names fs f where "consume_and_redispatch ss cfg Scheduled se_id False rows c = Inr ((js, names, fs), f)"
      and e: "e = notify_ready_queues_on_commit ss cfg names f" by auto
    from scheduled.consume_and_redispatch_inv [OF ci sel _ this(1)] e show ?thesis
      by (simp add: slot_model_def)
  qed
qed

lemma keeps_policy_unscheduled [simp]:
  "keeps_policy (\<lambda>r. r\<lparr>scheduled_at := None, job_updated_at := t\<rparr>)"
  by (simp add: keeps_policy_def)

lemma dispatch_scheduled_job_now_inv:
  assumes inv: "queue_inv L A M d" and step: "dispatch_scheduled_job_now ss cfg i d = Inr (r, e)"
  shows "queue_inv L A M e"
proof -
  define rows where "rows = locked_queryset ss cfg TScheduled (\<lambda>x. se_id (fst x))
     (with_jobs d se_job (order_by se_id
       (filter (\<lambda>s. se_job s = i \<and> se_backend_alias s = backend_alias cfg) (scheduled_executions d))))"
  have sel: "selection se_id se_job (scheduled_executions d) d rows"
    unfolding rows_def by (intro selection_locked scheduled.selection_query [OF inv])
  note step' = step [unfolded dispatch_scheduled_job_now_def, folded rows_def]
  then obtain x rest where rows: "rows = x # rest" by (auto split: list.splits)
  note one = selection_hd [OF sel [unfolded rows]]
  obtain xs c where con: "consume_selected_rows ss Scheduled (\<lambda>x. se_id (fst x)) [x] d = (xs, c)" by force
  note cj = scheduled.consumed_jobs [OF inv one con]
  define t where "t = shd (clock c)"
  define c' where "c' = c\<lparr>clock := stl (clock c)\<rparr>"
  define j where "j = (snd x)\<lparr>scheduled_at := None, job_updated_at := t\<rparr>"
  define u where "u = update_job (job_id j) (\<lambda>r. r\<lparr>scheduled_at := None, job_updated_at := t\<rparr>) c'"
  from step' obtain out j' f where
    disp: "dispatch_job ss cfg j None True None u = Inr ((out, j'), f)"
    and e: "e = (if should_notify out then notify_ready_queues_on_commit ss cfg [job_queue_name j'] f else f)"
    unfolding rows list.case con Let_def timezone_now_def prod.case cj(1)
    by (auto simp: u_def j_def t_def c'_def)
  have same: "job_id j = job_id (snd x)" "job_key j = job_key (snd x)" "job_policy_ok L j = job_policy_ok L (snd x)"
    by (simp_all add: j_def job_policy_ok_def job_key_def cong: option.case_cong)
  have "queue_inv L (A \<union> {job_id j}) M c'"
    using cj(3) by (simp add: slot_tokens_def slot_model_def same c'_def)
  then have ui: "queue_inv L (A \<union> {job_id j}) M u" unfolding u_def by (rule queue_inv_update_job) simp_all
  have "key_of u = key_of c" unfolding u_def by (simp add: key_of_update_job c'_def)
  then have "key_of u (job_id j) = job_key j" and "job_policy_ok L j" using cj(5) by (simp_all add: same)
  from dispatch_job_inv [OF ui _ this(2,1) disp] have "queue_inv L (A \<union> {job_id j} - {job_id j}) M f" by simp
  then show ?thesis using cj(4) e by (simp add: same)
qed

lemma get_failed_selection:
  assumes "queue_inv L A M d" and "get_failed i al d = Inr x"
  shows "selection fe_id fe_job (failed_executions d) d [x]"
proof -
  have "selection fe_id fe_job (failed_executions d) d
      (filter (\<lambda>(f, j). fe_job f = i \<and> job_backend_alias j = al) (with_jobs d fe_job (failed_executions d)))"
    using failed.distinct_pk [OF assms(1)] by (intro selection_filter selection_with_jobs) simp_all
  with assms(2) show ?thesis unfolding get_failed_def by (auto split: list.splits)
qed

lemma schedule_failed_job_retry_inv:
  assumes "queue_inv L A M d" and "schedule_failed_job_retry cfg i t d = Inr (j, e)"
  shows "queue_inv L A M e"
proof -
  from assms(2) obtain u f where "t = Some u" "get_failed i (backend_alias cfg) d = Inr (f, j)"
    and e: "e = d\<lparr>failed_executions := map (\<lambda>r. if fe_id r = fe_id f then r\<lparr>fe_retry_at := Some u\<rparr> else r)
      (failed_executions d)\<rparr>"
    unfolding schedule_failed_job_retry_def by (auto split: option.splits)
  have "state_keys m e = state_keys m d" for m
    by (cases m) (auto simp: e state_keys.simps comp_def)
  with assms(1) queue_inv_cong [of e d L A M] show ?thesis by (simp add: e)
qed

lemma retry_failed_job_inv:
  assumes inv: "queue_inv L A M d" and step: "retry_failed_job ss cfg i d = Inr (j, e)"
  shows "queue_inv L A M e"
proof -
  from step obtain x where x: "get_failed i (backend_alias cfg) d = Inr x" by (auto simp: retry_failed_job_def)
  obtain xs c where con: "consume_selected_rows ss Failed (\<lambda>x. fe_id (fst x)) [x] d = (xs, c)" by force
  note cj = failed.consumed_jobs [OF inv get_failed_selection [OF inv x] con]
  from step x con cj(1) obtain r names f where
    "redispatch_jobs ss cfg False True (map snd [x]) c = Inr (r, f)"
    and e: "e = notify_ready_queues_on_commit ss cfg names f"
    by (auto simp: retry_failed_job_def split: list.splits)
  from redispatch_jobs_inv [OF cj(3,2) _ _ this(1)] cj(4,5) e show ?thesis
    by (simp add: slot_tokens_def slot_model_def)
qed

lemma retry_failed_rows_inv:
  assumes "queue_inv L A M d" and "selection fe_id fe_job (failed_executions d) d rows"
    and "retry_failed_rows ss cfg rows d = Inr (js, e)"
  shows "queue_inv L A M e"
proof (cases "rows = []")
  case False
  with assms(3) obtain names fs f where "consume_and_redispatch ss cfg Failed fe_id True rows d = Inr ((js, names, fs), f)"
    and e: "e = notify_ready_queues_on_commit ss cfg names f" by (auto simp: retry_failed_rows_def)
  from failed.consume_and_redispatch_inv [OF assms(1,2) _ this(1)] e show ?thesis by (simp add: slot_model_def)
qed (use assms in \<open>simp add: retry_failed_rows_def\<close>)

lemma retry_failed_jobs_inv:
  assumes "queue_inv L A M d" and "retry_failed_jobs ss cfg ids n d = Inr (k, e)"
  shows "queue_inv L A M e"
proof -
  from assms(2) obtain rows js where "retry_failed_rows ss cfg rows d = Inr (js, e)"
    and "rows = first_n n (locked_queryset ss cfg TFailed (\<lambda>x. fe_id (fst x))
      (filter (\<lambda>(f, j). job_backend_alias j = backend_alias cfg)
        (with_jobs d fe_job (order_by fe_id (filter (\<lambda>f. job_filter ids (fe_job f)) (failed_executions d))))))"
    by (auto simp: retry_failed_jobs_def)
  then show ?thesis
    by (intro retry_failed_rows_inv [OF assms(1), of rows])
       (auto intro!: selection_first_n selection_locked selection_filter failed.selection_query [OF assms(1)])
qed

lemma promote_failed_job_retries_inv:
  assumes inv: "queue_inv L A M d" and step: "promote_failed_job_retries ss cfg n d = Inr (js, e)"
  shows "queue_inv L A M e"
proof -
  define c where "c = d\<lparr>clock := stl (clock d)\<rparr>"
  have ci: "queue_inv L A M c" using inv by (simp add: c_def)
  note step' = step [unfolded promote_failed_job_retries_def timezone_now_def Let_def prod.case, folded c_def]
  show ?thesis
    by (rule retry_failed_rows_inv [OF ci _ step'])
       (intro selection_first_n selection_locked selection_filter failed.selection_query [OF ci])
qed

text \<open>A job enqueued again is a new call; its task has to declare the limit of the key.\<close>

lemma enqueue_job_again_inv:
  assumes "queue_inv L A M d" and "enqueue_job_again ss cfg using i after new_id d = Inr (j, e)"
    and "\<And>t args kwargs. source_call ss cfg using i after d = Inr (t, args, kwargs) \<Longrightarrow> call_limit_ok L cfg t args kwargs"
  shows "queue_inv L A M e"
proof -
  from assms(2) obtain t args kwargs r where "source_call ss cfg using i after d = Inr (t, args, kwargs)"
    and "enqueue_job_with_dispatch ss cfg t args kwargs True new_id d = Inr (r, e)"
    by (auto simp: enqueue_job_again_def)
  then show ?thesis using enqueue_job_with_dispatch_inv [OF assms(1) assms(3)] by blast
qed

lemma discard_failed_jobs_inv:
  assumes "queue_inv L A M d" and "discard_failed_jobs ss cfg ids n d = Inr (k, e)"
  shows "queue_inv L A M e"
  by (rule failed.discard_rows_inv(1) [OF assms(1) _ _ assms(2) [unfolded discard_failed_jobs_def]])
     (intro selection_first_n selection_locked selection_filter failed.selection_query [OF assms(1)],
      simp add: slot_model_def)

lemma discard_ready_query_inv:
  assumes "queue_inv L A M d" and "discard_ready_query ss cfg P n d = Inr (k, e)"
  shows "queue_inv L A M e"
  by (rule ready.discard_rows_inv(1) [OF assms(1) _ _ assms(2) [unfolded discard_ready_query_def]])
     (intro selection_first_n selection_locked ready.selection_query [OF assms(1)], simp add: slot_model_def)

lemma discard_scheduled_jobs_inv:
  assumes "queue_inv L A M d" and "discard_scheduled_jobs ss cfg ids n d = Inr (k, e)"
  shows "queue_inv L A M e"
  by (rule scheduled.discard_rows_inv(1) [OF assms(1) _ _ assms(2) [unfolded discard_scheduled_jobs_def]])
     (intro selection_first_n selection_locked scheduled.selection_query [OF assms(1)], simp add: slot_model_def)

lemma discard_blocked_jobs_inv:
  assumes "queue_inv L A M d" and "discard_blocked_jobs ss cfg ids n d = Inr (k, e)"
  shows "queue_inv L A M e"
  by (rule blocked.discard_rows_inv(1) [OF assms(1) _ _ assms(2) [unfolded discard_blocked_jobs_def]])
     (intro selection_first_n selection_locked blocked.selection_query [OF assms(1)], simp add: slot_model_def)

end
