(* ===== verification/Recovery.thy ===== *)
theory Recovery
  imports Jobs
begin

text \<open>
  Failing the jobs of dead workers, \<^verbatim>\<open>operations/recovery.py\<close>: claims without a process, the
  claims of one process, and the pruning of processes whose heartbeat is stale.  The slots of the failed
  jobs are handed over in groups, one semaphore statement per key.
\<close>

section \<open>Failing claimed jobs\<close>

definition recovered_failure_row :: "exception_info \<Rightarrow> job \<Rightarrow> failed_execution" where
  "recovered_failure_row err j = \<lparr>fe_id = 0, fe_job = job_id j, fe_exception_class = ei_class err,
     fe_message = ei_message err, fe_traceback = ei_traceback err, fe_retry_at = None, fe_created_at = 0\<rparr>"

definition fail_claimed_jobs ::
  "session \<Rightarrow> backend_config \<Rightarrow> job list \<Rightarrow> exception_info \<Rightarrow> db \<Rightarrow> error + job list \<times> db" where
  "fail_claimed_jobs ss cfg js err d =
     (if js = [] then Inr ([], d)
      else if list_ex (\<lambda>j. job_backend_alias j \<noteq> backend_alias cfg) js then Inl ClaimedDoesNotExist
      else
        let job_ids = map job_id js;
            rows = filter (\<lambda>c. ce_job c \<in> set job_ids) (claimed_executions d)
        in if length rows \<noteq> length job_ids then Inl ClaimedDoesNotExist
           else
             let d = delete_pks Claimed (ce_id ` set rows) d in
             and_then (ensure_job_ids_have_no_other_execution_state job_ids [Claimed] d) (\<lambda>_.
             and_then (for_each create_failed (map (recovered_failure_row err) js) d) (\<lambda>d.
             and_then (release_recovered_concurrency_slots ss cfg js d) (\<lambda>(fallback, d).
             and_then (for_each (\<lambda>j. release_concurrency_slot ss cfg j None) fallback d) (\<lambda>d.
               Inr (js, d))))))"

definition fail_orphaned_claimed_jobs ::
  "session \<Rightarrow> backend_config \<Rightarrow> exception_info \<Rightarrow> int \<Rightarrow> db \<Rightarrow> error + job list \<times> db" where
  "fail_orphaned_claimed_jobs ss cfg err batch_size d =
     fail_claimed_jobs ss cfg (map snd (first_n batch_size
       (locked_queryset ss cfg TClaimed (\<lambda>x. ce_id (fst x))
         (filter (\<lambda>(c, j). job_backend_alias j = backend_alias cfg)
           (with_jobs d ce_job (order_by ce_id (filter (\<lambda>c. ce_process c = None) (claimed_executions d)))))))) err d"

section \<open>The claims of a process\<close>

definition fail_claimed_jobs_for_process ::
  "session \<Rightarrow> backend_config \<Rightarrow> process option \<Rightarrow> exception_info \<Rightarrow> bool \<Rightarrow> db \<Rightarrow> error + job list \<times> db" where
  "fail_claimed_jobs_for_process ss cfg process err delete d =
     (case process of
        None \<Rightarrow> Inr ([], d)
      | Some p \<Rightarrow>
          and_then (fail_claimed_jobs ss cfg (map snd (with_jobs d ce_job
              (filter (\<lambda>c. ce_process c = Some (proc_id p)) (claimed_executions d)))) err d) (\<lambda>(failed, d).
            Inr (failed, if delete then delete_process (proc_id p) d else d)))"

text \<open>A pid names a process only when it is not ambiguous.\<close>

definition fail_claimed_jobs_for_pid ::
  "session \<Rightarrow> backend_config \<Rightarrow> int \<Rightarrow> exception_info \<Rightarrow> db \<Rightarrow> error + job list \<times> db" where
  "fail_claimed_jobs_for_pid ss cfg pid err d =
     (case take 2 (filter (\<lambda>p. proc_pid p = pid \<and> proc_backend_alias p = backend_alias cfg) (processes d)) of
        [p] \<Rightarrow> fail_claimed_jobs_for_process ss cfg (Some p) err True d
      | _ \<Rightarrow> Inr ([], d))"

definition fail_claimed_jobs_for_child ::
  "session \<Rightarrow> backend_config \<Rightarrow> int \<Rightarrow> string \<Rightarrow> nat option \<Rightarrow> exception_info \<Rightarrow> db \<Rightarrow> error + job list \<times> db" where
  "fail_claimed_jobs_for_child ss cfg pid name supervisor_id err d =
     (let process = (case order_by proc_id (filter (\<lambda>p. proc_pid p = pid \<and> proc_name p = name
              \<and> proc_supervisor p = supervisor_id \<and> proc_backend_alias p = backend_alias cfg) (processes d)) of
            [] \<Rightarrow> None | p # _ \<Rightarrow> Some p)
      in fail_claimed_jobs_for_process ss cfg process err True d)"

section \<open>Stale processes\<close>

text \<open>The loop over the stale processes: at most \<open>remaining\<close> claims are failed, the claims of a
  process beyond that lose their process and are failed as orphans later.\<close>

fun prune_loop ::
  "session \<Rightarrow> backend_config \<Rightarrow> time \<Rightarrow> exception_info \<Rightarrow> process list \<Rightarrow> int \<Rightarrow> process list \<Rightarrow> db
     \<Rightarrow> error + process list \<times> db" where
  "prune_loop ss cfg cutoff err [] remaining pruned d = Inr (pruned, d)"
| "prune_loop ss cfg cutoff err (p # ps) remaining pruned d =
     (let js = map snd (first_n remaining (with_jobs d ce_job
            (order_by ce_id (filter (\<lambda>c. ce_process c = Some (proc_id p)) (claimed_executions d)))));
          deleted = list_ex (\<lambda>q. proc_id q = proc_id p \<and> proc_backend_alias q = backend_alias cfg
            \<and> proc_last_heartbeat_at q < cutoff) (processes d)
      in if \<not> deleted then prune_loop ss cfg cutoff err ps remaining pruned d
         else and_then (fail_claimed_jobs ss cfg js err (delete_process (proc_id p) d)) (\<lambda>(_, d).
           if remaining - int (length js) = 0 then Inr (pruned @ [p], d)
           else prune_loop ss cfg cutoff err ps (remaining - int (length js)) (pruned @ [p]) d))"

definition prune_stale_processes ::
  "session \<Rightarrow> backend_config \<Rightarrow> time \<Rightarrow> exception_info \<Rightarrow> nat option \<Rightarrow> int \<Rightarrow> db \<Rightarrow> error + process list \<times> db" where
  "prune_stale_processes ss cfg cutoff err exclude batch_size d =
     prune_loop ss cfg cutoff err
       (first_n batch_size (locked_queryset ss cfg TProcess proc_id
         (order_by (\<lambda>p. (proc_last_heartbeat_at p, proc_id p))
           (filter (\<lambda>p. proc_backend_alias p = backend_alias cfg \<and> proc_last_heartbeat_at p < cutoff
              \<and> exclude \<noteq> Some (proc_id p)) (processes d)))))
       batch_size [] d"

section \<open>Lemmas\<close>

lemma mset_eq_of_subset:
  assumes "distinct xs" and "distinct ys" and "set xs \<subseteq> set ys" and "length xs = length ys"
  shows "mset xs = mset ys"
proof -
  have "card (set xs) = card (set ys)" using assms by (simp add: distinct_card)
  then have "set xs = set ys" using assms(3) by (simp add: card_subset_eq)
  with assms show ?thesis by (simp add: set_eq_iff_mset_eq_distinct)
qed

lemma claimed_rows_distinct:
  assumes "queue_inv L A M d"
  shows "distinct (map ce_job (filter P (claimed_executions d)))"
proof -
  have "distinct (claimed_executions d)" using claimed.distinct_pk [OF assms] by (simp add: distinct_map)
  moreover have "inj_on ce_job (set (claimed_executions d))"
  proof (rule inj_onI)
    fix x y assume xy: "x \<in> set (claimed_executions d)" "y \<in> set (claimed_executions d)" "ce_job x = ce_job y"
    have "(ce_id z, ce_job z) \<in> set (state_keys Claimed d)" if "z \<in> set (claimed_executions d)" for z
      using that by (simp add: claimed.keys)
    with one_row_per_job [OF assms] xy have "ce_id x = ce_id y" by metis
    with xy claimed.distinct_pk [OF assms] show "x = y" by (auto simp: distinct_map inj_on_def)
  qed
  ultimately show ?thesis by (simp add: distinct_map inj_on_subset)
qed

lemma fail_claimed_jobs_inv:
  assumes inv: "queue_inv L A M d" and js: "distinct (map job_id js)"
    and cur: "\<forall>j\<in>set js. find_job d (job_id j) = Some j"
    and step: "fail_claimed_jobs ss cfg js err d = Inr (r, e)"
  shows "queue_inv L A M e"
proof (cases "js = []")
  case True
  with step inv show ?thesis by (simp add: fail_claimed_jobs_def)
next
  case False
  define rows where "rows = filter (\<lambda>c. ce_job c \<in> set (map job_id js)) (claimed_executions d)"
  define c where "c = delete_pks Claimed (ce_id ` set rows) d"
  note step' = step [unfolded fail_claimed_jobs_def Let_def, folded rows_def, folded c_def]
  with False obtain f fb g where len: "length rows = length (map job_id js)"
    and f: "for_each create_failed (map (recovered_failure_row err) js) c = Inr f"
    and g: "release_recovered_concurrency_slots ss cfg js f = Inr (fb, g)"
    and e: "for_each (\<lambda>j. release_concurrency_slot ss cfg j None) fb g = Inr e"
    by (auto split: if_splits)
  have "set (map ce_job rows) \<subseteq> set (map job_id js)" by (auto simp: rows_def)
  then have ids: "mset (map ce_job rows) = mset (map job_id js)"
    using claimed_rows_distinct [OF inv] js len by (intro mset_eq_of_subset) (simp_all add: rows_def)
  have img: "ce_job ` set rows = set (map job_id js)" using mset_eq_setD [OF ids] by simp
  have "distinct (map ce_id rows)" using claimed.distinct_pk [OF inv] by (simp add: rows_def distinct_map_filter)
  then have ci: "queue_inv L (A \<union> set (map job_id js)) (M + tokens d (map job_id js)) c"
    using queue_inv_consumed [OF inv claimed.keys, of rows] img tokens_mset_cong [OF ids, of d]
    by (auto simp: c_def rows_def slot_tokens_def slot_model_def)
  have pol: "\<forall>j\<in>set js. job_policy_ok L j \<and> key_of d (job_id j) = job_key j"
    using cur inv by (auto simp: key_of_def queue_inv_def policies_ok_def dest: find_job_Some)
  have "set (map job_id js) \<inter> A = {}"
  proof -
    have "i \<notin> A" if "i \<in> ce_job ` set rows" for i
      using that row_job_live(2) [OF inv, of _ i Claimed] by (auto simp: rows_def claimed.keys)
    then show ?thesis unfolding img by blast
  qed
  then have away: "A \<union> set (map job_id js) - set (map job_id js) = A" by blast
  have ids': "map fe_job (map (recovered_failure_row err) js) = map job_id js"
    by (simp add: recovered_failure_row_def)
  have "queue_inv L A (M + job_tokens js) f"
    using create_failures_inv [OF f ci, unfolded ids'] js tokens_job_tokens [of js d] pol away by simp
  from release_recovered_slots_token [OF this _ g] pol
  have gi: "queue_inv L A (M + job_tokens fb) g" "\<forall>j\<in>set fb. job_policy_ok L j" by auto
  from release_slots_token [OF e this] show ?thesis .
qed

text \<open>Jobs selected with their claims are distinct and current.\<close>

lemma claimed_selection_jobs:
  assumes inv: "queue_inv L A M d" and sel: "selection ce_id ce_job (claimed_executions d) d rows"
  shows "distinct (map job_id (map snd rows))" and "\<forall>j\<in>set (map snd rows). find_job d (job_id j) = Some j"
proof -
  show "distinct (map job_id (map snd rows))"
    using claimed.selection_distinct_jobs [OF inv sel] by (simp add: comp_def)
  show "\<forall>j\<in>set (map snd rows). find_job d (job_id j) = Some j"
  proof
    fix j assume "j \<in> set (map snd rows)"
    then obtain r where "(r, j) \<in> set rows" by auto
    with sel selection_job [OF sel this] show "find_job d (job_id j) = Some j" by (auto simp: selection_def)
  qed
qed

lemma fail_orphaned_claimed_jobs_inv:
  assumes "queue_inv L A M d" and "fail_orphaned_claimed_jobs ss cfg err n d = Inr (r, e)"
  shows "queue_inv L A M e"
proof -
  have "selection ce_id ce_job (claimed_executions d) d (first_n n
       (locked_queryset ss cfg TClaimed (\<lambda>x. ce_id (fst x))
         (filter (\<lambda>(c, j). job_backend_alias j = backend_alias cfg)
           (with_jobs d ce_job (order_by ce_id (filter (\<lambda>c. ce_process c = None) (claimed_executions d)))))))"
    by (intro selection_first_n selection_locked selection_filter claimed.selection_query [OF assms(1)])
  from fail_claimed_jobs_inv [OF assms(1) claimed_selection_jobs [OF assms(1) this]
      assms(2) [unfolded fail_orphaned_claimed_jobs_def]] show ?thesis .
qed

lemma process_claims_selection:
  assumes "queue_inv L A M d"
  shows "selection ce_id ce_job (claimed_executions d) d (with_jobs d ce_job (filter P (claimed_executions d)))"
  using claimed.distinct_pk [OF assms] by (intro selection_with_jobs) (auto simp: distinct_map_filter)

lemma fail_claimed_jobs_for_process_inv:
  assumes inv: "queue_inv L A M d" and step: "fail_claimed_jobs_for_process ss cfg p err del d = Inr (r, e)"
  shows "queue_inv L A M e"
proof (cases p)
  case None
  with assms show ?thesis by (simp add: fail_claimed_jobs_for_process_def)
next
  case (Some q)
  with step obtain f where "fail_claimed_jobs ss cfg (map snd (with_jobs d ce_job
      (filter (\<lambda>c. ce_process c = Some (proc_id q)) (claimed_executions d)))) err d = Inr (r, f)"
    and e: "e = (if del then delete_process (proc_id q) f else f)"
    by (auto simp: fail_claimed_jobs_for_process_def)
  from fail_claimed_jobs_inv [OF inv claimed_selection_jobs [OF inv process_claims_selection [OF inv]] this(1)] e
  show ?thesis by simp
qed

lemma fail_claimed_jobs_for_pid_inv:
  assumes "queue_inv L A M d" and "fail_claimed_jobs_for_pid ss cfg pid err d = Inr (r, e)"
  shows "queue_inv L A M e"
  using assms(2) fail_claimed_jobs_for_process_inv [OF assms(1)] assms(1)
  unfolding fail_claimed_jobs_for_pid_def by (auto split: list.splits)

lemma fail_claimed_jobs_for_child_inv:
  assumes "queue_inv L A M d" and "fail_claimed_jobs_for_child ss cfg pid name supervisor err d = Inr (r, e)"
  shows "queue_inv L A M e"
  using assms(2) unfolding fail_claimed_jobs_for_child_def Let_def
  by (rule fail_claimed_jobs_for_process_inv [OF assms(1)])

lemma find_job_delete_process [simp]: "find_job (delete_process p d) = find_job d"
  by (simp add: find_job_def fun_eq_iff)

lemma prune_loop_inv:
  assumes "queue_inv L A M d" and "prune_loop ss cfg cutoff err ps n pruned d = Inr (r, e)"
  shows "queue_inv L A M e"
  using assms
proof (induction ps arbitrary: n pruned d)
  case Nil
  then show ?case by simp
next
  case (Cons p ps)
  define rows where "rows = first_n n (with_jobs d ce_job
            (order_by ce_id (filter (\<lambda>c. ce_process c = Some (proc_id p)) (claimed_executions d))))"
  have sel: "selection ce_id ce_job (claimed_executions d) d rows"
    unfolding rows_def by (intro selection_first_n claimed.selection_query [OF Cons.prems(1)])
  note js = claimed_selection_jobs [OF Cons.prems(1) sel]
  note step = Cons.prems(2) [unfolded prune_loop.simps Let_def, folded rows_def]
  have di: "queue_inv L A M (delete_process (proc_id p) d)" using Cons.prems(1) by simp
  show ?case
  proof (cases "list_ex (\<lambda>q. proc_id q = proc_id p \<and> proc_backend_alias q = backend_alias cfg
            \<and> proc_last_heartbeat_at q < cutoff) (processes d)")
    case False
    with step Cons.IH [OF Cons.prems(1)] show ?thesis by simp
  next
    case True
    with step obtain js' f where f: "fail_claimed_jobs ss cfg (map snd rows) err (delete_process (proc_id p) d) = Inr (js', f)"
      and rest: "(if n - int (length (map snd rows)) = 0 then Inr (pruned @ [p], f)
         else prune_loop ss cfg cutoff err ps (n - int (length (map snd rows))) (pruned @ [p]) f) = Inr (r, e)"
      by auto
    have "queue_inv L A M f" using js by (intro fail_claimed_jobs_inv [OF di _ _ f]) simp_all
    with rest Cons.IH show ?thesis by (auto split: if_splits)
  qed
qed

lemma prune_stale_processes_inv:
  assumes "queue_inv L A M d" and "prune_stale_processes ss cfg cutoff err ex n d = Inr (r, e)"
  shows "queue_inv L A M e"
  using assms(2) unfolding prune_stale_processes_def by (rule prune_loop_inv [OF assms(1)])

end
