(* ===== verification/Cleanup.thy ===== *)
theory Cleanup
  imports Recovery
begin

text \<open>
  Retention, \<^verbatim>\<open>operations/cleanup.py\<close>, and pausing and resuming queues,
  \<^verbatim>\<open>operations/queues.py\<close>.  A resumed queue shifts the moment from which the latency of its ready
  jobs is counted, so that the pause is not counted.
\<close>

section \<open>Retention\<close>

definition delete_jobs_without_execution_state :: "string \<Rightarrow> uuid list \<Rightarrow> db \<Rightarrow> error + nat \<times> db" where
  "delete_jobs_without_execution_state al ids d =
     and_then (ensure_job_ids_have_no_other_execution_state ids [] d) (\<lambda>_.
       Inr (delete_jobs (job_id ` set (filter (\<lambda>j. job_backend_alias j = al \<and> job_id j \<in> set ids) (jobs d))) d))"

text \<open>\<open>timezone.now()\<close> is only read when the caller gives no time.\<close>

definition now_or :: "time option \<Rightarrow> db \<Rightarrow> time \<times> db" where
  "now_or now d = (case now of None \<Rightarrow> timezone_now d | Some t \<Rightarrow> (t, d))"

definition finished_before :: "time \<Rightarrow> string \<Rightarrow> string option \<Rightarrow> job \<Rightarrow> bool" where
  "finished_before cutoff al path j \<longleftrightarrow> job_backend_alias j = al
     \<and> (case finished_at j of None \<Rightarrow> False | Some t \<Rightarrow> t < cutoff)
     \<and> (case path of None \<Rightarrow> True | Some p \<Rightarrow> task_path j = p)"

definition clear_finished_jobs ::
  "session \<Rightarrow> backend_config \<Rightarrow> int option \<Rightarrow> string option \<Rightarrow> int \<Rightarrow> time option \<Rightarrow> db \<Rightarrow> error + nat \<times> db" where
  "clear_finished_jobs ss cfg older_than path batch_size now d =
     (case (case older_than of None \<Rightarrow> clear_finished_jobs_after cfg | Some s \<Rightarrow> Some s) of
        None \<Rightarrow> Inr (0, d)
      | Some older \<Rightarrow>
          let (now, d) = now_or now d;
              cutoff = now - seconds older;
              ids = first_n batch_size (map job_id (locked_queryset ss cfg TJob job_id
                (order_by (\<lambda>j. (the (finished_at j), job_id j))
                  (filter (finished_before cutoff (backend_alias cfg) path) (jobs d)))))
          in if ids = [] then Inr (0, d)
             else delete_jobs_without_execution_state (backend_alias cfg) ids d)"

definition clear_failed_jobs ::
  "session \<Rightarrow> backend_config \<Rightarrow> int option \<Rightarrow> string option \<Rightarrow> int \<Rightarrow> time option \<Rightarrow> db \<Rightarrow> error + nat \<times> db" where
  "clear_failed_jobs ss cfg older_than path batch_size now d =
     (case (case older_than of None \<Rightarrow> clear_failed_jobs_after cfg | Some s \<Rightarrow> Some s) of
        None \<Rightarrow> Inr (0, d)
      | Some older \<Rightarrow>
          let (now, d) = now_or now d;
              cutoff = now - seconds older;
              failed_rows = first_n batch_size (locked_queryset ss cfg TFailed (\<lambda>x. fe_id (fst x))
                (filter (\<lambda>(f, j). job_backend_alias j = backend_alias cfg
                     \<and> (case path of None \<Rightarrow> True | Some p \<Rightarrow> task_path j = p))
                  (with_jobs d fe_job (order_by (\<lambda>f. (fe_created_at f, fe_job f))
                    (filter (\<lambda>f. fe_created_at f < cutoff) (failed_executions d))))))
          in if failed_rows = [] then Inr (0, d)
             else
               let (failed_rows, d) = consume_selected_rows ss Failed (\<lambda>x. fe_id (fst x)) failed_rows d in
               if failed_rows = [] then Inr (0, d)
               else delete_jobs_without_execution_state (backend_alias cfg) (map (\<lambda>x. fe_job (fst x)) failed_rows) d)"

definition clear_recurring_executions ::
  "session \<Rightarrow> backend_config \<Rightarrow> int option \<Rightarrow> string option \<Rightarrow> int \<Rightarrow> time option \<Rightarrow> db \<Rightarrow> error + nat \<times> db" where
  "clear_recurring_executions ss cfg older_than key batch_size now d =
     (case (case older_than of None \<Rightarrow> clear_recurring_executions_after cfg | Some s \<Rightarrow> Some s) of
        None \<Rightarrow> Inr (0, d)
      | Some older \<Rightarrow>
          let (now, d) = now_or now d;
              cutoff = now - seconds older;
              ids = first_n batch_size (map rx_id (locked_queryset ss cfg TRecurringExecution rx_id
                (order_by (\<lambda>x. (rx_run_at x, rx_id x))
                  (filter (\<lambda>x. rx_backend_alias x = backend_alias cfg \<and> rx_run_at x < cutoff
                     \<and> (case key of None \<Rightarrow> True | Some k \<Rightarrow> rx_task_key x = k)) (recurring_executions d)))))
          in if ids = [] then Inr (0, d)
             else
               let doomed = (\<lambda>x. rx_backend_alias x = backend_alias cfg \<and> rx_id x \<in> set ids)
               in Inr (count_if doomed (recurring_executions d),
                       d\<lparr>recurring_executions := filter (\<lambda>x. \<not> doomed x) (recurring_executions d)\<rparr>))"

section \<open>Pausing\<close>

text \<open>\<open>get_or_create\<close>; the second transaction only waits for the row locks of claiming workers.\<close>

definition pause_queue :: "backend_config \<Rightarrow> string \<Rightarrow> db \<Rightarrow> db" where
  "pause_queue cfg queue_name d =
     (if list_ex (\<lambda>p. pause_backend_alias p = backend_alias cfg \<and> pause_queue_name p = queue_name) (pauses d)
      then d
      else
        let (t, d) = timezone_now d; (pk, d) = take_pk d
        in d\<lparr>pauses := pauses d @ [\<lparr>pause_id = pk, pause_backend_alias = backend_alias cfg,
               pause_queue_name = queue_name, pause_created_at = t\<rparr>]\<rparr>)"

definition resumed_latency :: "time \<Rightarrow> time \<Rightarrow> ready_execution \<Rightarrow> time" where
  "resumed_latency paused_at resumed_at r =
     (case re_latency_started_at r of
        None \<Rightarrow> if re_created_at r < paused_at then re_created_at r + (resumed_at - paused_at) else resumed_at
      | Some t \<Rightarrow> if t < paused_at then t + (resumed_at - paused_at) else resumed_at)"

definition resume_queue :: "backend_config \<Rightarrow> string \<Rightarrow> time option \<Rightarrow> db \<Rightarrow> bool \<times> db" where
  "resume_queue cfg queue_name resumed_at d =
     (case order_by pause_id (filter (\<lambda>p. pause_backend_alias p = backend_alias cfg
          \<and> pause_queue_name p = queue_name) (pauses d)) of
        [] \<Rightarrow> (False, d)
      | p # _ \<Rightarrow>
          let (resumed_at, d) = now_or resumed_at d
          in (True, d\<lparr>ready_executions := map (\<lambda>r.
                 if re_backend_alias r = backend_alias cfg \<and> re_queue_name r = queue_name
                 then r\<lparr>re_latency_started_at := Some (resumed_latency (pause_created_at p) resumed_at r)\<rparr>
                 else r) (ready_executions d),
               pauses := filter (\<lambda>q. pause_id q \<noteq> pause_id p) (pauses d)\<rparr>))"

section \<open>Lemmas\<close>

lemma now_or_frame:
  assumes "now_or now d = (t, c)"
  shows "queue_inv L A M c = queue_inv L A M d" and "jobs c = jobs d" and "pauses c = pauses d"
    and "ready_executions c = ready_executions d" and "recurring_executions c = recurring_executions d"
    and "failed_executions c = failed_executions d"
  using assms by (auto simp: now_or_def timezone_now_def split: option.splits)

lemma ensure_ids_Inr:
  assumes "ensure_job_ids_have_no_other_execution_state is ms d = Inr u" and "i \<in> set is" and "i \<in> job_ids d"
    and "m \<notin> set ms"
  shows "\<not> has_state m d i"
proof -
  have "job_ids_with_other_execution_state is ms d = []"
    using assms(1) by (simp add: ensure_job_ids_have_no_other_execution_state_def split: list.splits)
  moreover have "i \<in> set (filter (\<lambda>i. i \<in> set is) (map job_id (jobs d)))" using assms(2,3) by (simp add: job_ids_def)
  ultimately have "\<not> list_ex (\<lambda>m. has_state m d i) (state_models_except ms)"
    unfolding job_ids_with_other_execution_state_def filter_empty_conv by blast
  then show ?thesis using assms(4) by (auto simp: list_ex_iff state_models_except_def)
qed

lemma no_states_live_count: "(\<And>m. \<not> has_state m d i) \<Longrightarrow> live_count d i = 0"
  by (simp add: live_count_unfold has_state_iff_count)

lemma delete_jobs_without_state_inv:
  assumes inv: "queue_inv L A M d" and step: "delete_jobs_without_execution_state al ids d = Inr (n, e)"
  shows "queue_inv L (A - job_id ` set (filter (\<lambda>j. job_backend_alias j = al \<and> job_id j \<in> set ids) (jobs d))) M e"
proof -
  let ?I = "job_id ` set (filter (\<lambda>j. job_backend_alias j = al \<and> job_id j \<in> set ids) (jobs d))"
  from step have ok: "ensure_job_ids_have_no_other_execution_state ids [] d = Inr ()"
    and e: "e = snd (delete_jobs ?I d)" by (auto simp: delete_jobs_without_execution_state_def)
  have "\<forall>i\<in>?I. live_count d i = 0"
  proof
    fix i assume "i \<in> ?I"
    then have "i \<in> set ids" "i \<in> job_ids d" by (auto simp: job_ids_def)
    then show "live_count d i = 0" by (intro no_states_live_count ensure_ids_Inr [OF ok]) simp_all
  qed
  from queue_inv_delete_jobs [OF inv this] e show ?thesis by simp
qed

text \<open>Finished jobs are not in transit.\<close>

lemma clear_finished_jobs_inv:
  assumes inv: "queue_inv L A M d" and step: "clear_finished_jobs ss cfg older path n now d = Inr (k, e)"
  shows "queue_inv L A M e"
proof (cases "(case older of None \<Rightarrow> clear_finished_jobs_after cfg | Some s \<Rightarrow> Some s)")
  case None
  with assms show ?thesis by (simp add: clear_finished_jobs_def)
next
  case (Some s)
  obtain t c where c: "now_or now d = (t, c)" by force
  note fr = now_or_frame [OF c]
  define ids where "ids = first_n n (map job_id (locked_queryset ss cfg TJob job_id
     (order_by (\<lambda>j. (the (finished_at j), job_id j))
       (filter (finished_before (t - seconds s) (backend_alias cfg) path) (jobs c)))))"
  note step' = step [unfolded clear_finished_jobs_def Some option.case c Let_def prod.case, folded ids_def]
  have ci: "queue_inv L A M c" using inv fr(1) by blast
  have fin: "i \<notin> A" if "i \<in> set ids" for i
  proof -
    from that obtain j where j: "j \<in> set (jobs c)" "job_id j = i" "finished_at j \<noteq> None"
      using set_locked_queryset [of ss cfg TJob job_id] first_n_subsetD
      by (fastforce simp: ids_def finished_before_def split: option.splits)
    then show ?thesis using ci unfolding queue_inv_def partitioned_def by (auto split: if_splits)
  qed
  show ?thesis
  proof (cases "ids = []")
    case True
    with step' ci show ?thesis by simp
  next
    case False
    with step' have "delete_jobs_without_execution_state (backend_alias cfg) ids c = Inr (k, e)" by simp
    note del = delete_jobs_without_state_inv [OF ci this]
    have
      "A - job_id ` set (filter (\<lambda>j. job_backend_alias j = backend_alias cfg \<and> job_id j \<in> set ids) (jobs c)) = A"
      using fin by auto
    with del show ?thesis by simp
  qed
qed

lemma clear_failed_jobs_inv:
  assumes inv: "queue_inv L A M d" and step: "clear_failed_jobs ss cfg older path n now d = Inr (k, e)"
  shows "queue_inv L A M e"
proof (cases "(case older of None \<Rightarrow> clear_failed_jobs_after cfg | Some s \<Rightarrow> Some s)")
  case None
  with assms show ?thesis by (simp add: clear_failed_jobs_def)
next
  case (Some s)
  obtain t c where c: "now_or now d = (t, c)" by force
  have ci: "queue_inv L A M c" using inv now_or_frame(1) [OF c] by blast
  define P where "P = (\<lambda>(f :: failed_execution, j :: job). job_backend_alias j = backend_alias cfg
     \<and> (case path of None \<Rightarrow> True | Some p \<Rightarrow> task_path j = p))"
  define rows where "rows = first_n n (locked_queryset ss cfg TFailed (\<lambda>x. fe_id (fst x))
     (filter P (with_jobs c fe_job (order_by (\<lambda>f. (fe_created_at f, fe_job f))
       (filter (\<lambda>f. fe_created_at f < t - seconds s) (failed_executions c))))))"
  note step' = step [unfolded clear_failed_jobs_def Some option.case c Let_def prod.case, folded P_def, folded rows_def]
  have sel: "selection fe_id fe_job (failed_executions c) c rows"
    unfolding rows_def by (intro selection_first_n selection_locked selection_filter failed.selection_query [OF ci])
  have P: "P x" if "x \<in> set rows" for x
    using that first_n_subsetD set_locked_queryset unfolding rows_def by (metis (no_types, lifting) in_mono mem_Collect_eq set_filter)
  obtain rows' f where con: "consume_selected_rows ss Failed (\<lambda>x. fe_id (fst x)) rows c = (rows', f)" by force
  note cj = failed.consumed_jobs [OF ci sel con]
  show ?thesis
  proof (cases "rows = []")
    case True
    with step' ci show ?thesis by simp
  next
    case False
    let ?ids = "map (\<lambda>x. fe_job (fst x)) rows"
    have ids: "?ids = map job_id (map snd rows)" using selection_job [OF sel] by fastforce
    from False step' con cj(1) have del: "delete_jobs_without_execution_state (backend_alias cfg) ?ids f = Inr (k, e)" by simp
    let ?J = "job_id ` set (filter (\<lambda>j. job_backend_alias j = backend_alias cfg \<and> job_id j \<in> set ?ids) (jobs f))"
    have "?J = job_id ` set (map snd rows)"
    proof (intro equalityI subsetI)
      fix i assume "i \<in> job_id ` set (map snd rows)"
      then obtain x where x: "x \<in> set rows" "job_id (snd x) = i" by auto
      then have "find_job f i = Some (snd x)" using cj(5) by auto
      then have "snd x \<in> set (jobs f)" using find_job_Some by blast
      moreover have "job_backend_alias (snd x) = backend_alias cfg" using P [OF x(1)] by (auto simp: P_def split: prod.splits)
      ultimately show "i \<in> ?J" using x unfolding ids by (auto intro!: image_eqI [of _ _ "snd x"])
    qed (use ids in auto)
    with delete_jobs_without_state_inv [OF cj(3) del] cj(4) show ?thesis
      by (simp add: slot_tokens_def slot_model_def)
  qed
qed

lemma clear_recurring_executions_inv:
  assumes inv: "queue_inv L A M d" and step: "clear_recurring_executions ss cfg older key n now d = Inr (k, e)"
  shows "queue_inv L A M e"
proof -
  obtain t c where c: "now_or now d = (t, c)" by force
  have "queue_inv L A M c" using inv now_or_frame(1) [OF c] by blast
  with step inv c show ?thesis
    by (auto simp: clear_recurring_executions_def Let_def split: option.splits if_splits)
qed

lemma state_keys_ready_latency:
  "state_keys m (d\<lparr>ready_executions := map (\<lambda>r. if P r then r\<lparr>re_latency_started_at := f r\<rparr> else r)
     (ready_executions d)\<rparr>) = state_keys m d"
  by (cases m) (auto simp: state_keys.simps comp_def)

lemma queue_inv_later_pk:
  assumes "queue_inv L A M d"
  shows "queue_inv L A M (d\<lparr>next_pk := Suc (next_pk d)\<rparr>)"
proof -
  let ?e = "d\<lparr>next_pk := Suc (next_pk d)\<rparr>"
  have "key_of ?e = key_of d" by (rule key_of_jobs_cong) simp
  then have "holders ?e = holders d" "blocked_ok ?e = blocked_ok d" by (simp_all add: holders_def blocked_ok_def fun_eq_iff)
  moreover have "slots_ok L M ?e"
    using assms slots_ok_transfer [of ?e d M M L] calculation(1) by (simp add: queue_inv_def)
  moreover have "live_count ?e = live_count d" "job_ids ?e = job_ids d"
    by (simp_all add: live_count_def state_count_def job_ids_def fun_eq_iff)
  ultimately show ?thesis using assms
    by (fastforce simp: queue_inv_def keys_ok_def partitioned_def policies_ok_def)
qed

lemma pause_queue_inv: "queue_inv L A M d \<Longrightarrow> queue_inv L A M (pause_queue cfg q d)"
  using queue_inv_later_pk [of L A M "d\<lparr>clock := stl (clock d)\<rparr>"]
  by (simp add: pause_queue_def timezone_now_def take_pk_def)

lemma resume_queue_inv:
  assumes "queue_inv L A M d" and "resume_queue cfg q t d = (b, e)"
  shows "queue_inv L A M e"
proof -
  obtain u c where c: "now_or t d = (u, c)" by force
  have ci: "queue_inv L A M c" using assms(1) now_or_frame(1) [OF c] by blast
  have "queue_inv L A M (c\<lparr>ready_executions := map (\<lambda>r. if P r then r\<lparr>re_latency_started_at := f r\<rparr> else r)
     (ready_executions c), pauses := ps\<rparr>)" for P f ps
    using ci queue_inv_cong [of "c\<lparr>ready_executions := map (\<lambda>r. if P r then r\<lparr>re_latency_started_at := f r\<rparr> else r)
     (ready_executions c), pauses := ps\<rparr>" c L A M] by (simp add: state_keys_ready_latency)
  with assms c show ?thesis by (auto simp: resume_queue_def split: list.splits)
qed

end
