(* ===== verification/Processes.thy ===== *)
theory Processes
  imports Cleanup
begin

text \<open>
  The rows of the processes of the queue, as \<^verbatim>\<open>runtime/base.py\<close> writes them: a runner registers itself when it
  starts, refreshes its heartbeat, looks whether its row is still there, and deletes the row when it stops.
\<close>

section \<open>Operations\<close>

text \<open>The unique constraint is on the backend, the name and the supervisor, with 0 for no supervisor.\<close>

definition supervisor_identity :: "nat option \<Rightarrow> nat" where
  "supervisor_identity sv = (case sv of None \<Rightarrow> 0 | Some p \<Rightarrow> p)"

definition may_register :: "string \<Rightarrow> string \<Rightarrow> nat option \<Rightarrow> db \<Rightarrow> bool" where
  "may_register al name sv d \<longleftrightarrow>
     list_all (\<lambda>p. (proc_backend_alias p, proc_name p, supervisor_identity (proc_supervisor p))
        \<noteq> (al, name, supervisor_identity sv)) (processes d)
     \<and> (case sv of None \<Rightarrow> True | Some s \<Rightarrow> s \<in> proc_id ` set (processes d))"

definition register_process ::
  "backend_config \<Rightarrow> string \<Rightarrow> int \<Rightarrow> string \<Rightarrow> string \<Rightarrow> json \<Rightarrow> nat option \<Rightarrow> db \<Rightarrow> error + process \<times> db" where
  "register_process cfg kind pid hostname name metadata supervisor d =
     (let (heartbeat, d) = timezone_now d; (created, d) = timezone_now d in
      if \<not> may_register (backend_alias cfg) name supervisor d then Inl IntegrityError
      else
        let (pk, d) = take_pk d;
            p = \<lparr>proc_id = pk, proc_backend_alias = backend_alias cfg, proc_kind = kind, proc_pid = pid,
                 proc_hostname = hostname, proc_name = name, proc_metadata = metadata, proc_supervisor = supervisor,
                 proc_last_heartbeat_at = heartbeat, proc_created_at = created\<rparr>
        in Inr (p, d\<lparr>processes := processes d @ [p]\<rparr>))"

definition process_exists :: "nat \<Rightarrow> db \<Rightarrow> bool" where
  "process_exists pk d \<longleftrightarrow> list_ex (\<lambda>p. proc_id p = pk) (processes d)"

definition update_process :: "nat \<Rightarrow> (process \<Rightarrow> process) \<Rightarrow> db \<Rightarrow> nat \<times> db" where
  "update_process pk f d =
     (count_if (\<lambda>p. proc_id p = pk) (processes d),
      d\<lparr>processes := map (\<lambda>p. if proc_id p = pk then f p else p) (processes d)\<rparr>)"

definition touch_process_row :: "nat \<Rightarrow> db \<Rightarrow> nat \<times> db" where
  "touch_process_row pk d =
     (let (now, d) = timezone_now d in update_process pk (\<lambda>p. p\<lparr>proc_last_heartbeat_at := now\<rparr>) d)"

definition deregister_process :: "nat \<Rightarrow> db \<Rightarrow> db" where
  "deregister_process pk d = delete_process pk d"

definition set_process_metadata :: "nat \<Rightarrow> json \<Rightarrow> db \<Rightarrow> nat \<times> db" where
  "set_process_metadata pk metadata d = update_process pk (\<lambda>p. p\<lparr>proc_metadata := metadata\<rparr>) d"

section \<open>Lemmas\<close>

lemma register_process_inv:
  assumes "queue_inv L A M d" and "register_process cfg kind pid host name md sv d = Inr (p, e)"
  shows "queue_inv L A M e"
  using assms queue_inv_later_pk [of L A M "d\<lparr>clock := stl (stl (clock d))\<rparr>"]
  by (auto simp: register_process_def timezone_now_def take_pk_def Let_def split: if_splits)

lemma update_process_inv: "queue_inv L A M d \<Longrightarrow> update_process pk f d = (n, e) \<Longrightarrow> queue_inv L A M e"
  by (auto simp: update_process_def)

lemma touch_process_inv: "queue_inv L A M d \<Longrightarrow> touch_process_row pk d = (n, e) \<Longrightarrow> queue_inv L A M e"
  by (auto simp: touch_process_row_def timezone_now_def elim!: update_process_inv [rotated])

lemma deregister_process_inv: "queue_inv L A M d \<Longrightarrow> queue_inv L A M (deregister_process pk d)"
  by (simp add: deregister_process_def)

lemma set_metadata_inv: "queue_inv L A M d \<Longrightarrow> set_process_metadata pk md d = (n, e) \<Longrightarrow> queue_inv L A M e"
  by (simp add: set_process_metadata_def update_process_inv)

text \<open>A registered process is there until its row is deleted, and a heartbeat finds it.\<close>

lemma register_process_exists:
  assumes "register_process cfg kind pid host name md sv d = Inr (p, e)"
  shows "process_exists (proc_id p) e" and "proc_name p = name" and "proc_backend_alias p = backend_alias cfg"
  using assms by (auto simp: register_process_def process_exists_def take_pk_def Let_def split: if_splits prod.splits)

lemma touch_process_count: "fst (touch_process_row pk d) = 0 \<longleftrightarrow> \<not> process_exists pk d"
  by (simp add: touch_process_row_def update_process_def timezone_now_def process_exists_def count_if_0_iff list_ex_iff)

lemma deregistered [simp]: "\<not> process_exists pk (deregister_process pk d)"
  by (auto simp: deregister_process_def delete_process_def process_exists_def list_ex_iff split: if_splits)

end
