(* ===== verification/Interference.thy ===== *)
theory Interference
  imports Processes
begin

text \<open>
  What the operations on jobs do to the tables of the recurring component: they leave the task
  definitions alone, they remove recurring executions only together with their jobs, and they take new
  primary keys only.  The facts are collected in \<open>quiet\<close>, one per operation; a proof follows the
  structure of the operation.
\<close>

named_theorems quiet "operations that leave the recurring tables undisturbed"

definition undisturbed :: "db \<Rightarrow> db \<Rightarrow> bool" where
  "undisturbed d e \<longleftrightarrow> recurring_tasks e = recurring_tasks d
     \<and> (\<exists>P. recurring_executions e = filter P (recurring_executions d)) \<and> next_pk d \<le> next_pk e"

definition keeps_to :: "db \<Rightarrow> error + 'a \<times> db \<Rightarrow> bool" where
  "keeps_to d r \<longleftrightarrow> (\<forall>x e. r = Inr (x, e) \<longrightarrow> undisturbed d e)"

definition keeps_db :: "db \<Rightarrow> error + db \<Rightarrow> bool" where
  "keeps_db d r \<longleftrightarrow> (\<forall>e. r = Inr e \<longrightarrow> undisturbed d e)"

section \<open>Following the structure of an operation\<close>

lemma undisturbed_refl [simp]: "undisturbed d d"
  by (auto simp: undisturbed_def intro: exI [of _ "\<lambda>x. True"])

lemma undisturbed_trans: "undisturbed c d \<Longrightarrow> undisturbed d e \<Longrightarrow> undisturbed c e"
  unfolding undisturbed_def by (metis (no_types, lifting) filter_filter order_trans)

lemma undisturbed_executions [quiet]:
  assumes "undisturbed d c"
  shows "undisturbed d (c\<lparr>recurring_executions := filter P (recurring_executions c)\<rparr>)"
  by (rule undisturbed_trans [OF assms]) (auto simp: undisturbed_def)

lemma undisturbed_tables [quiet]:
  assumes "undisturbed d c"
  shows "undisturbed d (c\<lparr>jobs := js\<rparr>)" "undisturbed d (c\<lparr>ready_executions := rs\<rparr>)"
    "undisturbed d (c\<lparr>scheduled_executions := ss\<rparr>)" "undisturbed d (c\<lparr>claimed_executions := cs\<rparr>)"
    "undisturbed d (c\<lparr>blocked_executions := bs\<rparr>)" "undisturbed d (c\<lparr>failed_executions := fs\<rparr>)"
    "undisturbed d (c\<lparr>semaphores := ms\<rparr>)" "undisturbed d (c\<lparr>processes := ps\<rparr>)"
    "undisturbed d (c\<lparr>pauses := qs\<rparr>)" "undisturbed d (c\<lparr>clock := ts\<rparr>)" "undisturbed d (c\<lparr>notified := ns\<rparr>)"
  using assms by (simp_all add: undisturbed_def)

lemma undisturbed_next_pk [quiet]:
  "undisturbed d c \<Longrightarrow> next_pk c \<le> n \<Longrightarrow> undisturbed d (c\<lparr>next_pk := n\<rparr>)"
  "undisturbed d c \<Longrightarrow> undisturbed d (snd (x, c))"
  by (simp_all add: undisturbed_def)

lemma keeps_results [quiet]:
  "undisturbed d (snd p) \<Longrightarrow> keeps_to d (Inr p)" "keeps_to d (Inl x)" "keeps_db d (Inl x)" 
  "undisturbed d c \<Longrightarrow> keeps_db d (Inr c)"
  by (auto simp: keeps_to_def keeps_db_def)

lemma keeps_and_then [quiet]:
  "keeps_to d m \<Longrightarrow> (\<And>x c. undisturbed d c \<Longrightarrow> keeps_to d (g x c)) \<Longrightarrow> keeps_to d (and_then m (case_prod g))"
  "keeps_db d n \<Longrightarrow> (\<And>c. undisturbed d c \<Longrightarrow> keeps_to d (f c)) \<Longrightarrow> keeps_to d (and_then n f)"
  "keeps_to d m \<Longrightarrow> (\<And>x c. undisturbed d c \<Longrightarrow> keeps_db d (h x c)) \<Longrightarrow> keeps_db d (and_then m (case_prod h))"
  "keeps_db d n \<Longrightarrow> (\<And>c. undisturbed d c \<Longrightarrow> keeps_db d (k c)) \<Longrightarrow> keeps_db d (and_then n k)"
  by (auto simp: keeps_to_def keeps_db_def and_then_Inr_iff)

text \<open>Steps that read only; they come after the rules for steps that write.\<close>

lemma keeps_read:
  "(\<And>x. keeps_to d (f x)) \<Longrightarrow> keeps_to d (and_then m f)"
  "(\<And>x. keeps_db d (g x)) \<Longrightarrow> keeps_db d (and_then m g)"
  by (auto simp: keeps_to_def keeps_db_def and_then_Inr_iff)

lemma keeps_case [quiet]:
  "undisturbed d (snd p) \<Longrightarrow> (\<And>x c. undisturbed d c \<Longrightarrow> keeps_to d (f x c)) \<Longrightarrow> keeps_to d (case p of (x, c) \<Rightarrow> f x c)"
  "undisturbed d (snd p) \<Longrightarrow> (\<And>x c. undisturbed d c \<Longrightarrow> keeps_db d (g x c)) \<Longrightarrow> keeps_db d (case p of (x, c) \<Rightarrow> g x c)"
  "undisturbed d (snd p) \<Longrightarrow> (\<And>x c. undisturbed d c \<Longrightarrow> undisturbed d (h x c)) \<Longrightarrow> undisturbed d (case p of (x, c) \<Rightarrow> h x c)"
  "undisturbed d (snd p) \<Longrightarrow> (\<And>x c. undisturbed d c \<Longrightarrow> undisturbed d (snd (k x c)))
    \<Longrightarrow> undisturbed d (snd (case p of (x, c) \<Rightarrow> k x c))"
  by (cases p; simp)+

lemma keeps_branch [quiet]:
  "keeps_to d a \<Longrightarrow> keeps_to d b \<Longrightarrow> keeps_to d (if P then a else b)"
  "keeps_db d a' \<Longrightarrow> keeps_db d b' \<Longrightarrow> keeps_db d (if P then a' else b')"
  "undisturbed d x \<Longrightarrow> undisturbed d y \<Longrightarrow> undisturbed d (if P then x else y)"
  "undisturbed d (snd p) \<Longrightarrow> undisturbed d (snd q) \<Longrightarrow> undisturbed d (snd (if P then p else q))"
  by simp_all

lemma keeps_option [quiet]:
  "keeps_to d a \<Longrightarrow> (\<And>y. keeps_to d (f y)) \<Longrightarrow> keeps_to d (case v of None \<Rightarrow> a | Some y \<Rightarrow> f y)"
  "keeps_db d a' \<Longrightarrow> (\<And>y. keeps_db d (f' y)) \<Longrightarrow> keeps_db d (case v of None \<Rightarrow> a' | Some y \<Rightarrow> f' y)"
  "undisturbed d (snd p) \<Longrightarrow> (\<And>y. undisturbed d (snd (g y))) \<Longrightarrow> undisturbed d (snd (case v of None \<Rightarrow> p | Some y \<Rightarrow> g y))"
  by (cases v; simp)+

lemma keeps_list [quiet]:
  "keeps_to d a \<Longrightarrow> (\<And>y ys. keeps_to d (f y ys)) \<Longrightarrow> keeps_to d (case xs of [] \<Rightarrow> a | y # ys \<Rightarrow> f y ys)"
  "keeps_db d a' \<Longrightarrow> (\<And>y ys. keeps_db d (f' y ys)) \<Longrightarrow> keeps_db d (case xs of [] \<Rightarrow> a' | y # ys \<Rightarrow> f' y ys)"
  "undisturbed d (snd p) \<Longrightarrow> (\<And>y ys. undisturbed d (snd (g y ys))) \<Longrightarrow> undisturbed d (snd (case xs of [] \<Rightarrow> p | y # ys \<Rightarrow> g y ys))"
  by (cases xs; simp)+

lemma keeps_sum [quiet]:
  "(\<And>e. keeps_to d (f e)) \<Longrightarrow> (\<And>y. keeps_to d (g y)) \<Longrightarrow> keeps_to d (case v of Inl e \<Rightarrow> f e | Inr y \<Rightarrow> g y)"
  by (cases v; simp)

lemma keeps_pair:
  "(\<And>a b. keeps_to d (f a b)) \<Longrightarrow> keeps_to d (case q of (a, b) \<Rightarrow> f a b)"
  "(\<And>a b. keeps_to d (f' a b c)) \<Longrightarrow> keeps_to d ((case q of (a, b) \<Rightarrow> f' a b) c)"
  "(\<And>a b. keeps_db d (g a b)) \<Longrightarrow> keeps_db d (case q of (a, b) \<Rightarrow> g a b)"
  "(\<And>a b. keeps_db d (g' a b c)) \<Longrightarrow> keeps_db d ((case q of (a, b) \<Rightarrow> g' a b) c)"
  by (cases q; simp)+

lemma for_each_keeps [quiet]:
  assumes "undisturbed d c" and "\<And>x c. undisturbed d c \<Longrightarrow> keeps_db d (f x c)"
  shows "keeps_db d (for_each f xs c)"
  using assms(1) by (induction xs arbitrary: c) (auto intro!: quiet assms(2))

text \<open>Loops over a state that contains the database as the component \<open>p\<close>.\<close>

lemma loop_keeps:
  assumes "for_each f xs s = Inr t" and "undisturbed d (p s)"
    and "\<And>x s t. undisturbed d (p s) \<Longrightarrow> f x s = Inr t \<Longrightarrow> undisturbed d (p t)"
  shows "undisturbed d (p t)"
  using assms(1,2) by (rule for_each_invariant) (rule assms(3))

lemma fold_keeps [quiet]:
  assumes "undisturbed d c" and "\<And>x c. undisturbed d c \<Longrightarrow> undisturbed d (f x c)"
  shows "undisturbed d (fold f xs c)"
  using assms(1) by (induction xs arbitrary: c) (auto intro!: assms(2))

section \<open>Operations\<close>

subsection \<open>Database\<close>

lemma database_quiet_1 [quiet]:
  "undisturbed d c \<Longrightarrow> undisturbed d (snd (timezone_now c))"
    "undisturbed d c \<Longrightarrow> undisturbed d (snd (take_pk c))"
  unfolding timezone_now_def take_pk_def Let_def
  by (intro quiet | assumption | (simp; fail) | rule keeps_read | rule keeps_pair)+

lemma delete_pks_quiet [quiet]: "undisturbed d c \<Longrightarrow> undisturbed d (delete_pks m P c)"
  by (cases m) (simp_all add: delete_pks_def undisturbed_def)

lemma database_quiet_2 [quiet]:
  "undisturbed d c \<Longrightarrow> keeps_db d (insert_ready a0 c)"
    "undisturbed d c \<Longrightarrow> keeps_db d (insert_scheduled b0 c)"
    "undisturbed d c \<Longrightarrow> keeps_db d (insert_claimed e0 c)"
    "undisturbed d c \<Longrightarrow> keeps_db d (insert_blocked f0 c)"
    "undisturbed d c \<Longrightarrow> keeps_db d (insert_failed g0 c)"
    "undisturbed d c \<Longrightarrow> keeps_db d (create_ready h0 c)"
    "undisturbed d c \<Longrightarrow> keeps_db d (create_scheduled i0 c)"
    "undisturbed d c \<Longrightarrow> keeps_db d (create_claimed j0 c)"
    "undisturbed d c \<Longrightarrow> keeps_db d (create_blocked k0 c)"
    "undisturbed d c \<Longrightarrow> keeps_db d (create_failed l0 c)"
    "undisturbed d c \<Longrightarrow> keeps_to d (create_job m0 c)"
    "undisturbed d c \<Longrightarrow> undisturbed d (update_job n0 n1 c)"
  unfolding insert_ready_def insert_scheduled_def insert_claimed_def insert_blocked_def
    insert_failed_def create_ready_def create_scheduled_def create_claimed_def
    create_blocked_def create_failed_def create_job_def update_job_def Let_def
  by (intro quiet | assumption | (simp; fail) | rule keeps_read | rule keeps_pair)+

lemma delete_jobs_quiet [quiet]:
  assumes "undisturbed d c"
  shows "undisturbed d (snd (delete_jobs I c))"
  by (rule undisturbed_trans [OF assms]) (auto simp: delete_jobs_def undisturbed_def)

lemma database_quiet_3 [quiet]:
  "undisturbed d c \<Longrightarrow> undisturbed d (delete_process a0 c)"
    "undisturbed d c \<Longrightarrow> undisturbed d (notify_ready_queues_on_commit b0 b1 b2 c)"
  unfolding delete_process_def notify_ready_queues_on_commit_def Let_def
  by (intro quiet | assumption | (simp; fail) | rule keeps_read | rule keeps_pair)+


subsection \<open>Helpers\<close>

lemma helpers_quiet_1 [quiet]:
  "undisturbed d c \<Longrightarrow> keeps_db d (create_ready_execution a0 a1 a2 a3 a4 a5 a6 c)"
    "undisturbed d c \<Longrightarrow> keeps_db d (create_scheduled_execution b0 b1 b2 b3 c)"
    "undisturbed d c \<Longrightarrow> keeps_db d (create_blocked_execution e0 e1 e2 e3 e4 e5 e6 c)"
    "undisturbed d c \<Longrightarrow> keeps_db d (bulk_create_ready_executions f0 f1 c)"
    "undisturbed d c \<Longrightarrow> undisturbed d (snd (consume_ready_rows g0 g1 c))"
  unfolding create_ready_execution_def create_scheduled_execution_def create_blocked_execution_def bulk_create_ready_executions_def
    consume_ready_rows_def Let_def
  by (intro quiet | assumption | (simp; fail) | rule keeps_read | rule keeps_pair)+

lemma consume_one_by_one_quiet [quiet]: "undisturbed d c \<Longrightarrow> undisturbed d (snd (consume_one_by_one m pk rs c))"
proof (induction rs arbitrary: c)
  case (Cons r rs)
  then have "undisturbed d (snd (consume_one_by_one m pk rs (delete_pks m {pk r} c)))" by (intro Cons.IH quiet)
  then show ?case by (cases "consume_one_by_one m pk rs (delete_pks m {pk r} c)") (simp add: Let_def)
qed simp

lemma helpers_quiet_2 [quiet]:
  "undisturbed d c \<Longrightarrow> undisturbed d (snd (consume_selected_rows a0 a1 a2 a3 c))"
    "undisturbed d c \<Longrightarrow> keeps_to d (create_ready_execution_after_blocked_consume b0 b1 b2 b3 b4 c)"
    "undisturbed d c \<Longrightarrow> undisturbed d (snd (finish_rows e0 e1 e2 e3 c))"
    "undisturbed d c \<Longrightarrow> keeps_db d (finish_job_if_no_execution_state f0 f1 f2 f3 c)"
  unfolding consume_selected_rows_def create_ready_execution_after_blocked_consume_def finish_rows_def finish_job_if_no_execution_state_def Let_def
  by (intro quiet | assumption | (simp; fail) | rule keeps_read | rule keeps_pair)+


subsection \<open>Semaphores\<close>

lemma semaphores_quiet_1 [quiet]:
  "undisturbed d c \<Longrightarrow> undisturbed d (snd (update_semaphores a0 a1 a2 c))"
    "undisturbed d c \<Longrightarrow> undisturbed d (insert_semaphore b0 c)"
    "undisturbed d c \<Longrightarrow> undisturbed d (snd (postgres_semaphore_acquire e0 e1 e2 e3 c))"
    "undisturbed d c \<Longrightarrow> undisturbed d (snd (mysql_semaphore_acquire f0 f1 f2 f3 c))"
    "undisturbed d c \<Longrightarrow> undisturbed d (snd (create_semaphore_ignore_conflicts g0 g1 g2 g3 g4 c))"
    "undisturbed d c \<Longrightarrow> undisturbed d (snd (sqlite_semaphore_acquire h0 h1 h2 h3 c))"
  unfolding update_semaphores_def insert_semaphore_def postgres_semaphore_acquire_def mysql_semaphore_acquire_def
    create_semaphore_ignore_conflicts_def sqlite_semaphore_acquire_def Let_def
  by (intro quiet | assumption | (simp; fail) | rule keeps_read | rule keeps_pair)+

lemma semaphore_acquire_quiet [quiet]: "undisturbed d c \<Longrightarrow> undisturbed d (snd (semaphore_acquire ss k l dur c))"
  unfolding semaphore_acquire_def Let_def by (cases "family ss") (simp_all add: quiet)

lemma semaphores_quiet_2 [quiet]:
  "undisturbed d c \<Longrightarrow> undisturbed d (save_semaphore a0 a1 c)"
    "undisturbed d c \<Longrightarrow> undisturbed d (snd (semaphore_acquire_many b0 b1 b2 b3 c))"
    "undisturbed d c \<Longrightarrow> undisturbed d (snd (semaphore_release e0 e1 e2 e3 c))"
    "undisturbed d c \<Longrightarrow> undisturbed d (snd (consume_released_semaphore_slot f0 f1 f2 f3 f4 c))"
    "undisturbed d c \<Longrightarrow> undisturbed d (snd (handoff_released_claimed_slot g0 g1 g2 g3 g4 c))"
  unfolding save_semaphore_def semaphore_acquire_many_def semaphore_release_def consume_released_semaphore_slot_def
    handoff_released_claimed_slot_def Let_def
  by (intro quiet | assumption | (simp; fail) | rule keeps_read | rule keeps_pair)+


subsection \<open>Concurrency\<close>

lemma concurrency_quiet_1 [quiet]:
  "undisturbed d c \<Longrightarrow> keeps_to d (consume_next_blocked_job_with_released_slot a0 a1 a2 a3 a4 a5 c)"
    "undisturbed d c \<Longrightarrow> keeps_to d (consume_next_blocked_job b0 b1 b2 c)"
    "undisturbed d c \<Longrightarrow> keeps_db d (restore_blocked_execution e0 e1 e2 c)"
    "undisturbed d c \<Longrightarrow> keeps_to d (consume_blocked_job_for_slot f0 f1 f2 f3 f4 f5 f6 c)"
    "undisturbed d c \<Longrightarrow> keeps_to d (unblock_next_blocked_job g0 g1 g2 g3 g4 g5 c)"
    "undisturbed d c \<Longrightarrow> keeps_db d (release_concurrency_slot h0 h1 h2 h3 c)"
    "undisturbed d c \<Longrightarrow> keeps_to d (release_recovered_concurrency_group i0 i1 i2 i3 i4 i5 c)"
  unfolding consume_next_blocked_job_with_released_slot_def consume_next_blocked_job_def restore_blocked_execution_def consume_blocked_job_for_slot_def
    unblock_next_blocked_job_def release_concurrency_slot_def release_recovered_concurrency_group_def Let_def
  by (intro quiet | assumption | (simp; fail) | rule keeps_read | rule keeps_pair)+

lemma release_recovered_concurrency_slots_quiet [quiet]:
  assumes "undisturbed d c"
  shows "keeps_to d (release_recovered_concurrency_slots ss cfg js c)"
proof -
  have group: "keeps_to d (release_recovered_concurrency_group ss cfg k n l dur e)" if "undisturbed d e" for k n l dur e
    using that by (rule quiet)
  have loop: "keeps_to d (for_each f gs s)" if "undisturbed d (snd s)"
    and "\<And>g s. undisturbed d (snd s) \<Longrightarrow> keeps_to d (f g s)" for f :: "'g \<Rightarrow> _" and gs and s :: "job list \<times> db"
  proof (unfold keeps_to_def, intro allI impI)
    fix x e assume "for_each f gs s = Inr (x, e)"
    from loop_keeps [where p = snd, OF this that(1)] that(2) show "undisturbed d e"
      by (metis keeps_to_def prod.collapse snd_conv)
  qed
  have one: "keeps_to d ((case g of (key, js) \<Rightarrow> \<lambda>(fallback, d).
        and_then (recovered_release_settings ss cfg js d) (\<lambda>settings. case settings of
            None \<Rightarrow> Inr (fallback @ js, d)
          | Some (limit, dur) \<Rightarrow> and_then (release_recovered_concurrency_group ss cfg key (length js) limit dur d)
              (\<lambda>(_, d). Inr (fallback, d)))) s)" if "undisturbed d (snd s)" for g s
    using that unfolding keeps_to_def
    by (cases g; cases s) (auto split: option.splits dest!: group [unfolded keeps_to_def, rule_format, rotated])
  show ?thesis
    unfolding release_recovered_concurrency_slots_def
    by (rule keeps_read, rule loop) (use assms one in auto)
qed

lemma concurrency_quiet_2 [quiet]:
  "undisturbed d c \<Longrightarrow> keeps_to d (cleanup_expired_semaphores a0 a1 a2 c)"
    "undisturbed d c \<Longrightarrow> keeps_to d (fail_blocked_policy b0 b1 b2 b3 c)"
    "undisturbed d c \<Longrightarrow> keeps_db d (promote_blocked_execution e0 e1 e2 c)"
    "undisturbed d c \<Longrightarrow> keeps_db d (renew_blocked_execution f0 f1 f2 c)"
  unfolding cleanup_expired_semaphores_def fail_blocked_policy_def promote_blocked_execution_def renew_blocked_execution_def Let_def
  by (intro quiet | assumption | (simp; fail) | rule keeps_read | rule keeps_pair)+

lemma promote_blocked_row_quiet:
  assumes "undisturbed d (pdb p)" and "promote_blocked_row ss cfg now con bj p = Inr p'"
  shows "undisturbed d (pdb p')"
proof -
  have keeps: "keeps_to d (fail_blocked_policy ss bj err con e)" "keeps_db d (renew_blocked_execution bj t con e)"
    "keeps_db d (promote_blocked_execution bj t con e)" if "undisturbed d e" for e err t
    using that by (rule quiet)+
  have acq: "undisturbed d e" if "semaphore_acquire ss k l dur (pdb p) = (a, e)" for k l dur a e
    using semaphore_acquire_quiet [OF assms(1), of ss k l dur] that by simp
  have keeps': "fail_blocked_policy ss bj err con e = Inr (b, f) \<Longrightarrow> undisturbed d e \<Longrightarrow> undisturbed d f"
    "renew_blocked_execution bj t con e = Inr f \<Longrightarrow> undisturbed d e \<Longrightarrow> undisturbed d f"
    "promote_blocked_execution bj t con e = Inr f \<Longrightarrow> undisturbed d e \<Longrightarrow> undisturbed d f" for e f err b t
    using keeps unfolding keeps_to_def keeps_db_def by blast+
  from assms show ?thesis
    by (auto simp: promote_blocked_row_def split: sum.splits error.splits prod.splits if_splits
        dest!: acq dest: keeps')
qed

lemma promote_expired_blocked_jobs_quiet [quiet]:
  assumes "undisturbed d c"
  shows "keeps_to d (promote_expired_blocked_jobs ss cfg n c)"
proof -
  have loop: "keeps_to d (and_then (for_each (promote_blocked_row ss cfg now con) rows p) f)"
    if "undisturbed d (pdb p)" and "\<And>p. undisturbed d (pdb p) \<Longrightarrow> keeps_to d (f p)" for now con rows p and f :: "_ \<Rightarrow> error + job list \<times> db"
    using that unfolding keeps_to_def and_then_Inr_iff
    by (blast intro: loop_keeps [where p = pdb] promote_blocked_row_quiet)
  show ?thesis unfolding promote_expired_blocked_jobs_def Let_def
    by (intro quiet loop assms | assumption | (simp; fail) | rule keeps_read)+
qed


subsection \<open>Dispatch\<close>

lemma dispatch_quiet_1 [quiet]:
  "undisturbed d c \<Longrightarrow> keeps_to d (discard_saved a0 a1 c)"
  unfolding discard_saved_def Let_def
  by (intro quiet | assumption | (simp; fail) | rule keeps_read | rule keeps_pair)+

lemma dispatch_job_quiet [quiet]:
  assumes "undisturbed d c"
  shows "keeps_to d (dispatch_job ss cfg j now check t c)"
proof -
  have dec: "undisturbed d (snd (case dec of Decided out \<Rightarrow> (out, e)
      | NeedsSlot key limit dur oc \<Rightarrow> case semaphore_acquire ss key limit dur e of (a, f) \<Rightarrow> (g oc a, f)))"
    if "undisturbed d e" for dec e g
    using that by (cases dec) (auto intro!: quiet)
  show ?thesis unfolding dispatch_job_def Let_def
    by (intro quiet dec assms | rule keeps_read | assumption | (split dispatch_outcome.split, intro conjI impI)
        | (split dispatch_decision.split, intro conjI impI allI))+
qed


subsection \<open>Enqueue\<close>

lemma enqueue_quiet_1 [quiet]:
  "undisturbed d c \<Longrightarrow> keeps_to d (enqueue_transition a0 a1 a2 a3 c)"
    "undisturbed d c \<Longrightarrow> keeps_to d (enqueue_job_with_dispatch b0 b1 b2 b3 b4 b5 b6 c)"
    "undisturbed d c \<Longrightarrow> keeps_to d (enqueue_job e0 e1 e2 e3 e4 e5 c)"
    "undisturbed d c \<Longrightarrow> keeps_db d (create_jobs f0 c)"
    "undisturbed d c \<Longrightarrow> undisturbed d (bulk_update_results g0 c)"
    "undisturbed d c \<Longrightarrow> keeps_db d (insert_dispatch_rows h0 c)"
  unfolding enqueue_transition_def enqueue_job_with_dispatch_def enqueue_job_def create_jobs_def
    bulk_update_results_def insert_dispatch_rows_def Let_def
  by (intro quiet | assumption | (simp; fail) | rule keeps_read | rule keeps_pair)+

lemma build_dispatch_rows_quiet:
  assumes "undisturbed d c" and "build_dispatch_rows cfg es now c = Inr b"
  shows "undisturbed d (db_state b)"
proof -
  have entry: "undisturbed d (db_state b')" if "undisturbed d (db_state b)" "place_entry al now i out b = Inr b'" for al i out b b'
    using that by (auto simp: place_entry_def)
  have decided: "undisturbed d (db_state b')" if "undisturbed d (db_state b)" "place_decided al now i b = Inr b'" for al i b b'
    using that by (auto simp: place_decided_def intro: entry split: dispatch_decision.splits)
  have group: "undisturbed d (db_state b')" if "undisturbed d (db_state b)" "place_group al now g b = Inr b'" for al g b b'
  proof (cases g)
    case (Pair dec members)
    have acq: "undisturbed d e" if "semaphore_acquire_many k n l dur (db_state b) = (m, e)" for k n l dur m e
      using semaphores_quiet_2(2) [OF \<open>undisturbed d (db_state b)\<close>, of k n l dur] that by simp
    from that Pair show ?thesis
      by (auto simp: place_group_def split: prod.splits dispatch_decision.splits
          elim!: loop_keeps [where p = db_state] dest: acq entry)
  qed
  from assms(2) obtain b0 where
    dec: "for_each (place_decided (backend_alias cfg) now) [0..<length es]
      \<lparr>db_entries = es, db_rows = no_rows, db_state = c\<rparr> = Inr b0"
    and grp: "for_each (place_group (backend_alias cfg) now) (group_entries 0 es []) b0 = Inr b"
    by (auto simp: build_dispatch_rows_def)
  have "undisturbed d (db_state b0)"
    by (rule loop_keeps [where p = db_state, OF dec]) (use assms(1) decided in auto)
  then show ?thesis by (rule loop_keeps [where p = db_state, OF grp]) (rule group)
qed

lemma keeps_build [quiet]:
  "undisturbed d c \<Longrightarrow> (\<And>b. undisturbed d (db_state b) \<Longrightarrow> keeps_to d (f b))
    \<Longrightarrow> keeps_to d (and_then (build_dispatch_rows cfg es now c) f)"
  by (auto simp: keeps_to_def and_then_Inr_iff dest: build_dispatch_rows_quiet)

lemma enqueue_quiet_2 [quiet]:
  "undisturbed d c \<Longrightarrow> keeps_to d (enqueue_bulk_once a0 a1 a2 c)"
    "undisturbed d c \<Longrightarrow> keeps_to d (enqueue_jobs_bulk b0 b1 b2 b3 c)"
  unfolding enqueue_bulk_once_def enqueue_jobs_bulk_def Let_def
  by (intro quiet | assumption | (simp; fail) | rule keeps_read | rule keeps_pair)+


subsection \<open>Claiming\<close>

lemma claiming_quiet_1 [quiet]:
  "undisturbed d c \<Longrightarrow> keeps_to d (consume_ready_and_create_claimed_executions a0 a1 a2 c)"
    "undisturbed d c \<Longrightarrow> keeps_db d (create_claimed_executions b0 b1 b2 c)"
    "undisturbed d c \<Longrightarrow> keeps_to d (claim_ready_jobs_once e0 e1 e2 e3 e4 c)"
    "undisturbed d c \<Longrightarrow> keeps_to d (claim_ready_jobs f0 f1 f2 f3 f4 c)"
  unfolding consume_ready_and_create_claimed_executions_def create_claimed_executions_def claim_ready_jobs_once_def claim_ready_jobs_def Let_def
  by (intro quiet | assumption | (simp; fail) | rule keeps_read | rule keeps_pair)+


subsection \<open>Execution\<close>

lemma execution_quiet_1 [quiet]:
  "undisturbed d c \<Longrightarrow> keeps_db d (delete_claimed_execution a0 c)"
    "undisturbed d c \<Longrightarrow> undisturbed d (snd (delete_claimed_and_finish_job b0 b1 b2 c))"
    "undisturbed d c \<Longrightarrow> keeps_db d (delete_claimed_and_finish_job_if_no_execution_state e0 e1 e2 c)"
    "undisturbed d c \<Longrightarrow> keeps_to d (complete_transition f0 f1 f2 f3 f4 c)"
    "undisturbed d c \<Longrightarrow> keeps_to d (complete_claimed_job g0 g1 g2 g3 g4 c)"
    "undisturbed d c \<Longrightarrow> keeps_db d (fail_transition h0 h1 h2 h3 h4 c)"
    "undisturbed d c \<Longrightarrow> keeps_to d (fail_claimed_job i0 i1 i2 i3 i4 c)"
    "undisturbed d c \<Longrightarrow> keeps_to d (execute_claimed_job j0 j1 j2 j3 c)"
  unfolding delete_claimed_execution_def delete_claimed_and_finish_job_def delete_claimed_and_finish_job_if_no_execution_state_def complete_transition_def
    complete_claimed_job_def fail_transition_def fail_claimed_job_def execute_claimed_job_def Let_def
  by (intro quiet | assumption | (simp; fail) | rule keeps_read | rule keeps_pair)+


subsection \<open>Jobs\<close>


lemma jobs_quiet_1 [quiet]:
  "undisturbed d c \<Longrightarrow> keeps_to d (redispatch_jobs a0 a1 a2 a3 a4 c)"
    "undisturbed d c \<Longrightarrow> keeps_to d (consume_and_redispatch b0 b1 b2 b3 b4 b5 c)"
    "undisturbed d c \<Longrightarrow> keeps_to d (promote_scheduled_jobs e0 e1 e2 c)"
    "undisturbed d c \<Longrightarrow> keeps_to d (dispatch_scheduled_job_now f0 f1 f2 c)"
    "undisturbed d c \<Longrightarrow> keeps_to d (schedule_failed_job_retry g0 g1 g2 c)"
    "undisturbed d c \<Longrightarrow> keeps_to d (retry_failed_job h0 h1 h2 c)"
    "undisturbed d c \<Longrightarrow> keeps_to d (retry_failed_rows i0 i1 i2 c)"
    "undisturbed d c \<Longrightarrow> keeps_to d (retry_failed_jobs j0 j1 j2 j3 c)"
    "undisturbed d c \<Longrightarrow> keeps_to d (promote_failed_job_retries k0 k1 k2 c)"
    "undisturbed d c \<Longrightarrow> keeps_to d (enqueue_job_again l0 l1 l2 l3 l4 l5 c)"
    "undisturbed d c \<Longrightarrow> keeps_to d (discard_rows m0 m1 m2 m3 m4 m5 c)"
    "undisturbed d c \<Longrightarrow> keeps_to d (discard_failed_jobs n0 n1 n2 n3 c)"
    "undisturbed d c \<Longrightarrow> keeps_to d (discard_failed_job o0 o1 o2 c)"
    "undisturbed d c \<Longrightarrow> keeps_to d (discard_ready_query p0 p1 p2 p3 c)"
    "undisturbed d c \<Longrightarrow> keeps_to d (discard_ready_jobs q0 q1 q2 q3 c)"
    "undisturbed d c \<Longrightarrow> keeps_to d (discard_ready_jobs_for_queue r0 r1 r2 r3 c)"
    "undisturbed d c \<Longrightarrow> keeps_to d (discard_scheduled_jobs s0 s1 s2 s3 c)"
    "undisturbed d c \<Longrightarrow> keeps_to d (discard_blocked_jobs t0 t1 t2 t3 c)"
  unfolding redispatch_jobs_def consume_and_redispatch_def promote_scheduled_jobs_def dispatch_scheduled_job_now_def
    schedule_failed_job_retry_def retry_failed_job_def retry_failed_rows_def retry_failed_jobs_def
    promote_failed_job_retries_def enqueue_job_again_def discard_rows_def discard_failed_jobs_def
    discard_failed_job_def discard_ready_query_def discard_ready_jobs_def discard_ready_jobs_for_queue_def
    discard_scheduled_jobs_def discard_blocked_jobs_def Let_def
  by (intro quiet | assumption | (simp; fail) | rule keeps_read | rule keeps_pair)+


subsection \<open>Recovery\<close>

lemma recovery_quiet_1 [quiet]:
  "undisturbed d c \<Longrightarrow> keeps_to d (fail_claimed_jobs a0 a1 a2 a3 c)"
    "undisturbed d c \<Longrightarrow> keeps_to d (fail_orphaned_claimed_jobs b0 b1 b2 b3 c)"
    "undisturbed d c \<Longrightarrow> keeps_to d (fail_claimed_jobs_for_process e0 e1 e2 e3 e4 c)"
    "undisturbed d c \<Longrightarrow> keeps_to d (fail_claimed_jobs_for_pid f0 f1 f2 f3 c)"
    "undisturbed d c \<Longrightarrow> keeps_to d (fail_claimed_jobs_for_child g0 g1 g2 g3 g4 g5 c)"
  unfolding fail_claimed_jobs_def fail_orphaned_claimed_jobs_def fail_claimed_jobs_for_process_def fail_claimed_jobs_for_pid_def
    fail_claimed_jobs_for_child_def Let_def
  by (intro quiet | assumption | (simp; fail) | rule keeps_read | rule keeps_pair)+

lemma prune_loop_quiet [quiet]:
  "undisturbed d c \<Longrightarrow> keeps_to d (prune_loop ss cfg cutoff err ps n pruned c)"
  by (induction ps arbitrary: n pruned c) (auto simp: Let_def intro!: quiet)

lemma recovery_quiet_2 [quiet]:
  "undisturbed d c \<Longrightarrow> keeps_to d (prune_stale_processes a0 a1 a2 a3 a4 a5 c)"
  unfolding prune_stale_processes_def Let_def
  by (intro quiet | assumption | (simp; fail) | rule keeps_read | rule keeps_pair)+


subsection \<open>Cleanup\<close>

lemma cleanup_quiet_1 [quiet]:
  "undisturbed d c \<Longrightarrow> keeps_to d (delete_jobs_without_execution_state a0 a1 c)"
    "undisturbed d c \<Longrightarrow> undisturbed d (snd (now_or b0 c))"
    "undisturbed d c \<Longrightarrow> keeps_to d (clear_finished_jobs e0 e1 e2 e3 e4 e5 c)"
    "undisturbed d c \<Longrightarrow> keeps_to d (clear_failed_jobs f0 f1 f2 f3 f4 f5 c)"
    "undisturbed d c \<Longrightarrow> keeps_to d (clear_recurring_executions g0 g1 g2 g3 g4 g5 c)"
    "undisturbed d c \<Longrightarrow> undisturbed d (pause_queue h0 h1 c)"
    "undisturbed d c \<Longrightarrow> undisturbed d (snd (resume_queue i0 i1 i2 c))"
  unfolding delete_jobs_without_execution_state_def now_or_def clear_finished_jobs_def clear_failed_jobs_def
    clear_recurring_executions_def pause_queue_def resume_queue_def Let_def
  by (intro quiet | assumption | (simp; fail) | rule keeps_read | rule keeps_pair)+


subsection \<open>Processes\<close>

lemma processes_quiet [quiet]:
  "undisturbed d c \<Longrightarrow> keeps_to d (register_process a0 a1 a2 a3 a4 a5 a6 c)"
    "undisturbed d c \<Longrightarrow> undisturbed d (snd (update_process b0 b1 c))"
    "undisturbed d c \<Longrightarrow> undisturbed d (snd (touch_process_row e0 c))"
    "undisturbed d c \<Longrightarrow> undisturbed d (deregister_process f0 c)"
    "undisturbed d c \<Longrightarrow> undisturbed d (snd (set_process_metadata g0 g1 c))"
  unfolding register_process_def update_process_def touch_process_row_def deregister_process_def set_process_metadata_def Let_def
  by (intro quiet | assumption | (simp; fail) | rule keeps_read | rule keeps_pair)+

end
