(* ===== verification/Recurring.thy ===== *)
theory Recurring
  imports Interference
begin

text \<open>
  Recurring tasks, \<^verbatim>\<open>operations/recurring.py\<close>: static definitions from the settings, dynamic
  definitions, and the firing of due runs.  A run is fired in two transactions: the first reserves it,
  by inserting the execution row that is unique for backend, key and run time together with the
  identifier the job will get, and moves \<open>next_run_at\<close> on; the second enqueues the job under that
  identifier and attaches it.  When the second transaction is lost, a later pass finds the reservation
  and publishes the same job.

  The cron functions the component calls (\<^verbatim>\<open>cron.py\<close>) are the record \<open>cron\<close>; the locale
  \<open>cron_runs\<close> states what the component relies on, and is interpreted on the model of
  \<^verbatim>\<open>cron.py\<close>.
\<close>

section \<open>Cron functions and definitions\<close>

record cron =
  is_valid_cron :: "string \<Rightarrow> bool"
  latest_cron_run :: "string \<Rightarrow> time \<Rightarrow> error + time"
  next_cron_run :: "string \<Rightarrow> time \<Rightarrow> error + time"

text \<open>\<open>RecurringTaskConfig\<close> of \<^verbatim>\<open>config.py\<close>.\<close>

record recurring_config =
  rc_key :: string
  rc_task_path :: string
  rc_schedule :: string
  rc_args :: "pyval list"
  rc_kwargs :: "(pyval \<times> pyval) list"
  rc_queue_name :: string
  rc_priority :: int
  rc_description :: string

text \<open>The columns a definition sets.\<close>

record task_definition =
  td_task_path :: string
  td_payload :: pyval
  td_schedule :: string
  td_queue_name :: string
  td_priority :: int
  td_description :: string
  td_static :: bool

section \<open>Validation\<close>

definition recurring_string :: "option_value \<Rightarrow> string \<Rightarrow> error + string" where
  "recurring_string value name = (case value of
      OStr s \<Rightarrow> (if s = [] then Inl (EnqueueError (name @ '' must be a non-empty string'')) else Inr s)
    | _ \<Rightarrow> Inl (EnqueueError (name @ '' must be a non-empty string'')))"

definition recurring_optional_string :: "option_value \<Rightarrow> string \<Rightarrow> error + string" where
  "recurring_optional_string value name = (case value of
      OStr s \<Rightarrow> Inr s | _ \<Rightarrow> Inl (EnqueueError (name @ '' must be a string'')))"

definition validate_recurring_task_definition ::
  "cron \<Rightarrow> session \<Rightarrow> backend_config \<Rightarrow> option_value \<Rightarrow> option_value \<Rightarrow> option_value \<Rightarrow> option_value option
     \<Rightarrow> error + task" where
  "validate_recurring_task_definition cr ss cfg path queue_name priority schedule =
     and_then (recurring_string path ''task_path'') (\<lambda>path.
     and_then (recurring_string queue_name ''queue_name'') (\<lambda>queue_name.
     and_then (case schedule of
         None \<Rightarrow> Inr ()
       | Some s \<Rightarrow> and_then (recurring_string s ''schedule'') (\<lambda>s.
           guard_that (is_valid_cron cr s) (EnqueueError ''schedule must be a valid cron expression''))) (\<lambda>_.
     and_then (case import_task ss path of
         Inl (ImportError _) \<Rightarrow> Inl (EnqueueError (''task_path must be importable: '' @ path))
       | r \<Rightarrow> r) (\<lambda>t.
     and_then (guard_that (has_using t) (EnqueueError ''task_path must reference a Django task'')) (\<lambda>_.
     and_then (validate_queue_allowed cfg queue_name) (\<lambda>_.
     and_then (validate_priority priority) (\<lambda>_. Inr t)))))))"

section \<open>Python equality\<close>

text \<open>\<open>==\<close> on the values a payload can hold: numbers compare by value across \<open>bool\<close>, \<open>int\<close>
  and \<open>float\<close>, dictionaries without regard to order, a list never equals a tuple.\<close>

fun py_number :: "pyval \<Rightarrow> (int \<times> int) option" where
  "py_number (PBool b) = Some (if b then 1 else 0, 0)"
| "py_number (PInt i) = Some (i, 0)"
| "py_number (PIntSub i) = Some (i, 0)"
| "py_number (PFloat (Finite m e)) = Some (m, e)"
| "py_number (PFloatSub (Finite m e)) = Some (m, e)"
| "py_number _ = None"

fun py_infinite :: "pyval \<Rightarrow> bool option" where
  "py_infinite (PFloat PosInf) = Some True"
| "py_infinite (PFloatSub PosInf) = Some True"
| "py_infinite (PFloat NegInf) = Some False"
| "py_infinite (PFloatSub NegInf) = Some False"
| "py_infinite _ = None"

definition same_number :: "int \<times> int \<Rightarrow> int \<times> int \<Rightarrow> bool" where
  "same_number a b \<longleftrightarrow> (let e = min (snd a) (snd b) in
     fst a * 2 ^ nat (snd a - e) = fst b * 2 ^ nat (snd b - e))"

definition py_equal_atoms :: "pyval \<Rightarrow> pyval \<Rightarrow> bool" where
  "py_equal_atoms a b =
     (case (py_number a, py_number b) of
        (Some m, Some n) \<Rightarrow> same_number m n
      | (None, None) \<Rightarrow>
          (case (py_infinite a, py_infinite b) of
             (Some s, Some t) \<Rightarrow> s = t
           | (None, None) \<Rightarrow>
               (case (a, b) of
                  (PNone, PNone) \<Rightarrow> True
                | (PStr s, PStr t) \<Rightarrow> s = t
                | (PObject m, PObject n) \<Rightarrow> m = n
                | _ \<Rightarrow> False)
           | _ \<Rightarrow> False)
      | _ \<Rightarrow> False)"

function (sequential) py_equal :: "pyval \<Rightarrow> pyval \<Rightarrow> bool"
  and py_equal_items :: "pyval list \<Rightarrow> pyval list \<Rightarrow> bool"
  and py_equal_dict :: "(pyval \<times> pyval) list \<Rightarrow> (pyval \<times> pyval) list \<Rightarrow> bool"
  and py_has_item :: "pyval \<Rightarrow> pyval \<Rightarrow> (pyval \<times> pyval) list \<Rightarrow> bool"
where
  "py_equal (PList as) (PList bs) = py_equal_items as bs"
| "py_equal (PTuple as) (PTuple bs) = py_equal_items as bs"
| "py_equal (PDict as) (PDict bs) = (length as = length bs \<and> py_equal_dict as bs)"
| "py_equal a b = py_equal_atoms a b"
| "py_equal_items [] [] = True"
| "py_equal_items (a # as) (b # bs) = (py_equal a b \<and> py_equal_items as bs)"
| "py_equal_items _ _ = False"
| "py_equal_dict [] bs = True"
| "py_equal_dict ((k, v) # as) bs = (py_has_item k v bs \<and> py_equal_dict as bs)"
| "py_has_item k v [] = False"
| "py_has_item k v ((k', v') # bs) = (py_equal k k' \<and> py_equal v v' \<or> py_has_item k v bs)"
  by pat_completeness auto
termination
  by (relation "measure (\<lambda>x. case x of
       Inl (Inl (a, b)) \<Rightarrow> size a + size b
     | Inl (Inr (as, bs)) \<Rightarrow> size_list size as + size_list size bs
     | Inr (Inl (as, bs)) \<Rightarrow> size_list (size_prod size size) as + size_list (size_prod size size) bs
     | Inr (Inr (k, v, bs)) \<Rightarrow> size k + size v + size_list (size_prod size size) bs)") auto

section \<open>Definitions\<close>

text \<open>What a \<open>JSONField\<close> stores for a value: \<open>json.dumps\<close> refuses other objects, and the
  database refuses the non-finite numbers it lets through.\<close>

definition column_json :: "(pyfloat \<Rightarrow> string) \<Rightarrow> pyval \<Rightarrow> error + json" where
  "column_json fr v = (case json_round_trip fr v of Inl (ValueError _) \<Rightarrow> Inl IntegrityError | r \<Rightarrow> r)"

text \<open>The loop over the desired columns: the ones that differ are set, and a new schedule clears
  \<open>next_run_at\<close>.\<close>

definition apply_definition ::
  "(pyfloat \<Rightarrow> string) \<Rightarrow> task_definition \<Rightarrow> recurring_task \<Rightarrow> error + recurring_task" where
  "apply_definition fr td r =
     and_then (if py_equal (py_of_json (rt_payload r)) (td_payload td) then Inr (rt_payload r)
         else column_json fr (td_payload td)) (\<lambda>pl.
       Inr (r\<lparr>rt_task_path := td_task_path td, rt_payload := pl, rt_schedule := td_schedule td,
         rt_queue_name := td_queue_name td, rt_priority := td_priority td,
         rt_description := td_description td, rt_static := td_static td,
         rt_next_run_at := (if rt_schedule r = td_schedule td then rt_next_run_at r else None)\<rparr>))"

definition new_recurring_task ::
  "(pyfloat \<Rightarrow> string) \<Rightarrow> string \<Rightarrow> string \<Rightarrow> task_definition \<Rightarrow> error + recurring_task" where
  "new_recurring_task fr al key td =
     and_then (column_json fr (td_payload td)) (\<lambda>pl.
       Inr \<lparr>rt_id = 0, rt_backend_alias = al, rt_key = key, rt_task_path = td_task_path td, rt_payload = pl,
            rt_schedule = td_schedule td, rt_queue_name = td_queue_name td, rt_priority = td_priority td,
            rt_description = td_description td, rt_static = td_static td, rt_next_run_at = None\<rparr>)"

definition insert_recurring_task :: "recurring_task \<Rightarrow> db \<Rightarrow> db" where
  "insert_recurring_task r d = d\<lparr>recurring_tasks := recurring_tasks d @ [r\<lparr>rt_id := next_pk d\<rparr>],
     next_pk := Suc (next_pk d)\<rparr>"

definition find_recurring_task :: "string \<Rightarrow> string \<Rightarrow> db \<Rightarrow> recurring_task option" where
  "find_recurring_task al key d =
     find (\<lambda>r. rt_backend_alias r = al \<and> rt_key r = key) (recurring_tasks d)"

definition save_recurring_task :: "recurring_task \<Rightarrow> db \<Rightarrow> db" where
  "save_recurring_task r d = d\<lparr>recurring_tasks := map (\<lambda>x. if rt_id x = rt_id r then r else x) (recurring_tasks d)\<rparr>"

text \<open>\<open>bulk_create(ignore_conflicts=True)\<close>: rows whose backend and key are taken are left out.\<close>

fun bulk_create_recurring_tasks :: "recurring_task list \<Rightarrow> db \<Rightarrow> db" where
  "bulk_create_recurring_tasks [] d = d"
| "bulk_create_recurring_tasks (r # rs) d = bulk_create_recurring_tasks rs
     (if find_recurring_task (rt_backend_alias r) (rt_key r) d = None then insert_recurring_task r d else d)"

definition static_definition :: "recurring_config \<Rightarrow> task_definition" where
  "static_definition rc = \<lparr>td_task_path = rc_task_path rc,
     td_payload = PDict [(PStr ''args'', PList (rc_args rc)),
       (PStr ''kwargs'', PDict (rc_kwargs rc))],
     td_schedule = rc_schedule rc, td_queue_name = rc_queue_name rc, td_priority = rc_priority rc,
     td_description = rc_description rc, td_static = True\<rparr>"

definition dynamic_conflict :: "string \<Rightarrow> error" where
  "dynamic_conflict key = EnqueueError (''recurring task key '' @ py_repr key @ '' is already scheduled dynamically'')"

text \<open>The first loop: the rows to create, refusing keys in use by dynamic tasks.\<close>

fun static_to_create ::
  "(string \<Rightarrow> recurring_task option) \<Rightarrow> (string \<times> task_definition) list \<Rightarrow> error + (string \<times> task_definition) list" where
  "static_to_create existing [] = Inr []"
| "static_to_create existing ((key, td) # desired) =
     (case existing key of
        None \<Rightarrow> and_then (static_to_create existing desired) (\<lambda>ks. Inr ((key, td) # ks))
      | Some r \<Rightarrow> if \<not> rt_static r then Inl (dynamic_conflict key) else static_to_create existing desired)"

fun new_recurring_tasks ::
  "(pyfloat \<Rightarrow> string) \<Rightarrow> string \<Rightarrow> (string \<times> task_definition) list \<Rightarrow> error + recurring_task list" where
  "new_recurring_tasks fr al [] = Inr []"
| "new_recurring_tasks fr al ((key, td) # ks) = and_then (new_recurring_task fr al key td) (\<lambda>r.
     and_then (new_recurring_tasks fr al ks) (\<lambda>rs. Inr (r # rs)))"

text \<open>The second loop: the rows as they are now, brought to the desired columns.\<close>

fun update_static_rows ::
  "(pyfloat \<Rightarrow> string) \<Rightarrow> (string \<Rightarrow> recurring_task option) \<Rightarrow> (string \<times> task_definition) list \<Rightarrow> db \<Rightarrow> error + db" where
  "update_static_rows fr existing [] d = Inr d"
| "update_static_rows fr existing ((key, td) # desired) d =
     (case existing key of
        None \<Rightarrow> Inl (LookupError key)
      | Some r \<Rightarrow> if \<not> rt_static r then Inl (dynamic_conflict key)
          else and_then (apply_definition fr td r) (\<lambda>r'.
            update_static_rows fr existing desired (if r' = r then d else save_recurring_task r' d)))"

text \<open>The dictionary of the locked rows by key.\<close>

definition existing_by_key :: "string \<Rightarrow> (recurring_task \<Rightarrow> bool) \<Rightarrow> db \<Rightarrow> string \<Rightarrow> recurring_task option" where
  "existing_by_key al keep d key =
     find (\<lambda>r. rt_backend_alias r = al \<and> rt_key r = key \<and> keep r) (recurring_tasks d)"

text \<open>After the inserts the configured keys are read again.\<close>

definition current_by_key :: "string \<Rightarrow> string list \<Rightarrow> db \<Rightarrow> db \<Rightarrow> string \<Rightarrow> recurring_task option" where
  "current_by_key al keys before now key =
     (case existing_by_key al (\<lambda>r. rt_key r \<in> set keys) now key of
        Some r \<Rightarrow> Some r
      | None \<Rightarrow> existing_by_key al (\<lambda>r. rt_static r \<or> rt_key r \<in> set keys) before key)"

definition apply_static_recurring_tasks ::
  "session \<Rightarrow> string \<Rightarrow> string list \<Rightarrow> string list \<Rightarrow> (string \<times> task_definition) list \<Rightarrow> db \<Rightarrow> error + db" where
  "apply_static_recurring_tasks ss al configured_keys wanted_keys desired d =
     and_then (static_to_create (existing_by_key al (\<lambda>r. rt_static r \<or> rt_key r \<in> set configured_keys) d) desired) (\<lambda>missing.
     and_then (new_recurring_tasks (float_repr ss) al missing) (\<lambda>rows.
       let now = bulk_create_recurring_tasks rows d
       in and_then (update_static_rows (float_repr ss) (current_by_key al configured_keys d now) desired now) (\<lambda>d.
            Inr (d\<lparr>recurring_tasks := filter (\<lambda>r. \<not> (rt_backend_alias r = al \<and> rt_static r
               \<and> rt_key r \<notin> set wanted_keys)) (recurring_tasks d)\<rparr>))))"

fun validate_static :: "cron \<Rightarrow> session \<Rightarrow> backend_config \<Rightarrow> recurring_config list \<Rightarrow> error + unit" where
  "validate_static cr ss cfg [] = Inr ()"
| "validate_static cr ss cfg (rc # rcs) =
     and_then (validate_recurring_task_definition cr ss cfg (OStr (rc_task_path rc)) (OStr (rc_queue_name rc))
         (OInt (rc_priority rc)) (Some (OStr (rc_schedule rc))))
       (\<lambda>_. validate_static cr ss cfg rcs)"

text \<open>\<open>desired_by_key\<close> is a dictionary: a repeated key keeps its first place and its last
  definition.\<close>

definition desired_by_key :: "recurring_config list \<Rightarrow> (string \<times> task_definition) list" where
  "desired_by_key rcs = map (\<lambda>k. (k, the (map_of (rev (map (\<lambda>rc. (rc_key rc, static_definition rc)) rcs)) k)))
     (dict_fromkeys (map rc_key rcs))"

definition upsert_static_recurring_tasks ::
  "cron \<Rightarrow> session \<Rightarrow> backend_config \<Rightarrow> (string \<times> recurring_config) list \<Rightarrow> db \<Rightarrow> error + db" where
  "upsert_static_recurring_tasks cr ss cfg recurring d =
     and_then (validate_static cr ss cfg (map snd recurring)) (\<lambda>_.
       apply_static_recurring_tasks ss (backend_alias cfg) (map fst recurring) (map (rc_key \<circ> snd) recurring)
         (desired_by_key (map snd recurring)) d)"

definition schedule_recurring_task ::
  "cron \<Rightarrow> session \<Rightarrow> backend_config \<Rightarrow> (string \<times> recurring_config) list \<Rightarrow> option_value \<Rightarrow> option_value
     \<Rightarrow> option_value \<Rightarrow> pyval list \<Rightarrow> (pyval \<times> pyval) list \<Rightarrow> option_value \<Rightarrow> option_value \<Rightarrow> option_value
     \<Rightarrow> db \<Rightarrow> error + recurring_task \<times> db" where
  "schedule_recurring_task cr ss cfg recurring key path schedule args kwargs queue_name priority description d =
     and_then (recurring_string key ''key'') (\<lambda>key.
     and_then (recurring_optional_string description ''description'') (\<lambda>description.
     and_then (validate_recurring_task_definition cr ss cfg path queue_name priority (Some schedule)) (\<lambda>_.
     and_then (normalize_payload (float_repr ss) args kwargs) (\<lambda>pl.
     and_then (guard_that (key \<notin> set (map fst recurring))
        (EnqueueError (''recurring task key '' @ py_repr key @ '' is already managed statically''))) (\<lambda>_.
       case (path, schedule, queue_name, priority) of
         (OStr path, OStr schedule, OStr queue_name, OInt priority) \<Rightarrow>
           let td = \<lparr>td_task_path = path, td_payload = py_of_json pl, td_schedule = schedule,
                 td_queue_name = queue_name, td_priority = priority, td_description = description,
                 td_static = False\<rparr>
           in (case find_recurring_task (backend_alias cfg) key d of
                 None \<Rightarrow> and_then (new_recurring_task (float_repr ss) (backend_alias cfg) key td) (\<lambda>r.
                   Inr (r\<lparr>rt_id := next_pk d\<rparr>, insert_recurring_task r d))
               | Some r \<Rightarrow>
                   if rt_static r
                   then Inl (EnqueueError (''recurring task key '' @ py_repr key @ '' is already managed statically''))
                   else and_then (apply_definition (float_repr ss) td r) (\<lambda>r'.
                     Inr (r', if r' = r then d else save_recurring_task r' d)))
       | _ \<Rightarrow> Inl (TypeError []))))))"

definition unschedule_recurring_task :: "backend_config \<Rightarrow> string \<Rightarrow> db \<Rightarrow> nat \<times> db" where
  "unschedule_recurring_task cfg key d =
     (let doomed = (\<lambda>r. rt_backend_alias r = backend_alias cfg \<and> rt_key r = key \<and> \<not> rt_static r)
      in (count_if doomed (recurring_tasks d),
          d\<lparr>recurring_tasks := filter (\<lambda>r. \<not> doomed r) (recurring_tasks d)\<rparr>))"

section \<open>Reserving a run\<close>

record reservation =
  rs_execution_id :: nat
  rs_intended_job_id :: "uuid option"
  rs_recurring_task_id :: nat
  rs_task_key :: string
  rs_run_at :: time
  rs_next_run_at :: time
  rs_task_path :: string
  rs_payload :: json
  rs_queue_name :: string
  rs_priority :: int
  rs_backend_alias :: string

text \<open>\<open>recurring_task.payload or {}\<close>.\<close>

fun json_truthy :: "json \<Rightarrow> bool" where
  "json_truthy JNull = False"
| "json_truthy (JBool b) = b"
| "json_truthy (JStr s) = (s \<noteq> [])"
| "json_truthy (JInt i) = (i \<noteq> 0)"
| "json_truthy (JFloat m e) = (m \<noteq> 0)"
| "json_truthy (JList xs) = (xs \<noteq> [])"
| "json_truthy (JObject ps) = (ps \<noteq> [])"

definition recurring_reservation :: "recurring_execution \<Rightarrow> recurring_task \<Rightarrow> time \<Rightarrow> reservation" where
  "recurring_reservation x r next_run_at = \<lparr>rs_execution_id = rx_id x, rs_intended_job_id = rx_intended_job_id x,
     rs_recurring_task_id = rt_id r, rs_task_key = rt_key r, rs_run_at = rx_run_at x, rs_next_run_at = next_run_at,
     rs_task_path = rt_task_path r,
     rs_payload = (if json_truthy (rt_payload r) then rt_payload r else JObject []),
     rs_queue_name = rt_queue_name r, rs_priority = rt_priority r, rs_backend_alias = rt_backend_alias r\<rparr>"

definition next_run_after :: "cron \<Rightarrow> string \<Rightarrow> time \<Rightarrow> error + time" where
  "next_run_after cr schedule run_at = next_cron_run cr schedule run_at"

definition find_execution :: "string \<Rightarrow> string \<Rightarrow> time \<Rightarrow> db \<Rightarrow> recurring_execution option" where
  "find_execution al key run_at d =
     find (\<lambda>x. rx_backend_alias x = al \<and> rx_task_key x = key \<and> rx_run_at x = run_at) (recurring_executions d)"

text \<open>\<open>create_ignore_conflicts\<close>: the unique constraint on backend, key and run time decides.\<close>

definition create_execution_ignore_conflicts :: "string \<Rightarrow> string \<Rightarrow> time \<Rightarrow> uuid \<Rightarrow> db \<Rightarrow> bool \<times> db" where
  "create_execution_ignore_conflicts al key run_at intended d =
     (let (t, d) = timezone_now d in
      if find_execution al key run_at d = None
      then (True, d\<lparr>recurring_executions := recurring_executions d @
             [\<lparr>rx_id = next_pk d, rx_backend_alias = al, rx_intended_job_id = Some intended, rx_job = None,
               rx_task_key = key, rx_run_at = run_at, rx_created_at = t\<rparr>],
             next_pk := Suc (next_pk d)\<rparr>)
      else (False, d))"

definition advance_next_run_at :: "recurring_task \<Rightarrow> time \<Rightarrow> db \<Rightarrow> db" where
  "advance_next_run_at r next_run_at d = d\<lparr>recurring_tasks := map (\<lambda>x.
     if rt_id x = rt_id r \<and> rt_backend_alias x = rt_backend_alias r
       \<and> (case rt_next_run_at x of None \<Rightarrow> True | Some t \<Rightarrow> t < next_run_at)
     then x\<lparr>rt_next_run_at := Some next_run_at\<rparr> else x) (recurring_tasks d)\<rparr>"

definition reserve_recurring_task ::
  "cron \<Rightarrow> session \<Rightarrow> backend_config \<Rightarrow> nat \<Rightarrow> time \<Rightarrow> uuid \<Rightarrow> db \<Rightarrow> error + reservation option \<times> db" where
  "reserve_recurring_task cr ss cfg pk run_at new_id d =
     (case order_by rt_id (locked_queryset ss cfg TRecurringTask rt_id
          (filter (\<lambda>r. rt_id r = pk \<and> rt_backend_alias r = backend_alias cfg) (recurring_tasks d))) of
        [] \<Rightarrow> Inr (None, d)
      | r # _ \<Rightarrow>
          and_then (latest_cron_run cr (rt_schedule r) (run_at + 1)) (\<lambda>latest.
          if latest \<noteq> run_at then Inr (None, d)
          else and_then (next_run_after cr (rt_schedule r) run_at) (\<lambda>next_run_at.
            if (case rt_next_run_at r of None \<Rightarrow> False | Some t \<Rightarrow> run_at < t)
            then (case find_execution (backend_alias cfg) (rt_key r) run_at d of
                    None \<Rightarrow> Inr (None, d)
                  | Some x \<Rightarrow>
                      if rx_job x \<noteq> None \<or> rx_intended_job_id x = None then Inr (None, d)
                      else Inr (Some (recurring_reservation x r next_run_at), d))
            else
              let (created, d) = create_execution_ignore_conflicts (backend_alias cfg) (rt_key r) run_at new_id d
              in (case find_execution (backend_alias cfg) (rt_key r) run_at d of
                    None \<Rightarrow> Inl RecurringExecutionDoesNotExist
                  | Some x \<Rightarrow>
                      let d = advance_next_run_at r next_run_at d in
                      if \<not> created \<and> (rx_job x \<noteq> None \<or> rx_intended_job_id x = None) then Inr (None, d)
                      else Inr (Some (recurring_reservation x r next_run_at), d)))))"

section \<open>Publishing a reservation\<close>

type_synonym task_using = "task \<Rightarrow> string \<Rightarrow> int \<Rightarrow> string \<Rightarrow> error + task"

text \<open>The call of a reservation: the task with queue, priority and backend set by \<open>task.using\<close> of the
  tasks framework, which is a parameter, and the stored arguments.\<close>

definition reserved_call ::
  "session \<Rightarrow> backend_config \<Rightarrow> task_using \<Rightarrow> reservation \<Rightarrow> error + task \<times> pyval list \<times> (string \<times> pyval) list" where
  "reserved_call ss cfg using rs =
     and_then (import_task ss (rs_task_path rs)) (\<lambda>t.
     and_then (if has_using t then using t (rs_queue_name rs) (rs_priority rs) (backend_alias cfg)
        else Inl (AttributeError ''using'')) (\<lambda>t.
     case payload_args (rs_payload rs) of
       None \<Rightarrow> Inl (TypeError [])
     | Some (args, kwargs) \<Rightarrow> Inr (t, map py_of_json args, map (\<lambda>(k, v). (k, py_of_json v)) kwargs)))"

text \<open>The job of an earlier, lost publication has to be the one the reservation describes, and no other
  execution may own it.\<close>

definition validated_reserved_job :: "session \<Rightarrow> reservation \<Rightarrow> job \<Rightarrow> db \<Rightarrow> error + job" where
  "validated_reserved_job ss rs j d =
     (case payload_args (rs_payload rs) of
        None \<Rightarrow> Inl (AttributeError [])
      | Some (args, kwargs) \<Rightarrow>
          and_then (normalize_payload (float_repr ss) (map py_of_json args)
             (map (\<lambda>(k, v). (PStr k, py_of_json v)) kwargs)) (\<lambda>expected.
          if task_path j \<noteq> rs_task_path rs \<or> job_queue_name j \<noteq> rs_queue_name rs \<or> job_priority j \<noteq> rs_priority rs
             \<or> \<not> py_equal (py_of_json (payload j)) (py_of_json expected) \<or> job_backend_alias j \<noteq> rs_backend_alias rs
             \<or> list_ex (\<lambda>x. rx_job x = Some (job_id j) \<and> rx_id x \<noteq> rs_execution_id rs) (recurring_executions d)
          then Inl (EnqueueError ''intended recurring job metadata does not match reservation'')
          else Inr j))"

text \<open>\<open>job_id or uuid4()\<close>: \<open>other_id\<close> is what \<open>uuid4()\<close> draws when the reservation has no
  identifier.\<close>

definition enqueue_reserved_recurring_task ::
  "session \<Rightarrow> backend_config \<Rightarrow> task_using \<Rightarrow> reservation \<Rightarrow> uuid \<Rightarrow> db \<Rightarrow> error + job \<times> db" where
  "enqueue_reserved_recurring_task ss cfg using rs other_id d =
     (let existing = (case rs_intended_job_id rs of None \<Rightarrow> None | Some i \<Rightarrow> find_job d i) in
      case existing of
        Some j \<Rightarrow> and_then (validated_reserved_job ss rs j d) (\<lambda>j. Inr (j, d))
      | None \<Rightarrow>
          and_then (reserved_call ss cfg using rs) (\<lambda>(t, args, kwargs).
            case enqueue_job ss cfg t args kwargs (case rs_intended_job_id rs of None \<Rightarrow> other_id | Some i \<Rightarrow> i) d of
              Inl IntegrityError \<Rightarrow>
                (case existing of
                   None \<Rightarrow> Inl IntegrityError
                 | Some j \<Rightarrow> and_then (validated_reserved_job ss rs j d) (\<lambda>j. Inr (j, d)))
            | r \<Rightarrow> r))"

text \<open>The update sets the job where the reservation is still open; the one-to-one field refuses a job
  another execution has.\<close>

definition attach_reserved_recurring_job ::
  "backend_config \<Rightarrow> reservation \<Rightarrow> job \<Rightarrow> db \<Rightarrow> error + recurring_execution option \<times> db" where
  "attach_reserved_recurring_job cfg rs j d =
     (let hit = (\<lambda>x. rx_id x = rs_execution_id rs \<and> rx_backend_alias x = backend_alias cfg
            \<and> rx_job x = None \<and> rx_intended_job_id x = Some (job_id j));
          updated = count_if hit (recurring_executions d);
          executions = map (\<lambda>x. if hit x then x\<lparr>rx_job := Some (job_id j)\<rparr> else x) (recurring_executions d)
      in if updated > 0 \<and> list_ex (\<lambda>x. rx_job x = Some (job_id j)) (recurring_executions d)
         then Inl IntegrityError
         else
           case find (\<lambda>x. rx_id x = rs_execution_id rs) executions of
             None \<Rightarrow> Inl RecurringExecutionDoesNotExist
           | Some x \<Rightarrow>
               if updated = 1 then Inr (Some x, d\<lparr>recurring_executions := executions\<rparr>)
               else if rx_job x = Some (job_id j) \<and> rx_intended_job_id x = Some (job_id j)
                 then Inr (None, d)
               else Inl (EnqueueError ''recurring execution reservation could not be assigned a job''))"

definition publish_reserved_recurring_task ::
  "session \<Rightarrow> backend_config \<Rightarrow> task_using \<Rightarrow> reservation \<Rightarrow> uuid \<Rightarrow> db \<Rightarrow> error + recurring_execution option \<times> db" where
  "publish_reserved_recurring_task ss cfg using rs other_id d =
     (case order_by rx_id (locked_queryset ss cfg TRecurringExecution rx_id
          (filter (\<lambda>x. rx_id x = rs_execution_id rs \<and> rx_backend_alias x = backend_alias cfg)
            (recurring_executions d))) of
        [] \<Rightarrow> Inr (None, d)
      | x # _ \<Rightarrow>
          if rx_job x \<noteq> None then Inr (None, d)
          else and_then (enqueue_reserved_recurring_task ss cfg using rs other_id d) (\<lambda>(j, d).
            attach_reserved_recurring_job cfg rs j d))"

section \<open>Firing due runs\<close>

text \<open>Two transactions: what the first has committed stays when the second raises.\<close>

definition fire_recurring_task ::
  "cron \<Rightarrow> session \<Rightarrow> backend_config \<Rightarrow> task_using \<Rightarrow> nat \<Rightarrow> time \<Rightarrow> uuid \<times> uuid \<Rightarrow> db
     \<Rightarrow> (error + recurring_execution option) \<times> db" where
  "fire_recurring_task cr ss cfg using pk run_at ids d =
     (case reserve_recurring_task cr ss cfg pk run_at (fst ids) d of
        Inl e \<Rightarrow> (Inl e, d)
      | Inr (None, d) \<Rightarrow> (Inr None, d)
      | Inr (Some rs, d) \<Rightarrow>
          (case publish_reserved_recurring_task ss cfg using rs (snd ids) d of
             Inl e \<Rightarrow> (Inl e, d)
           | Inr (x, d) \<Rightarrow> (Inr x, d)))"

definition unbackfilled :: "string \<Rightarrow> recurring_execution \<Rightarrow> bool" where
  "unbackfilled al x \<longleftrightarrow> rx_backend_alias x = al \<and> rx_job x = None \<and> rx_intended_job_id x \<noteq> None"

text \<open>\<open>order_by("next_run_at", "key")\<close>: nulls come last on PostgreSQL and first elsewhere.\<close>

definition due_order :: "backend_family \<Rightarrow> recurring_task \<Rightarrow> nat \<times> time \<times> string" where
  "due_order fam r = (case rt_next_run_at r of
      None \<Rightarrow> (if fam = Postgresql then 2 else 0, 0, rt_key r)
    | Some t \<Rightarrow> (1, t, rt_key r))"

definition due_tasks :: "session \<Rightarrow> backend_config \<Rightarrow> time \<Rightarrow> bool \<Rightarrow> int option \<Rightarrow> db \<Rightarrow> recurring_task list" where
  "due_tasks ss cfg now include_dynamic batch_size d =
     (let rows = order_by (due_order (family ss)) (filter (\<lambda>r. rt_backend_alias r = backend_alias cfg
          \<and> (include_dynamic \<or> rt_static r)
          \<and> ((case rt_next_run_at r of None \<Rightarrow> True | Some t \<Rightarrow> t \<le> now)
             \<or> list_ex (\<lambda>x. unbackfilled (backend_alias cfg) x \<and> rx_task_key x = rt_key r) (recurring_executions d)))
          (recurring_tasks d))
      in case batch_size of None \<Rightarrow> rows | Some n \<Rightarrow> first_n n rows)"

definition pending_executions :: "backend_config \<Rightarrow> recurring_task list \<Rightarrow> int option \<Rightarrow> db \<Rightarrow> recurring_execution list" where
  "pending_executions cfg tasks remaining d =
     (let rows = order_by (\<lambda>x. (rx_run_at x, rx_id x)) (filter (\<lambda>x. unbackfilled (backend_alias cfg) x
          \<and> rx_task_key x \<in> rt_key ` set tasks) (recurring_executions d))
      in case remaining of None \<Rightarrow> rows | Some n \<Rightarrow> first_n n rows)"

text \<open>\<open>if execution is not None and execution.job_id is not None: fired_jobs.append(execution.job)\<close>.\<close>

definition fired_job :: "recurring_execution option \<Rightarrow> db \<Rightarrow> job list" where
  "fired_job x d = (case x of None \<Rightarrow> [] | Some x \<Rightarrow> (case rx_job x of None \<Rightarrow> []
     | Some i \<Rightarrow> (case find_job d i of None \<Rightarrow> [] | Some j \<Rightarrow> [j])))"

definition count_down :: "int option \<Rightarrow> int option" where
  "count_down remaining = map_option (\<lambda>n. n - 1) remaining"

text \<open>What a pass over the tasks accumulates; \<open>fs_done\<close> records that the batch is used up.\<close>

record firing =
  fs_fired :: "job list"
  fs_remaining :: "int option"
  fs_ids :: "uuid stream"
  fs_done :: bool

definition fire_once ::
  "cron \<Rightarrow> session \<Rightarrow> backend_config \<Rightarrow> task_using \<Rightarrow> recurring_task \<Rightarrow> time \<Rightarrow> firing \<times> db \<Rightarrow> (error + firing) \<times> db" where
  "fire_once cr ss cfg using r run_at s =
     (case s of (f, d) \<Rightarrow>
       (case fire_recurring_task cr ss cfg using (rt_id r) run_at (shd (fs_ids f), shd (stl (fs_ids f))) d of
          (Inl e, d) \<Rightarrow> (Inl e, d)
        | (Inr x, d) \<Rightarrow>
            let remaining = count_down (fs_remaining f)
            in (Inr \<lparr>fs_fired = fs_fired f @ fired_job x d, fs_remaining = remaining,
                  fs_ids = stl (stl (fs_ids f)), fs_done = (remaining = Some 0)\<rparr>, d)))"

fun fire_pending ::
  "cron \<Rightarrow> session \<Rightarrow> backend_config \<Rightarrow> task_using \<Rightarrow> recurring_task \<Rightarrow> recurring_execution list \<Rightarrow> firing \<times> db
     \<Rightarrow> (error + firing) \<times> db" where
  "fire_pending cr ss cfg using r [] s = (Inr (fst s), snd s)"
| "fire_pending cr ss cfg using r (x # xs) s =
     (case fire_once cr ss cfg using r (rx_run_at x) s of
        (Inl e, d) \<Rightarrow> (Inl e, d)
      | (Inr f, d) \<Rightarrow> if fs_done f then (Inr f, d) else fire_pending cr ss cfg using r xs (f, d))"

definition fire_task ::
  "cron \<Rightarrow> session \<Rightarrow> backend_config \<Rightarrow> task_using \<Rightarrow> time \<Rightarrow> recurring_execution list \<Rightarrow> recurring_task \<Rightarrow> firing \<times> db
     \<Rightarrow> (error + firing) \<times> db" where
  "fire_task cr ss cfg using now pending r s =
     (case fire_pending cr ss cfg using r (filter (\<lambda>x. rx_task_key x = rt_key r) pending) s of
        (Inl e, d) \<Rightarrow> (Inl e, d)
      | (Inr f, d) \<Rightarrow>
          if fs_done f then (Inr f, d)
          else if (case rt_next_run_at r of None \<Rightarrow> False | Some t \<Rightarrow> now < t) then (Inr f, d)
          else (case latest_cron_run cr (rt_schedule r) now of
                  Inl e \<Rightarrow> (Inl e, d)
                | Inr run_at \<Rightarrow> fire_once cr ss cfg using r run_at (f, d)))"

fun fire_tasks ::
  "cron \<Rightarrow> session \<Rightarrow> backend_config \<Rightarrow> task_using \<Rightarrow> time \<Rightarrow> recurring_execution list \<Rightarrow> recurring_task list
     \<Rightarrow> firing \<times> db \<Rightarrow> (error + firing) \<times> db" where
  "fire_tasks cr ss cfg using now pending [] s = (Inr (fst s), snd s)"
| "fire_tasks cr ss cfg using now pending (r # rs) s =
     (case fire_task cr ss cfg using now pending r s of
        (Inl e, d) \<Rightarrow> (Inl e, d)
      | (Inr f, d) \<Rightarrow> if fs_done f then (Inr f, d) else fire_tasks cr ss cfg using now pending rs (f, d))"

definition fire_due_recurring_tasks ::
  "cron \<Rightarrow> session \<Rightarrow> backend_config \<Rightarrow> task_using \<Rightarrow> time \<Rightarrow> bool \<Rightarrow> int option \<Rightarrow> uuid stream \<Rightarrow> db
     \<Rightarrow> (error + job list) \<times> db" where
  "fire_due_recurring_tasks cr ss cfg using now include_dynamic batch_size ids d =
     (let tasks = due_tasks ss cfg now include_dynamic batch_size d in
      if tasks = [] then (Inr [], d)
      else
        (case fire_tasks cr ss cfg using now (pending_executions cfg tasks batch_size d) tasks
            (\<lparr>fs_fired = [], fs_remaining = batch_size, fs_ids = ids, fs_done = False\<rparr>, d) of
           (Inl e, d) \<Rightarrow> (Inl e, d)
         | (Inr f, d) \<Rightarrow> (Inr (fs_fired f), d)))"

section \<open>Invariant\<close>

text \<open>Task definitions are unique by key, executions by key and run time; a job belongs to at most one
  execution, and it is the job the execution was reserved for.\<close>

definition recurring_ok :: "db \<Rightarrow> bool" where
  "recurring_ok d \<longleftrightarrow>
     distinct (map rt_id (recurring_tasks d))
   \<and> distinct (map (\<lambda>r. (rt_backend_alias r, rt_key r)) (recurring_tasks d))
   \<and> (\<forall>r\<in>set (recurring_tasks d). rt_id r < next_pk d)
   \<and> distinct (map rx_id (recurring_executions d))
   \<and> distinct (map (\<lambda>x. (rx_backend_alias x, rx_task_key x, rx_run_at x)) (recurring_executions d))
   \<and> (\<forall>x\<in>set (recurring_executions d). rx_id x < next_pk d)
   \<and> distinct (List.map_filter rx_job (recurring_executions d))
   \<and> (\<forall>x\<in>set (recurring_executions d). rx_job x = None \<or> rx_job x = rx_intended_job_id x)"

lemma map_filter_cong_filter: "List.map_filter f (filter P xs) = List.map_filter (\<lambda>x. if P x then f x else None) xs"
  by (induction xs) (simp_all add: map_filter_def)

lemma set_map_filter: "set (List.map_filter f xs) = {y. \<exists>x\<in>set xs. f x = Some y}"
  by (auto simp: map_filter_def intro!: rev_image_eqI)

lemma distinct_map_filter_filter: "distinct (List.map_filter f xs) \<Longrightarrow> distinct (List.map_filter f (filter P xs))"
  by (induction xs) (auto simp: map_filter_simps set_map_filter split: option.splits)

lemma recurring_ok_fewer:
  assumes "recurring_ok d" and "recurring_tasks e = filter P (recurring_tasks d)"
    and "recurring_executions e = filter Q (recurring_executions d)" and "next_pk d \<le> next_pk e"
  shows "recurring_ok e"
  using assms by (auto simp: recurring_ok_def distinct_map_filter distinct_map_filter_filter)

lemma recurring_ok_undisturbed: "undisturbed d e \<Longrightarrow> recurring_ok d \<Longrightarrow> recurring_ok e"
  by (auto simp: undisturbed_def intro: recurring_ok_fewer [where P = "\<lambda>x. True"])

lemma recurring_ok_clock [simp]: "recurring_ok (d\<lparr>clock := c\<rparr>) = recurring_ok d"
  by (simp add: recurring_ok_def)

lemma find_execution_None:
  "find_execution al key t d = None \<longleftrightarrow>
     (al, key, t) \<notin> (\<lambda>x. (rx_backend_alias x, rx_task_key x, rx_run_at x)) ` set (recurring_executions d)"
  by (auto simp: find_execution_def find_None_iff)

lemma find_execution_Some:
  assumes "find_execution al key t d = Some x"
  shows "x \<in> set (recurring_executions d)" and "rx_backend_alias x = al" and "rx_task_key x = key" and "rx_run_at x = t"
  using assms by (auto simp: find_execution_def find_Some_iff)

lemma create_execution_ok:
  assumes "recurring_ok d" and "create_execution_ignore_conflicts al key t i d = (b, e)"
  shows "recurring_ok e"
proof (cases "find_execution al key t d = None")
  case True
  then have "e = d\<lparr>clock := stl (clock d), next_pk := Suc (next_pk d), recurring_executions := recurring_executions d @
      [\<lparr>rx_id = next_pk d, rx_backend_alias = al, rx_intended_job_id = Some i, rx_job = None, rx_task_key = key,
        rx_run_at = t, rx_created_at = shd (clock d)\<rparr>]\<rparr>"
    using assms(2) by (auto simp: create_execution_ignore_conflicts_def timezone_now_def find_execution_def)
  with assms(1) True show ?thesis
    unfolding recurring_ok_def find_execution_None by (auto simp: map_filter_def less_SucI)
next
  case False
  with assms show ?thesis
    by (auto simp: create_execution_ignore_conflicts_def timezone_now_def find_execution_def)
qed

lemma rewrite_tasks_ok:
  assumes "recurring_ok d" and "\<And>r. rt_id (f r) = rt_id r" and "\<And>r. rt_backend_alias (f r) = rt_backend_alias r"
    and "\<And>r. rt_key (f r) = rt_key r"
  shows "recurring_ok (d\<lparr>recurring_tasks := map f (recurring_tasks d)\<rparr>)"
  using assms by (simp add: recurring_ok_def comp_def)

definition open_execution :: "recurring_execution \<Rightarrow> bool" where
  "open_execution x \<longleftrightarrow> rx_job x = None \<and> rx_intended_job_id x \<noteq> None"

text \<open>The three ways a reservation can end: nothing to do, an open execution of the run found again, or
  the run recorded now.\<close>

lemma reserve_cases:
  assumes "reserve_recurring_task cr ss cfg pk t i d = Inr (rs, e)"
  obtains (skip) "rs = None" "e = d"
  | (again) r x n where "r \<in> set (recurring_tasks d)" "rt_id r = pk" "rt_backend_alias r = backend_alias cfg"
      "latest_cron_run cr (rt_schedule r) (t + 1) = Inr t" "next_cron_run cr (rt_schedule r) t = Inr n"
      "find_execution (backend_alias cfg) (rt_key r) t d = Some x" "open_execution x" "e = d"
      "rs = Some (recurring_reservation x r n)" "\<exists>u. rt_next_run_at r = Some u \<and> t < u"
  | (recorded) r x n created c where "r \<in> set (recurring_tasks d)" "rt_id r = pk" "rt_backend_alias r = backend_alias cfg"
      "latest_cron_run cr (rt_schedule r) (t + 1) = Inr t" "next_cron_run cr (rt_schedule r) t = Inr n"
      "case rt_next_run_at r of None \<Rightarrow> True | Some u \<Rightarrow> u \<le> t"
      "create_execution_ignore_conflicts (backend_alias cfg) (rt_key r) t i d = (created, c)"
      "find_execution (backend_alias cfg) (rt_key r) t c = Some x" "e = advance_next_run_at r n c"
      "rs = (if created \<or> open_execution x then Some (recurring_reservation x r n) else None)"
proof (cases "order_by rt_id (locked_queryset ss cfg TRecurringTask rt_id
    (filter (\<lambda>r. rt_id r = pk \<and> rt_backend_alias r = backend_alias cfg) (recurring_tasks d)))")
  case Nil
  with assms skip show thesis by (simp add: reserve_recurring_task_def)
next
  case (Cons r rest)
  then have "r \<in> set (locked_queryset ss cfg TRecurringTask rt_id
    (filter (\<lambda>r. rt_id r = pk \<and> rt_backend_alias r = backend_alias cfg) (recurring_tasks d)))"
    by (metis list.set_intros(1) set_sort)
  then have r: "r \<in> set (recurring_tasks d)" "rt_id r = pk" "rt_backend_alias r = backend_alias cfg"
    using set_locked_queryset by fastforce+
  note step = assms [unfolded reserve_recurring_task_def Cons list.case]
  show thesis
  proof (cases "latest_cron_run cr (rt_schedule r) (t + 1) = Inr t")
    case False
    with step skip show thesis by (auto split: if_splits)
  next
    case True
    then obtain n where n: "next_cron_run cr (rt_schedule r) t = Inr n"
      using step by (auto simp: next_run_after_def)
    show thesis
    proof (cases "case rt_next_run_at r of None \<Rightarrow> True | Some u \<Rightarrow> u \<le> t")
      case True
      obtain created c where c: "create_execution_ignore_conflicts (backend_alias cfg) (rt_key r) t i d = (created, c)"
        by force
      have nlt: "\<not> (case rt_next_run_at r of None \<Rightarrow> False | Some u \<Rightarrow> t < u)" using True by (auto split: option.splits)
      note step' = step [unfolded \<open>latest_cron_run _ _ _ = _\<close> next_run_after_def n and_then_simps c Let_def prod.case
          if_not_P [OF nlt], simplified]
      then obtain x where x: "find_execution (backend_alias cfg) (rt_key r) t c = Some x" by (auto split: option.splits)
      show thesis
        by (rule recorded [OF r \<open>latest_cron_run _ _ _ = _\<close> n True c x])
          (use step' x in \<open>auto simp: open_execution_def split: if_splits\<close>)
    next
      case False
      with step n True skip show thesis
        by (auto simp: next_run_after_def open_execution_def split: option.splits if_splits
            intro: again [OF r True n])
    qed
  qed
qed

lemma advance_ok: "recurring_ok d \<Longrightarrow> recurring_ok (advance_next_run_at r n d)"
  unfolding advance_next_run_at_def by (rule rewrite_tasks_ok) simp_all

lemma reserve_ok:
  assumes "recurring_ok d" and "reserve_recurring_task cr ss cfg pk t i d = Inr (rs, e)"
  shows "recurring_ok e"
  using assms(2) by (rule reserve_cases) (simp_all add: assms(1) advance_ok create_execution_ok [OF assms(1)])

text \<open>Attaching a job to one open execution.\<close>

lemma attach_distinct:
  assumes "distinct (map rx_id xs)" and "\<And>x. hit x \<Longrightarrow> rx_id x = p \<and> rx_job x = None"
    and "distinct (List.map_filter rx_job xs)" and "\<forall>x\<in>set xs. rx_job x \<noteq> Some i"
  shows "distinct (List.map_filter rx_job (map (\<lambda>x. if hit x then x\<lparr>rx_job := Some i\<rparr> else x) xs))"
  using assms(1,3,4)
proof (induction xs)
  case (Cons x xs)
  let ?f = "\<lambda>x. if hit x then x\<lparr>rx_job := Some i\<rparr> else x"
  have IH: "distinct (List.map_filter rx_job (map ?f xs))"
    using Cons by (auto simp: map_filter_simps split: option.splits)
  show ?case
  proof (cases "hit x")
    case True
    then have "\<forall>y\<in>set xs. \<not> hit y" using assms(2) Cons.prems(1) by fastforce
    then have "map ?f xs = xs" by (simp add: map_idI)
    with True Cons.prems(3) IH show ?thesis by (auto simp: map_filter_simps set_map_filter)
  next
    case False
    moreover have "rx_job x \<noteq> Some i" using Cons.prems(3) by simp
    moreover have "j \<in> set (List.map_filter rx_job (map ?f xs)) \<Longrightarrow> j = i \<or> j \<in> set (List.map_filter rx_job xs)" for j
      by (auto simp: set_map_filter split: if_splits)
    ultimately show ?thesis using IH Cons.prems(2) by (auto simp: map_filter_simps split: option.splits)
  qed
qed (simp add: map_filter_simps)

lemma attach_effect:
  assumes "attach_reserved_recurring_job cfg rs j d = Inr (x, e)"
  shows "e = d \<and> x = None \<or>
    (let hit = (\<lambda>x. rx_id x = rs_execution_id rs \<and> rx_backend_alias x = backend_alias cfg \<and> rx_job x = None
       \<and> rx_intended_job_id x = Some (job_id j)) in
     e = d\<lparr>recurring_executions := map (\<lambda>x. if hit x then x\<lparr>rx_job := Some (job_id j)\<rparr> else x) (recurring_executions d)\<rparr>
     \<and> count_if hit (recurring_executions d) = 1 \<and> (\<forall>x\<in>set (recurring_executions d). rx_job x \<noteq> Some (job_id j))
     \<and> x = find (\<lambda>x. rx_id x = rs_execution_id rs) (recurring_executions e))"
  using assms
  by (auto simp: attach_reserved_recurring_job_def Let_def list_ex_iff split: option.splits if_splits)

lemma attach_ok:
  assumes ok: "recurring_ok d" and step: "attach_reserved_recurring_job cfg rs j d = Inr (x, e)"
  shows "recurring_ok e"
  using attach_effect [OF step]
proof
  let ?hit = "\<lambda>x. rx_id x = rs_execution_id rs \<and> rx_backend_alias x = backend_alias cfg \<and> rx_job x = None
       \<and> rx_intended_job_id x = Some (job_id j)"
  assume "let hit = ?hit in
     e = d\<lparr>recurring_executions := map (\<lambda>x. if hit x then x\<lparr>rx_job := Some (job_id j)\<rparr> else x) (recurring_executions d)\<rparr>
     \<and> count_if hit (recurring_executions d) = 1 \<and> (\<forall>x\<in>set (recurring_executions d). rx_job x \<noteq> Some (job_id j))
     \<and> x = find (\<lambda>x. rx_id x = rs_execution_id rs) (recurring_executions e)"
  then have e: "e = d\<lparr>recurring_executions := map (\<lambda>x. if ?hit x then x\<lparr>rx_job := Some (job_id j)\<rparr> else x) (recurring_executions d)\<rparr>"
    and free: "\<forall>x\<in>set (recurring_executions d). rx_job x \<noteq> Some (job_id j)" by (simp_all add: Let_def)
  have cols: "map f (recurring_executions e) = map f (recurring_executions d)"
    if "\<And>x. f (x\<lparr>rx_job := Some (job_id j)\<rparr>) = f x" for f :: "recurring_execution \<Rightarrow> 'x"
    unfolding e using that by simp
  have "distinct (List.map_filter rx_job (recurring_executions e))"
    unfolding e using attach_distinct [of "recurring_executions d" ?hit "rs_execution_id rs" "job_id j"] ok free
    by (simp add: recurring_ok_def)
  with ok show ?thesis
    unfolding recurring_ok_def by (intro conjI) (simp add: cols; fail | auto simp: e; fail)+
qed (simp add: ok)

lemma validated_Inr: "validated_reserved_job ss rs j d = Inr j' \<Longrightarrow> j' = j"
  by (auto simp: validated_reserved_job_def split: option.splits if_splits)

lemma enqueue_reserved_quiet [quiet]:
  assumes "undisturbed d c"
  shows "keeps_to d (enqueue_reserved_recurring_task ss cfg us rs i c)"
proof -
  have "keeps_to d (enqueue_job ss cfg t args kwargs k c)" for t args kwargs k
    using assms by (rule quiet)
  then show ?thesis using assms
    by (auto simp: enqueue_reserved_recurring_task_def keeps_to_def Let_def split: option.splits sum.splits error.splits)
qed

lemma publish_ok:
  assumes "recurring_ok d" and "publish_reserved_recurring_task ss cfg us rs i d = Inr (x, e)"
  shows "recurring_ok e"
proof -
  have "recurring_ok c" if "enqueue_reserved_recurring_task ss cfg us rs i d = Inr (j, c)" for j c
    using enqueue_reserved_quiet [OF undisturbed_refl, of d ss cfg us rs i] that assms(1)
    by (auto simp: keeps_to_def intro: recurring_ok_undisturbed)
  with assms show ?thesis
    by (auto simp: publish_reserved_recurring_task_def split: list.splits if_splits dest: attach_ok)
qed

section \<open>Frame of the task table\<close>

text \<open>The operations on definitions and reservations write nothing but the recurring tables.\<close>

definition only_recurring :: "db \<Rightarrow> db \<Rightarrow> bool" where
  "only_recurring d e \<longleftrightarrow> next_pk d \<le> next_pk e \<and> jobs e = jobs d \<and> semaphores e = semaphores d
     \<and> ready_executions e = ready_executions d \<and> scheduled_executions e = scheduled_executions d
     \<and> claimed_executions e = claimed_executions d \<and> blocked_executions e = blocked_executions d
     \<and> failed_executions e = failed_executions d \<and> processes e = processes d \<and> pauses e = pauses d
     \<and> notified e = notified d"

lemma only_recurring_refl [simp]: "only_recurring d d"
  by (simp add: only_recurring_def)

lemma only_recurring_trans: "only_recurring c d \<Longrightarrow> only_recurring d e \<Longrightarrow> only_recurring c e"
  by (simp add: only_recurring_def)

lemma queue_inv_only_recurring:
  assumes "queue_inv L A M d" and "only_recurring d e"
  shows "queue_inv L A M e"
proof -
  have later: "queue_inv L A M (d\<lparr>next_pk := next_pk d + n\<rparr>)" for n
  proof (induction n)
    case (Suc n)
    from queue_inv_later_pk [OF Suc] show ?case by simp
  qed (simp add: assms(1))
  from assms(2) obtain n where "next_pk e = next_pk d + n"
    unfolding only_recurring_def by (auto simp: le_iff_add)
  moreover have "state_keys m (d\<lparr>next_pk := next_pk d + n\<rparr>) = state_keys m e" for m
    using assms(2) by (cases m) (simp_all add: only_recurring_def state_keys.simps)
  ultimately show ?thesis
    using later [of n] queue_inv_cong [of "d\<lparr>next_pk := next_pk d + n\<rparr>" e] assms(2) by (simp add: only_recurring_def)
qed

text \<open>The operations on definitions do not even write the executions.\<close>

definition only_definitions :: "db \<Rightarrow> db \<Rightarrow> bool" where
  "only_definitions d e \<longleftrightarrow> only_recurring d e \<and> recurring_executions e = recurring_executions d"

lemma only_definitions_trans: "only_definitions c d \<Longrightarrow> only_definitions d e \<Longrightarrow> only_definitions c e"
  by (auto simp: only_definitions_def intro: only_recurring_trans)

lemma definitions_writes [simp]:
  "only_definitions d d" "only_definitions d (insert_recurring_task r d)" "only_definitions d (save_recurring_task r d)"
  "only_definitions d (advance_next_run_at r n d)" "only_definitions d (d\<lparr>recurring_tasks := rs\<rparr>)"
  by (simp_all add: only_definitions_def only_recurring_def insert_recurring_task_def save_recurring_task_def
      advance_next_run_at_def)

lemma create_execution_only_recurring:
  "create_execution_ignore_conflicts al key t i d = (b, e) \<Longrightarrow> only_recurring d e"
  by (auto simp: create_execution_ignore_conflicts_def timezone_now_def only_recurring_def split: if_splits)

lemma bulk_create_only_definitions [simp]: "only_definitions d (bulk_create_recurring_tasks rs d)"
  by (induction rs d rule: bulk_create_recurring_tasks.induct)
    (auto intro: only_definitions_trans [OF definitions_writes(2)])

lemma update_static_only_definitions: "update_static_rows fr ex desired d = Inr e \<Longrightarrow> only_definitions d e"
proof (induction desired arbitrary: d)
  case (Cons k desired)
  obtain key td where k: "k = (key, td)" by force
  from Cons.prems obtain r r' where
    "update_static_rows fr ex desired (if r' = r then d else save_recurring_task r' d) = Inr e"
    by (auto simp: k split: option.splits if_splits)
  from Cons.IH [OF this] show ?case
    by (cases "r' = r") (auto intro: only_definitions_trans [OF definitions_writes(3)])
qed simp

lemma reserve_only_recurring:
  assumes "reserve_recurring_task cr ss cfg pk t i d = Inr (rs, e)"
  shows "only_recurring d e"
  using assms
proof (rule reserve_cases)
  fix r x n created c
  assume "create_execution_ignore_conflicts (backend_alias cfg) (rt_key r) t i d = (created, c)"
    "e = advance_next_run_at r n c"
  with definitions_writes(4) [of c r n] show ?thesis
    by (auto simp: only_definitions_def dest: create_execution_only_recurring intro: only_recurring_trans)
qed simp_all

lemma upsert_only_definitions:
  assumes "upsert_static_recurring_tasks cr ss cfg recurring d = Inr e"
  shows "only_definitions d e"
  using assms
  by (auto simp: upsert_static_recurring_tasks_def apply_static_recurring_tasks_def Let_def
      intro!: only_definitions_trans [OF _ definitions_writes(5)]
      intro: only_definitions_trans [OF bulk_create_only_definitions] dest!: update_static_only_definitions)

lemma schedule_only_definitions:
  assumes "schedule_recurring_task cr ss cfg recurring key path schedule args kwargs q p desc d = Inr (r, e)"
  shows "only_definitions d e"
  using assms
  by (auto simp: schedule_recurring_task_def Let_def split: option_value.splits option.splits if_splits)

lemma unschedule_only_definitions: "only_definitions d (snd (unschedule_recurring_task cfg key d))"
  by (simp add: unschedule_recurring_task_def Let_def)

section \<open>Publishing keeps the queue in order\<close>

lemma publish_inv:
  assumes inv: "queue_inv L A M d" and step: "publish_reserved_recurring_task ss cfg us rs i d = Inr (x, e)"
    and law: "case reserved_call ss cfg us rs of Inr (t, args, kwargs) \<Rightarrow> call_limit_ok L cfg t args kwargs | _ \<Rightarrow> True"
  shows "queue_inv L A M e"
proof -
  have enq: "queue_inv L A M c" if "enqueue_job ss cfg t args kwargs k d = Inr (j, c)"
    "reserved_call ss cfg us rs = Inr (t, args, kwargs)" for t args kwargs k j c
    using that law inv enqueue_job_with_dispatch_inv by (fastforce simp: enqueue_job_def)
  have "queue_inv L A M c" if "enqueue_reserved_recurring_task ss cfg us rs i d = Inr (j, c)" for j c
    using that inv enq
    by (auto simp: enqueue_reserved_recurring_task_def Let_def split: option.splits sum.splits error.splits)
  moreover have "queue_inv L A M e'" if "attach_reserved_recurring_job cfg rs j c = Inr (y, e')" "queue_inv L A M c" for j c y e'
    using attach_effect [OF that(1)] that(2) by (auto simp: Let_def)
  ultimately show ?thesis using step inv
    by (auto simp: publish_reserved_recurring_task_def split: list.splits if_splits)
qed

section \<open>Definitions keep the invariant\<close>

definition task_ident :: "recurring_task \<Rightarrow> nat \<times> string \<times> string" where
  "task_ident r = (rt_id r, rt_backend_alias r, rt_key r)"

lemma find_recurring_task_None:
  "find_recurring_task al key d = None \<longleftrightarrow> (\<forall>r\<in>set (recurring_tasks d). \<not> (rt_backend_alias r = al \<and> rt_key r = key))"
  by (auto simp: find_recurring_task_def find_None_iff)

lemma insert_task_ok:
  assumes "recurring_ok d" and "find_recurring_task (rt_backend_alias r) (rt_key r) d = None"
  shows "recurring_ok (insert_recurring_task r d)"
  using assms by (auto simp: recurring_ok_def insert_recurring_task_def find_recurring_task_None less_SucI)

lemma bulk_create_ok: "recurring_ok d \<Longrightarrow> recurring_ok (bulk_create_recurring_tasks rs d)"
  by (induction rs d rule: bulk_create_recurring_tasks.induct) (simp add: insert_task_ok)+

lemma bulk_create_grows: "set (recurring_tasks d) \<subseteq> set (recurring_tasks (bulk_create_recurring_tasks rs d))"
proof (induction rs d rule: bulk_create_recurring_tasks.induct)
  case (2 r rs d)
  have "set (recurring_tasks d) \<subseteq> set (recurring_tasks (if find_recurring_task (rt_backend_alias r) (rt_key r) d = None
      then insert_recurring_task r d else d))" by (auto simp: insert_recurring_task_def)
  with 2 show ?case unfolding bulk_create_recurring_tasks.simps by (rule order_trans [rotated])
qed simp

lemma save_task_idents:
  assumes "recurring_ok d" and "task_ident r \<in> task_ident ` set (recurring_tasks d)"
  shows "map task_ident (recurring_tasks (save_recurring_task r d)) = map task_ident (recurring_tasks d)"
proof -
  have "task_ident (if rt_id x = rt_id r then r else x) = task_ident x" if "x \<in> set (recurring_tasks d)" for x
  proof -
    from assms(2) obtain y where y: "y \<in> set (recurring_tasks d)" "task_ident r = task_ident y" by auto
    show ?thesis
    proof (cases "rt_id x = rt_id r")
      case True
      then have "rt_id x = rt_id y" using y(2) by (simp add: task_ident_def)
      moreover have "inj_on rt_id (set (recurring_tasks d))" using assms(1) by (simp add: recurring_ok_def distinct_map)
      ultimately have "x = y" using that y(1) by (simp add: inj_on_def)
      with True y show ?thesis by simp
    qed simp
  qed
  then show ?thesis by (simp add: save_recurring_task_def)
qed

lemma save_task_ok:
  assumes ok: "recurring_ok d" and "task_ident r \<in> task_ident ` set (recurring_tasks d)"
  shows "recurring_ok (save_recurring_task r d)"
proof -
  let ?e = "save_recurring_task r d"
  note ids = save_task_idents [OF assms]
  have cols: "map (f \<circ> task_ident) (recurring_tasks ?e) = map (f \<circ> task_ident) (recurring_tasks d)" for f :: "_ \<Rightarrow> 'x"
    using ids by (metis list.map_comp)
  have "map rt_id (recurring_tasks ?e) = map rt_id (recurring_tasks d)"
    "map (\<lambda>r. (rt_backend_alias r, rt_key r)) (recurring_tasks ?e) = map (\<lambda>r. (rt_backend_alias r, rt_key r)) (recurring_tasks d)"
    using cols [of fst] cols [of snd] by (simp_all add: task_ident_def comp_def)
  moreover from this have "rt_id ` set (recurring_tasks ?e) = rt_id ` set (recurring_tasks d)" by (metis set_map)
  then have "(\<forall>x\<in>set (recurring_tasks ?e). rt_id x < n) \<longleftrightarrow> (\<forall>x\<in>set (recurring_tasks d). rt_id x < n)" for n
    by (metis (no_types, lifting) image_iff)
  moreover have "recurring_executions ?e = recurring_executions d" "next_pk ?e = next_pk d"
    by (simp_all add: save_recurring_task_def)
  ultimately show ?thesis using ok unfolding recurring_ok_def by presburger
qed

lemma apply_definition_ident: "apply_definition fr td r = Inr r' \<Longrightarrow> task_ident r' = task_ident r"
  by (auto simp: apply_definition_def task_ident_def)

lemma update_static_ok:
  assumes "update_static_rows fr ex desired d = Inr e" and "recurring_ok d"
    and "\<And>key r. ex key = Some r \<Longrightarrow> task_ident r \<in> task_ident ` set (recurring_tasks d)"
  shows "recurring_ok e"
  using assms
proof (induction desired arbitrary: d)
  case (Cons k desired)
  obtain key td where k: "k = (key, td)" by force
  from Cons.prems(1) obtain r r' where r: "ex key = Some r" "apply_definition fr td r = Inr r'"
    and rest: "update_static_rows fr ex desired (if r' = r then d else save_recurring_task r' d) = Inr e"
    by (auto simp: k split: option.splits if_splits)
  have mem: "task_ident r' \<in> task_ident ` set (recurring_tasks d)"
    using Cons.prems(3) [OF r(1)] apply_definition_ident [OF r(2)] by simp
  have "task_ident ` set (recurring_tasks (save_recurring_task r' d)) = task_ident ` set (recurring_tasks d)"
    using save_task_idents [OF Cons.prems(2) mem] by (metis set_map)
  with Cons.prems(2,3) save_task_ok [OF Cons.prems(2) mem] show ?case
    by (intro Cons.IH [OF rest]) auto
qed simp

lemma upsert_cases:
  assumes "upsert_static_recurring_tasks cr ss cfg recurring d = Inr e"
  obtains missing rows c f where
    "static_to_create (existing_by_key (backend_alias cfg) (\<lambda>r. rt_static r \<or> rt_key r \<in> set (map fst recurring)) d)
       (desired_by_key (map snd recurring)) = Inr missing"
    "new_recurring_tasks (float_repr ss) (backend_alias cfg) missing = Inr rows"
    "c = bulk_create_recurring_tasks rows d"
    "update_static_rows (float_repr ss) (current_by_key (backend_alias cfg) (map fst recurring) d c)
       (desired_by_key (map snd recurring)) c = Inr f"
    "e = f\<lparr>recurring_tasks := filter (\<lambda>r. \<not> (rt_backend_alias r = backend_alias cfg \<and> rt_static r
       \<and> rt_key r \<notin> set (map (rc_key \<circ> snd) recurring))) (recurring_tasks f)\<rparr>"
proof -
  note step = assms [unfolded upsert_static_recurring_tasks_def apply_static_recurring_tasks_def Let_def]
  from step obtain missing rows f where
    "static_to_create (existing_by_key (backend_alias cfg) (\<lambda>r. rt_static r \<or> rt_key r \<in> set (map fst recurring)) d)
       (desired_by_key (map snd recurring)) = Inr missing"
    "new_recurring_tasks (float_repr ss) (backend_alias cfg) missing = Inr rows"
    "update_static_rows (float_repr ss) (current_by_key (backend_alias cfg) (map fst recurring) d
       (bulk_create_recurring_tasks rows d)) (desired_by_key (map snd recurring)) (bulk_create_recurring_tasks rows d) = Inr f"
    "e = f\<lparr>recurring_tasks := filter (\<lambda>r. \<not> (rt_backend_alias r = backend_alias cfg \<and> rt_static r
       \<and> rt_key r \<notin> set (map (rc_key \<circ> snd) recurring))) (recurring_tasks f)\<rparr>"
    unfolding and_then_Inr_iff by auto
  then show thesis by (rule that [OF _ _ refl])
qed

lemma existing_by_key_Some:
  assumes "existing_by_key al keep d key = Some r"
  shows "r \<in> set (recurring_tasks d)" and "rt_backend_alias r = al" and "rt_key r = key" and "keep r"
  using assms by (auto simp: existing_by_key_def find_Some_iff)

lemma upsert_ok:
  assumes ok: "recurring_ok d" and step: "upsert_static_recurring_tasks cr ss cfg recurring d = Inr e"
  shows "recurring_ok e"
  using step
proof (rule upsert_cases)
  fix missing rows c f
  assume c: "c = bulk_create_recurring_tasks rows d"
    and f: "update_static_rows (float_repr ss) (current_by_key (backend_alias cfg) (map fst recurring) d c)
       (desired_by_key (map snd recurring)) c = Inr f"
    and e: "e = f\<lparr>recurring_tasks := filter (\<lambda>r. \<not> (rt_backend_alias r = backend_alias cfg \<and> rt_static r
       \<and> rt_key r \<notin> set (map (rc_key \<circ> snd) recurring))) (recurring_tasks f)\<rparr>"
  have "recurring_ok f"
  proof (rule update_static_ok [OF f])
    show "recurring_ok c" unfolding c using ok by (rule bulk_create_ok)
    show "task_ident r \<in> task_ident ` set (recurring_tasks c)"
      if "current_by_key (backend_alias cfg) (map fst recurring) d c key = Some r" for key r
      using that bulk_create_grows [of d rows] existing_by_key_Some(1)
      by (fastforce simp: current_by_key_def c split: option.splits)
  qed
  then show ?thesis
    by (rule recurring_ok_fewer [where Q = "\<lambda>x. True"]) (simp_all add: e)
qed

lemma schedule_ok:
  assumes ok: "recurring_ok d"
    and step: "schedule_recurring_task cr ss cfg recurring key path schedule args kwargs q p desc d = Inr (r, e)"
  shows "recurring_ok e"
proof -
  have new: "recurring_ok (insert_recurring_task r d)"
    if "new_recurring_task fr al k td = Inr r" "find_recurring_task al k d = None" for fr al k td r
    by (rule insert_task_ok [OF ok]) (use that in \<open>auto simp: new_recurring_task_def\<close>)
  have upd: "recurring_ok (save_recurring_task r' d)"
    if "find_recurring_task al k d = Some r" "apply_definition fr td r = Inr r'" for al k r fr td r'
    by (rule save_task_ok [OF ok])
      (use that apply_definition_ident in \<open>auto simp: find_recurring_task_def find_Some_iff intro: rev_image_eqI\<close>)
  show ?thesis using step ok
    by (auto simp: schedule_recurring_task_def Let_def split: option_value.splits option.splits if_splits)
      (erule (1) new upd)+
qed

lemma unschedule_ok: "recurring_ok d \<Longrightarrow> recurring_ok (snd (unschedule_recurring_task cfg key d))"
  by (rule recurring_ok_fewer [where Q = "\<lambda>x. True"]) (auto simp: unschedule_recurring_task_def Let_def)

end
