(* ===== verification/Recurring_Runs.thy ===== *)
theory Recurring_Runs
  imports Recurring
begin

text \<open>
  Runs of recurring tasks: what happens to one run from its reservation to its job.  A published run
  stays settled whatever else happens, an interrupted one is found again with the same job identifier,
  and the locale \<open>cron_runs\<close> adds what follows from the promises of the cron functions: the next run
  of a task only moves forward.
\<close>

section \<open>Publishing\<close>

lemma find_job_after_enqueue:
  assumes "enqueue_reserved_recurring_task ss cfg us rs i d = Inr (j, e)" and "rs_intended_job_id rs = Some k"
  shows "job_id j = k"
proof (cases "find_job d k")
  case None
  with assms show ?thesis
    by (auto simp: enqueue_reserved_recurring_task_def enqueue_job_def enqueue_job_with_dispatch_def
        enqueue_transition_def prepare_submission_def create_job_def dispatch_job_def discard_saved_def finished_columns_def Let_def
        split: option.splits sum.splits error.splits if_splits prod.splits dispatch_decision.splits dispatch_outcome.splits)
next
  case (Some j')
  with assms show ?thesis
    by (auto simp: enqueue_reserved_recurring_task_def dest: validated_Inr find_job_Some)
qed

text \<open>A run is settled when its execution has its job or is gone for good.\<close>

definition settled :: "nat \<Rightarrow> db \<Rightarrow> bool" where
  "settled p d \<longleftrightarrow> p < next_pk d \<and> (\<forall>x\<in>set (recurring_executions d). rx_id x = p \<longrightarrow> rx_job x \<noteq> None)"

lemma settled_publish:
  assumes "settled (rs_execution_id rs) d"
  shows "publish_reserved_recurring_task ss cfg us rs i d = Inr (None, d)"
proof (cases "order_by rx_id (locked_queryset ss cfg TRecurringExecution rx_id
    (filter (\<lambda>x. rx_id x = rs_execution_id rs \<and> rx_backend_alias x = backend_alias cfg) (recurring_executions d)))")
  case Nil
  then show ?thesis by (simp add: publish_reserved_recurring_task_def)
next
  case (Cons x xs)
  then have "x \<in> set (locked_queryset ss cfg TRecurringExecution rx_id
    (filter (\<lambda>x. rx_id x = rs_execution_id rs \<and> rx_backend_alias x = backend_alias cfg) (recurring_executions d)))"
    by (metis list.set_intros(1) set_sort)
  then have "x \<in> set (recurring_executions d)" "rx_id x = rs_execution_id rs" using set_locked_queryset by fastforce+
  with assms Cons show ?thesis by (auto simp: publish_reserved_recurring_task_def settled_def)
qed

lemma settled_undisturbed: "undisturbed d e \<Longrightarrow> settled p d \<Longrightarrow> settled p e"
  by (auto simp: undisturbed_def settled_def)

lemma settled_same_executions:
  "settled p d \<Longrightarrow> recurring_executions e = recurring_executions d \<Longrightarrow> next_pk d \<le> next_pk e \<Longrightarrow> settled p e"
  by (auto simp: settled_def)

lemma create_execution_executions:
  assumes "create_execution_ignore_conflicts al key t i d = (created, c)"
  shows "set (recurring_executions c) \<subseteq> insert \<lparr>rx_id = next_pk d, rx_backend_alias = al, rx_intended_job_id = Some i,
      rx_job = None, rx_task_key = key, rx_run_at = t, rx_created_at = shd (clock d)\<rparr> (set (recurring_executions d))"
    and "recurring_tasks c = recurring_tasks d" and "next_pk d \<le> next_pk c"
    and "created \<Longrightarrow> find_execution al key t d = None"
  using assms by (auto simp: create_execution_ignore_conflicts_def timezone_now_def find_execution_def split: if_splits)

lemma settled_reserve:
  assumes "reserve_recurring_task cr ss cfg pk t i d = Inr (rs, e)" and "settled p d"
  shows "settled p e"
  using assms(1)
proof (rule reserve_cases)
  fix r x n created c
  assume c: "create_execution_ignore_conflicts (backend_alias cfg) (rt_key r) t i d = (created, c)"
    and e: "e = advance_next_run_at r n c"
  note ex = create_execution_executions [OF c]
  have "settled p c"
    unfolding settled_def using ex(1,3) assms(2) by (fastforce simp: settled_def)
  then show ?thesis unfolding e by (rule settled_same_executions) (simp_all add: advance_next_run_at_def)
qed (use assms(2) in simp_all)

lemma publish_cases:
  assumes "publish_reserved_recurring_task ss cfg us rs i d = Inr (r, e)"
  obtains (skip) "r = None" "e = d"
  | (enqueue) j c where "enqueue_reserved_recurring_task ss cfg us rs i d = Inr (j, c)" "undisturbed d c"
      "attach_reserved_recurring_job cfg rs j c = Inr (r, e)"
proof -
  have "undisturbed d c" if "enqueue_reserved_recurring_task ss cfg us rs i d = Inr (j, c)" for j c
    using enqueue_reserved_quiet [OF undisturbed_refl, of d ss cfg us rs i] that by (simp add: keeps_to_def)
  with assms skip enqueue show thesis
    by (auto simp: publish_reserved_recurring_task_def split: list.splits if_splits)
qed

lemma settled_publish_other:
  assumes "publish_reserved_recurring_task ss cfg us rs i d = Inr (r, e)" and "settled p d"
  shows "settled p e"
  using assms(1)
proof (rule publish_cases)
  fix j c
  assume c: "undisturbed d c" and a: "attach_reserved_recurring_job cfg rs j c = Inr (r, e)"
  have "settled p c" using c assms(2) by (rule settled_undisturbed)
  with attach_effect [OF a] show ?thesis by (auto simp: Let_def settled_def)
qed (use assms(2) in simp)

lemma published:
  assumes ok: "recurring_ok d" and step: "publish_reserved_recurring_task ss cfg us rs i d = Inr (Some x, e)"
  shows "settled (rs_execution_id rs) e" and "x \<in> set (recurring_executions e)" and "rx_id x = rs_execution_id rs"
    and "rx_job x = rx_intended_job_id x" and "rx_job x \<noteq> None"
proof -
  from step obtain j c where enq: "enqueue_reserved_recurring_task ss cfg us rs i d = Inr (j, c)" "undisturbed d c"
    and a: "attach_reserved_recurring_job cfg rs j c = Inr (Some x, e)" by (rule publish_cases) auto
  define hit where "hit = (\<lambda>x::recurring_execution. rx_id x = rs_execution_id rs \<and> rx_backend_alias x = backend_alias cfg \<and> rx_job x = None
       \<and> rx_intended_job_id x = Some (job_id j))"
  from attach_effect [OF a]
  have e: "e = c\<lparr>recurring_executions := map (\<lambda>x. if hit x then x\<lparr>rx_job := Some (job_id j)\<rparr> else x) (recurring_executions c)\<rparr>"
    and one: "count_if hit (recurring_executions c) = 1"
    and x: "find (\<lambda>x. rx_id x = rs_execution_id rs) (recurring_executions e) = Some x"
    by (auto simp: Let_def hit_def)
  have okc: "recurring_ok c" using enq(2) ok by (rule recurring_ok_undisturbed)
  then have oke: "recurring_ok e" using a by (rule attach_ok)
  from one obtain y where y: "y \<in> set (recurring_executions c)" "hit y"
    by (metis count_if_0_iff zero_neq_one)
  have inj: "inj_on rx_id (set (recurring_executions c))" using okc by (simp add: recurring_ok_def distinct_map)
  have only: "z = y" if "z \<in> set (recurring_executions c)" "rx_id z = rs_execution_id rs" for z
    using inj_onD [OF inj, of z y] that y by (simp add: hit_def)
  then have new: "z = y\<lparr>rx_job := Some (job_id j)\<rparr>" if "z \<in> set (recurring_executions e)" "rx_id z = rs_execution_id rs" for z
    using that y(2) unfolding e by (auto split: if_splits)
  show mem: "x \<in> set (recurring_executions e)" "rx_id x = rs_execution_id rs"
    using x by (auto simp: find_Some_iff)
  have x': "x = y\<lparr>rx_job := Some (job_id j)\<rparr>" using new [OF mem] .
  then show "rx_job x = rx_intended_job_id x" "rx_job x \<noteq> None" using y(2) by (simp_all add: hit_def)
  have "rs_execution_id rs < next_pk e" using oke mem by (auto simp: recurring_ok_def)
  then show "settled (rs_execution_id rs) e" using new by (fastforce simp: settled_def)
qed

section \<open>Reserving again\<close>

definition not_before :: "time option \<Rightarrow> time option \<Rightarrow> bool" where
  "not_before a b \<longleftrightarrow> (case a of None \<Rightarrow> True | Some s \<Rightarrow> (case b of None \<Rightarrow> False | Some t \<Rightarrow> s \<le> t))"

lemma not_before_refl [simp]: "not_before a a"
  by (simp add: not_before_def split: option.splits)

definition advanced :: "recurring_task \<Rightarrow> time \<Rightarrow> recurring_task \<Rightarrow> recurring_task" where
  "advanced q n x = (if rt_id x = rt_id q \<and> rt_backend_alias x = rt_backend_alias q
       \<and> (case rt_next_run_at x of None \<Rightarrow> True | Some t \<Rightarrow> t < n)
     then x\<lparr>rt_next_run_at := Some n\<rparr> else x)"

lemma advance_tasks: "recurring_tasks (advance_next_run_at q n d) = map (advanced q n) (recurring_tasks d)"
  by (simp add: advance_next_run_at_def advanced_def)

lemma advanced_simps [simp]:
  "task_ident (advanced q n r) = task_ident r" "rt_id (advanced q n r) = rt_id r" "rt_key (advanced q n r) = rt_key r"
  "rt_backend_alias (advanced q n r) = rt_backend_alias r" "rt_schedule (advanced q n r) = rt_schedule r"
  "not_before (rt_next_run_at r) (rt_next_run_at (advanced q n r))"
  by (auto simp: advanced_def task_ident_def not_before_def split: option.splits)

lemma advance_task:
  assumes "r \<in> set (recurring_tasks d)"
  shows "\<exists>r'\<in>set (recurring_tasks (advance_next_run_at q n d)). task_ident r' = task_ident r
    \<and> rt_schedule r' = rt_schedule r \<and> not_before (rt_next_run_at r) (rt_next_run_at r')"
  unfolding advance_tasks using assms by (intro bexI [of _ "advanced q n r"]) simp_all

lemma reserve_moves_forward:
  assumes "reserve_recurring_task cr ss cfg pk t i d = Inr (rs, e)" and "r \<in> set (recurring_tasks d)"
  shows "\<exists>r'\<in>set (recurring_tasks e). task_ident r' = task_ident r
    \<and> rt_schedule r' = rt_schedule r \<and> not_before (rt_next_run_at r) (rt_next_run_at r')"
  using assms(1)
proof (rule reserve_cases)
  fix q x n created c
  assume "create_execution_ignore_conflicts (backend_alias cfg) (rt_key q) t i d = (created, c)"
    "e = advance_next_run_at q n c"
  with create_execution_executions(2) assms(2) advance_task show ?thesis by metis
qed (use assms(2) in \<open>auto intro: bexI [of _ r]\<close>)

lemma distinct_filter_eq: "distinct xs \<Longrightarrow> x \<in> set xs \<Longrightarrow> filter (\<lambda>y. y = x) xs = [x]"
  by (induction xs) (auto simp: filter_empty_conv)

text \<open>The row a reservation works on, when no other scheduler holds it.\<close>

lemma reserve_unlocked:
  assumes "recurring_ok d" and "r \<in> set (recurring_tasks d)" and "rt_backend_alias r = backend_alias cfg"
    and "\<not> (use_skip_locked cfg \<and> cap_skip_locked (caps ss) \<and> locked ss TRecurringTask (rt_id r))"
  shows "order_by rt_id (locked_queryset ss cfg TRecurringTask rt_id
    (filter (\<lambda>x. rt_id x = rt_id r \<and> rt_backend_alias x = backend_alias cfg) (recurring_tasks d))) = [r]"
proof -
  have "distinct (recurring_tasks d)" and inj: "inj_on rt_id (set (recurring_tasks d))"
    using assms(1) by (auto simp: recurring_ok_def distinct_map)
  moreover have "rt_id x = rt_id r \<and> rt_backend_alias x = backend_alias cfg \<longleftrightarrow> x = r" if "x \<in> set (recurring_tasks d)" for x
    using that inj assms(2,3) by (auto simp: inj_on_def)
  ultimately have "filter (\<lambda>x. rt_id x = rt_id r \<and> rt_backend_alias x = backend_alias cfg) (recurring_tasks d) = [r]"
    using assms(2) by (subst filter_cong [OF refl, where Q = "\<lambda>x. x = r"]) (auto simp: distinct_filter_eq)
  then show ?thesis using assms(4) by (auto simp: locked_queryset_def)
qed

section \<open>Passes over the due tasks\<close>

text \<open>A pass with a batch size counts down with every run it looks at.\<close>

definition within_batch :: "int \<Rightarrow> firing \<Rightarrow> bool" where
  "within_batch B f \<longleftrightarrow> (case fs_remaining f of None \<Rightarrow> False
     | Some n \<Rightarrow> 0 \<le> n \<and> int (length (fs_fired f)) + n \<le> B \<and> (fs_done f \<or> 0 < n))"

lemma fire_once_batch:
  assumes "fire_once cr ss cfg us r t (f, d) = (Inr g, e)" and "within_batch B f" and "\<not> fs_done f"
  shows "within_batch B g"
proof -
  have one: "length (fired_job x d) \<le> 1" for x d by (auto simp: fired_job_def split: option.splits)
  from assms(1) obtain x where g: "g = \<lparr>fs_fired = fs_fired f @ fired_job x e, fs_remaining = count_down (fs_remaining f),
      fs_ids = stl (stl (fs_ids f)), fs_done = (count_down (fs_remaining f) = Some 0)\<rparr>"
    by (auto simp: fire_once_def Let_def split: prod.splits sum.splits)
  from assms(2) obtain n where n: "fs_remaining f = Some n" by (auto simp: within_batch_def split: option.splits)
  show ?thesis using assms(2,3) one [of x e] by (auto simp: g n within_batch_def count_down_def)
qed

lemma fire_pending_batch:
  "fire_pending cr ss cfg us r xs (f, d) = (Inr g, e) \<Longrightarrow> within_batch B f \<Longrightarrow> \<not> fs_done f \<Longrightarrow> within_batch B g"
  by (induction xs arbitrary: f d) (auto split: prod.splits sum.splits if_splits dest: fire_once_batch)

lemma fire_task_batch:
  assumes "fire_task cr ss cfg us now pending r (f, d) = (Inr g, e)" and "within_batch B f" and "\<not> fs_done f"
  shows "within_batch B g"
  using assms by (auto simp: fire_task_def split: prod.splits sum.splits if_splits option.splits
      dest: fire_pending_batch fire_once_batch)

lemma fire_tasks_batch:
  "fire_tasks cr ss cfg us now pending rs (f, d) = (Inr g, e) \<Longrightarrow> within_batch B f \<Longrightarrow> \<not> fs_done f \<Longrightarrow> within_batch B g"
  by (induction rs arbitrary: f d) (auto split: prod.splits sum.splits if_splits dest: fire_task_batch)

lemma fire_due_batch:
  assumes "fire_due_recurring_tasks cr ss cfg us now dyn (Some B) ids d = (Inr js, e)" and "0 \<le> B"
  shows "int (length js) \<le> B"
proof (cases "due_tasks ss cfg now dyn (Some B) d = []")
  case False
  let ?f = "\<lparr>fs_fired = [], fs_remaining = Some B, fs_ids = ids, fs_done = False\<rparr>"
  from False have "B \<noteq> 0" by (auto simp: due_tasks_def first_n_def)
  then have start: "within_batch B ?f" "\<not> fs_done ?f" using assms(2) by (simp_all add: within_batch_def)
  from assms(1) False obtain g where "fire_tasks cr ss cfg us now
      (pending_executions cfg (due_tasks ss cfg now dyn (Some B) d) (Some B) d) (due_tasks ss cfg now dyn (Some B) d) (?f, d)
      = (Inr g, e)" "js = fs_fired g"
    by (auto simp: fire_due_recurring_tasks_def Let_def split: prod.splits sum.splits)
  with fire_tasks_batch [OF this(1) start] show ?thesis by (auto simp: within_batch_def split: option.splits)
qed (use assms in \<open>simp add: fire_due_recurring_tasks_def\<close>)

text \<open>Facts about every run that exists survive a pass when they hold for the runs the pass looks at.\<close>

definition all_runs :: "(time \<Rightarrow> bool) \<Rightarrow> db \<Rightarrow> bool" where
  "all_runs P d \<longleftrightarrow> (\<forall>x\<in>set (recurring_executions d). P (rx_run_at x))"

lemma reserve_runs:
  assumes "reserve_recurring_task cr ss cfg pk t i d = Inr (rs, e)" and "all_runs P d" and "P t"
  shows "all_runs P e"
  using assms(1)
proof (rule reserve_cases)
  fix r x n created c
  assume c: "create_execution_ignore_conflicts (backend_alias cfg) (rt_key r) t i d = (created, c)"
    and e: "e = advance_next_run_at r n c"
  have "recurring_executions e = recurring_executions c" by (simp add: e advance_next_run_at_def)
  then show ?thesis using create_execution_executions(1) [OF c] assms(2,3) by (fastforce simp: all_runs_def)
qed (use assms(2) in simp_all)

lemma publish_runs:
  assumes "publish_reserved_recurring_task ss cfg us rs i d = Inr (r, e)" and "all_runs P d"
  shows "all_runs P e"
  using assms(1)
proof (rule publish_cases)
  fix j c
  assume c: "undisturbed d c" and a: "attach_reserved_recurring_job cfg rs j c = Inr (r, e)"
  have "all_runs P c" using c assms(2) by (auto simp: undisturbed_def all_runs_def)
  with attach_effect [OF a] show ?thesis by (auto simp: Let_def all_runs_def)
qed (use assms(2) in simp)

lemma fire_recurring_runs:
  assumes "fire_recurring_task cr ss cfg us pk t ids d = (x, e)" and "all_runs P d" and "P t"
  shows "all_runs P e"
  using assms
  by (auto simp: fire_recurring_task_def split: sum.splits prod.splits option.splits dest: reserve_runs publish_runs)

lemma fire_once_runs:
  assumes "fire_once cr ss cfg us r t s = (x, e)" and "all_runs P (snd s)" and "P t"
  shows "all_runs P e"
  using assms by (auto simp: fire_once_def Let_def split: prod.splits sum.splits dest: fire_recurring_runs)

lemma fire_pending_runs:
  "fire_pending cr ss cfg us r xs s = (y, e) \<Longrightarrow> all_runs P (snd s) \<Longrightarrow> \<forall>x\<in>set xs. P (rx_run_at x) \<Longrightarrow> all_runs P e"
  by (induction xs arbitrary: s)
    (fastforce split: prod.splits sum.splits if_splits dest: fire_once_runs [where P = P])+

section \<open>What the cron functions promise\<close>

locale cron_runs =
  fixes latest next_run :: "string \<Rightarrow> time \<Rightarrow> error + time"
  assumes latest_not_after: "latest s t = Inr u \<Longrightarrow> u \<le> t"
    and next_after: "next_run s t = Inr u \<Longrightarrow> t < u"
begin

abbreviation uses_cron :: "cron \<Rightarrow> bool" where
  "uses_cron cr \<equiv> latest_cron_run cr = latest \<and> next_cron_run cr = next_run"

text \<open>A run that is reserved is behind the next run of its task, and stays so.\<close>

lemma reserved_beyond:
  assumes "uses_cron cr" and "reserve_recurring_task cr ss cfg pk t i d = Inr (Some rs, e)"
  shows "\<exists>r x n. r \<in> set (recurring_tasks e) \<and> rt_id r = pk \<and> rt_backend_alias r = backend_alias cfg
    \<and> latest (rt_schedule r) (t + 1) = Inr t \<and> next_run (rt_schedule r) t = Inr n \<and> (\<exists>u. rt_next_run_at r = Some u \<and> t < u)
    \<and> find_execution (backend_alias cfg) (rt_key r) t e = Some x \<and> open_execution x
    \<and> rs_execution_id rs = rx_id x \<and> rs_intended_job_id rs = rx_intended_job_id x"
  using assms(2)
proof (rule reserve_cases)
  fix r x n created c
  assume r: "r \<in> set (recurring_tasks d)" "rt_id r = pk" "rt_backend_alias r = backend_alias cfg"
    "latest_cron_run cr (rt_schedule r) (t + 1) = Inr t" "next_cron_run cr (rt_schedule r) t = Inr n"
    and due: "case rt_next_run_at r of None \<Rightarrow> True | Some u \<Rightarrow> u \<le> t"
    and c: "create_execution_ignore_conflicts (backend_alias cfg) (rt_key r) t i d = (created, c)"
    and x: "find_execution (backend_alias cfg) (rt_key r) t c = Some x" and e: "e = advance_next_run_at r n c"
    and rs: "Some rs = (if created \<or> open_execution x then Some (recurring_reservation x r n) else None)"
  have "t < n" using next_after r(5) assms(1) by simp
  then have "rt_next_run_at (advanced r n r) = Some n" using due by (auto simp: advanced_def split: option.splits)
  moreover have "advanced r n r \<in> set (recurring_tasks e)"
    unfolding e advance_tasks create_execution_executions(2) [OF c] using r(1) by simp
  moreover have "find_execution (backend_alias cfg) (rt_key r) t e = Some x"
    using x by (simp add: e find_execution_def advance_next_run_at_def)
  moreover have "open_execution x"
  proof (cases created)
    case True
    note none = create_execution_executions(4) [OF c True]
    have "x \<notin> set (recurring_executions d)"
      using none find_execution_Some(2-4) [OF x] unfolding find_execution_None by (auto simp: image_iff)
    then have "x = \<lparr>rx_id = next_pk d, rx_backend_alias = backend_alias cfg, rx_intended_job_id = Some i,
          rx_job = None, rx_task_key = rt_key r, rx_run_at = t, rx_created_at = shd (clock d)\<rparr>"
      using create_execution_executions(1) [OF c] find_execution_Some(1) [OF x] by blast
    then show ?thesis unfolding open_execution_def by (metis option.discI recurring_execution.select_convs(3,4))
  qed (use rs in \<open>simp split: if_splits\<close>)
  moreover have "rs_execution_id rs = rx_id x" "rs_intended_job_id rs = rx_intended_job_id x"
    using rs by (simp_all add: recurring_reservation_def split: if_splits)
  ultimately show ?thesis using r \<open>t < n\<close> assms(1) by (intro exI [of _ "advanced r n r"] exI [of _ x] exI [of _ n]) auto
next
  fix r x n
  assume "r \<in> set (recurring_tasks d)" "rt_id r = pk" "rt_backend_alias r = backend_alias cfg"
    "latest_cron_run cr (rt_schedule r) (t + 1) = Inr t" "next_cron_run cr (rt_schedule r) t = Inr n"
    "find_execution (backend_alias cfg) (rt_key r) t d = Some x" "open_execution x" "e = d"
    "Some rs = Some (recurring_reservation x r n)" "\<exists>u. rt_next_run_at r = Some u \<and> t < u"
  then show ?thesis using assms(1)
    by (intro exI [of _ r] exI [of _ x] exI [of _ n]) (simp add: recurring_reservation_def)
qed simp

text \<open>When the scheduler dies between the two transactions, firing the run again finds the reservation
  and publishes the same job.\<close>

lemma reserve_again:
  assumes "uses_cron cr" and "recurring_ok d" and "reserve_recurring_task cr ss cfg pk t i d = Inr (Some rs, e)"
    and "\<not> (use_skip_locked cfg \<and> cap_skip_locked (caps ss') \<and> locked ss' TRecurringTask pk)"
  shows "\<exists>rs'. reserve_recurring_task cr ss' cfg pk t i' e = Inr (Some rs', e)
    \<and> rs_execution_id rs' = rs_execution_id rs \<and> rs_intended_job_id rs' = rs_intended_job_id rs"
proof -
  from reserved_beyond [OF assms(1,3)] obtain r x n u where
    r: "r \<in> set (recurring_tasks e)" "rt_id r = pk" "rt_backend_alias r = backend_alias cfg"
    and cron: "latest (rt_schedule r) (t + 1) = Inr t" "next_run (rt_schedule r) t = Inr n"
    and later: "rt_next_run_at r = Some u" "t < u"
    and x: "find_execution (backend_alias cfg) (rt_key r) t e = Some x" "open_execution x"
      "rs_execution_id rs = rx_id x" "rs_intended_job_id rs = rx_intended_job_id x"
    by blast
  have "recurring_ok e" using assms(2,3) by (rule reserve_ok)
  from reserve_unlocked [OF this r(1,3), of ss'] assms(4) r(2)
  have "order_by rt_id (locked_queryset ss' cfg TRecurringTask rt_id
    (filter (\<lambda>x. rt_id x = pk \<and> rt_backend_alias x = backend_alias cfg) (recurring_tasks e))) = [r]" by simp
  then show ?thesis using cron later x assms(1)
    by (simp add: reserve_recurring_task_def next_run_after_def open_execution_def recurring_reservation_def)
qed

text \<open>No run is fired before its time.\<close>

lemma fire_task_runs:
  assumes "uses_cron cr" and "fire_task cr ss cfg us now pending r s = (y, e)" and "all_runs (\<lambda>t. t \<le> now) (snd s)"
    and "\<forall>x\<in>set pending. rx_run_at x \<le> now"
  shows "all_runs (\<lambda>t. t \<le> now) e"
proof -
  obtain f c where p: "fire_pending cr ss cfg us r (filter (\<lambda>x. rx_task_key x = rt_key r) pending) s = (f, c)" by force
  have c: "all_runs (\<lambda>t. t \<le> now) c" using fire_pending_runs [OF p assms(3)] assms(4) by simp
  show ?thesis using assms(1,2) p c latest_not_after
    by (auto simp: fire_task_def split: sum.splits if_splits option.splits dest!: fire_once_runs [where P = "\<lambda>t. t \<le> now"])
qed

lemma fire_tasks_runs:
  assumes "uses_cron cr" and "\<forall>x\<in>set pending. rx_run_at x \<le> now"
  shows "fire_tasks cr ss cfg us now pending rs s = (y, e) \<Longrightarrow> all_runs (\<lambda>t. t \<le> now) (snd s)
    \<Longrightarrow> all_runs (\<lambda>t. t \<le> now) e"
proof (induction rs arbitrary: s)
  case (Cons r rs)
  obtain f c where t: "fire_task cr ss cfg us now pending r s = (f, c)" by force
  have "all_runs (\<lambda>t. t \<le> now) c" using fire_task_runs [OF assms(1) t Cons.prems(2) assms(2)] .
  with Cons.prems(1) t show ?case by (auto split: sum.splits if_splits dest: Cons.IH)
qed auto

lemma fire_due_runs:
  assumes "uses_cron cr" and "fire_due_recurring_tasks cr ss cfg us now dyn B ids d = (y, e)"
    and "all_runs (\<lambda>t. t \<le> now) d"
  shows "all_runs (\<lambda>t. t \<le> now) e"
proof (cases "due_tasks ss cfg now dyn B d = []")
  case False
  let ?tasks = "due_tasks ss cfg now dyn B d"
  let ?pending = "pending_executions cfg ?tasks B d"
  let ?s = "(\<lparr>fs_fired = [], fs_remaining = B, fs_ids = ids, fs_done = False\<rparr>, d)"
  have "set ?pending \<subseteq> set (recurring_executions d)"
    using set_first_n_subset by (fastforce simp: pending_executions_def Let_def split: option.splits)
  then have pending: "\<forall>x\<in>set ?pending. rx_run_at x \<le> now" using assms(3) by (auto simp: all_runs_def)
  obtain f c where t: "fire_tasks cr ss cfg us now ?pending ?tasks ?s = (f, c)" by force
  have "c = e" using assms(2) False t by (auto simp: fire_due_recurring_tasks_def Let_def split: sum.splits)
  with fire_tasks_runs [OF assms(1) pending t] assms(3) show ?thesis by simp
qed (use assms in \<open>simp add: fire_due_recurring_tasks_def\<close>)

end

end
