(* ===== verification/Lifecycle.thy ===== *)
theory Lifecycle
  imports Recurring_Runs
begin

text \<open>
  The queue as a whole: any number of producers, workers, dispatchers, schedulers and operators run the
  operations of the component theories as transactions on one database, in any order and each with a
  connection of its own (its database family, its configuration, and the rows other transactions hold
  locked at that moment).  A transaction that raises leaves the state as it was.  The locale
  \<open>transactional\<close> states what a set of operations has to promise for the guarantees of the queue; it
  is interpreted on the operations of the program, and the guarantees hold in every reachable state.
\<close>

section \<open>Operations\<close>

datatype operation =
    Enqueue session backend_config task "pyval list" "(string \<times> pyval) list" bool uuid
  | Enqueue_bulk session backend_config "((task \<times> pyval list \<times> (string \<times> pyval) list) \<times> uuid) list" bool
  | Claim session backend_config int selectors "process option"
  | Complete session backend_config job_argument json "task option"
  | Fail session backend_config job_argument exception_info "task option"
  | Execute session backend_config task_call job_argument
  | Promote_scheduled session backend_config int
  | Dispatch_now session backend_config uuid
  | Schedule_retry backend_config uuid "time option"
  | Retry_failed session backend_config uuid
  | Retry_many session backend_config "uuid list option" int
  | Promote_retries session backend_config int
  | Enqueue_again session backend_config "task \<Rightarrow> int \<Rightarrow> string \<Rightarrow> time option \<Rightarrow> string \<Rightarrow> error + task"
      uuid "time option option" uuid
  | Discard_failed session backend_config "uuid list option" int
  | Discard_ready session backend_config "uuid list option" int
  | Discard_ready_queue session backend_config string int
  | Discard_scheduled session backend_config "uuid list option" int
  | Discard_blocked session backend_config "uuid list option" int
  | Fail_orphaned session backend_config exception_info int
  | Fail_for_pid session backend_config int exception_info
  | Fail_for_child session backend_config int string "nat option" exception_info
  | Prune_processes session backend_config time exception_info "nat option" int
  | Promote_blocked session backend_config int
  | Cleanup_semaphores session backend_config option_value
  | Clear_finished session backend_config "int option" "string option" int "time option"
  | Clear_failed session backend_config "int option" "string option" int "time option"
  | Clear_recurring session backend_config "int option" "string option" int "time option"
  | Pause backend_config string
  | Resume backend_config string "time option"
  | Reserve_run cron session backend_config nat time uuid
  | Publish_run session backend_config task_using reservation uuid
  | Upsert_static cron session backend_config "(string \<times> recurring_config) list"
  | Schedule_task cron session backend_config "(string \<times> recurring_config) list" option_value option_value option_value
      "pyval list" "(pyval \<times> pyval) list" option_value option_value option_value
  | Unschedule_task backend_config string
  | Register_process backend_config string int string string json "nat option"
  | Touch_process nat
  | Deregister_process nat
  | Set_metadata nat json
  | Fail_for_process session backend_config "process option" exception_info bool

text \<open>The state after an operation, without its result.\<close>

definition after :: "error + 'a \<times> db \<Rightarrow> error + db" where
  "after r = and_then r (\<lambda>(_, d). Inr d)"

fun run_operation :: "operation \<Rightarrow> db \<Rightarrow> error + db" where
  "run_operation (Enqueue ss cfg t args kwargs val i) d = after (enqueue_job_with_dispatch ss cfg t args kwargs val i d)"
| "run_operation (Enqueue_bulk ss cfg calls val) d = after (enqueue_jobs_bulk ss cfg calls val d)"
| "run_operation (Claim ss cfg n queues process) d = after (claim_ready_jobs ss cfg n queues process d)"
| "run_operation (Complete ss cfg a v t) d = after (complete_claimed_job ss cfg a v t d)"
| "run_operation (Fail ss cfg a err t) d = after (fail_claimed_job ss cfg a err t d)"
| "run_operation (Execute ss cfg run a) d = after (execute_claimed_job ss cfg run a d)"
| "run_operation (Promote_scheduled ss cfg n) d = after (promote_scheduled_jobs ss cfg n d)"
| "run_operation (Dispatch_now ss cfg i) d = after (dispatch_scheduled_job_now ss cfg i d)"
| "run_operation (Schedule_retry cfg i t) d = after (schedule_failed_job_retry cfg i t d)"
| "run_operation (Retry_failed ss cfg i) d = after (retry_failed_job ss cfg i d)"
| "run_operation (Retry_many ss cfg ids n) d = after (retry_failed_jobs ss cfg ids n d)"
| "run_operation (Promote_retries ss cfg n) d = after (promote_failed_job_retries ss cfg n d)"
| "run_operation (Enqueue_again ss cfg using i aft new_id) d = after (enqueue_job_again ss cfg using i aft new_id d)"
| "run_operation (Discard_failed ss cfg ids n) d = after (discard_failed_jobs ss cfg ids n d)"
| "run_operation (Discard_ready ss cfg ids n) d = after (discard_ready_jobs ss cfg ids n d)"
| "run_operation (Discard_ready_queue ss cfg q n) d = after (discard_ready_jobs_for_queue ss cfg q n d)"
| "run_operation (Discard_scheduled ss cfg ids n) d = after (discard_scheduled_jobs ss cfg ids n d)"
| "run_operation (Discard_blocked ss cfg ids n) d = after (discard_blocked_jobs ss cfg ids n d)"
| "run_operation (Fail_orphaned ss cfg err n) d = after (fail_orphaned_claimed_jobs ss cfg err n d)"
| "run_operation (Fail_for_pid ss cfg pid err) d = after (fail_claimed_jobs_for_pid ss cfg pid err d)"
| "run_operation (Fail_for_child ss cfg pid name sv err) d = after (fail_claimed_jobs_for_child ss cfg pid name sv err d)"
| "run_operation (Prune_processes ss cfg cutoff err ex n) d = after (prune_stale_processes ss cfg cutoff err ex n d)"
| "run_operation (Promote_blocked ss cfg n) d = after (promote_expired_blocked_jobs ss cfg n d)"
| "run_operation (Cleanup_semaphores ss cfg n) d = after (cleanup_expired_semaphores ss cfg n d)"
| "run_operation (Clear_finished ss cfg older path n now) d = after (clear_finished_jobs ss cfg older path n now d)"
| "run_operation (Clear_failed ss cfg older path n now) d = after (clear_failed_jobs ss cfg older path n now d)"
| "run_operation (Clear_recurring ss cfg older key n now) d = after (clear_recurring_executions ss cfg older key n now d)"
| "run_operation (Pause cfg q) d = Inr (pause_queue cfg q d)"
| "run_operation (Resume cfg q t) d = Inr (snd (resume_queue cfg q t d))"
| "run_operation (Reserve_run cr ss cfg pk t i) d = after (reserve_recurring_task cr ss cfg pk t i d)"
| "run_operation (Publish_run ss cfg us rs i) d = after (publish_reserved_recurring_task ss cfg us rs i d)"
| "run_operation (Upsert_static cr ss cfg recurring) d = upsert_static_recurring_tasks cr ss cfg recurring d"
| "run_operation (Schedule_task cr ss cfg recurring key path schedule args kwargs q p desc) d =
     after (schedule_recurring_task cr ss cfg recurring key path schedule args kwargs q p desc d)"
| "run_operation (Unschedule_task cfg key) d = Inr (snd (unschedule_recurring_task cfg key d))"
| "run_operation (Register_process cfg kind pid host name md sv) d = after (register_process cfg kind pid host name md sv d)"
| "run_operation (Touch_process pk) d = Inr (snd (touch_process_row pk d))"
| "run_operation (Deregister_process pk) d = Inr (deregister_process pk d)"
| "run_operation (Set_metadata pk md) d = Inr (snd (set_process_metadata pk md d))"
| "run_operation (Fail_for_process ss cfg p err delete) d = after (fail_claimed_jobs_for_process ss cfg p err delete d)"

text \<open>What a caller has to respect: calls that share a concurrency key declare the same limit, and a
  \<open>Job\<close> object passed back has the key and policy of its row (no operation changes these
  columns).\<close>

fun lawful :: "(string \<Rightarrow> int) \<Rightarrow> operation \<Rightarrow> db \<Rightarrow> bool" where
  "lawful L (Enqueue ss cfg t args kwargs val i) d = call_limit_ok L cfg t args kwargs"
| "lawful L (Enqueue_bulk ss cfg calls val) d =
     list_all (\<lambda>((t, args, kwargs), i). call_limit_ok L cfg t args kwargs) calls"
| "lawful L (Complete ss cfg a v t) d = current_argument L d a"
| "lawful L (Fail ss cfg a err t) d = current_argument L d a"
| "lawful L (Execute ss cfg run a) d = current_argument L d a"
| "lawful L (Enqueue_again ss cfg using i aft new_id) d =
     (case source_call ss cfg using i aft d of Inr (t, args, kwargs) \<Rightarrow> call_limit_ok L cfg t args kwargs | _ \<Rightarrow> True)"
| "lawful L (Publish_run ss cfg us rs i) d =
     (case reserved_call ss cfg us rs of Inr (t, args, kwargs) \<Rightarrow> call_limit_ok L cfg t args kwargs | _ \<Rightarrow> True)"
| "lawful L _ d = True"

section \<open>Guarantees of transactional operations\<close>

text \<open>The jobs of a key that run or are about to run.\<close>

definition running :: "db \<Rightarrow> string \<Rightarrow> job list" where
  "running d k = filter (\<lambda>j. job_key j = Some k \<and> (has_state Ready d (job_id j) \<or> has_state Claimed d (job_id j))) (jobs d)"

definition committed :: "(string \<Rightarrow> int) \<Rightarrow> db \<Rightarrow> bool" where
  "committed L d = queue_inv L {} {#} d"

text \<open>A run of operations: each commits or is rolled back.\<close>

fun run_all :: "('op \<Rightarrow> db \<Rightarrow> error + db) \<Rightarrow> 'op list \<Rightarrow> db \<Rightarrow> db" where
  "run_all run [] d = d"
| "run_all run (x # xs) d = run_all run xs (case run x d of Inr e \<Rightarrow> e | Inl _ \<Rightarrow> d)"

fun all_lawful :: "('op \<Rightarrow> db \<Rightarrow> error + db) \<Rightarrow> ('op \<Rightarrow> db \<Rightarrow> bool) \<Rightarrow> 'op list \<Rightarrow> db \<Rightarrow> bool" where
  "all_lawful run ok [] d = True"
| "all_lawful run ok (x # xs) d =
     (ok x d \<and> all_lawful run ok xs (case run x d of Inr e \<Rightarrow> e | Inl _ \<Rightarrow> d))"

lemma committed_holders:
  assumes "committed L d" and "0 \<le> L k"
  shows "int (holders d k) \<le> L k"
proof -
  have "slot_balance L {#} d k" using assms(1) by (simp add: committed_def queue_inv_def slots_ok_def)
  then show ?thesis using assms(2) by (auto simp: slot_balance_def split: option.splits)
qed

lemma holders_zero_or_limit:
  assumes "committed L d" and "holders d k \<noteq> 0"
  shows "0 < L k"
proof -
  have "slot_balance L {#} d k" using assms(1) by (simp add: committed_def queue_inv_def slots_ok_def)
  then show ?thesis using assms(2) by (auto simp: slot_balance_def split: option.splits)
qed

lemma count_if_image:
  assumes "distinct (map f xs)" and "\<And>x. x \<in> set xs \<Longrightarrow> P x \<Longrightarrow> f x \<in> g ` set (filter Q ys)"
  shows "count_if P xs \<le> count_if Q ys"
proof -
  have "count_if P xs = card (f ` set (filter P xs))"
    using assms(1) by (metis (no_types, lifting) card_image count_if_def distinct_card distinct_filter distinct_map filter_is_subset inj_on_subset)
  also have "\<dots> \<le> card (g ` set (filter Q ys))"
    using assms(2) by (intro card_mono) auto
  also have "\<dots> \<le> length (filter Q ys)" by (metis card_image_le card_length le_trans finite_set)
  finally show ?thesis by (simp add: count_if_def)
qed

lemma running_holders:
  assumes inv: "committed L d"
  shows "length (running d k) \<le> holders d k"
proof -
  have dist: "distinct (map job_id (jobs d))" using inv by (simp add: committed_def queue_inv_def keys_ok_def)
  let ?Q = "\<lambda>(p, i). key_of d i = Some k"
  have "length (running d k) = count_if (\<lambda>j. job_key j = Some k \<and> has_state Ready d (job_id j)
      \<or> job_key j = Some k \<and> has_state Claimed d (job_id j)) (jobs d)"
    unfolding running_def count_if_def by (intro arg_cong [where f = length] filter_cong) auto
  also have "\<dots> \<le> count_if ?Q (state_keys Ready d @ state_keys Claimed d)"
  proof (rule count_if_image [OF dist, where g = snd])
    fix j assume j: "j \<in> set (jobs d)" "job_key j = Some k \<and> has_state Ready d (job_id j)
      \<or> job_key j = Some k \<and> has_state Claimed d (job_id j)"
    then have "key_of d (job_id j) = Some k" using key_of_find [OF dist] by auto
    with j show "job_id j \<in> snd ` set (filter ?Q (state_keys Ready d @ state_keys Claimed d))"
      by (force simp: has_state_def)
  qed
  finally show ?thesis by (simp add: holders_def)
qed

lemma committed_status:
  assumes inv: "committed L d" and "j \<in> set (jobs d)"
  shows "status d j \<in> insert (Some Finished) (range (Some \<circ> Live))"
    and "status d j = Some Finished \<longleftrightarrow> finished_at j \<noteq> None"
    and "status d j = Some (Live m) \<longleftrightarrow> has_state m d (job_id j)"
    and "\<not> invalid_execution_state d j"
proof -
  let ?i = "job_id j"
  have live: "live_count d ?i = (if finished_at j = None then 1 else 0)"
    using inv assms(2) by (simp add: committed_def queue_inv_def partitioned_def)
  have none: "\<not> has_state m d ?i" if "finished_at j \<noteq> None" for m
    using live that has_state_live [of m d ?i] by auto
  have one: "has_state m d ?i \<Longrightarrow> has_state m' d ?i \<Longrightarrow> m = m'" for m m'
  proof (rule ccontr)
    assume "has_state m d ?i" "has_state m' d ?i" "m \<noteq> m'"
    then have "2 \<le> live_count d ?i"
      unfolding has_state_iff_count live_count_unfold by (cases m; cases m') auto
    with live show False by (simp split: if_splits)
  qed
  have states: "live_execution_states d j = (case finished_at j of Some _ \<Rightarrow> [] | None \<Rightarrow> live_execution_states d j)"
    using none by (cases "finished_at j") (auto simp: live_execution_states_def filter_empty_conv)
  have ex: "\<exists>m. live_execution_states d j = [m] \<and> has_state m d ?i" if "finished_at j = None"
  proof -
    from live that have "live_count d ?i = 1" by simp
    then obtain m where m: "has_state m d ?i"
      unfolding live_count_unfold has_state_iff_count by (metis add_cancel_right_right neq0_conv one_neq_zero)
    have eq: "has_state m' d ?i \<longleftrightarrow> m' = m" for m' using one m by blast
    have "live_execution_states d j = [m]"
      unfolding live_execution_states_def execution_state_models_def eq by (cases m) simp_all
    with m show ?thesis by blast
  qed
  show "status d j \<in> insert (Some Finished) (range (Some \<circ> Live))"
    and "status d j = Some Finished \<longleftrightarrow> finished_at j \<noteq> None"
    and "status d j = Some (Live m) \<longleftrightarrow> has_state m d ?i"
  proof (atomize(full), cases "finished_at j")
    case None
    with ex obtain m' where "live_execution_states d j = [m']" "has_state m' d ?i" by blast
    with None one show "status d j \<in> insert (Some Finished) (range (Some \<circ> Live))
      \<and> (status d j = Some Finished \<longleftrightarrow> finished_at j \<noteq> None) \<and> (status d j = Some (Live m) \<longleftrightarrow> has_state m d ?i)"
      by (auto simp: status_def)
  next
    case (Some t)
    with states none show "status d j \<in> insert (Some Finished) (range (Some \<circ> Live))
      \<and> (status d j = Some Finished \<longleftrightarrow> finished_at j \<noteq> None) \<and> (status d j = Some (Live m) \<longleftrightarrow> has_state m d ?i)"
      by (auto simp: status_def)
  qed
  show "\<not> invalid_execution_state d j"
    using none one by (auto simp: invalid_execution_state_def execution_state_models_def list_ex_iff)
qed

text \<open>The contract between the queue and its operations, and what it gives for every run.\<close>

locale transactional =
  fixes run :: "'op \<Rightarrow> db \<Rightarrow> error + db" and ok :: "'op \<Rightarrow> db \<Rightarrow> bool" and L :: "string \<Rightarrow> int"
  assumes commits: "committed L d \<Longrightarrow> ok x d \<Longrightarrow> run x d = Inr e \<Longrightarrow> committed L e"
begin

lemma run_committed:
  assumes "committed L d" and "all_lawful run ok xs d"
  shows "committed L (run_all run xs d)"
  using assms by (induction xs arbitrary: d) (auto split: sum.splits intro: commits)

lemma run_limit:
  assumes "committed L d" and "all_lawful run ok xs d"
  shows "int (length (running (run_all run xs d) k)) \<le> max 0 (L k)"
proof -
  let ?e = "run_all run xs d"
  have e: "committed L ?e" using assms by (rule run_committed)
  show ?thesis
  proof (cases "holders ?e k = 0")
    case True
    then show ?thesis using running_holders [OF e, of k] by simp
  next
    case False
    then have "0 < L k" using e by (rule holders_zero_or_limit [rotated])
    then show ?thesis using running_holders [OF e, of k] committed_holders [OF e, of k] by simp
  qed
qed

lemma run_partition:
  assumes "committed L d" and "all_lawful run ok xs d" and "j \<in> set (jobs (run_all run xs d))"
  shows "status (run_all run xs d) j \<in> insert (Some Finished) (range (Some \<circ> Live))"
    and "\<not> invalid_execution_state (run_all run xs d) j"
  using committed_status [OF run_committed [OF assms(1,2)] assms(3)] by blast+

end

section \<open>The operations are transactional\<close>

lemma after_InrE:
  assumes "after r = Inr e"
  obtains x where "r = Inr (x, e)"
  using assms by (auto simp: after_def)

lemmas operation_keeps =
  enqueue_job_with_dispatch_inv enqueue_jobs_bulk_inv claim_ready_jobs_inv complete_claimed_job_inv
  fail_claimed_job_inv execute_claimed_job_inv promote_scheduled_jobs_inv dispatch_scheduled_job_now_inv
  schedule_failed_job_retry_inv retry_failed_job_inv retry_failed_jobs_inv promote_failed_job_retries_inv
  discard_failed_jobs_inv discard_scheduled_jobs_inv discard_blocked_jobs_inv
  fail_orphaned_claimed_jobs_inv fail_claimed_jobs_for_pid_inv fail_claimed_jobs_for_child_inv
  fail_claimed_jobs_for_process_inv register_process_inv
  prune_stale_processes_inv promote_expired_blocked_jobs_inv cleanup_expired_semaphores_inv
  clear_finished_jobs_inv clear_failed_jobs_inv clear_recurring_executions_inv

lemma operation_commits:
  assumes "committed L d" and "lawful L x d" and "run_operation x d = Inr e"
  shows "committed L e"
proof -
  note inv = assms(1) [unfolded committed_def]
  note keeps' = operation_keeps [OF inv]
  have definitions_inv: "queue_inv L {} {#} f" if "only_definitions d f" for f
    using that by (simp add: only_definitions_def queue_inv_only_recurring [OF inv])
  show ?thesis
  proof (cases x)
    case (Enqueue_bulk ss cfg calls val)
    with assms(3) obtain r where r: "enqueue_jobs_bulk ss cfg calls val d = Inr (r, e)" by (auto elim: after_InrE)
    have "\<forall>((t, args, kwargs), i)\<in>set calls. call_limit_ok L cfg t args kwargs"
      using assms(2) Enqueue_bulk by (simp add: list_all_iff)
    from enqueue_jobs_bulk_inv [OF inv this r] show ?thesis by (simp add: committed_def)
  next
    case (Enqueue_again ss cfg using' i aft new_id)
    with assms(3) obtain j where "enqueue_job_again ss cfg using' i aft new_id d = Inr (j, e)" by (auto elim: after_InrE)
    then show ?thesis unfolding committed_def
      by (rule enqueue_job_again_inv [OF inv]) (use assms(2) Enqueue_again in simp)
  next
    case (Discard_ready ss cfg ids n)
    with assms(3) discard_ready_query_inv [OF inv] show ?thesis
      by (auto simp: committed_def discard_ready_jobs_def elim: after_InrE)
  next
    case (Discard_ready_queue ss cfg q n)
    with assms(3) discard_ready_query_inv [OF inv] show ?thesis
      by (auto simp: committed_def discard_ready_jobs_for_queue_def elim: after_InrE)
  next
    case (Resume cfg q t)
    with assms(3) resume_queue_inv [OF inv, of cfg q t] show ?thesis
      by (cases "resume_queue cfg q t d") (simp add: committed_def)
  next
    case (Publish_run ss cfg us rs i)
    with assms(3) obtain y where "publish_reserved_recurring_task ss cfg us rs i d = Inr (y, e)" by (auto elim: after_InrE)
    from publish_inv [OF inv this] assms(2) Publish_run show ?thesis by (simp add: committed_def)
  next
    case (Touch_process pk)
    with assms(3) touch_process_inv [OF inv, of pk] show ?thesis
      by (cases "touch_process_row pk d") (simp add: committed_def)
  next
    case (Set_metadata pk md)
    with assms(3) set_metadata_inv [OF inv, of pk md] show ?thesis
      by (cases "set_process_metadata pk md d") (simp add: committed_def)
  next
    case (Deregister_process pk)
    with assms(3) deregister_process_inv [OF inv, of pk] show ?thesis by (simp add: committed_def)
  next
    case (Unschedule_task cfg key)
    with assms(3) unschedule_only_definitions [of d cfg key] show ?thesis
      by (auto simp: committed_def intro: definitions_inv)
  qed (use assms(2,3) in \<open>auto simp: committed_def pause_queue_inv [OF inv] elim!: after_InrE dest: keeps'
      reserve_only_recurring upsert_only_definitions schedule_only_definitions
      intro: queue_inv_only_recurring [OF inv] definitions_inv\<close>)
qed

interpretation queue: transactional run_operation "lawful L" L for L
  by unfold_locales (rule operation_commits)

section \<open>Reachable states\<close>

lemma empty_committed: "committed L (empty_db ts)"
proof -
  have "keys_ok (empty_db ts)" unfolding keys_ok_def all_models by (simp add: empty_db_def state_keys.simps)
  moreover have "holders (empty_db ts) k = 0" for k by (simp add: holders_def empty_db_def state_keys.simps)
  then have "slots_ok L {#} (empty_db ts)"
    by (simp add: slots_ok_def semaphores_ok_def slot_balance_def find_semaphore_def) (simp add: empty_db_def)
  ultimately show ?thesis
    by (simp add: committed_def queue_inv_def partitioned_def policies_ok_def blocked_ok_def) (simp add: empty_db_def)
qed

text \<open>One transaction of some participant: it commits, or it raises and is rolled back; meanwhile the
  clock may move on.\<close>

inductive step :: "(string \<Rightarrow> int) \<Rightarrow> db \<Rightarrow> db \<Rightarrow> bool" for L where
  commit: "lawful L x d \<Longrightarrow> run_operation x d = Inr e \<Longrightarrow> step L d e"
| rollback: "lawful L x d \<Longrightarrow> run_operation x d = Inl err \<Longrightarrow> step L d d"
| tick: "step L d (d\<lparr>clock := stl (clock d)\<rparr>)"

inductive_cases stepE: "step L d e"

inductive reachable :: "(string \<Rightarrow> int) \<Rightarrow> db \<Rightarrow> bool" for L where
  initial: "reachable L (empty_db ts)"
| onward: "reachable L d \<Longrightarrow> step L d e \<Longrightarrow> reachable L e"

lemma step_committed: "step L d e \<Longrightarrow> committed L d \<Longrightarrow> committed L e"
  by (elim stepE) (auto simp: committed_def dest: operation_commits [unfolded committed_def, rotated 2])

lemma reachable_committed: "reachable L d \<Longrightarrow> committed L d"
  by (induction rule: reachable.induct) (auto intro: empty_committed step_committed)

lemma reachable_run: "reachable L d \<Longrightarrow> all_lawful run_operation (lawful L) xs d \<Longrightarrow> reachable L (run_all run_operation xs d)"
proof (induction xs arbitrary: d)
  case (Cons x xs)
  have "reachable L (case run_operation x d of Inr e \<Rightarrow> e | Inl _ \<Rightarrow> d)"
    using Cons.prems by (cases "run_operation x d") (auto intro: reachable.intros step.intros)
  with Cons show ?case by simp
qed simp

section \<open>Runs of recurring tasks over the whole life of the queue\<close>

text \<open>The operations of the recurring component; every other one leaves its tables undisturbed.\<close>

fun recurring_operation :: "operation \<Rightarrow> bool" where
  "recurring_operation (Reserve_run cr ss cfg pk t i) = True"
| "recurring_operation (Publish_run ss cfg us rs i) = True"
| "recurring_operation (Upsert_static cr ss cfg recurring) = True"
| "recurring_operation (Schedule_task cr ss cfg recurring key path schedule args kwargs q p desc) = True"
| "recurring_operation (Unschedule_task cfg key) = True"
| "recurring_operation _ = False"

lemma keeps_after: "keeps_to d r \<Longrightarrow> keeps_db d (after r)"
  by (auto simp: keeps_to_def keeps_db_def elim: after_InrE)

lemma operation_undisturbed:
  assumes "\<not> recurring_operation x" and "run_operation x d = Inr e"
  shows "undisturbed d e"
proof -
  have "keeps_db d (run_operation x d)"
    using assms(1) by (cases x) (simp_all only: run_operation.simps recurring_operation.simps not_True_eq_False,
      (rule keeps_after quiet undisturbed_refl)+)
  with assms(2) show ?thesis by (simp add: keeps_db_def)
qed

lemma operation_recurring_ok:
  assumes "recurring_ok d" and "run_operation x d = Inr e"
  shows "recurring_ok e"
proof (cases "recurring_operation x")
  case True
  with assms show ?thesis
    by (cases x) (auto elim!: after_InrE dest: reserve_ok publish_ok upsert_ok schedule_ok intro: unschedule_ok)
next
  case False
  from recurring_ok_undisturbed [OF operation_undisturbed [OF False assms(2)] assms(1)] show ?thesis .
qed

lemma operation_settled:
  assumes "settled p d" and "run_operation x d = Inr e"
  shows "settled p e"
proof (cases "recurring_operation x")
  case True
  have definitions: "settled p f" if "only_definitions d f" for f
    using assms(1) that by (auto simp: only_definitions_def only_recurring_def intro: settled_same_executions)
  from True assms show ?thesis
    by (cases x) (auto elim!: after_InrE dest: settled_reserve settled_publish_other upsert_only_definitions
        schedule_only_definitions intro: definitions unschedule_only_definitions)
next
  case False
  from settled_undisturbed [OF operation_undisturbed [OF False assms(2)] assms(1)] show ?thesis .
qed

lemma reachable_recurring_ok: "reachable L d \<Longrightarrow> recurring_ok d"
proof (induction rule: reachable.induct)
  case (initial ts)
  show ?case by (simp add: recurring_ok_def empty_db_def map_filter_def)
next
  case (onward d e)
  from onward(2) show ?case
    by (elim stepE) (auto dest: operation_recurring_ok [OF onward.IH] simp: onward.IH)
qed

lemma steps_settled:
  assumes "(step L)\<^sup>*\<^sup>* d e" and "settled p d"
  shows "settled p e"
  using assms(1)
proof induction
  case (step y z)
  from step(2) show ?case
  proof (rule stepE)
    fix x assume "run_operation x y = Inr z"
    with step.IH show ?thesis by (rule operation_settled)
  qed (use step.IH in \<open>simp_all add: settled_def\<close>)
qed (rule assms(2))

text \<open>Firing a run is two of these steps, or one when the second raises.\<close>

lemma fire_steps:
  assumes "fire_recurring_task cr ss cfg us pk t ids d = (x, e)"
    and "\<And>rs c. reserve_recurring_task cr ss cfg pk t (fst ids) d = Inr (Some rs, c)
      \<Longrightarrow> lawful L (Publish_run ss cfg us rs (snd ids)) c"
  shows "(step L)\<^sup>*\<^sup>* d e"
proof (cases "reserve_recurring_task cr ss cfg pk t (fst ids) d")
  case (Inl err)
  with assms(1) show ?thesis by (simp add: fire_recurring_task_def)
next
  case (Inr y)
  then obtain r c where r: "reserve_recurring_task cr ss cfg pk t (fst ids) d = Inr (r, c)" by (cases y) simp
  have one: "step L d c"
    by (rule step.commit [where x = "Reserve_run cr ss cfg pk t (fst ids)"]) (simp_all add: r after_def)
  show ?thesis
  proof (cases r)
    case None
    with assms(1) r one show ?thesis by (simp add: fire_recurring_task_def)
  next
    case (Some rs)
    note law = assms(2) [OF r [unfolded Some]]
    show ?thesis
    proof (cases "publish_reserved_recurring_task ss cfg us rs (snd ids) c")
      case (Inl err)
      with assms(1) r Some one show ?thesis by (simp add: fire_recurring_task_def)
    next
      case (Inr z)
      then have p: "publish_reserved_recurring_task ss cfg us rs (snd ids) c = Inr (x', e)" if "z = (x', e)" for x' using that by simp
      from Inr assms(1) r Some obtain x' where "z = (x', e)" by (cases z) (simp add: fire_recurring_task_def)
      with p have "step L c e"
        by (intro step.commit [OF law]) (simp add: after_def)
      with one show ?thesis by (rule converse_rtranclp_into_rtranclp [OF _ r_into_rtranclp])
    qed
  qed
qed

end
