(* ===== verification/Outcomes.thy ===== *)
theory Outcomes
  imports Lifecycle
begin

text \<open>
  What an operation leaves behind, beyond the invariants: releasing a concurrency slot touches only
  semaphores and the ready and blocked tables, so that a completed job is finished with its return value, a
  failed job has its failure, and a job that is not claimed can be neither completed nor failed.
\<close>

section \<open>Releasing a slot leaves the rest alone\<close>

definition aside :: "db \<Rightarrow> db \<Rightarrow> bool" where
  "aside d e \<longleftrightarrow> jobs e = jobs d \<and> claimed_executions e = claimed_executions d
     \<and> failed_executions e = failed_executions d \<and> scheduled_executions e = scheduled_executions d"

lemma aside_refl [simp]: "aside d d"
  by (simp add: aside_def)

lemma aside_trans: "aside c d \<Longrightarrow> aside d e \<Longrightarrow> aside c e"
  by (simp add: aside_def)

lemma aside_simps [simp]:
  "aside (d\<lparr>clock := c\<rparr>) e = aside d e" "aside d (e\<lparr>clock := c\<rparr>) = aside d e"
  "aside d (e\<lparr>semaphores := ss\<rparr>) = aside d e" "aside d (e\<lparr>notified := ns\<rparr>) = aside d e"
  "aside d (e\<lparr>ready_executions := rs, next_pk := n\<rparr>) = aside d e"
  "aside d (e\<lparr>blocked_executions := bs, next_pk := n\<rparr>) = aside d e"
  "aside d (delete_pks Blocked P e) = aside d e"
  by (simp_all add: aside_def delete_pks_def)

lemma aside_semaphores:
  "semaphore_release ss k l dur d = (b, e) \<Longrightarrow> aside d e"
  "consume_released_semaphore_slot ss k l dur now d = (b, e) \<Longrightarrow> aside d e"
  "handoff_released_claimed_slot ss k l dur now d = (b, e) \<Longrightarrow> aside d e"
  by (auto simp: semaphore_release_def consume_released_semaphore_slot_def handoff_released_claimed_slot_def
      update_semaphores_def timezone_now_def Let_def)

lemma consume_one_aside: "consume_one_by_one Blocked pk rs d = (rs', e) \<Longrightarrow> aside d e"
proof (induction rs arbitrary: d rs')
  case (Cons r rs)
  obtain c where "consume_one_by_one Blocked pk rs (delete_pks Blocked {pk r} d) = (c, e)"
    using Cons.prems by (auto simp: Let_def split: prod.splits)
  from Cons.IH [OF this] show ?case by (simp add: aside_def delete_pks_def)
qed simp

lemma consume_selected_aside: "consume_selected_rows ss Blocked pk rs d = (rs', e) \<Longrightarrow> aside d e"
  by (auto simp: consume_selected_rows_def split: if_splits dest: consume_one_aside)

lemma consume_next_aside: "consume_next_blocked_job ss cfg key d = Inr (v, e) \<Longrightarrow> aside d e"
  by (auto simp: consume_next_blocked_job_def Let_def split: list.splits prod.splits if_splits dest: consume_selected_aside)

lemma consume_next_released_aside:
  "consume_next_blocked_job_with_released_slot ss cfg key l dur now d = Inr (v, e) \<Longrightarrow> aside d e"
  by (auto simp: consume_next_blocked_job_with_released_slot_def update_semaphores_def Let_def
      split: list.splits prod.splits if_splits)

lemma restore_aside: "restore_blocked_execution v r al d = Inr e \<Longrightarrow> aside d e"
  by (auto simp: restore_blocked_execution_def create_blocked_execution_def create_blocked_def insert_blocked_def
      timezone_now_def Let_def split: if_splits)

lemma consume_for_slot_aside:
  assumes "consume_blocked_job_for_slot ss cfg key l dur now mode d = Inr (slot, e)"
  shows "aside d e"
proof -
  define pg where "pg = (mode = RELEASE_CLAIMED \<and> family ss = Postgresql)"
  obtain blocked c where c: "(if pg then consume_next_blocked_job_with_released_slot ss cfg key l dur now d
      else and_then (consume_next_blocked_job ss cfg key d) (\<lambda>(v, e). Inr (map_option (\<lambda>v. (v, False)) v, e))) = Inr (blocked, c)"
    and rest: "(case blocked of None \<Rightarrow> Inr (None, c) | Some (v, acquired) \<Rightarrow>
          (if bv_job_backend_alias v \<noteq> backend_alias cfg then Inl (belongs_to_backend (bv_job_id v) (bv_job_backend_alias v))
           else let (acquired, d) = (if mode = RELEASE_CLAIMED \<and> \<not> pg then handoff_released_claimed_slot ss key l dur now c
                    else if mode = CONSUME_RELEASED then consume_released_semaphore_slot ss key l dur now c else (acquired, c));
                 r = blocked_job_ref v (backend_alias cfg)
             in and_then (if \<not> acquired \<and> \<not> pg then restore_blocked_execution v r (backend_alias cfg) d else Inr d) (\<lambda>d.
                Inr (Some (r, acquired), d)))) = Inr (slot, e)"
    using assms unfolding consume_blocked_job_for_slot_def pg_def Let_def by (auto split: if_splits)
  have dc: "aside d c" using c consume_next_released_aside consume_next_aside by (auto split: if_splits)
  show ?thesis
  proof (cases blocked)
    case None
    with rest dc show ?thesis by simp
  next
    case (Some va)
    obtain v a where va: "va = (v, a)" by force
    obtain b f where f: "(if mode = RELEASE_CLAIMED \<and> \<not> pg then handoff_released_claimed_slot ss key l dur now c
       else if mode = CONSUME_RELEASED then consume_released_semaphore_slot ss key l dur now c else (a, c)) = (b, f)" by force
    have "aside c f" using f aside_semaphores by (auto split: if_splits)
    moreover have "aside f e" using rest Some va f by (auto simp: Let_def split: if_splits dest: restore_aside)
    ultimately show ?thesis using dc by (blast intro: aside_trans)
  qed
qed

lemma create_ready_aside: "create_ready_execution_after_blocked_consume r al q p t d = Inr (n, e) \<Longrightarrow> aside d e"
  by (auto simp: create_ready_execution_after_blocked_consume_def insert_ready_def split: if_splits)

lemma notify_aside [simp]: "aside d (notify_ready_queues_on_commit ss cfg qs e) = aside d e"
  by (simp add: notify_ready_queues_on_commit_def Let_def)

lemma unblock_aside:
  assumes "unblock_next_blocked_job ss cfg key l dur mode d = Inr (r, e)"
  shows "aside d e"
  using assms
  by (auto simp: unblock_next_blocked_job_def timezone_now_def Let_def split: option.splits if_splits prod.splits
      dest!: consume_for_slot_aside create_ready_aside) (blast intro: aside_trans)

lemma release_aside:
  assumes "release_concurrency_slot ss cfg j task d = Inr e"
  shows "aside d e"
  using assms
  by (auto simp: release_concurrency_slot_def Let_def split: option.splits if_splits prod.splits
      dest!: unblock_aside aside_semaphores(1)) (blast intro: aside_trans)

section \<open>Completing\<close>

lemma finish_rows_job:
  assumes "finish_rows j ms v t d = (n, e)" and "n = 1"
  shows "find_job e (job_id j) = map_option (finished_columns v t) (find_job d (job_id j))" and "find_job d (job_id j) \<noteq> None"
proof -
  from assms obtain r where r: "find_job d (job_id j) = Some r" and e: "e = update_job (job_id j) (finished_columns v t) d"
    by (auto simp: finish_rows_def split: option.splits if_splits)
  have "job_id r = job_id j" using find_job_Some [OF r] by simp
  moreover have "find_job e (job_id j) = map_option (\<lambda>x. if job_id x = job_id j then finished_columns v t x else x) (find_job d (job_id j))"
    unfolding e by (rule find_job_update_job) (simp add: finished_columns_def)
  ultimately show "find_job e (job_id j) = map_option (finished_columns v t) (find_job d (job_id j))" by (simp add: r)
  show "find_job d (job_id j) \<noteq> None" by (simp add: r)
qed

lemma find_job_aside: "aside d e \<Longrightarrow> find_job e = find_job d"
  by (auto simp: aside_def find_job_def fun_eq_iff)

lemma find_job_delete_pks [simp]: "find_job (delete_pks m P d) = find_job d"
  by (cases m) (auto simp: delete_pks_def find_job_def fun_eq_iff)

lemma not_claimed_refused:
  assumes "\<not> has_state Claimed d (job_id j)"
  shows "complete_transition ss cfg j v task d = Inl ClaimedDoesNotExist"
    and "fail_transition ss cfg j err task d = Inl ClaimedDoesNotExist"
proof -
  have c: "\<not> has_state Claimed (d\<lparr>clock := c\<rparr>) (job_id j)" for c using assms by (simp add: has_state_def)
  have d: "delete_claimed_execution (job_id j) (d\<lparr>clock := c\<rparr>) = Inl ClaimedDoesNotExist" for c
    using c by (simp add: delete_claimed_execution_def)
  have p: "delete_claimed_and_finish_job_if_no_execution_state j v t (d\<lparr>clock := c\<rparr>) = Inl ClaimedDoesNotExist" for t c
    using claimed_pks_none [OF c [of c]]
    by (simp add: delete_claimed_and_finish_job_if_no_execution_state_def delete_claimed_and_finish_job_def)
  show "complete_transition ss cfg j v task d = Inl ClaimedDoesNotExist"
    by (simp add: complete_transition_def timezone_now_def d p)
  show "fail_transition ss cfg j err task d = Inl ClaimedDoesNotExist"
    using assms by (simp add: fail_transition_def delete_claimed_execution_def)
qed

lemma complete_finishes:
  assumes "complete_transition ss cfg j v task d = Inr (j', e)"
  shows "job_id j' = job_id j"
    and "preserve_finished_jobs cfg \<Longrightarrow> \<exists>r. find_job d (job_id j) = Some r \<and>
      find_job e (job_id j) = Some (finished_columns v (shd (clock d)) r)"
    and "\<not> preserve_finished_jobs cfg \<Longrightarrow> find_job e (job_id j) = None"
proof -
  let ?d = "d\<lparr>clock := stl (clock d)\<rparr>" and ?t = "shd (clock d)"
  obtain c where c: "(if preserve_finished_jobs cfg then
           (if family ss = Postgresql
            then and_then (delete_claimed_and_finish_job_if_no_execution_state j v ?t ?d)
                   (\<lambda>d. Inr (finished_columns v ?t j, d))
            else and_then (delete_claimed_execution (job_id j) ?d) (\<lambda>d.
                 and_then (finish_job_if_no_execution_state j v ?t False d)
                   (\<lambda>d. Inr (finished_columns v ?t j, d))))
         else
           and_then (delete_claimed_execution (job_id j) ?d) (\<lambda>d.
           and_then (ensure_no_other_execution_state (job_id j) [Claimed] d) (\<lambda>_.
             Inr (j, snd (delete_jobs {job_id j} d))))) = Inr (j', c)"
    and "aside c e"
    using assms by (auto simp: complete_transition_def timezone_now_def dest: release_aside)
  note find = find_job_aside [OF this(2)]
  show "job_id j' = job_id j" using c by (auto simp: finished_columns_def split: if_splits)
  show "\<exists>r. find_job d (job_id j) = Some r \<and> find_job e (job_id j) = Some (finished_columns v ?t r)"
    if keep: "preserve_finished_jobs cfg"
  proof -
    obtain f ms n b where "finish_rows j ms v ?t f = (n, b)" "n = 1" "find_job f = find_job d" "find_job c = find_job b"
      using c keep
      by (auto simp: delete_claimed_and_finish_job_if_no_execution_state_def delete_claimed_and_finish_job_def
          finish_job_if_no_execution_state_def delete_claimed_execution_def Let_def find_job_def fun_eq_iff
          split: if_splits prod.splits)
    then show ?thesis using finish_rows_job [of j ms v ?t f n b] find by auto
  qed
  show "find_job e (job_id j) = None" if "\<not> preserve_finished_jobs cfg"
    using c that by (auto simp: find delete_jobs_def find_job_def find_None_iff delete_claimed_execution_def split: if_splits)
qed

section \<open>Failing\<close>

lemma fail_records:
  assumes "fail_transition ss cfg j err task d = Inr e"
  shows "\<exists>f\<in>set (failed_executions e). fe_job f = job_id j \<and> fe_exception_class f = ei_class err
    \<and> fe_message f = ei_message err \<and> fe_traceback f = ei_traceback err \<and> fe_retry_at f = None"
proof -
  from assms obtain b c where "create_failed \<lparr>fe_id = 0, fe_job = job_id j, fe_exception_class = ei_class err,
      fe_message = ei_message err, fe_traceback = ei_traceback err, fe_retry_at = None, fe_created_at = 0\<rparr> b = Inr c"
    and "aside c e"
    by (auto simp: fail_transition_def dest: release_aside)
  then show ?thesis
    by (auto simp: create_failed_def insert_failed_def timezone_now_def aside_def Let_def split: if_splits)
qed

lemma failed_state: "f \<in> set (failed_executions d) \<Longrightarrow> has_state Failed d (fe_job f)"
  by (force simp: has_state_def state_keys.simps)

end
