(* ===== verification/Claim_Outcomes.thy ===== *)
theory Claim_Outcomes
  imports Outcomes
begin

text \<open>
  What a claim gives a worker: never more jobs than it asked for, only ready jobs of its backend, of queues
  that are not paused and that its selectors name; every job it gets is claimed afterwards.
\<close>

section \<open>The number of rows\<close>

lemma length_first_n_int: "int (length (first_n n xs)) \<le> max 0 n"
  using length_first_n [of n xs] by linarith

lemma length_ctes: "int (length (exact_queue_ctes ss cfg limit q sels prior)) \<le> max 0 (limit - int prior)"
proof (induction sels arbitrary: prior)
  case (Cons s sels)
  define rows where "rows = first_n (max 0 (limit - int prior))
    (lock_ready ss cfg (ordered_rows (filter (\<lambda>(r, j). re_queue_name r = s) q)))"
  have "int (length rows) \<le> max 0 (limit - int prior)" unfolding rows_def by (metis length_first_n_int max.left_idem)
  moreover have "exact_queue_ctes ss cfg limit q (s # sels) prior = rows @ exact_queue_ctes ss cfg limit q sels (prior + length rows)"
    by (simp only: exact_queue_ctes.simps Let_def rows_def)
  ultimately show ?case using Cons.IH [of "prior + length rows"] by simp
qed simp

lemma length_loop: "int (length (exact_queue_loop ss cfg limit q sels acc)) \<le> max limit (int (length acc))"
proof (induction sels arbitrary: acc)
  case (Cons s sels)
  show ?case
  proof (cases "limit \<le> int (length acc)")
    case False
    define rows where "rows = first_n (limit - int (length acc)) (queue_rows ss cfg q acc s)"
    have "int (length rows) \<le> limit - int (length acc)"
      using length_first_n_int [of "limit - int (length acc)" "queue_rows ss cfg q acc s"] False unfolding rows_def by linarith
    then show ?thesis using Cons.IH [of "acc @ rows"] False unfolding loop_step by (simp add: rows_def [symmetric])
  qed (simp add: loop_full)
qed simp

lemma length_rows_by_id: "length (rows_by_id q ids) \<le> length ids"
  by (induction ids) (simp_all add: rows_by_id_Cons split: option.splits)

lemma length_exact: "0 < limit \<Longrightarrow> int (length (select_exact_queue_rows ss cfg sels limit q)) \<le> limit"
  using length_ctes [of ss cfg limit q "dict_fromkeys sels" 0] length_loop [of ss cfg limit q sels "[]"]
  by (auto simp: select_exact_queue_rows_def select_ready_rows_by_exact_queues_def Let_def)

lemma select_ready_rows_limit:
  assumes "0 < limit" and "select_ready_rows ss cfg limit queues q d = Inr rows"
  shows "int (length rows) \<le> limit"
proof (cases "selectors_match_all queues")
  case True
  show ?thesis
  proof (cases "family ss \<in> {Mysql, Mariadb}")
    case mysql: True
    with assms(2) True obtain ids where ids: "select_ready_row_ids ss cfg limit d = Inr ids" and rows: "rows = rows_by_id q ids"
      by (cases "select_ready_row_ids ss cfg limit d") (auto simp: select_ready_rows_def)
    from ids obtain ys :: "ready_execution list" where "ids = map re_id (first_n limit ys)"
      by (auto simp: select_ready_row_ids_def Let_def split: if_splits)
    then have "int (length ids) \<le> limit" using length_first_n_int [of limit ys] assms(1) by simp
    then show ?thesis using length_rows_by_id [of q ids] by (simp add: rows)
  next
    case False
    with assms(2) True have "rows = first_n limit (lock_ready ss cfg (ordered_rows q))" by (simp add: select_ready_rows_def)
    then show ?thesis using length_first_n_int [of limit "lock_ready ss cfg (ordered_rows q)"] assms(1) by simp
  qed
next
  case False
  define sels where "sels = takeWhile (\<lambda>s. s \<noteq> ''*'') (normalize_queue_selectors queues)"
  define selected where "selected = (if sels = [] then []
     else if selectors_are_exact_queues sels then select_exact_queue_rows ss cfg sels limit q
     else first_n limit (lock_ready ss cfg (ordered_selector_rows_queryset (family ss) sels q)))"
  have sel: "int (length selected) \<le> limit"
    using assms(1) length_exact length_first_n_int [of limit "lock_ready ss cfg (ordered_selector_rows_queryset (family ss) sels q)"]
    by (auto simp: selected_def)
  note step = assms(2) [unfolded select_ready_rows_def if_not_P [OF False] Let_def, folded sels_def, folded selected_def]
  show ?thesis
  proof (cases "limit - int (length selected) \<le> 0 \<or> ''*'' \<notin> set (normalize_queue_selectors queues)")
    case True
    with step sel show ?thesis by auto
  next
    case False
    let ?more = "first_n (limit - int (length selected)) (lock_ready ss cfg (ordered_rows
       (filter (\<lambda>(r, j). re_id r \<notin> (\<lambda>(r, j). re_id r) ` set selected) q)))"
    have "rows = selected @ ?more" using step False by simp
    moreover have "int (length ?more) \<le> limit - int (length selected)"
      using length_first_n_int [of "limit - int (length selected)"] False by (metis max.absorb2 nle_le)
    ultimately show ?thesis by simp
  qed
qed

section \<open>The queues of the rows\<close>

lemma exact_rows_queues:
  assumes "x \<in> set (select_exact_queue_rows ss cfg sels limit q)" and "ready_selection d q"
  shows "re_queue_name (fst x) \<in> set sels"
proof (cases "family ss = Postgresql")
  case True
  have "\<forall>(r, j)\<in>set (exact_queue_ctes ss cfg limit q (dict_fromkeys sels) 0). (r, j) \<in> set q \<and> re_queue_name r \<in> set (dict_fromkeys sels)"
    using assms(2) by (intro exact_queue_ctes_rows) simp_all
  with assms(1) True show ?thesis
    by (force simp: select_exact_queue_rows_def select_ready_rows_by_exact_queues_def Let_def split: if_splits)
next
  case False
  then show ?thesis
    using assms exact_queue_loop_rows [of d q "[]" "set sels" sels ss cfg limit]
    by (auto simp: select_exact_queue_rows_def selection_def)
qed

lemma exact_selector_matches: "\<not> endswith_star s \<Longrightarrow> queue_matches_selector s s"
  by (simp add: queue_matches_selector_def)

lemma matches_selectorI:
  "s \<in> set (normalize_queue_selectors queues) \<Longrightarrow> queue_matches_selector qn s \<Longrightarrow> queue_matches_selectors qn queues"
  by (auto simp: queue_matches_selectors_def list_ex_iff)

lemma select_ready_rows_queues:
  assumes inv: "queue_inv L A M d" and "select_ready_rows ss cfg limit queues (ready_queryset cfg d) d = Inr rows"
    and "family ss \<noteq> Sqlite" and "x \<in> set rows"
  shows "queue_matches_selectors (re_queue_name (fst x)) queues"
proof (cases "selectors_match_all queues")
  case False
  define sels where "sels = takeWhile (\<lambda>s. s \<noteq> ''*'') (normalize_queue_selectors queues)"
  let ?q = "ready_queryset cfg d"
  have sels: "set sels \<subseteq> set (normalize_queue_selectors queues)" "''*'' \<notin> set sels"
    by (auto simp: sels_def dest: set_takeWhileD)
  show ?thesis
  proof (cases "''*'' \<in> set (normalize_queue_selectors queues)")
    case True
    then show ?thesis by (rule queue_matches_star)
  next
    case no_star: False
    have rows: "rows = (if sels = [] then [] else if selectors_are_exact_queues sels then select_exact_queue_rows ss cfg sels limit ?q
        else first_n limit (lock_ready ss cfg (ordered_selector_rows_queryset (family ss) sels ?q)))" and ne: "sels \<noteq> []"
      using assms(2,4) False no_star by (auto simp: select_ready_rows_def Let_def sels_def)
    show ?thesis
    proof (cases "selectors_are_exact_queues sels")
      case True
      with rows ne assms(4) have "re_queue_name (fst x) \<in> set sels"
        using exact_rows_queues [OF _ ready_queryset_selection [OF inv]] by auto
      with True sels(1) show ?thesis
        by (intro matches_selectorI [of "re_queue_name (fst x)"] exact_selector_matches)
          (auto simp: selectors_are_exact_queues_def list_all_iff)
    next
      case False
      with rows ne assms(4) have "x \<in> set (ordered_selector_rows_queryset (family ss) sels ?q)"
        using first_n_subsetD set_lock_ready by (metis (no_types, lifting) subsetD)
      then have "queue_matches_selectors (re_queue_name (fst x)) (SelTuple sels)"
        using filter_matches_gen [OF assms(3), of "\<lambda>(r, j). re_queue_name r" ?q "SelTuple sels"]
        by (auto simp: ordered_selector_rows_queryset_def)
      then obtain s where "s \<in> set sels" "queue_matches_selector (re_queue_name (fst x)) s"
        using ne sels(2) by (auto simp: queue_matches_selectors_def selectors_match_all_def list_ex_iff split: if_splits)
      with sels(1) show ?thesis by (blast intro: matches_selectorI)
    qed
  qed
qed (simp add: queue_matches_selectors_def)

section \<open>The claimed jobs\<close>

lemma insert_claimed_all:
  "for_each (\<lambda>i. insert_claimed (claimed_row i p t)) is d = Inr e \<Longrightarrow>
   ce_job ` set (claimed_executions e) = ce_job ` set (claimed_executions d) \<union> set is"
  by (induction "is" arbitrary: d) (auto simp: insert_claimed_def claimed_row_def split: if_splits)

lemma create_claimed_all:
  "create_claimed_executions js p t d = Inr e \<Longrightarrow>
   ce_job ` set (claimed_executions e) = ce_job ` set (claimed_executions d) \<union> job_id ` set js"
  unfolding create_claimed_executions_def
  by (induction js arbitrary: d) (auto simp: create_claimed_def insert_claimed_def claimed_row_def timezone_now_def Let_def split: if_splits)

lemma claimed_state: "has_state Claimed d i \<longleftrightarrow> i \<in> ce_job ` set (claimed_executions d)"
  by (auto simp: has_state_def state_keys.simps image_iff)

lemma postgres_claim_all:
  assumes inv: "queue_inv L A M d" and sel: "ready_selection d rows"
    and "consume_ready_and_create_claimed_executions rows p t d = Inr (created, e)" and "length created = length rows"
    and "x \<in> set rows"
  shows "has_state Claimed e (job_id (snd x))"
proof -
  let ?ids = "(\<lambda>(r, j). re_id r) ` set rows"
  let ?hit = "filter (\<lambda>r. re_id r \<in> ?ids) (ready_executions d)"
  define deleted where "deleted = map re_job ?hit"
  have created: "created = filter (no_state (state_models_except [Ready]) d) deleted"
    and ins: "for_each (\<lambda>i. insert_claimed (claimed_row i p t)) created (delete_pks Ready ?ids d) = Inr e"
    using assms(3) by (auto simp: consume_ready_and_create_claimed_executions_def deleted_def Let_def)
  have "length ?hit = card (re_id ` set ?hit)"
    using ready.distinct_pk [OF inv] by (metis distinct_card distinct_map_filter length_map set_map)
  also have "\<dots> \<le> card ?ids" by (intro card_mono) auto
  also have "\<dots> \<le> length rows" by (metis card_image_le card_length finite_set le_trans)
  finally have "length deleted \<le> length rows" by (simp add: deleted_def)
  then have "created = deleted"
    using assms(4) created by (metis filter_True length_filter_less linorder_not_less)
  moreover have "re_job (fst x) \<in> set deleted" "job_id (snd x) = re_job (fst x)"
    using assms(5) sel find_job_Some by (force simp: deleted_def selection_def)+
  ultimately show ?thesis using insert_claimed_all [OF ins] by (simp add: claimed_state)
qed

lemma claim_rows:
  assumes inv: "queue_inv L A M d" and step: "claim_ready_jobs ss cfg n queues pr d = Inr (js, e)" and "js \<noteq> []"
  obtains rows0 rows where "0 < n" "select_ready_rows ss cfg n queues (ready_queryset cfg d) d = Inr rows0"
    "set rows \<subseteq> set rows0" "length rows \<le> length rows0" "map cj_job js = map snd rows"
    "\<And>x. x \<in> set rows \<Longrightarrow> has_state Claimed e (job_id (snd x))"
proof -
  from step assms(3) have n: "0 < n" and once: "claim_ready_jobs_once ss cfg n queues pr d = Inr (js, e)"
    by (auto simp: claim_ready_jobs_def split: if_splits)
  from once obtain rows0 where r0: "select_ready_rows ss cfg n queues (ready_queryset cfg d) d = Inr rows0"
    by (auto simp: claim_ready_jobs_once_def Let_def)
  define paused where "paused = lock_active_pauses (backend_alias cfg)
     (Some (dict_fromkeys (map (\<lambda>(r, j). re_queue_name r) rows0))) d"
  define rows where "rows = filter (\<lambda>(r, j). re_queue_name r \<notin> paused) rows0"
  define c where "c = d\<lparr>clock := stl (clock d)\<rparr>"
  have ci: "queue_inv L A M c" using inv by (simp add: c_def)
  have "ready_selection d rows" unfolding rows_def
    using select_ready_rows_selection [OF inv r0] by (intro selection_filter) blast
  then have sel: "ready_selection c rows" by (simp add: c_def selection_def find_job_def)
  note step' = once [unfolded claim_ready_jobs_once_def Let_def r0 and_then_simps(2) timezone_now_def prod.case,
      folded c_def, folded paused_def, folded rows_def]
  have ne: "rows0 \<noteq> []" "rows \<noteq> []" using step' assms(3) r0 by (auto split: if_splits)
  have "map cj_job js = map snd rows \<and> (\<forall>x\<in>set rows. has_state Claimed e (job_id (snd x)))"
  proof (cases "family ss = Postgresql")
    case True
    with step' ne r0 obtain created where
      "consume_ready_and_create_claimed_executions rows (map_option proc_id pr) (shd (clock d)) c = Inr (created, e)"
      "length created = length rows" "js = claimed_jobs_of (map snd rows) (shd (clock d)) pr"
      by (auto split: if_splits)
    with postgres_claim_all [OF ci sel] show ?thesis by (auto simp: claimed_jobs_of_def)
  next
    case False
    obtain rows' f where con: "consume_selected_rows ss Ready (\<lambda>x. re_id (fst x)) rows c = (rows', f)" by force
    note f = ready.consumed_selection [OF ci sel con]
    from step' ne False con f(1) r0 have
      "create_claimed_executions (map snd rows) (map_option proc_id pr) (shd (clock d)) f = Inr e"
      "js = claimed_jobs_of (map snd rows) (shd (clock d)) pr"
      by (auto split: if_splits)
    note js = this
    have "job_id ` set (map snd rows) \<subseteq> ce_job ` set (claimed_executions e)" using create_claimed_all [OF js(1)] by blast
    then have "\<forall>x\<in>set rows. has_state Claimed e (job_id (snd x))" by (auto simp: claimed_state)
    moreover have "map cj_job js = map snd rows" by (simp add: js(2) claimed_jobs_of_def)
    ultimately show ?thesis by blast
  qed
  moreover have "set rows \<subseteq> set rows0" "length rows \<le> length rows0" by (auto simp: rows_def)
  ultimately show ?thesis using that [OF n r0, of rows] by blast
qed

lemma ready_queryset_row:
  assumes "x \<in> set (ready_queryset cfg d)"
  shows "fst x \<in> set (ready_executions d)" and "find_job d (re_job (fst x)) = Some (snd x)"
    and "re_backend_alias (fst x) = backend_alias cfg"
    and "\<not> (\<exists>p\<in>set (pauses d). pause_backend_alias p = backend_alias cfg \<and> pause_queue_name p = re_queue_name (fst x))"
  using assms by (auto simp: ready_queryset_def exclude_active_pauses_def with_jobs_def map_filter_def image_iff split: option.splits)

end
