(* ===== verification/Calendar.thy ===== *)
theory Calendar
  imports Prelude
begin

text \<open>
  The calendar of Python's \<open>datetime\<close> as \<^verbatim>\<open>cron.py\<close> uses it: proleptic Gregorian dates as
  day numbers (\<open>date.toordinal\<close>, day 1 is the first of January of year 1), the length of a month
  (\<open>calendar.monthrange\<close>), the weekday, and the range of years 1 to 9999 outside of which date
  arithmetic raises \<open>OverflowError\<close>.  Wall times are microseconds since the midnight that starts the
  first of January 1970.
\<close>

section \<open>Dates\<close>

definition is_leap :: "int \<Rightarrow> bool" where
  "is_leap y \<longleftrightarrow> y mod 4 = 0 \<and> (y mod 100 \<noteq> 0 \<or> y mod 400 = 0)"

definition days_in_month :: "int \<Rightarrow> int \<Rightarrow> int" where
  "days_in_month y m =
     (if m = 2 then (if is_leap y then 29 else 28) else if m \<in> {4, 6, 9, 11} then 30 else 31)"

definition days_before_year :: "int \<Rightarrow> int" where
  "days_before_year y = (let n = y - 1 in n * 365 + n div 4 - n div 100 + n div 400)"

text \<open>The days of a common year before a month.\<close>

fun month_start :: "nat \<Rightarrow> int" where
  "month_start n = [0, 0, 31, 59, 90, 120, 151, 181, 212, 243, 273, 304, 334] ! n"

definition days_before_month :: "int \<Rightarrow> int \<Rightarrow> int" where
  "days_before_month y m = month_start (nat m) + (if 2 < m \<and> is_leap y then 1 else 0)"

definition ymd2ord :: "int \<Rightarrow> int \<Rightarrow> int \<Rightarrow> int" where
  "ymd2ord y m d = days_before_year y + days_before_month y m + d"

text \<open>\<open>date.fromordinal\<close>: cycles of 400, 100, 4 and 1 years, then a first guess at the month that is
  right or one too large.\<close>

definition month_day :: "bool \<Rightarrow> int \<Rightarrow> int \<times> int" where
  "month_day leap n =
     (let month = (n + 50) div 32;
          preceding = month_start (nat month) + (if 2 < month \<and> leap then 1 else 0)
      in if n < preceding
         then let month = month - 1;
                  preceding = month_start (nat month) + (if 2 < month \<and> leap then 1 else 0)
              in (month, n - preceding + 1)
         else (month, n - preceding + 1))"

definition ord2ymd :: "int \<Rightarrow> int \<times> int \<times> int" where
  "ord2ymd ordinal =
     (let n = ordinal - 1;
          n400 = n div 146097; n = n mod 146097;
          n100 = n div 36524; n = n mod 36524;
          n4 = n div 1461; n = n mod 1461;
          n1 = n div 365; n = n mod 365;
          year = n400 * 400 + 1 + n100 * 100 + n4 * 4 + n1
      in if n1 = 4 \<or> n100 = 4 then (year - 1, 12, 31)
         else (let (m, d) = month_day (n1 = 3 \<and> (n4 \<noteq> 24 \<or> n100 = 3)) n in (year, m, d)))"

definition min_ordinal :: int where
  "min_ordinal = 1"

definition max_ordinal :: int where
  "max_ordinal = 3652059"

text \<open>\<open>date.weekday()\<close>: Monday is 0.\<close>

definition weekday :: "int \<Rightarrow> int" where
  "weekday ordinal = (ordinal + 6) mod 7"

section \<open>Wall times\<close>

definition epoch_ordinal :: int where
  "epoch_ordinal = 719163"

abbreviation day_length :: time where
  "day_length \<equiv> seconds 86400"

definition wall_date :: "time \<Rightarrow> int" where
  "wall_date t = t div day_length + epoch_ordinal"

definition wall_second :: "time \<Rightarrow> int" where
  "wall_second t = (t mod day_length) div 1000000"

definition wall_hour :: "time \<Rightarrow> int" where
  "wall_hour t = wall_second t div 3600"

definition wall_minute :: "time \<Rightarrow> int" where
  "wall_minute t = wall_second t mod 3600 div 60"

definition wall_time :: "int \<Rightarrow> int \<Rightarrow> int \<Rightarrow> int \<Rightarrow> time" where
  "wall_time ordinal h m s = (ordinal - epoch_ordinal) * day_length + seconds (h * 3600 + m * 60 + s)"

section \<open>Lemmas\<close>

lemma epoch_is_1970: "epoch_ordinal = ymd2ord 1970 1 1"
  by (simp add: epoch_ordinal_def ymd2ord_def days_before_year_def days_before_month_def)

lemma range_of_years: "min_ordinal = ymd2ord 1 1 1" "max_ordinal = ymd2ord 9999 12 31"
  by (simp_all add: min_ordinal_def max_ordinal_def ymd2ord_def days_before_year_def days_before_month_def is_leap_def)

text \<open>The month and day of the \<open>n\<close>-th day of a year, checked for every day.\<close>

definition month_day_ok :: "bool \<Rightarrow> int \<Rightarrow> bool" where
  "month_day_ok leap n = (case month_day leap n of (m, d) \<Rightarrow>
     1 \<le> m \<and> m \<le> 12 \<and> 1 \<le> d
     \<and> d \<le> (if m = 2 then (if leap then 29 else 28) else if m \<in> {4, 6, 9, 11} then 30 else 31)
     \<and> month_start (nat m) + (if 2 < m \<and> leap then 1 else 0) + d = n + 1)"

lemma month_day_table: "list_all (month_day_ok False) [0..364]" "list_all (month_day_ok True) [0..365]"
  by code_simp+

lemma month_day_correct:
  assumes "0 \<le> n" and "n < (if leap then 366 else 365)"
  shows "month_day_ok leap n"
proof -
  have "n \<in> set [0..(if leap then 365 else 364)]" using assms by (auto split: if_splits)
  with month_day_table show ?thesis unfolding list_all_iff by (cases leap) auto
qed

text \<open>Years counted in cycles.\<close>

lemma cycle_year:
  fixes a b c e :: int
  assumes "0 \<le> b" "b \<le> 3" "0 \<le> c" "c \<le> 24" "0 \<le> e" "e \<le> 3"
  shows "days_before_year (400 * a + 1 + 100 * b + 4 * c + e) = 146097 * a + 36524 * b + 1461 * c + 365 * e"
    and "is_leap (400 * a + 1 + 100 * b + 4 * c + e) \<longleftrightarrow> e = 3 \<and> (c \<noteq> 24 \<or> b = 3)"
proof -
  have "(400 * a + 100 * b + 4 * c + e) div 4 = 100 * a + 25 * b + c"
    using assms by (intro int_div_pos_eq [where r = e]) auto
  moreover have "(400 * a + 100 * b + 4 * c + e) div 100 = 4 * a + b"
    using assms by (intro int_div_pos_eq [where r = "4 * c + e"]) auto
  moreover have "(400 * a + 100 * b + 4 * c + e) div 400 = a"
    using assms by (intro int_div_pos_eq [where r = "100 * b + 4 * c + e"]) auto
  ultimately show "days_before_year (400 * a + 1 + 100 * b + 4 * c + e) = 146097 * a + 36524 * b + 1461 * c + 365 * e"
    by (simp add: days_before_year_def Let_def algebra_simps)
  have "(400 * a + 1 + 100 * b + 4 * c + e) mod 4 = 0 \<longleftrightarrow> e = 3"
  proof -
    have "400 * a + 1 + 100 * b + 4 * c + e = (1 + e) + (100 * a + 25 * b + c) * 4" by simp
    then have "(400 * a + 1 + 100 * b + 4 * c + e) mod 4 = (1 + e) mod 4" by (simp only: mod_mult_self1)
    then show ?thesis using assms by (cases "e = 3") auto
  qed
  moreover have "(400 * a + 1 + 100 * b + 4 * c + e) mod 100 = 0 \<longleftrightarrow> c = 24" if "e = 3"
  proof -
    have "400 * a + 1 + 100 * b + 4 * c + e = (4 * c + 4) + (4 * a + b) * 100" using that by simp
    then have "(400 * a + 1 + 100 * b + 4 * c + e) mod 100 = (4 * c + 4) mod 100" by (simp only: mod_mult_self1)
    then show ?thesis using assms by (cases "c = 24") auto
  qed
  moreover have "(400 * a + 1 + 100 * b + 4 * c + e) mod 400 = 0 \<longleftrightarrow> b = 3" if "e = 3" "c = 24"
  proof -
    have "400 * a + 1 + 100 * b + 4 * c + e = (100 * b + 100) + a * 400" using that by simp
    then have "(400 * a + 1 + 100 * b + 4 * c + e) mod 400 = (100 * b + 100) mod 400" by (simp only: mod_mult_self1)
    then show ?thesis using assms by (cases "b = 3") auto
  qed
  ultimately show "is_leap (400 * a + 1 + 100 * b + 4 * c + e) \<longleftrightarrow> e = 3 \<and> (c \<noteq> 24 \<or> b = 3)"
    unfolding is_leap_def by (cases "e = 3"; cases "c = 24") simp_all
qed

lemma ord2ymd_correct:
  assumes "ord2ymd ordinal = (y, m, d)"
  shows "ymd2ord y m d = ordinal" and "1 \<le> m" and "m \<le> 12" and "1 \<le> d" and "d \<le> days_in_month y m"
proof -
  define n400 where "n400 = (ordinal - 1) div 146097"
  define r400 where "r400 = (ordinal - 1) mod 146097"
  define n100 where "n100 = r400 div 36524"
  define r100 where "r100 = r400 mod 36524"
  define n4 where "n4 = r100 div 1461"
  define r4 where "r4 = r100 mod 1461"
  define n1 where "n1 = r4 div 365"
  define n where "n = r4 mod 365"
  note defs = n400_def r400_def n100_def r100_def n4_def r4_def n1_def n_def
  have sum: "ordinal - 1 = 146097 * n400 + 36524 * n100 + 1461 * n4 + 365 * n1 + n"
    unfolding defs by (simp add: minus_mult_div_eq_mod [symmetric])
  have parts: "36524 * n100 + r100 = r400" "1461 * n4 + r4 = r100" "365 * n1 + n = r4"
    by (simp_all add: defs)
  have rests: "0 \<le> r400" "r400 < 146097" "0 \<le> r100" "r100 < 36524" "0 \<le> r4" "r4 < 1461" "0 \<le> n" "n < 365"
    by (simp_all add: defs)
  have bounds: "0 \<le> n100" "n100 \<le> 4" "0 \<le> n4" "n4 \<le> 24" "0 \<le> n1" "n1 \<le> 4" "0 \<le> n" "n < 365"
    "n100 = 4 \<Longrightarrow> r100 \<le> 0" "n1 = 4 \<Longrightarrow> n \<le> 0"
    "n4 = 24 \<Longrightarrow> n1 \<le> 3"
    using parts rests by linarith+
  have eq: "ord2ymd ordinal = (if n1 = 4 \<or> n100 = 4 then (n400 * 400 + 1 + n100 * 100 + n4 * 4 + n1 - 1, 12, 31)
      else (case month_day (n1 = 3 \<and> (n4 \<noteq> 24 \<or> n100 = 3)) n of (m, d) \<Rightarrow> (n400 * 400 + 1 + n100 * 100 + n4 * 4 + n1, m, d)))"
    unfolding ord2ymd_def Let_def defs by simp
  have "ymd2ord y m d = ordinal \<and> 1 \<le> m \<and> m \<le> 12 \<and> 1 \<le> d \<and> d \<le> days_in_month y m"
  proof (cases "n1 = 4 \<or> n100 = 4")
    case True
    then have ymd: "y = n400 * 400 + n100 * 100 + n4 * 4 + n1" "m = 12" "d = 31"
      using eq assms by auto
    show ?thesis
    proof (cases "n1 = 4")
      case True
      have "n100 \<noteq> 4"
      proof
        assume "n100 = 4"
        with bounds(3) bounds(9) parts rests True show False by linarith
      qed
      with bounds(2) have "n100 \<le> 3" by simp
      with True bounds cycle_year [of n100 n4 3 n400] show ?thesis
        using sum by (auto simp: ymd ymd2ord_def days_before_month_def days_in_month_def algebra_simps)
    next
      case False
      with \<open>n1 = 4 \<or> n100 = 4\<close> have "n100 = 4" by simp
      then have "n4 = 0" "n1 = 0" "n = 0" using bounds(3,5) bounds(9) [OF \<open>n100 = 4\<close>] parts rests by linarith+
      with \<open>n100 = 4\<close> cycle_year [of 3 24 3 n400] show ?thesis
        using sum by (auto simp: ymd ymd2ord_def days_before_month_def days_in_month_def algebra_simps)
    qed
  next
    case False
    with bounds have b: "n100 \<le> 3" "n1 \<le> 3" by auto
    define leap where "leap = (n1 = 3 \<and> (n4 \<noteq> 24 \<or> n100 = 3))"
    from eq assms False have y: "y = 400 * n400 + 1 + 100 * n100 + 4 * n4 + n1" and md: "month_day leap n = (m, d)"
      by (auto simp: leap_def split: prod.splits)
    note year = cycle_year [OF bounds(1) b(1) bounds(3,4,5) b(2), of n400, folded y leap_def]
    have "month_day_ok leap n" using bounds(7,8) by (intro month_day_correct) auto
    with md year sum show ?thesis
      by (auto simp: month_day_ok_def ymd2ord_def days_before_month_def days_in_month_def)
  qed
  then show "ymd2ord y m d = ordinal" "1 \<le> m" "m \<le> 12" "1 \<le> d" "d \<le> days_in_month y m" by blast+
qed

end
