(* ===== verification/Cron_Syntax.thy ===== *)
theory Cron_Syntax
  imports Calendar Db_Layer
begin

text \<open>
  The cron expressions of \<^verbatim>\<open>cron.py\<close>: five or six fields with an optional time zone, lists,
  ranges that may wrap around, steps, month and weekday names, days counted from the end of the month,
  the \<open>n\<close>-th weekday of a month (\<open>#\<close>), every \<open>n\<close>-th week (\<open>%\<close>), \<open>&\<close> for days that
  have to match both day fields, and the specials such as \<open>@daily\<close>.  Text is ASCII.  A set of
  integers is its increasing list.  What the code takes from outside is a parameter: \<open>ZoneInfo\<close>.
\<close>

section \<open>Text\<close>

definition upper_char :: "char \<Rightarrow> char" where
  "upper_char c = (if 97 \<le> (of_char c :: nat) \<and> (of_char c :: nat) \<le> 122
     then char_of ((of_char c :: nat) - 32) else c)"

definition upper :: "string \<Rightarrow> string" where
  "upper s = map upper_char s"

text \<open>\<open>s.split(c)\<close> and \<open>s.split()\<close>.\<close>

fun split_on :: "char \<Rightarrow> string \<Rightarrow> string list" where
  "split_on c [] = [[]]"
| "split_on c (x # xs) =
     (if x = c then [] # split_on c xs
      else case split_on c xs of [] \<Rightarrow> [[x]] | y # ys \<Rightarrow> (x # y) # ys)"

fun split_words :: "string \<Rightarrow> string \<Rightarrow> string list" where
  "split_words w [] = (if w = [] then [] else [rev w])"
| "split_words w (c # cs) =
     (if is_space c then (if w = [] then split_words [] cs else rev w # split_words [] cs)
      else split_words (c # w) cs)"

definition words :: "string \<Rightarrow> string list" where
  "words s = split_words [] s"

fun join :: "string \<Rightarrow> string list \<Rightarrow> string" where
  "join sep [] = []"
| "join sep [x] = x"
| "join sep (x # y # ys) = x @ sep @ join sep (y # ys)"

text \<open>\<open>s.split(c, 1)\<close> for a separator that occurs.\<close>

definition split_once :: "char \<Rightarrow> string \<Rightarrow> string \<times> string" where
  "split_once c s = (takeWhile (\<lambda>x. x \<noteq> c) s, drop 1 (dropWhile (\<lambda>x. x \<noteq> c) s))"

text \<open>\<open>_INT_RE\<close> and \<open>int(text)\<close>.\<close>

definition unsigned :: "string \<Rightarrow> string" where
  "unsigned s = (case s of c # r \<Rightarrow> if c = CHR ''-'' \<or> c = CHR ''+'' then r else s | [] \<Rightarrow> [])"

definition is_int :: "string \<Rightarrow> bool" where
  "is_int s = isdecimal (unsigned s)"

definition int_of :: "string \<Rightarrow> int" where
  "int_of s = (case s of
      c # r \<Rightarrow> if c = CHR ''-'' then - int (nat_of_digits r)
              else if c = CHR ''+'' then int (nat_of_digits r) else int (nat_of_digits s)
    | [] \<Rightarrow> 0)"

definition value_error :: "string \<Rightarrow> error + 'a" where
  "value_error m = Inl (ValueError m)"

section \<open>Schedules\<close>

text \<open>Time zones: UTC, a fixed offset in microseconds, or a zone of the tz database with the offset
  from UTC at an instant and at a wall time read with \<open>fold=0\<close> or \<open>fold=1\<close> (PEP 495).\<close>

record zone =
  zone_key :: string
  offset_at :: "time \<Rightarrow> time"
  offset_of_wall :: "bool \<Rightarrow> time \<Rightarrow> time"

datatype tzinfo = Utc | Fixed time | Zone zone

type_synonym zone_info = "string \<Rightarrow> error + zone"

record field =
  f_values :: "int list"
  f_wildcard :: bool

record weekday_spec =
  ws_day :: int
  ws_nth :: "int option"
  ws_modulo :: "(int \<times> int) option"

record weekday_field =
  wf_specs :: "weekday_spec list"
  wf_wildcard :: bool

record schedule =
  s_seconds :: field
  s_minutes :: field
  s_hours :: field
  s_day_of_month :: field
  s_months :: field
  s_day_of_week :: weekday_field
  s_day_and :: bool
  s_timezone :: "tzinfo option"

definition specials :: "(string \<times> string) list" where
  "specials = [(''@yearly'', ''0 0 1 1 *''), (''@annually'', ''0 0 1 1 *''), (''@monthly'', ''0 0 1 * *''),
     (''@weekly'', ''0 0 * * 0''), (''@daily'', ''0 0 * * *''), (''@midnight'', ''0 0 * * *''),
     (''@noon'', ''0 12 * * *''), (''@hourly'', ''0 * * * *'')]"

definition month_names :: "(string \<times> int) list" where
  "month_names = [(''JAN'', 1), (''FEB'', 2), (''MAR'', 3), (''APR'', 4), (''MAY'', 5), (''JUN'', 6),
     (''JUL'', 7), (''AUG'', 8), (''SEP'', 9), (''OCT'', 10), (''NOV'', 11), (''DEC'', 12)]"

definition weekday_names :: "(string \<times> int) list" where
  "weekday_names = [(''SUN'', 0), (''MON'', 1), (''TUE'', 2), (''WED'', 3), (''THU'', 4), (''FRI'', 5), (''SAT'', 6)]"

definition normalize_hour :: "int \<Rightarrow> int" where
  "normalize_hour v = (if v = 24 then 0 else v)"

definition normalize_day_of_week :: "int \<Rightarrow> int" where
  "normalize_day_of_week v = (if v = 7 then 0 else v)"

section \<open>Items\<close>

definition field_items :: "string \<Rightarrow> error + string list" where
  "field_items expression =
     (let items = filter (\<lambda>i. i \<noteq> []) (map strip (split_on (CHR '','') expression))
      in if items = [] then value_error ''empty cron field'' else Inr items)"

definition parse_step :: "string \<Rightarrow> error + int" where
  "parse_step value =
     (if \<not> is_int value then value_error ''cron steps must be integers''
      else if int_of value \<le> 0 then value_error ''cron steps must be positive''
      else Inr (int_of value))"

definition split_step :: "string \<Rightarrow> error + string \<times> int \<times> bool" where
  "split_step item =
     (if item \<noteq> [] \<and> hd item = CHR ''/''
      then and_then (parse_step (tl item)) (\<lambda>step. Inr (''*'', step, True))
      else if CHR ''/'' \<notin> set item then Inr (item, 1, False)
      else if count_list item (CHR ''/'') \<noteq> 1 then value_error ''cron field items can contain one step''
      else let (range_text, step_text) = split_once (CHR ''/'') item;
               range_text = (if range_text = [] then ''*'' else range_text)
           in and_then (parse_step step_text) (\<lambda>step. Inr (range_text, step, True)))"

definition cyclic_values :: "int \<Rightarrow> int \<Rightarrow> int \<Rightarrow> int \<Rightarrow> int \<Rightarrow> (int \<Rightarrow> int) \<Rightarrow> int list" where
  "cyclic_values start end' minimum maximum step norm =
     (let raw_values = (if start \<le> end' then [start..end'] else [start..maximum] @ [minimum..end'])
      in map (\<lambda>(index, v). norm v) (filter (\<lambda>(index, v). int index mod step = 0) (enumerate 0 raw_values)))"

definition parse_simple_bound ::
  "int \<Rightarrow> int \<Rightarrow> (string \<times> int) list \<Rightarrow> string \<Rightarrow> error + int" where
  "parse_simple_bound minimum maximum names value =
     and_then (case map_of names (upper value) of
         Some n \<Rightarrow> Inr n
       | None \<Rightarrow> if is_int value then Inr (int_of value) else value_error ''invalid cron value'') (\<lambda>number.
       if number < minimum \<or> maximum < number then value_error ''cron value is outside the range'' else Inr number)"

definition parse_simple_range ::
  "int \<Rightarrow> int \<Rightarrow> (string \<times> int) list \<Rightarrow> string \<Rightarrow> error + int \<times> int \<times> bool" where
  "parse_simple_range minimum maximum names range_text =
     (if CHR ''-'' \<notin> set range_text
      then and_then (parse_simple_bound minimum maximum names range_text) (\<lambda>v. Inr (v, v, False))
      else let (start_text, end_text) = split_once (CHR ''-'') range_text
           in if start_text = [] \<or> end_text = [] then value_error ''cron ranges require a start and end''
              else and_then (parse_simple_bound minimum maximum names start_text) (\<lambda>s.
                and_then (parse_simple_bound minimum maximum names end_text) (\<lambda>e. Inr (s, e, True))))"

definition expand_simple_item ::
  "int \<Rightarrow> int \<Rightarrow> (string \<times> int) list \<Rightarrow> (int \<Rightarrow> int) \<Rightarrow> bool \<Rightarrow> bool \<Rightarrow> int list \<Rightarrow> string \<Rightarrow> error + int list \<times> bool" where
  "expand_simple_item minimum maximum names norm single_step_to_max full_range_is_wildcard all_values item =
     and_then (split_step item) (\<lambda>(range_text, step, stepped).
     and_then (if range_text = ''*'' then Inr (minimum, maximum, True)
         else and_then (parse_simple_range minimum maximum names range_text) (\<lambda>(start, end', has_range).
           let end' = (if stepped \<and> \<not> has_range \<and> single_step_to_max then maximum else end')
           in Inr (start, end', full_range_is_wildcard \<and> start = minimum \<and> end' = maximum))) (\<lambda>(start, end', full_range).
       let values = cyclic_values start end' minimum maximum step norm
       in Inr (values, step = 1 \<and> full_range \<and> set values = set all_values)))"

fun collect_items :: "(string \<Rightarrow> error + 'a list \<times> bool) \<Rightarrow> string list \<Rightarrow> error + 'a list \<times> bool" where
  "collect_items expand [] = Inr ([], False)"
| "collect_items expand (item # items) =
     and_then (expand item) (\<lambda>(vs, w).
     and_then (collect_items expand items) (\<lambda>(vs', w'). Inr (vs @ vs', w \<or> w')))"

definition as_set :: "int list \<Rightarrow> int list" where
  "as_set vs = sort (remdups vs)"

definition parse_simple_field ::
  "int \<Rightarrow> int \<Rightarrow> (string \<times> int) list \<Rightarrow> (int \<Rightarrow> int) \<Rightarrow> bool \<Rightarrow> bool \<Rightarrow> string \<Rightarrow> error + field" where
  "parse_simple_field minimum maximum names norm single_step_to_max full_range_is_wildcard expression =
     and_then (field_items expression) (\<lambda>items.
       let all_values = map norm [minimum..maximum] in
       and_then (collect_items (expand_simple_item minimum maximum names norm single_step_to_max
           full_range_is_wildcard all_values) items) (\<lambda>(values, wildcard).
         let values = (if wildcard then all_values else values)
         in if values = [] then value_error ''cron field has no values''
            else Inr \<lparr>f_values = as_set values, f_wildcard = wildcard\<rparr>))"

section \<open>Days of the month\<close>

definition monthday_token :: "string \<Rightarrow> bool" where
  "monthday_token t \<longleftrightarrow> lower t = ''last'' \<or> lower t = ''l''
     \<or> isdecimal (case t of c # r \<Rightarrow> if c = CHR ''-'' then r else t | [] \<Rightarrow> [])"

definition parse_monthday_bound :: "string \<Rightarrow> error + int" where
  "parse_monthday_bound value =
     (if lower value = ''l'' \<or> lower value = ''last'' then Inr (-1)
      else if \<not> is_int value then value_error ''invalid day-of-month value''
      else if int_of value = 0 \<or> int_of value < -31 \<or> 31 < int_of value
      then value_error ''day-of-month value is outside 1-31 or -31--1''
      else Inr (int_of value))"

text \<open>The regular expression \<open>(last|l|-?\d+)(?:-(last|l|-?\d+))?\<close>: the first dash after the first
  character separates the two bounds.\<close>

definition parse_monthday_range :: "string \<Rightarrow> error + int \<times> int \<times> bool" where
  "parse_monthday_range range_text =
     (if monthday_token range_text
      then and_then (parse_monthday_bound range_text) (\<lambda>s. Inr (s, s, False))
      else let (first, rest) = split_once (CHR ''-'') (tl range_text);
               start_text = take 1 range_text @ first
           in if CHR ''-'' \<in> set (tl range_text) \<and> monthday_token start_text \<and> monthday_token rest
              then and_then (parse_monthday_bound start_text) (\<lambda>s.
                and_then (parse_monthday_bound rest) (\<lambda>e. Inr (s, e, True)))
              else value_error ''invalid day-of-month value'')"

definition expand_monthday_item :: "string \<Rightarrow> error + int list \<times> bool" where
  "expand_monthday_item item =
     and_then (split_step item) (\<lambda>(range_text, step, stepped).
       if range_text = ''*'' then Inr (cyclic_values 1 31 1 31 step id, step = 1)
       else and_then (parse_monthday_range range_text) (\<lambda>(start, end', has_range).
         let end' = (if stepped \<and> \<not> has_range then (if 0 < start then 31 else -1) else end')
         in if 0 < start
            then let end' = (if end' < 0 then 31 else end')
                 in Inr (cyclic_values start end' 1 31 step id, step = 1 \<and> start = 1 \<and> end' = 31)
            else if 0 < end' then value_error ''negative day-of-month ranges must end with a negative value''
            else Inr (cyclic_values start end' (-31) (-1) step id, False)))"

definition parse_monthday_field :: "string \<Rightarrow> error + field" where
  "parse_monthday_field expression =
     and_then (field_items expression) (\<lambda>items.
     and_then (collect_items expand_monthday_item items) (\<lambda>(values, wildcard).
       let values = (if wildcard then [1..31] else values)
       in if values = [] then value_error ''cron day-of-month field has no values''
          else Inr \<lparr>f_values = as_set values, f_wildcard = wildcard\<rparr>))"

section \<open>Days of the week\<close>

definition parse_weekday_bound :: "string \<Rightarrow> error + int" where
  "parse_weekday_bound value =
     and_then (parse_simple_bound 0 7 weekday_names value) (\<lambda>n. Inr (normalize_day_of_week n))"

definition parse_hash_index :: "string \<Rightarrow> error + int" where
  "parse_hash_index value =
     (if \<not> is_int value then value_error ''weekday hash index must be an integer''
      else if int_of value = 0 \<or> int_of value < -5 \<or> 5 < int_of value
      then value_error ''weekday hash index must be between 1 and 5 or -1 and -5''
      else Inr (int_of value))"

definition parse_weekday_hash :: "string \<Rightarrow> error + weekday_spec" where
  "parse_weekday_hash item =
     (if count_list item (CHR ''#'') \<noteq> 1 then value_error ''weekday hash expressions can contain one #''
      else let (day_text, nth_text) = split_once (CHR ''#'') item
           in and_then (parse_weekday_bound day_text) (\<lambda>day.
              and_then (if lower nth_text = ''l'' \<or> lower nth_text = ''last'' then Inr (-1)
                  else parse_hash_index nth_text) (\<lambda>nth.
                Inr \<lparr>ws_day = day, ws_nth = Some nth, ws_modulo = None\<rparr>)))"

text \<open>\<open>_WEEKDAY_MODULO_RE\<close>: \<open>(\d+)(?:\+(\d+))?\<close>.\<close>

definition parse_weekday_modulo :: "string \<Rightarrow> error + weekday_spec" where
  "parse_weekday_modulo item =
     (if count_list item (CHR ''%'') \<noteq> 1 then value_error ''weekday modulo expressions can contain one %''
      else let (day_text, modulo_text) = split_once (CHR ''%'') item;
               (n_text, offset_text) = split_once (CHR ''+'') modulo_text;
               has_offset = CHR ''+'' \<in> set modulo_text
           in if \<not> isdecimal n_text \<or> has_offset \<and> \<not> isdecimal offset_text
              then value_error ''weekday modulo expressions must use %n or %n+offset''
              else let modulo = int (nat_of_digits n_text);
                       offset = (if has_offset then int (nat_of_digits offset_text) else 0)
                   in if modulo \<le> 0 then value_error ''weekday modulo must be positive''
                      else and_then (parse_weekday_bound day_text) (\<lambda>day.
                        Inr \<lparr>ws_day = day, ws_nth = None, ws_modulo = Some (modulo, offset)\<rparr>))"

definition weekday_spec_sort_key :: "weekday_spec \<Rightarrow> int \<times> int \<times> int \<times> int" where
  "weekday_spec_sort_key spec =
     (let (modulo, offset) = (case ws_modulo spec of None \<Rightarrow> (0, 0) | Some m \<Rightarrow> m)
      in (ws_day spec, (case ws_nth spec of None \<Rightarrow> 0 | Some n \<Rightarrow> n), modulo, offset))"

definition expand_weekday_item :: "string \<Rightarrow> error + weekday_spec list \<times> bool" where
  "expand_weekday_item item =
     (if CHR ''#'' \<in> set item then and_then (parse_weekday_hash item) (\<lambda>s. Inr ([s], False))
      else if CHR ''%'' \<in> set item then and_then (parse_weekday_modulo item) (\<lambda>s. Inr ([s], False))
      else and_then (parse_simple_field 0 7 weekday_names normalize_day_of_week False False item) (\<lambda>f.
        if f_wildcard f then Inr ([], True)
        else Inr (map (\<lambda>v. \<lparr>ws_day = v, ws_nth = None, ws_modulo = None\<rparr>) (f_values f), False)))"

definition parse_weekday_field :: "string \<Rightarrow> error + weekday_field" where
  "parse_weekday_field expression =
     and_then (field_items expression) (\<lambda>items.
     and_then (collect_items expand_weekday_item items) (\<lambda>(specs, wildcard).
       if wildcard then Inr \<lparr>wf_specs = [], wf_wildcard = True\<rparr>
       else if specs = [] then value_error ''cron day-of-week field has no values''
       else Inr \<lparr>wf_specs = sort_key weekday_spec_sort_key (remdups specs), wf_wildcard = False\<rparr>))"

section \<open>Whole expressions\<close>

definition strip_day_and :: "string \<Rightarrow> error + string \<times> bool" where
  "strip_day_and expression =
     (if expression = [] \<or> last expression \<noteq> CHR ''&'' then Inr (expression, False)
      else if butlast expression = [] then value_error ''cron day fields cannot contain only &''
      else Inr (butlast expression, True))"

text \<open>\<open>_OFFSET_RE\<close>: \<open>([+-])(\d{2})(?::?(\d{2}))?\<close>, the sign, the hours and the minutes.\<close>

definition offset_match :: "string \<Rightarrow> (char \<times> string \<times> string) option" where
  "offset_match value = (case value of
      c # r \<Rightarrow>
        (let hour_text = take 2 r; rest = drop 2 r;
             minute_text = (case rest of x # xs \<Rightarrow> if x = CHR '':'' then xs else rest | [] \<Rightarrow> [])
         in if (c = CHR ''+'' \<or> c = CHR ''-'') \<and> length hour_text = 2 \<and> isdecimal hour_text
            then (if rest = [] then Some (c, hour_text, [])
                  else if length minute_text = 2 \<and> isdecimal minute_text then Some (c, hour_text, minute_text)
                  else None)
            else None)
    | [] \<Rightarrow> None)"

definition parse_timezone :: "zone_info \<Rightarrow> string \<Rightarrow> bool \<Rightarrow> error + tzinfo option" where
  "parse_timezone zi value required =
     (if value = ''Z'' then Inr (Some Utc)
      else case offset_match value of
        Some (sign, hour_text, minute_text) \<Rightarrow>
          (let hours = int (nat_of_digits hour_text); minutes = int (nat_of_digits minute_text);
               offset = seconds (hours * 3600 + minutes * 60)
           in if 23 < hours \<or> 59 < minutes then value_error ''invalid timezone offset''
              else Inr (Some (Fixed (if sign = CHR ''-'' then - offset else offset))))
      | None \<Rightarrow>
          (case zi value of
             Inr z \<Rightarrow> Inr (Some (Zone z))
           | Inl (ZoneInfoNotFoundError _) \<Rightarrow> if required then value_error ''invalid timezone'' else Inr None
           | Inl e \<Rightarrow> Inl e))"

definition split_cron_schedule :: "zone_info \<Rightarrow> string \<Rightarrow> error + string list \<times> tzinfo option" where
  "split_cron_schedule zi text =
     (let fields = words text in
      if length fields = 5 then Inr (fields, None)
      else if length fields = 6
      then and_then (parse_timezone zi (last fields) False) (\<lambda>tz.
        if tz \<noteq> None then Inr (butlast fields, tz) else Inr (fields, None))
      else if length fields = 7
      then and_then (parse_timezone zi (last fields) True) (\<lambda>tz. Inr (butlast fields, tz))
      else value_error ''cron schedules must have five or six fields'')"

definition day_of_month_can_match :: "int \<Rightarrow> int \<Rightarrow> bool" where
  "day_of_month_can_match day month =
     (let month_length = days_in_month 2024 month
      in if 0 < day then day \<le> month_length
         else 1 \<le> month_length + 1 + day \<and> month_length + 1 + day \<le> month_length)"

definition ensure_possible_day_of_month :: "schedule \<Rightarrow> error + unit" where
  "ensure_possible_day_of_month s =
     (if f_wildcard (s_day_of_month s) then Inr ()
      else if \<not> s_day_and s \<and> \<not> wf_wildcard (s_day_of_week s) then Inr ()
      else if list_ex (\<lambda>month. list_ex (\<lambda>day. day_of_month_can_match day month) (f_values (s_day_of_month s)))
             (f_values (s_months s)) then Inr ()
      else value_error ''cron day of month is impossible for the selected months'')"

definition parse_fields :: "field \<Rightarrow> string list \<Rightarrow> tzinfo option \<Rightarrow> error + schedule" where
  "parse_fields secs texts tz = (case texts of
      [minute_text, hour_text, day_of_month_text, month_text, day_of_week_text] \<Rightarrow>
        and_then (strip_day_and day_of_month_text) (\<lambda>(day_of_month_text, dom_and).
        and_then (strip_day_and day_of_week_text) (\<lambda>(day_of_week_text, dow_and).
        and_then (parse_simple_field 0 59 [] id True True minute_text) (\<lambda>minutes.
        and_then (parse_simple_field 0 24 [] normalize_hour True True hour_text) (\<lambda>hours.
        and_then (parse_monthday_field day_of_month_text) (\<lambda>day_of_month.
        and_then (parse_simple_field 1 12 month_names id True True month_text) (\<lambda>months.
        and_then (parse_weekday_field day_of_week_text) (\<lambda>day_of_week.
          let parsed = \<lparr>s_seconds = secs, s_minutes = minutes, s_hours = hours, s_day_of_month = day_of_month,
                s_months = months, s_day_of_week = day_of_week, s_day_and = (dom_and \<or> dow_and), s_timezone = tz\<rparr>
          in and_then (ensure_possible_day_of_month parsed) (\<lambda>_. Inr parsed))))))))
    | _ \<Rightarrow> value_error ''cron schedules must have five or six fields'')"

definition parse_cron_schedule :: "zone_info \<Rightarrow> string \<Rightarrow> error + schedule" where
  "parse_cron_schedule zi text =
     and_then (split_cron_schedule zi text) (\<lambda>(fields, tz).
       if length fields = 6
       then and_then (parse_simple_field 0 59 [] id True True (hd fields)) (\<lambda>secs. parse_fields secs (tl fields) tz)
       else parse_fields \<lparr>f_values = [0], f_wildcard = False\<rparr> fields tz)"

definition expand_special :: "string \<Rightarrow> error + string" where
  "expand_special text =
     (if text = [] then value_error ''cron schedule cannot be empty''
      else if hd text \<noteq> CHR ''@'' then Inr text
      else (case words text of
          [] \<Rightarrow> value_error []
        | special # rest \<Rightarrow>
            (case map_of specials (lower special) of
               None \<Rightarrow> value_error (''unsupported cron special '' @ py_repr special)
             | Some expanded \<Rightarrow> Inr (join '' '' (expanded # rest)))))"

fun parse_all :: "zone_info \<Rightarrow> string list \<Rightarrow> error + schedule list" where
  "parse_all zi [] = Inr []"
| "parse_all zi (c # cs) = and_then (parse_cron_schedule zi c) (\<lambda>s. and_then (parse_all zi cs) (\<lambda>ss. Inr (s # ss)))"

end
