(* ===== verification/Cron_Natural.thy ===== *)
theory Cron_Natural
  imports Cron_Syntax
begin

text \<open>
  Schedules in natural language, \<^verbatim>\<open>cron.py\<close>: a text such as \<open>every weekday at 9am in Europe/Paris\<close> is cut
  into segments, the segments give slots, and the slots are printed as cron expressions.  The regular
  expressions of the code are written out as functions on strings; a set of values is the list of its
  elements in the order they are put in.
\<close>

section \<open>Tables\<close>

definition natural_segment_prefixes :: "string list" where
  "natural_segment_prefixes = [''every'', ''from'', ''at'', ''on'', ''in'']"

definition natural_weekday_names :: "(string \<times> int) list" where
  "natural_weekday_names = [(''sunday'', 0), (''sun'', 0), (''monday'', 1), (''mon'', 1), (''tuesday'', 2), (''tue'', 2),
     (''tues'', 2), (''wednesday'', 3), (''wed'', 3), (''thursday'', 4), (''thu'', 4), (''thur'', 4), (''thurs'', 4),
     (''friday'', 5), (''fri'', 5), (''saturday'', 6), (''sat'', 6)]"

definition natural_small_numbers :: "(string \<times> int) list" where
  "natural_small_numbers = [(''zero'', 0), (''oh'', 0), (''one'', 1), (''two'', 2), (''three'', 3), (''four'', 4),
     (''five'', 5), (''six'', 6), (''seven'', 7), (''eight'', 8), (''nine'', 9), (''ten'', 10), (''eleven'', 11),
     (''twelve'', 12), (''thirteen'', 13), (''fourteen'', 14), (''fifteen'', 15), (''sixteen'', 16),
     (''seventeen'', 17), (''eighteen'', 18), (''nineteen'', 19)]"

definition natural_tens :: "(string \<times> int) list" where
  "natural_tens = [(''twenty'', 20), (''thirty'', 30), (''forty'', 40), (''fifty'', 50)]"

definition natural_interval_units :: "(string \<times> string) list" where
  "natural_interval_units =
     map (\<lambda>u. (u, ''second'')) [''s'', ''sec'', ''secs'', ''second'', ''seconds'']
   @ map (\<lambda>u. (u, ''minute'')) [''m'', ''min'', ''mins'', ''minute'', ''minutes'']
   @ map (\<lambda>u. (u, ''hour'')) [''h'', ''hour'', ''hours'']
   @ map (\<lambda>u. (u, ''day'')) [''d'', ''day'', ''days'']
   @ map (\<lambda>u. (u, ''month'')) [''month'', ''months'']
   @ [(''week'', ''week''), (''year'', ''year'')]"

text \<open>A value of a field: an integer, or text such as \<open>*\<close>, \<open>*/5\<close>, \<open>1-5\<close> or \<open>L\<close>.\<close>

datatype natural_value = NInt int | NText string

definition natural_monthdays :: "(string \<times> natural_value) list" where
  "natural_monthdays =
     map (\<lambda>(w, n). (w, NInt n)) [(''1st'', 1), (''2nd'', 2), (''3rd'', 3), (''21st'', 21), (''22nd'', 22), (''23rd'', 23),
       (''31st'', 31), (''first'', 1), (''second'', 2), (''third'', 3), (''fourth'', 4), (''fifth'', 5), (''sixth'', 6),
       (''seventh'', 7), (''eighth'', 8), (''ninth'', 9), (''tenth'', 10), (''eleventh'', 11), (''twelfth'', 12),
       (''thirteenth'', 13), (''fourteenth'', 14), (''fifteenth'', 15), (''sixteenth'', 16), (''seventeenth'', 17),
       (''eighteenth'', 18), (''nineteenth'', 19), (''twentieth'', 20), (''twenty-first'', 21), (''twenty-second'', 22),
       (''twenty-third'', 23), (''twenty-fourth'', 24), (''twenty-fifth'', 25), (''twenty-sixth'', 26),
       (''twenty-seventh'', 27), (''twenty-eighth'', 28), (''twenty-ninth'', 29), (''thirtieth'', 30),
       (''thirty-first'', 31)]
   @ [(''last'', NText ''L'')]
   @ map (\<lambda>day. (str_int day @ ''th'', NInt day)) [4..30]"

section \<open>Slots\<close>

text \<open>What a slot holds for the hours or the minutes, and the grade that says which of two slots wins:
  \<open>None\<close>, \<open>True\<close>, or the index 0 or 1.\<close>

datatype natural_data = NNone | NOne natural_value | NMany "natural_value list"

datatype grade = NoGrade | Whole | Index nat

record natural_slot =
  ns_key :: string
  ns_data0 :: natural_data
  ns_data1 :: natural_data
  ns_weak :: grade
  ns_strong :: grade

definition slot :: "string \<Rightarrow> natural_data \<Rightarrow> natural_data \<Rightarrow> natural_slot" where
  "slot key data0 data1 = \<lparr>ns_key = key, ns_data0 = data0, ns_data1 = data1, ns_weak = NoGrade, ns_strong = NoGrade\<rparr>"

abbreviation star :: natural_data where
  "star \<equiv> NOne (NText ''*'')"

abbreviation nint :: "int \<Rightarrow> natural_data" where
  "nint n \<equiv> NOne (NInt n)"

text \<open>\<open>grade == index\<close>, where \<open>True == 1\<close>, and the truth value of a grade, where 0 counts as false.\<close>

definition grade_eq :: "grade \<Rightarrow> nat \<Rightarrow> bool" where
  "grade_eq g index \<longleftrightarrow> g = Index index \<or> g = Whole \<and> index = 1"

definition graded :: "grade \<Rightarrow> bool" where
  "graded g \<longleftrightarrow> g = Whole \<or> g = Index 1"

fun data_values :: "natural_data \<Rightarrow> natural_value list" where
  "data_values NNone = []"
| "data_values (NOne v) = [v]"
| "data_values (NMany vs) = vs"

text \<open>\<open>_NaturalSlot.values\<close>.\<close>

definition slot_values :: "natural_slot \<Rightarrow> nat \<Rightarrow> natural_value list" where
  "slot_values s index = data_values (if index = 0 then ns_data0 s else ns_data1 s)"

text \<open>\<open>_natural_data_values\<close>: the star adds nothing to a list.\<close>

definition natural_data_values :: "natural_data \<Rightarrow> natural_value list" where
  "natural_data_values v = (if v = star then [] else data_values v)"

definition natural_hour_range :: "int \<times> int \<Rightarrow> natural_data" where
  "natural_hour_range r = (case r of (start, end') \<Rightarrow>
     (let end' = end' - 1 in if start = end' then nint start else NOne (NText (str_int start @ ''-'' @ str_int end'))))"

definition slot_hour_range :: "natural_slot \<Rightarrow> (int \<times> int) option" where
  "slot_hour_range s =
     (if ns_key s \<noteq> ''hm'' \<or> ns_data1 s \<noteq> nint 0 then None
      else case ns_data0 s of
          NOne (NText t) \<Rightarrow>
            (let (a, b) = split_once CHR ''-'' t
             in if CHR ''-'' \<in> set t \<and> isdecimal a \<and> isdecimal b then Some (int (nat_of_digits a), int (nat_of_digits b))
                else None)
        | _ \<Rightarrow> None)"

definition slot_conflate :: "natural_slot \<Rightarrow> natural_slot \<Rightarrow> nat \<Rightarrow> natural_data" where
  "slot_conflate s other index =
     (let left = (if index = 0 then ns_data0 s else ns_data1 s);
          right = (if index = 0 then ns_data0 other else ns_data1 other)
      in if right = NNone then left
         else if left = NNone then right
         else if index = 0 \<and> grade_eq (ns_strong other) 1 \<and> slot_hour_range s \<noteq> None
         then natural_hour_range (the (slot_hour_range s))
         else if index = 0 \<and> grade_eq (ns_strong s) 1 \<and> slot_hour_range other \<noteq> None
         then natural_hour_range (the (slot_hour_range other))
         else if grade_eq (ns_strong s) index \<or> ns_strong s = Whole then left
         else if grade_eq (ns_strong other) index \<or> ns_strong other = Whole then right
         else if grade_eq (ns_weak other) index \<or> ns_weak other = Whole then left
         else if grade_eq (ns_weak s) index \<or> ns_weak s = Whole then right
         else if left = star \<and> right = star then star
         else NMany (natural_data_values left @ natural_data_values right))"

definition slot_append :: "natural_slot \<Rightarrow> natural_slot \<Rightarrow> natural_slot" where
  "slot_append s other = s\<lparr>ns_data0 := slot_conflate s other 0, ns_data1 := slot_conflate s other 1,
     ns_weak := NoGrade, ns_strong := NoGrade\<rparr>"

section \<open>Words and lists\<close>

definition is_alpha :: "char \<Rightarrow> bool" where
  "is_alpha c \<longleftrightarrow> (let n = (of_char c :: nat) in 65 \<le> n \<and> n \<le> 90 \<or> 97 \<le> n \<and> n \<le> 122)"

text \<open>\<open>\w\<close> and the boundary \<open>\b\<close> after a word.\<close>

definition is_word :: "char \<Rightarrow> bool" where
  "is_word c \<longleftrightarrow> is_alpha c \<or> is_digit c \<or> c = CHR ''_''"

definition ends_word :: "string \<Rightarrow> bool" where
  "ends_word rest \<longleftrightarrow> rest = [] \<or> \<not> is_word (hd rest)"

definition word_at :: "string \<Rightarrow> string \<Rightarrow> bool" where
  "word_at w s \<longleftrightarrow> is_prefix_of w (lower s) \<and> ends_word (drop (length w) s)"

text \<open>\<open>word\s+(.+)\<close> on a text without outer spaces.\<close>

definition after_word :: "string list \<Rightarrow> string \<Rightarrow> string option" where
  "after_word ws s =
     (let w = takeWhile (\<lambda>c. \<not> is_space c) s; rest = dropWhile (\<lambda>c. \<not> is_space c) s
      in if w \<in> set ws \<and> rest \<noteq> [] then Some (dropWhile is_space rest) else None)"

definition strip_suffix :: "string \<Rightarrow> string \<Rightarrow> string option" where
  "strip_suffix suffix s =
     (if length suffix \<le> length s \<and> drop (length s - length suffix) s = suffix
      then Some (take (length s - length suffix) s) else None)"

text \<open>\<open>_NATURAL_LIST_RE.split\<close>, up to the spaces around the parts; the flag says whether the character before is part of
  a word.\<close>

function split_natural_list :: "bool \<Rightarrow> string \<Rightarrow> string list" where
  "split_natural_list inside [] = [[]]"
| "split_natural_list inside (c # cs) =
     (if c = CHR '','' then [] # split_natural_list False cs
      else if \<not> inside \<and> word_at ''and'' (c # cs) then [] # split_natural_list True (drop 2 cs)
      else if \<not> inside \<and> word_at ''or'' (c # cs) then [] # split_natural_list True (drop 1 cs)
      else case split_natural_list (is_word c) cs of [] \<Rightarrow> [[c]] | y # ys \<Rightarrow> (c # y) # ys)"
  by pat_completeness auto
termination by (relation "measure (length \<circ> snd)") auto

definition natural_parts :: "string \<Rightarrow> string list" where
  "natural_parts s = filter (\<lambda>p. p \<noteq> []) (map strip (split_natural_list False s))"

definition natural_list_parts :: "string \<Rightarrow> error + string list" where
  "natural_list_parts s =
     (if natural_parts s = [] then value_error ''natural list has no values'' else Inr (natural_parts s))"

definition natural_time_parts :: "string \<Rightarrow> error + string list" where
  "natural_time_parts s =
     (if natural_parts s = [] then value_error ''natural schedule has no time'' else Inr (natural_parts s))"

fun map_all :: "('a \<Rightarrow> error + 'b) \<Rightarrow> 'a list \<Rightarrow> error + 'b list" where
  "map_all f [] = Inr []"
| "map_all f (x # xs) = and_then (f x) (\<lambda>y. and_then (map_all f xs) (\<lambda>ys. Inr (y # ys)))"

text \<open>\<open>try ... except ValueError\<close>.\<close>

definition or_else :: "error + 'a \<Rightarrow> error + 'a \<Rightarrow> error + 'a" where
  "or_else r other = (case r of Inl (ValueError _) \<Rightarrow> other | _ \<Rightarrow> r)"

text \<open>\<open>re.sub(r"\bthe\s+", "", s)\<close>.\<close>

function drop_the :: "bool \<Rightarrow> string \<Rightarrow> string" where
  "drop_the inside [] = []"
| "drop_the inside (c # cs) =
     (if \<not> inside \<and> is_prefix_of ''the'' (c # cs) \<and> drop 2 cs \<noteq> [] \<and> is_space (hd (drop 2 cs))
      then drop_the False (dropWhile is_space (drop 2 cs))
      else c # drop_the (is_word c) cs)"
  by pat_completeness auto
termination
proof (relation "measure (length \<circ> snd)")
  fix inside c cs
  show "((False, dropWhile is_space (drop 2 cs)), inside, c # cs) \<in> measure (length \<circ> snd)"
    using length_dropWhile_le [of is_space "drop 2 cs"] by simp
qed auto

section \<open>Numbers, times and ranges\<close>

fun split_dash_space :: "string \<Rightarrow> string list" where
  "split_dash_space [] = [[]]"
| "split_dash_space (c # cs) =
     (if c = CHR ''-'' \<or> c = CHR '' '' then [] # split_dash_space cs
      else case split_dash_space cs of [] \<Rightarrow> [[c]] | y # ys \<Rightarrow> (c # y) # ys)"

definition parse_natural_number_word :: "string \<Rightarrow> error + int" where
  "parse_natural_number_word s =
     (case map_of natural_small_numbers s of
        Some n \<Rightarrow> Inr n
      | None \<Rightarrow>
          (case map_of natural_tens s of
             Some n \<Rightarrow> Inr n
           | None \<Rightarrow>
               (case split_dash_space s of
                  [a, b] \<Rightarrow>
                    (case (map_of natural_tens a, map_of natural_small_numbers b) of
                       (Some m, Some n) \<Rightarrow> Inr (m + n)
                     | _ \<Rightarrow> value_error (''invalid natural number '' @ py_repr s))
                | _ \<Rightarrow> value_error (''invalid natural number '' @ py_repr s))))"

definition parse_natural_number :: "int \<Rightarrow> int \<Rightarrow> string \<Rightarrow> error + int" where
  "parse_natural_number minimum maximum s =
     (let normalized = lower (strip s)
      in and_then (if is_int normalized then Inr (int_of normalized) else parse_natural_number_word normalized) (\<lambda>number.
           if number < minimum \<or> maximum < number
           then value_error (''natural number '' @ str_int number @ '' is outside '' @ str_int minimum @ ''-'' @ str_int maximum)
           else Inr number))"

definition adjust_natural_hour :: "int \<Rightarrow> string option \<Rightarrow> int" where
  "adjust_natural_hour hour meridiem =
     (if meridiem \<in> {Some ''pm'', Some ''noon'', Some ''midday''} \<and> hour < 12 then hour + 12
      else if meridiem = Some ''am'' \<and> hour = 12 then 0
      else if meridiem = Some ''midnight'' \<and> hour = 12 then 0
      else hour)"

text \<open>\<open>(.+?)(?:\s*(am|pm|noon|midday|midnight))?\<close>: the shortest clock text that leaves a word of the list or nothing.\<close>

fun split_meridiem :: "string \<Rightarrow> string \<Rightarrow> string \<times> string option" where
  "split_meridiem taken [] = (rev taken, None)"
| "split_meridiem taken (c # cs) =
     (let rest = dropWhile is_space (c # cs)
      in if rest \<in> set [''am'', ''pm'', ''noon'', ''midday'', ''midnight''] then (rev taken, Some rest)
         else split_meridiem (c # taken) cs)"

definition parse_natural_time :: "string \<Rightarrow> error + int \<times> int" where
  "parse_natural_time time_text =
     (let collapsed = join '' '' (words (lower time_text));
          normalized = (case strip_suffix ('' o'' @ [CHR 0x27] @ ''clock'') collapsed of Some s \<Rightarrow> s | None \<Rightarrow> collapsed)
      in if normalized = ''noon'' \<or> normalized = ''midday'' then Inr (12, 0)
         else if normalized = ''midnight'' then Inr (0, 0)
         else case normalized of
             [] \<Rightarrow> value_error (''invalid natural time '' @ py_repr time_text)
           | c # cs \<Rightarrow>
               (let (clock_text, meridiem) = split_meridiem [c] cs
                in and_then
                     (if CHR '':'' \<in> set clock_text
                      then let (hour_text, minute_text) = split_once CHR '':'' clock_text
                           in and_then (parse_natural_number 0 24 hour_text) (\<lambda>hour.
                              and_then (parse_natural_number 0 59 minute_text) (\<lambda>minute. Inr (hour, minute)))
                      else (case words clock_text of
                              [hour_text] \<Rightarrow> and_then (parse_natural_number 0 24 hour_text) (\<lambda>hour. Inr (hour, 0))
                            | [hour_text, minute_text] \<Rightarrow>
                                and_then (parse_natural_number 0 24 hour_text) (\<lambda>hour.
                                and_then (parse_natural_number 0 59 minute_text) (\<lambda>minute. Inr (hour, minute)))
                            | [] \<Rightarrow> Inl (LookupError ''list index out of range'')
                            | _ \<Rightarrow> value_error (''invalid natural time '' @ py_repr time_text)))
                     (\<lambda>(hour, minute). Inr (adjust_natural_hour hour meridiem, minute))))"

text \<open>\<open>(.+?)\s*(?:-|\bto\b|\bthrough\b)\s*(.+)\<close>: what is taken so far, backwards and not empty, and the rest.\<close>

definition range_separator :: "char \<Rightarrow> string \<Rightarrow> string option" where
  "range_separator prev s =
     (let rest = dropWhile is_space s;
          prev = (if s \<noteq> [] \<and> is_space (hd s) then CHR '' '' else prev);
          after = (if rest \<noteq> [] \<and> hd rest = CHR ''-'' then Some (tl rest)
            else if \<not> is_word prev \<and> word_at ''to'' rest then Some (drop 2 rest)
            else if \<not> is_word prev \<and> word_at ''through'' rest then Some (drop 7 rest)
            else None)
      in if after = Some [] then None else after)"

fun find_range :: "string \<Rightarrow> char \<Rightarrow> string \<Rightarrow> (string \<times> string) option" where
  "find_range taken prev [] = None"
| "find_range taken prev (c # cs) =
     (case range_separator prev (c # cs) of
        Some rest \<Rightarrow> Some (rev (prev # taken), rest)
      | None \<Rightarrow> find_range (prev # taken) c cs)"

definition split_natural_range :: "string \<Rightarrow> error + string \<times> string" where
  "split_natural_range segment =
     (case drop_the False (lower (strip segment)) of
        [] \<Rightarrow> value_error (''invalid natural range '' @ py_repr segment)
      | c # cs \<Rightarrow>
          (case find_range [] c cs of
             None \<Rightarrow> value_error (''invalid natural range '' @ py_repr segment)
           | Some (a, b) \<Rightarrow> Inr (strip a, strip b)))"

definition natural_weekday_number :: "string \<Rightarrow> error + int" where
  "natural_weekday_number s = (case map_of natural_weekday_names (lower (strip s)) of
      Some n \<Rightarrow> Inr n | None \<Rightarrow> value_error (''invalid natural weekday '' @ py_repr s))"

definition weekday_range :: "string \<Rightarrow> error + natural_value" where
  "weekday_range s = and_then (split_natural_range s) (\<lambda>(start_text, end_text).
     and_then (natural_weekday_number start_text) (\<lambda>a. and_then (natural_weekday_number end_text) (\<lambda>b.
       Inr (NText (str_int a @ ''-'' @ str_int b)))))"

text \<open>\<open>re.search(r"(?:-|\bto\b|\bthrough\b)", value)\<close>.\<close>

fun has_range_mark :: "bool \<Rightarrow> string \<Rightarrow> bool" where
  "has_range_mark inside [] = False"
| "has_range_mark inside (c # cs) =
     (c = CHR ''-'' \<or> \<not> inside \<and> (word_at ''to'' (c # cs) \<or> word_at ''through'' (c # cs)) \<or> has_range_mark (is_word c) cs)"

definition parse_weekday_part :: "string \<Rightarrow> error + natural_value" where
  "parse_weekday_part s =
     (if has_range_mark False s then weekday_range s else and_then (natural_weekday_number s) (\<lambda>n. Inr (NInt n)))"

definition parse_weekday_list :: "string \<Rightarrow> error + natural_data" where
  "parse_weekday_list s = and_then (natural_list_parts s) (\<lambda>parts.
     and_then (map_all parse_weekday_part parts) (\<lambda>vs. Inr (NMany vs)))"

definition parse_monthday_value :: "string \<Rightarrow> error + natural_value" where
  "parse_monthday_value s =
     (let normalized = drop_the False (lower (strip s))
      in if is_int normalized \<and> 1 \<le> int_of normalized \<and> int_of normalized \<le> 31 then Inr (NInt (int_of normalized))
         else (case map_of natural_monthdays normalized of
             Some v \<Rightarrow> Inr v | None \<Rightarrow> value_error (''invalid natural monthday '' @ py_repr s)))"

definition parse_monthday_list :: "string \<Rightarrow> error + natural_data" where
  "parse_monthday_list s = and_then (natural_list_parts s) (\<lambda>parts.
     and_then (map_all parse_monthday_value parts) (\<lambda>vs. Inr (NMany vs)))"

definition parse_number_list :: "string \<Rightarrow> error + natural_data" where
  "parse_number_list s = and_then (natural_list_parts s) (\<lambda>parts.
     and_then (map_all (parse_natural_number 0 59) parts) (\<lambda>ns. Inr (NMany (map NInt ns))))"

fun str_value :: "natural_value \<Rightarrow> string" where
  "str_value (NInt n) = str_int n"
| "str_value (NText t) = t"

definition parse_weekday_range_slot :: "string \<Rightarrow> error + natural_slot" where
  "parse_weekday_range_slot segment = and_then (weekday_range segment) (\<lambda>v. Inr (slot ''weekday'' (NOne v) NNone))"

definition parse_monthday_range_slot :: "string \<Rightarrow> error + natural_slot" where
  "parse_monthday_range_slot segment = and_then (split_natural_range segment) (\<lambda>(start_text, end_text).
     if is_int start_text \<and> is_int end_text then value_error (''invalid natural monthday range '' @ py_repr segment)
     else and_then (parse_monthday_value start_text) (\<lambda>a. and_then (parse_monthday_value end_text) (\<lambda>b.
       Inr (slot ''monthday'' (NOne (NText (str_value a @ ''-'' @ str_value b))) NNone))))"

definition parse_hour_range_slot :: "string \<Rightarrow> error + natural_slot" where
  "parse_hour_range_slot segment = and_then (split_natural_range segment) (\<lambda>(start_text, end_text).
     and_then (parse_natural_time start_text) (\<lambda>(start_hour, start_minute).
     and_then (parse_natural_time end_text) (\<lambda>(end_hour, end_minute).
       if start_minute \<noteq> end_minute then value_error ''natural hour ranges must use the same minute value''
       else Inr ((slot ''hm'' (NOne (NText (str_int start_hour @ ''-'' @ str_int end_hour))) (nint start_minute))
              \<lparr>ns_strong := Index 0\<rparr>))))"

section \<open>Segments\<close>

definition parse_timezone_slot :: "zone_info \<Rightarrow> string \<Rightarrow> error + natural_slot" where
  "parse_timezone_slot zi segment =
     (let timezone_text = strip segment
      in and_then (parse_timezone zi timezone_text False) (\<lambda>tz.
           if tz = None then value_error (''invalid timezone '' @ py_repr timezone_text)
           else Inr (slot ''tz'' (NOne (NText timezone_text)) NNone)))"

definition split_at_timezone :: "zone_info \<Rightarrow> string \<Rightarrow> error + string \<times> string option" where
  "split_at_timezone zi segment =
     (let parts = words segment
      in if length parts < 2 then Inr (strip segment, None)
         else and_then (parse_timezone zi (last parts) False) (\<lambda>tz.
           if tz = None then Inr (strip segment, None) else Inr (strip (join '' '' (butlast parts)), Some (last parts))))"

text \<open>Slots whose minutes are given: \<open>strong=1\<close>.\<close>

definition minute_slot :: "natural_data \<Rightarrow> natural_slot" where
  "minute_slot minutes = (slot ''hm'' star minutes)\<lparr>ns_strong := Index 1\<rparr>"

definition parse_at_segment :: "zone_info \<Rightarrow> string \<Rightarrow> error + natural_slot list" where
  "parse_at_segment zi segment =
     and_then (split_at_timezone zi segment) (\<lambda>(segment, timezone_text).
     and_then
       (let low = lower (strip segment)
        in if low = ''the hour'' \<or> low = ''hour'' then Inr [minute_slot (nint 0)]
           else if low = ''the minute'' \<or> low = ''minute'' then Inr [minute_slot star]
           else case after_word [''minute'', ''minutes'', ''min'', ''mins''] low of
               Some rest \<Rightarrow> and_then (parse_number_list rest) (\<lambda>ns. Inr [minute_slot ns])
             | None \<Rightarrow>
           (case after_word [''second'', ''seconds'', ''sec'', ''secs''] low of
               Some rest \<Rightarrow> and_then (parse_number_list rest) (\<lambda>ns. Inr [slot ''second'' ns NNone])
             | None \<Rightarrow>
           (case after_word [''hour'', ''hours'', ''hou'', ''h''] low of
               Some rest \<Rightarrow> and_then (parse_number_list rest) (\<lambda>ns. Inr [slot ''hm'' ns (nint 0)])
             | None \<Rightarrow>
                 and_then (natural_time_parts segment) (\<lambda>parts.
                 and_then (map_all parse_natural_time parts) (\<lambda>times.
                   Inr (map (\<lambda>(hour, minute). slot ''hm'' (nint hour) (nint minute)) times))))))
       (\<lambda>slots. Inr (slots @ (case timezone_text of None \<Rightarrow> [] | Some t \<Rightarrow> [slot ''tz'' (NOne (NText t)) NNone]))))"

definition parse_from_segment :: "string \<Rightarrow> error + natural_slot list" where
  "parse_from_segment segment =
     or_else (and_then (parse_weekday_range_slot segment) (\<lambda>s. Inr [s]))
     (or_else (and_then (parse_monthday_range_slot segment) (\<lambda>s. Inr [s]))
     (or_else (and_then (parse_hour_range_slot segment) (\<lambda>s. Inr [s]))
       (value_error (''invalid natural from expression '' @ py_repr segment))))"

definition interval_maximum :: "(string \<times> int) list" where
  "interval_maximum = [(''second'', 59), (''minute'', 59), (''hour'', 23), (''day'', 31), (''month'', 12)]"

definition validate_natural_interval_count :: "int \<Rightarrow> string \<Rightarrow> error + unit" where
  "validate_natural_interval_count n unit = (case map_of interval_maximum unit of
      Some maximum \<Rightarrow>
        if maximum < n then value_error (''natural '' @ unit @ '' intervals cannot exceed '' @ str_int maximum) else Inr ()
    | None \<Rightarrow> Inr ())"

text \<open>\<open>(\d+)([A-Za-z]+)\<close> or \<open>(?:(\d+)\s+)?([A-Za-z]+)\<close>: the count, if any, and the unit.\<close>

definition interval_match :: "string \<Rightarrow> (string option \<times> string) option" where
  "interval_match s =
     (let digits = takeWhile is_digit s; rest = dropWhile is_digit s;
          unit_text = (if digits = [] then rest else dropWhile is_space rest)
      in if unit_text \<noteq> [] \<and> list_all is_alpha unit_text
         then Some (if digits = [] then None else Some digits, unit_text) else None)"

definition parse_every_interval_slot :: "string \<Rightarrow> error + natural_slot list option" where
  "parse_every_interval_slot subject = (case interval_match subject of
      None \<Rightarrow> Inr None
    | Some (count_text, unit_text) \<Rightarrow>
        (case (if unit_text = ''M'' then Some ''month'' else map_of natural_interval_units (lower unit_text)) of
           None \<Rightarrow> Inr None
         | Some unit \<Rightarrow>
             (let n = (case count_text of None \<Rightarrow> 1 | Some t \<Rightarrow> int (nat_of_digits t));
                  step = (if n = 1 then star else NOne (NText (''*/'' @ str_int n)))
              in if n \<le> 0 then value_error ''natural interval count must be positive''
                 else and_then (validate_natural_interval_count n unit) (\<lambda>_.
                   if unit = ''second'' then Inr (Some [slot ''second'' step NNone])
                   else if unit = ''minute'' then Inr (Some [minute_slot step])
                   else if unit = ''hour'' then Inr (Some [(slot ''hm'' step (nint 0))\<lparr>ns_weak := Index 1\<rparr>])
                   else if unit = ''day'' then Inr (Some [(slot ''monthday'' step NNone)\<lparr>ns_weak := Whole\<rparr>])
                   else if unit = ''month'' then Inr (Some [slot ''month'' step NNone])
                   else if unit = ''week''
                   then (if n \<noteq> 1 then value_error ''natural week intervals only support every week''
                         else Inr (Some [(slot ''weekday'' (nint 0) NNone)\<lparr>ns_weak := Whole\<rparr>]))
                   else if n \<noteq> 1 then value_error ''natural year intervals only support every year''
                   else Inr (Some [(slot ''month'' (nint 1) NNone)\<lparr>ns_weak := Whole\<rparr>,
                                   (slot ''monthday'' (nint 1) NNone)\<lparr>ns_weak := Whole\<rparr>])))))"

text \<open>\<open>(.+)\s+of the month\<close>: the longest first part.\<close>

definition of_the_month :: "string \<Rightarrow> string option" where
  "of_the_month s = (case strip_suffix ''of the month'' s of
      Some front \<Rightarrow> if 2 \<le> length front \<and> is_space (last front) then Some (butlast front) else None
    | None \<Rightarrow> None)"

definition parse_every_subject :: "string \<Rightarrow> error + natural_slot list" where
  "parse_every_subject subject =
     (let normalized = strip subject; low = lower normalized
      in if low = ''weekday'' \<or> low = ''weekdays'' then Inr [(slot ''weekday'' (NOne (NText ''1-5'')) NNone)\<lparr>ns_weak := Whole\<rparr>]
         else and_then (parse_every_interval_slot normalized) (\<lambda>interval. case interval of
             Some slots \<Rightarrow> Inr slots
           | None \<Rightarrow>
               (case of_the_month low of
                  Some days \<Rightarrow> and_then (parse_monthday_list days) (\<lambda>vs. Inr [slot ''monthday'' vs NNone])
                | None \<Rightarrow> and_then (parse_weekday_list low) (\<lambda>vs. Inr [slot ''weekday'' vs NNone]))))"

definition parse_on_object :: "string \<Rightarrow> error + natural_slot list" where
  "parse_on_object segment =
     (let low = lower (strip segment)
      in case after_word [''day'', ''days''] low of
          Some rest \<Rightarrow> and_then (parse_monthday_list rest) (\<lambda>vs. Inr [slot ''monthday'' vs NNone])
        | None \<Rightarrow>
      (case after_word [''minute'', ''minutes''] low of
          Some rest \<Rightarrow> and_then (parse_number_list rest) (\<lambda>ns. Inr [minute_slot ns])
        | None \<Rightarrow>
      (case after_word [''second'', ''seconds''] low of
          Some rest \<Rightarrow> and_then (parse_number_list rest) (\<lambda>ns. Inr [slot ''second'' ns NNone])
        | None \<Rightarrow>
      if low = ''hour'' \<or> after_word [''the''] low = Some ''hour'' then Inr [minute_slot (nint 0)]
      else if low = ''minute'' \<or> after_word [''the''] low = Some ''minute'' then Inr [minute_slot star]
      else (case after_word [''the''] low of
          Some rest \<Rightarrow> and_then (parse_monthday_list rest) (\<lambda>vs. Inr [slot ''monthday'' vs NNone])
        | None \<Rightarrow> and_then (parse_weekday_list low) (\<lambda>vs. Inr [slot ''weekday'' vs NNone])))))"

text \<open>A subject followed by a time: every place to cut the words is tried in order.\<close>

fun try_splits :: "zone_info \<Rightarrow> (string \<Rightarrow> error + natural_slot list) \<Rightarrow> string \<Rightarrow> string list \<Rightarrow> nat list
    \<Rightarrow> error + natural_slot list" where
  "try_splits zi parse message tokens [] = value_error message"
| "try_splits zi parse message tokens (index # rest) =
     or_else (and_then (parse (join '' '' (take index tokens))) (\<lambda>slots.
         and_then (parse_at_segment zi (join '' '' (drop index tokens))) (\<lambda>times. Inr (slots @ times))))
       (try_splits zi parse message tokens rest)"

definition parse_every_segment :: "zone_info \<Rightarrow> string \<Rightarrow> error + natural_slot list" where
  "parse_every_segment zi segment = or_else (parse_every_subject segment)
     (try_splits zi parse_every_subject (''invalid natural every expression '' @ py_repr segment)
       (words segment) [1..<length (words segment)])"

definition parse_on_segment :: "zone_info \<Rightarrow> string \<Rightarrow> error + natural_slot list" where
  "parse_on_segment zi segment = or_else (parse_on_object segment)
     (try_splits zi parse_on_object (''invalid natural on expression '' @ py_repr segment)
       (words segment) [1..<length (words segment)])"

definition parse_bare_natural_segment :: "zone_info \<Rightarrow> string \<Rightarrow> error + natural_slot list" where
  "parse_bare_natural_segment zi segment = or_else (parse_at_segment zi segment) (or_else (parse_from_segment segment)
     (value_error (''invalid natural schedule segment '' @ py_repr segment)))"

definition parse_natural_segment :: "zone_info \<Rightarrow> string option \<Rightarrow> string \<Rightarrow> error + natural_slot list" where
  "parse_natural_segment zi prefix segment =
     (if prefix = Some ''every'' then parse_every_segment zi segment
      else if prefix = Some ''from'' then parse_from_segment segment
      else if prefix = Some ''at'' then parse_at_segment zi segment
      else if prefix = Some ''in'' then and_then (parse_timezone_slot zi segment) (\<lambda>s. Inr [s])
      else if prefix = Some ''on''
      then and_then (parse_timezone zi segment False) (\<lambda>tz.
        if tz \<noteq> None then and_then (parse_timezone_slot zi segment) (\<lambda>s. Inr [s]) else parse_on_segment zi segment)
      else parse_bare_natural_segment zi segment)"

section \<open>Cutting a text into segments\<close>

definition is_separator :: "char \<Rightarrow> bool" where
  "is_separator c \<longleftrightarrow> c = CHR '' '' \<or> c = CHR '','' \<or> c = CHR 0x09"

definition strip_natural_separator :: "string \<Rightarrow> string" where
  "strip_natural_separator s = rev (dropWhile is_separator (rev (dropWhile is_separator s)))"

text \<open>\<open>_NATURAL_SEGMENT_BOUNDARY_RE\<close>: the first run of spaces that a prefix follows; what is before and what is
  after it.\<close>

function find_boundary :: "string \<Rightarrow> string \<Rightarrow> (string \<times> string) option" where
  "find_boundary taken [] = None"
| "find_boundary taken (c # cs) =
     (if is_space c
      then let rest = dropWhile is_space cs
           in if list_ex (\<lambda>prefix. word_at prefix rest) natural_segment_prefixes then Some (rev taken, rest)
              else find_boundary (rev (takeWhile is_space cs) @ c # taken) rest
      else find_boundary (c # taken) cs)"
  by pat_completeness auto
termination
proof (relation "measure (length \<circ> snd)")
  fix taken c cs x
  assume "x = dropWhile is_space cs"
  then show "((rev (takeWhile is_space cs) @ c # taken, x), taken, c # cs) \<in> measure (length \<circ> snd)"
    using length_dropWhile_le [of is_space cs] by simp
qed auto

definition take_natural_segment :: "string \<Rightarrow> string \<times> string" where
  "take_natural_segment s =
     (let s = strip_natural_separator s
      in case find_boundary [] s of None \<Rightarrow> (s, []) | Some (front, rest) \<Rightarrow> (strip front, rest))"

definition take_natural_prefixed_segment :: "string \<Rightarrow> string option \<times> string \<times> string" where
  "take_natural_prefixed_segment s =
     (let s = strip_natural_separator s
      in case find (\<lambda>prefix. is_prefix_of (prefix @ '' '') (lower s)) natural_segment_prefixes of
          Some prefix \<Rightarrow> (Some prefix, take_natural_segment (drop (length prefix + 1) s))
        | None \<Rightarrow> (None, take_natural_segment s))"

lemma length_strip_natural_separator: "length (strip_natural_separator s) \<le> length s"
  by (metis length_dropWhile_le length_rev le_trans strip_natural_separator_def)

lemma find_boundary_shorter: "find_boundary taken s = Some (front, rest) \<Longrightarrow> length rest < length s"
proof (induction taken s rule: find_boundary.induct)
  case (2 taken c cs)
  then show ?case
    using length_dropWhile_le [of is_space cs] by (fastforce simp: Let_def split: if_splits)
qed simp

lemma take_natural_segment_shorter:
  assumes "snd (take_natural_segment s) \<noteq> []"
  shows "length (snd (take_natural_segment s)) < length s"
  using assms length_strip_natural_separator [of s]
  by (auto simp: take_natural_segment_def Let_def split: option.splits dest!: find_boundary_shorter)

lemma take_natural_prefixed_segment_shorter:
  assumes "s \<noteq> []"
  shows "length (snd (snd (take_natural_prefixed_segment s))) < length s"
proof -
  have shorter: "length (snd (take_natural_segment t)) < length s" if "length t \<le> length s" for t
    using that take_natural_segment_shorter [of t] assms by (cases "snd (take_natural_segment t) = []") auto
  show ?thesis
    using shorter length_strip_natural_separator [of s] by (auto simp: take_natural_prefixed_segment_def Let_def split: option.splits)
qed

function natural_slots_of :: "zone_info \<Rightarrow> string \<Rightarrow> error + natural_slot list" where
  "natural_slots_of zi [] = Inr []"
| "natural_slots_of zi (c # cs) =
     (let (prefix, segment, rest) = take_natural_prefixed_segment (c # cs)
      in and_then (if segment = [] then Inr [] else parse_natural_segment zi prefix segment) (\<lambda>slots.
           and_then (natural_slots_of zi rest) (\<lambda>more. Inr (slots @ more))))"
  by pat_completeness auto
termination
proof (relation "measure (length \<circ> snd)")
  fix zi c cs x prefix y segment rest slots
  assume "x = take_natural_prefixed_segment (c # cs)" "(prefix, y) = x" "(segment, rest) = y"
  then show "((zi, rest), zi, c # cs) \<in> measure (length \<circ> snd)"
    using take_natural_prefixed_segment_shorter [of "c # cs"] by (metis in_measure comp_apply list.distinct(1) snd_conv)
qed simp

definition parse_natural_slots :: "zone_info \<Rightarrow> string \<Rightarrow> error + natural_slot list" where
  "parse_natural_slots zi text = and_then (natural_slots_of zi text) (\<lambda>slots.
     if slots = [] then value_error ''natural schedule has no time information'' else Inr slots)"

section \<open>Printing slots as cron expressions\<close>

definition natural_sort_key :: "natural_value \<Rightarrow> nat \<times> int \<times> string" where
  "natural_sort_key v = (case v of
      NInt n \<Rightarrow> (0, n, [])
    | NText t \<Rightarrow> if is_int t then (0, int_of t, []) else (1, 0, t))"

definition natural_sorted :: "natural_value list \<Rightarrow> natural_value list" where
  "natural_sorted vs = sort_key natural_sort_key (remdups vs)"

definition natural_field_text :: "natural_value list \<Rightarrow> string" where
  "natural_field_text vs = join '','' (map str_value (natural_sorted vs))"

definition natural_slot_values :: "(string \<Rightarrow> natural_slot option) \<Rightarrow> string \<Rightarrow> natural_value \<Rightarrow> natural_value list" where
  "natural_slot_values slots key missing = (case slots key of None \<Rightarrow> [missing] | Some s \<Rightarrow> slot_values s 0)"

definition natural_cron_from_hm :: "(string \<Rightarrow> natural_slot option) \<Rightarrow> natural_slot \<Rightarrow> string" where
  "natural_cron_from_hm slots hm =
     (let secs = natural_slot_values slots ''second'' (NText ''0'');
          fields = (if secs = [NText ''0''] then [] else [secs])
            @ [slot_values hm 1, slot_values hm 0, natural_slot_values slots ''monthday'' (NText ''*''),
               natural_slot_values slots ''month'' (NText ''*''), natural_slot_values slots ''weekday'' (NText ''*'')]
            @ (case slots ''tz'' of None \<Rightarrow> [] | Some s \<Rightarrow> [slot_values s 0])
      in join '' '' (map natural_field_text fields))"

text \<open>Slots for hours and minutes are merged two by two as long as one of them has a grade.\<close>

fun first_graded :: "natural_slot list \<Rightarrow> nat option" where
  "first_graded [] = None"
| "first_graded (hm # hms) =
     (if graded (ns_weak hm) \<or> graded (ns_strong hm) then Some 0 else map_option Suc (first_graded hms))"

definition remove_at :: "nat \<Rightarrow> 'a list \<Rightarrow> 'a list" where
  "remove_at i xs = take i xs @ drop (Suc i) xs"

lemma first_graded_bound: "first_graded hms = Some i \<Longrightarrow> i < length hms"
  by (induction hms arbitrary: i) (auto split: if_splits)

lemma length_remove_at: "i < length xs \<Longrightarrow> length (remove_at i xs) = length xs - 1"
  by (simp add: remove_at_def)

function merge_graded :: "natural_slot list \<Rightarrow> natural_slot list" where
  "merge_graded [] = []"
| "merge_graded [hm] = [hm]"
| "merge_graded (hm # hm' # hms) =
     (case first_graded (hm # hm' # hms) of
        None \<Rightarrow> hm # hm' # hms
      | Some i \<Rightarrow>
          (let all = hm # hm' # hms; other = (if i = 0 then 1 else i - 1)
           in merge_graded (remove_at other (all[i := slot_append (all ! i) (all ! other)]))))"
  by pat_completeness auto
termination
proof (relation "measure length")
  fix hm hm' hms i all other
  assume i: "first_graded (hm # hm' # hms) = Some i" and all: "all = hm # hm' # hms" and other: "other = (if i = 0 then 1 else i - 1)"
  have "other < length all" using first_graded_bound [OF i] by (auto simp: all other)
  then have "length (remove_at other (all[i := slot_append (all ! i) (all ! other)])) < length all"
    by (simp add: length_remove_at)
  then show "(remove_at other (all[i := slot_append (all ! i) (all ! other)]), hm # hm' # hms) \<in> measure length"
    by (simp only: in_measure all [symmetric])
qed simp

fun group_minutes :: "natural_slot list \<Rightarrow> (natural_value list \<times> natural_value list) list
    \<Rightarrow> (natural_value list \<times> natural_value list) list" where
  "group_minutes [] grouped = grouped"
| "group_minutes (hm # hms) grouped = group_minutes hms
     (fold (\<lambda>minute. dict_append (natural_sorted (slot_values hm 0)) minute) (slot_values hm 1) grouped)"

definition determine_natural_hms :: "natural_slot list \<Rightarrow> natural_slot list" where
  "determine_natural_hms hms =
     (if hms = [] then [slot ''hm'' star star]
      else map (\<lambda>(hours, minutes). slot ''hm'' (NMany hours) (NMany (natural_sorted minutes)))
        (group_minutes (merge_graded hms) []))"

text \<open>The loop over the slots: the hours and minutes in order, the others merged by key.\<close>

fun group_slots :: "natural_slot list \<Rightarrow> (string \<Rightarrow> natural_slot option) \<Rightarrow> natural_slot list
    \<Rightarrow> (string \<Rightarrow> natural_slot option) \<times> natural_slot list" where
  "group_slots [] grouped hms = (grouped, hms)"
| "group_slots (s # ss) grouped hms =
     (if ns_key s = ''hm'' then group_slots ss grouped (hms @ [s])
      else group_slots ss (grouped(ns_key s \<mapsto> (case grouped (ns_key s) of Some t \<Rightarrow> slot_append t s | None \<Rightarrow> s))) hms)"

definition natural_slots_to_crons :: "natural_slot list \<Rightarrow> string list" where
  "natural_slots_to_crons slots =
     (let (grouped, hms) = group_slots slots Map.empty [];
          midnight = [slot ''hm'' (nint 0) (nint 0)];
          day_given = (grouped ''monthday'' \<noteq> None \<or> grouped ''weekday'' \<noteq> None);
          month_only = (\<not> (day_given \<and> hms = []) \<and> grouped ''month'' \<noteq> None);
          hms' = (if hms = [] \<and> (day_given \<or> month_only) then midnight else hms);
          grouped' = (if month_only \<and> grouped ''monthday'' = None
            then grouped(''monthday'' \<mapsto> slot ''monthday'' (nint 1) NNone) else grouped)
      in map (natural_cron_from_hm grouped') (determine_natural_hms hms'))"

definition expand_natural_schedule :: "zone_info \<Rightarrow> string \<Rightarrow> error + string list" where
  "expand_natural_schedule zi text =
     (let text = join '' '' (words text)
      in if text = [] then value_error ''natural schedule cannot be empty''
         else if 256 < length text then value_error ''natural schedule is too long''
         else and_then (parse_natural_slots zi text) (\<lambda>slots. Inr (natural_slots_to_crons slots)))"

section \<open>Schedules\<close>

text \<open>Natural language is tried when the text is not a cron expression.\<close>

definition parse_schedule :: "zone_info \<Rightarrow> string \<Rightarrow> error + schedule list" where
  "parse_schedule zi text =
     (let text = strip text;
          cron = and_then (expand_special text) (\<lambda>t. and_then (parse_cron_schedule zi t) (\<lambda>s. Inr [s]));
          natural = and_then (expand_natural_schedule zi text) (parse_all zi)
      in if text \<noteq> [] \<and> hd text = CHR ''@'' then cron
         else case cron of
             Inl (ValueError _) \<Rightarrow> natural
           | Inl (ZoneInfoNotFoundError _) \<Rightarrow> natural
           | r \<Rightarrow> r)"

definition is_valid_schedule :: "zone_info \<Rightarrow> string \<Rightarrow> bool" where
  "is_valid_schedule zi text = (case parse_schedule zi text of Inr _ \<Rightarrow> True | Inl _ \<Rightarrow> False)"

end
