(* ===== verification/Cron_Search.thy ===== *)
theory Cron_Search
  imports Cron_Natural
begin

text \<open>
  Matching and searching, \<^verbatim>\<open>cron.py\<close>: which dates and times a schedule names, and the search for
  the next or the previous run by days, with the bound of 400 times 366 days the code uses.  A naive
  date time is its wall time; an aware one is its instant together with its time zone.
\<close>

section \<open>Matching\<close>

definition field_matches :: "field \<Rightarrow> int \<Rightarrow> bool" where
  "field_matches f v \<longleftrightarrow> f_wildcard f \<or> v \<in> set (f_values f)"

definition cron_weekday :: "int \<Rightarrow> int" where
  "cron_weekday ordinal = (weekday ordinal + 1) mod 7"

definition weekday_hash_matches :: "int \<Rightarrow> int \<Rightarrow> bool" where
  "weekday_hash_matches ordinal index = (case ord2ymd ordinal of (year, month, day) \<Rightarrow>
     (let month_length = days_in_month year month;
          from_start = (day - 1) div 7 + 1;
          from_end = - ((month_length - day) div 7 + 1)
      in index = from_start \<or> index = from_end))"

definition reference_monday :: int where
  "reference_monday = ymd2ord 2018 12 31"

definition weekday_modulo_matches :: "int \<Rightarrow> int \<times> int \<Rightarrow> bool" where
  "weekday_modulo_matches ordinal mo = (case mo of (divisor, offset) \<Rightarrow>
     ((ordinal - reference_monday) div 7) mod divisor = offset mod divisor)"

definition weekday_field_matches :: "weekday_field \<Rightarrow> int \<Rightarrow> bool" where
  "weekday_field_matches w ordinal \<longleftrightarrow> wf_wildcard w \<or>
     list_ex (\<lambda>spec. ws_day spec = cron_weekday ordinal \<and>
       ((case ws_nth spec of None \<Rightarrow> False | Some n \<Rightarrow> weekday_hash_matches ordinal n)
        \<or> (case ws_modulo spec of None \<Rightarrow> False | Some m \<Rightarrow> weekday_modulo_matches ordinal m)
        \<or> ws_nth spec = None \<and> ws_modulo spec = None)) (wf_specs w)"

definition matches_day_of_month :: "schedule \<Rightarrow> int \<Rightarrow> bool" where
  "matches_day_of_month s ordinal = (f_wildcard (s_day_of_month s) \<or>
     (case ord2ymd ordinal of (year, month, day) \<Rightarrow>
       list_ex (\<lambda>v. 0 < v \<and> day = v \<or> v < 0 \<and> day = days_in_month year month + 1 + v) (f_values (s_day_of_month s))))"

definition matches_day :: "schedule \<Rightarrow> int \<Rightarrow> bool" where
  "matches_day s ordinal =
     (let dom = matches_day_of_month s ordinal; dow = weekday_field_matches (s_day_of_week s) ordinal in
      if f_wildcard (s_day_of_month s) \<and> wf_wildcard (s_day_of_week s) then True
      else if f_wildcard (s_day_of_month s) then dow
      else if wf_wildcard (s_day_of_week s) then dom
      else if s_day_and s then dom \<and> dow
      else dom \<or> dow)"

definition matches_date :: "schedule \<Rightarrow> int \<Rightarrow> bool" where
  "matches_date s ordinal = (field_matches (s_months s) (fst (snd (ord2ymd ordinal))) \<and> matches_day s ordinal)"

text \<open>\<open>_Schedule.matches_minute\<close>.\<close>

definition matches_minute :: "schedule \<Rightarrow> time \<Rightarrow> bool" where
  "matches_minute s t \<longleftrightarrow> field_matches (s_minutes s) (wall_minute t) \<and> field_matches (s_hours s) (wall_hour t)
     \<and> field_matches (s_months s) (fst (snd (ord2ymd (wall_date t)))) \<and> matches_day s (wall_date t)"

section \<open>Time zones\<close>

text \<open>\<open>astimezone\<close>: from an instant to the wall time of a zone, and from a wall time of a zone, read
  with a fold, to the instant.\<close>

fun to_wall :: "tzinfo \<Rightarrow> time \<Rightarrow> time" where
  "to_wall Utc u = u"
| "to_wall (Fixed offset) u = u + offset"
| "to_wall (Zone z) u = u + offset_at z u"

fun to_utc :: "tzinfo \<Rightarrow> bool \<Rightarrow> time \<Rightarrow> time" where
  "to_utc Utc fo w = w"
| "to_utc (Fixed offset) fo w = w - offset"
| "to_utc (Zone z) fo w = w - offset_of_wall z fo w"

fun is_zone_info :: "tzinfo \<Rightarrow> bool" where
  "is_zone_info (Zone z) = True"
| "is_zone_info _ = False"

text \<open>\<open>_same_local_time\<close>: equal up to the second.\<close>

definition same_local_time :: "time \<Rightarrow> time \<Rightarrow> bool" where
  "same_local_time a b \<longleftrightarrow> a div 1000000 = b div 1000000"

section \<open>Candidates\<close>

definition ordered_values :: "bool \<Rightarrow> field \<Rightarrow> int list" where
  "ordered_values forward f = (if forward then sort (remdups (f_values f)) else rev (sort (remdups (f_values f))))"

text \<open>The instants at which a zone shows a wall time: none in a gap, two where the wall time repeats.\<close>

definition timeline_candidates :: "tzinfo option \<Rightarrow> bool \<Rightarrow> time \<Rightarrow> time list" where
  "timeline_candidates tz forward w = (case tz of
      None \<Rightarrow> [w]
    | Some z \<Rightarrow>
        (let cs = sort (remdups (filter (\<lambda>u. same_local_time (to_wall z u) w) [to_utc z False w, to_utc z True w]))
         in if forward then cs else rev cs))"

definition candidate_times :: "schedule \<Rightarrow> tzinfo option \<Rightarrow> bool \<Rightarrow> time \<Rightarrow> int \<Rightarrow> time list" where
  "candidate_times s tz forward local_base ordinal =
     (let same_date = (ordinal = wall_date local_base);
          skip_by_wall_time = (case tz of None \<Rightarrow> True | Some z \<Rightarrow> \<not> is_zone_info z);
          skip = (same_date \<and> skip_by_wall_time)
      in concat (map (\<lambda>hour.
           if skip \<and> (if forward then hour < wall_hour local_base else wall_hour local_base < hour) then []
           else concat (map (\<lambda>minute.
             if skip \<and> hour = wall_hour local_base
                \<and> (if forward then minute < wall_minute local_base else wall_minute local_base < minute) then []
             else concat (map (\<lambda>second. timeline_candidates tz forward (wall_time ordinal hour minute second))
               (ordered_values forward (s_seconds s))))
             (ordered_values forward (s_minutes s))))
           (ordered_values forward (s_hours s))))"

section \<open>Search\<close>

definition max_search_days :: nat where
  "max_search_days = 400 * 366"

definition beyond :: "bool \<Rightarrow> time \<Rightarrow> time \<Rightarrow> bool" where
  "beyond forward base u \<longleftrightarrow> (if forward then base < u else u < base)"

text \<open>The loop over the days; \<open>base\<close> is on the timeline the candidates are on.  Moving the date out of
  the supported years raises.\<close>

fun search_days :: "nat \<Rightarrow> schedule \<Rightarrow> tzinfo option \<Rightarrow> bool \<Rightarrow> time \<Rightarrow> time \<Rightarrow> int \<Rightarrow> error + time" where
  "search_days 0 s tz forward base local_base ordinal =
     value_error ''cron schedule has no matching datetime in the search window''"
| "search_days (Suc n) s tz forward base local_base ordinal =
     (case (if matches_date s ordinal
            then find (beyond forward base) (candidate_times s tz forward local_base ordinal) else None) of
        Some u \<Rightarrow> Inr u
      | None \<Rightarrow>
          let next_date = (if forward then ordinal + 1 else ordinal - 1)
          in if next_date < min_ordinal \<or> max_ordinal < next_date then Inl OverflowError
             else search_days n s tz forward base local_base next_date)"

text \<open>A base: naive with its fold, or aware.\<close>

datatype moment = Naive bool time | Aware time tzinfo

definition find_run_for_schedule :: "schedule \<Rightarrow> moment \<Rightarrow> bool \<Rightarrow> error + moment" where
  "find_run_for_schedule s base forward = (case base of
      Aware u z \<Rightarrow>
        (let tz = (case s_timezone s of Some z' \<Rightarrow> z' | None \<Rightarrow> z); local_base = to_wall tz u
         in and_then (search_days max_search_days s (Some tz) forward u local_base (wall_date local_base)) (\<lambda>r.
              Inr (Aware r z)))
    | Naive fo w \<Rightarrow>
        (case s_timezone s of
           Some z \<Rightarrow>
             (let u = to_utc z fo w; local_base = to_wall z u
              in and_then (search_days max_search_days s (Some z) forward u local_base (wall_date local_base)) (\<lambda>r.
                   Inr (Naive False (to_wall z r))))
         | None \<Rightarrow>
             and_then (search_days max_search_days s None forward w w (wall_date w)) (\<lambda>r. Inr (Naive False r))))"

text \<open>The results for one base are all naive, or all aware with the zone of the base; Python compares two
  such date times by their wall times.\<close>

fun moment_key :: "moment \<Rightarrow> time" where
  "moment_key (Naive fo w) = w"
| "moment_key (Aware u z) = to_wall z u"

fun best_moment :: "bool \<Rightarrow> moment \<Rightarrow> moment list \<Rightarrow> moment" where
  "best_moment forward m [] = m"
| "best_moment forward m (n # ns) =
     best_moment forward (if (if forward then moment_key n < moment_key m else moment_key m < moment_key n) then n else m) ns"

fun run_candidates :: "schedule list \<Rightarrow> moment \<Rightarrow> bool \<Rightarrow> error + moment list" where
  "run_candidates [] base forward = Inr []"
| "run_candidates (s # ss) base forward =
     (case find_run_for_schedule s base forward of
        Inl (ValueError _) \<Rightarrow> run_candidates ss base forward
      | Inl e \<Rightarrow> Inl e
      | Inr m \<Rightarrow> and_then (run_candidates ss base forward) (\<lambda>ms. Inr (m # ms)))"

definition find_run :: "schedule list \<Rightarrow> moment \<Rightarrow> bool \<Rightarrow> error + moment" where
  "find_run ss base forward =
     and_then (run_candidates ss base forward) (\<lambda>ms. case ms of
        [] \<Rightarrow> value_error ''cron schedule has no matching datetime in the search window''
      | m # ms \<Rightarrow> Inr (best_moment forward m ms))"

text \<open>\<open>base + timedelta(microseconds=1)\<close> is arithmetic on the wall time, with the fold forgotten.\<close>

fun plus_microsecond :: "moment \<Rightarrow> moment" where
  "plus_microsecond (Naive fo w) = Naive False (w + 1)"
| "plus_microsecond (Aware u z) = Aware (to_utc z False (to_wall z u + 1)) z"

definition next_run :: "zone_info \<Rightarrow> string \<Rightarrow> moment \<Rightarrow> error + moment" where
  "next_run zi text base = and_then (parse_schedule zi text) (\<lambda>ss. find_run ss base True)"

definition previous_run :: "zone_info \<Rightarrow> string \<Rightarrow> moment \<Rightarrow> error + moment" where
  "previous_run zi text base = and_then (parse_schedule zi text) (\<lambda>ss. find_run ss base False)"

definition latest_run :: "zone_info \<Rightarrow> string \<Rightarrow> moment \<Rightarrow> error + moment" where
  "latest_run zi text base = previous_run zi text (plus_microsecond base)"

end
