(* ===== verification/Cron_Facts.thy ===== *)
theory Cron_Facts
  imports Cron_Search
begin

text \<open>
  Facts about cron schedules: what a parsed expression can contain, that a run that is found matches the
  schedule and lies beyond the base, and that for naive times, UTC and fixed offsets it is the nearest
  such time.
\<close>

section \<open>Parsed fields\<close>

definition values_in :: "int set \<Rightarrow> field \<Rightarrow> bool" where
  "values_in V f \<longleftrightarrow> f_values f \<noteq> [] \<and> set (f_values f) \<subseteq> V \<and> sorted (f_values f) \<and> distinct (f_values f)
     \<and> (f_wildcard f \<longrightarrow> set (f_values f) = V)"

lemma values_in_range: "v \<in> set (f_values f) \<Longrightarrow> values_in {a..b} f \<Longrightarrow> a \<le> v \<and> v \<le> b"
  by (auto simp: values_in_def)

text \<open>What parsing promises of a schedule.\<close>

definition schedule_ok :: "schedule \<Rightarrow> bool" where
  "schedule_ok s \<longleftrightarrow> values_in {0..59} (s_seconds s) \<and> values_in {0..59} (s_minutes s) \<and> values_in {0..23} (s_hours s)
     \<and> values_in {1..12} (s_months s)
     \<and> (\<forall>v\<in>set (f_values (s_day_of_month s)). v \<noteq> 0 \<and> -31 \<le> v \<and> v \<le> 31)
     \<and> (wf_wildcard (s_day_of_week s) \<or> wf_specs (s_day_of_week s) \<noteq> [])
     \<and> (\<forall>spec\<in>set (wf_specs (s_day_of_week s)). 0 \<le> ws_day spec \<and> ws_day spec \<le> 6)"

lemma set_as_set [simp]: "set (as_set vs) = set vs" "sorted (as_set vs)" "distinct (as_set vs)" "as_set vs = [] \<longleftrightarrow> vs = []"
  by (auto simp: as_set_def) (metis list.set(1) set_empty set_remdups set_sort)

lemma split_step_positive: "split_step item = Inr (r, step, b) \<Longrightarrow> 0 < step"
  by (auto simp: split_step_def parse_step_def value_error_def Let_def split: if_splits prod.splits)

lemma set_cyclic_values:
  assumes "start \<in> {minimum..maximum}" and "end' \<in> {minimum..maximum}"
  shows "set (cyclic_values start end' minimum maximum step norm) \<subseteq> norm ` {minimum..maximum}"
proof -
  define raw where "raw = (if start \<le> end' then [start..end'] else [start..maximum] @ [minimum..end'])"
  have "set (cyclic_values start end' minimum maximum step norm) \<subseteq> norm ` snd ` set (enumerate 0 raw)"
    by (force simp: cyclic_values_def Let_def raw_def)
  moreover have "snd ` set (enumerate 0 raw) = set raw" by (metis map_snd_enumerate set_map)
  moreover have "set raw \<subseteq> {minimum..maximum}" using assms by (auto simp: raw_def)
  ultimately show ?thesis by blast
qed

lemma cyclic_values_nonempty:
  assumes "start \<in> {minimum..maximum}" and "end' \<in> {minimum..maximum}"
  shows "cyclic_values start end' minimum maximum step norm \<noteq> []"
proof -
  define raw where "raw = (if start \<le> end' then [start..end'] else [start..maximum] @ [minimum..end'])"
  have "raw \<noteq> []" using assms by (auto simp: raw_def)
  then have "(0, hd raw) \<in> set (enumerate 0 raw)" by (cases raw) simp_all
  then have "(0, hd raw) \<in> set (filter (\<lambda>(index, v). int index mod step = 0) (enumerate 0 raw))" by simp
  then show ?thesis unfolding cyclic_values_def Let_def raw_def [symmetric] by (metis (no_types, lifting) list.set(1) empty_iff map_is_Nil_conv)
qed

lemma parse_simple_bound_range: "parse_simple_bound minimum maximum names v = Inr n \<Longrightarrow> n \<in> {minimum..maximum}"
  by (auto simp: parse_simple_bound_def value_error_def split: option.splits if_splits)

lemma parse_simple_range_range:
  "parse_simple_range minimum maximum names t = Inr (s, e, b) \<Longrightarrow> s \<in> {minimum..maximum} \<and> e \<in> {minimum..maximum}"
  by (auto simp: parse_simple_range_def value_error_def Let_def split: if_splits prod.splits
      dest!: parse_simple_bound_range)

lemma expand_simple_item_values:
  assumes "expand_simple_item minimum maximum names norm sm fw all item = Inr (vs, w)" and "minimum \<le> maximum"
  shows "set vs \<subseteq> norm ` {minimum..maximum}" and "vs \<noteq> []" and "w \<Longrightarrow> set vs = set all"
proof -
  from assms(1) obtain range_text step stepped where "split_step item = Inr (range_text, step, stepped)"
    and rest: "and_then (if range_text = ''*'' then Inr (minimum, maximum, True)
         else and_then (parse_simple_range minimum maximum names range_text) (\<lambda>(start, end', has_range).
           let end' = (if stepped \<and> \<not> has_range \<and> sm then maximum else end')
           in Inr (start, end', fw \<and> start = minimum \<and> end' = maximum))) (\<lambda>(start, end', full_range).
       let values = cyclic_values start end' minimum maximum step norm
       in Inr (values, step = 1 \<and> full_range \<and> set values = set all)) = Inr (vs, w)"
    by (auto simp: expand_simple_item_def)
  have "\<exists>start\<in>{minimum..maximum}. \<exists>end'\<in>{minimum..maximum}.
      vs = cyclic_values start end' minimum maximum step norm \<and> (w \<longrightarrow> set vs = set all)"
  proof (cases "range_text = ''*''")
    case True
    with rest assms(2) show ?thesis by (intro bexI [of _ minimum] bexI [of _ maximum]) (auto simp: Let_def)
  next
    case False
    with rest obtain start end' has_range where p: "parse_simple_range minimum maximum names range_text = Inr (start, end', has_range)"
      by auto
    let ?stop = "if stepped \<and> \<not> has_range \<and> sm then maximum else end'"
    from rest False p parse_simple_range_range [OF p] assms(2) show ?thesis
      by (intro bexI [of _ start] bexI [of _ ?stop]) (auto simp: Let_def split: if_splits)
  qed
  then obtain start end' where r: "start \<in> {minimum..maximum}" "end' \<in> {minimum..maximum}"
    and vs: "vs = cyclic_values start end' minimum maximum step norm" and w: "w \<Longrightarrow> set vs = set all" by blast
  show "set vs \<subseteq> norm ` {minimum..maximum}" unfolding vs using r by (rule set_cyclic_values)
  show "vs \<noteq> []" unfolding vs using r by (rule cyclic_values_nonempty)
  show "w \<Longrightarrow> set vs = set all" by (rule w)
qed

lemma collect_items_values:
  assumes "collect_items expand items = Inr (vs, w)"
    and "\<And>item vs w. item \<in> set items \<Longrightarrow> expand item = Inr (vs, w) \<Longrightarrow> set vs \<subseteq> V"
  shows "set vs \<subseteq> V"
  using assms by (induction items arbitrary: vs w) (auto, blast+)

lemma parse_simple_field_values:
  assumes "parse_simple_field minimum maximum names norm sm fw text = Inr f" and "minimum \<le> maximum"
  shows "values_in (norm ` {minimum..maximum}) f"
proof -
  let ?all = "map norm [minimum..maximum]"
  from assms(1) obtain items vs w where
    c: "collect_items (expand_simple_item minimum maximum names norm sm fw ?all) items = Inr (vs, w)"
    and ne: "(if w then ?all else vs) \<noteq> []" and f: "f = \<lparr>f_values = as_set (if w then ?all else vs), f_wildcard = w\<rparr>"
    by (auto simp: parse_simple_field_def value_error_def Let_def split: if_splits)
  have "set vs \<subseteq> norm ` {minimum..maximum}"
    by (rule collect_items_values [OF c]) (rule expand_simple_item_values(1) [OF _ assms(2)])
  with ne show ?thesis by (auto simp: values_in_def f)
qed

lemma normalize_hours: "normalize_hour ` {0..24} = {0..23}"
  by (auto simp: normalize_hour_def image_iff intro: bexI [of _ 0])

lemma normalize_days: "normalize_day_of_week ` {0..7} = {0..6}"
  by (auto simp: normalize_day_of_week_def image_iff intro: bexI [of _ 0])

lemma parse_monthday_bound_range: "parse_monthday_bound t = Inr n \<Longrightarrow> n \<noteq> 0 \<and> -31 \<le> n \<and> n \<le> 31"
  by (auto simp: parse_monthday_bound_def value_error_def split: if_splits)

lemma parse_monthday_range_range:
  "parse_monthday_range t = Inr (s, e, b) \<Longrightarrow> s \<noteq> 0 \<and> -31 \<le> s \<and> s \<le> 31 \<and> e \<noteq> 0 \<and> -31 \<le> e \<and> e \<le> 31"
  by (auto simp: parse_monthday_range_def value_error_def Let_def split: if_splits prod.splits
      dest!: parse_monthday_bound_range)

lemma expand_monthday_item_values:
  assumes "expand_monthday_item item = Inr (vs, w)"
  shows "set vs \<subseteq> {v. v \<noteq> 0 \<and> -31 \<le> v \<and> v \<le> 31}"
proof -
  have pos: "set (cyclic_values a b 1 31 step id) \<subseteq> {v. v \<noteq> 0 \<and> -31 \<le> v \<and> v \<le> 31}"
    if "a \<in> {1..31}" "b \<in> {1..31}" for a b step
    using set_cyclic_values [OF that, of step id] by auto
  have neg: "set (cyclic_values a b (-31) (-1) step id) \<subseteq> {v. v \<noteq> 0 \<and> -31 \<le> v \<and> v \<le> 31}"
    if "a \<in> {-31..-1}" "b \<in> {-31..-1}" for a b step
    using set_cyclic_values [OF that, of step id] by auto
  from assms obtain range_text step stepped where
    "split_step item = Inr (range_text, step, stepped)" and
    rest: "(if range_text = ''*'' then Inr (cyclic_values 1 31 1 31 step id, step = 1)
       else and_then (parse_monthday_range range_text) (\<lambda>(start, end', has_range).
         let end' = (if stepped \<and> \<not> has_range then (if 0 < start then 31 else -1) else end')
         in if 0 < start
            then let end' = (if end' < 0 then 31 else end')
                 in Inr (cyclic_values start end' 1 31 step id, step = 1 \<and> start = 1 \<and> end' = 31)
            else if 0 < end' then value_error ''negative day-of-month ranges must end with a negative value''
            else Inr (cyclic_values start end' (-31) (-1) step id, False))) = Inr (vs, w)"
    by (auto simp: expand_monthday_item_def)
  show ?thesis
  proof (cases "range_text = ''*''")
    case True
    with rest have "vs = cyclic_values 1 31 1 31 step id" by simp
    then show ?thesis using pos [of 1 31 step] by simp
  next
    case False
    with rest obtain start end' has_range where r: "parse_monthday_range range_text = Inr (start, end', has_range)"
      by auto
    note range = parse_monthday_range_range [OF r]
    define e where "e = (if stepped \<and> \<not> has_range then (if 0 < start then 31 else -1) else end')"
    have e: "e \<noteq> 0" "-31 \<le> e" "e \<le> 31" using range by (auto simp: e_def)
    note rest' = rest [unfolded if_not_P [OF False] r and_then_simps prod.case Let_def, folded e_def]
    show ?thesis
    proof (cases "0 < start")
      case True
      with rest' have "vs = cyclic_values start (if e < 0 then 31 else e) 1 31 step id" by simp
      then show ?thesis using pos [of start "if e < 0 then 31 else e" step] range True e by simp
    next
      case False
      with rest' have "vs = cyclic_values start e (-31) (-1) step id" "\<not> 0 < e"
        by (auto simp: value_error_def split: if_splits)
      then show ?thesis using neg [of start e step] range False e by simp
    qed
  qed
qed

lemma parse_monthday_field_values:
  assumes "parse_monthday_field text = Inr f"
  shows "\<forall>v\<in>set (f_values f). v \<noteq> 0 \<and> -31 \<le> v \<and> v \<le> 31" and "f_values f \<noteq> []"
proof -
  from assms obtain items vs w where c: "collect_items expand_monthday_item items = Inr (vs, w)"
    and ne: "(if w then [1..31] else vs) \<noteq> []" and f: "f = \<lparr>f_values = as_set (if w then [1..31] else vs), f_wildcard = w\<rparr>"
    by (auto simp: parse_monthday_field_def value_error_def Let_def split: if_splits)
  have "set vs \<subseteq> {v. v \<noteq> 0 \<and> -31 \<le> v \<and> v \<le> 31}"
    by (rule collect_items_values [OF c]) (rule expand_monthday_item_values)
  with ne show "\<forall>v\<in>set (f_values f). v \<noteq> 0 \<and> -31 \<le> v \<and> v \<le> 31" "f_values f \<noteq> []" by (auto simp: f)
qed

lemma expand_weekday_item_values:
  assumes "expand_weekday_item item = Inr (specs, w)"
  shows "set specs \<subseteq> {spec. 0 \<le> ws_day spec \<and> ws_day spec \<le> 6}"
proof -
  have bound: "0 \<le> n \<and> n \<le> 6" if "parse_weekday_bound t = Inr n" for t n
    using that normalize_days by (auto simp: parse_weekday_bound_def dest!: parse_simple_bound_range)
  have simple: "set (f_values f) \<subseteq> {0..6}" if "parse_simple_field 0 7 weekday_names normalize_day_of_week False False item = Inr f" for f
    using parse_simple_field_values [OF that] normalize_days by (simp add: values_in_def)
  consider (hash) spec where "parse_weekday_hash item = Inr spec" "specs = [spec]"
    | (mod) spec where "parse_weekday_modulo item = Inr spec" "specs = [spec]"
    | (plain) f where "parse_simple_field 0 7 weekday_names normalize_day_of_week False False item = Inr f"
        "ws_day ` set specs \<subseteq> set (f_values f)"
    using assms by (auto simp: expand_weekday_item_def image_image split: if_splits)
  then show ?thesis
  proof cases
    case hash
    then show ?thesis
      by (auto simp: parse_weekday_hash_def value_error_def Let_def split: if_splits prod.splits dest!: bound)
  next
    case mod
    then show ?thesis
      by (auto simp: parse_weekday_modulo_def value_error_def Let_def split: if_splits prod.splits dest!: bound)
  next
    case plain
    from plain(2) simple [OF plain(1)] show ?thesis by fastforce
  qed
qed

lemma parse_weekday_field_values:
  assumes "parse_weekday_field text = Inr w"
  shows "wf_wildcard w \<or> wf_specs w \<noteq> []" and "\<forall>spec\<in>set (wf_specs w). 0 \<le> ws_day spec \<and> ws_day spec \<le> 6"
proof -
  from assms obtain items specs wild where c: "collect_items expand_weekday_item items = Inr (specs, wild)"
    and w: "wild \<and> w = \<lparr>wf_specs = [], wf_wildcard = True\<rparr> \<or>
      specs \<noteq> [] \<and> w = \<lparr>wf_specs = sort_key weekday_spec_sort_key (remdups specs), wf_wildcard = False\<rparr>"
    by (auto simp: parse_weekday_field_def value_error_def split: if_splits)
  have "set specs \<subseteq> {spec. 0 \<le> ws_day spec \<and> ws_day spec \<le> 6}"
    by (rule collect_items_values [OF c]) (rule expand_weekday_item_values)
  moreover have "sort_key weekday_spec_sort_key (remdups specs) = [] \<longleftrightarrow> specs = []"
    by (metis length_0_conv length_sort remdups_eq_nil_iff)
  ultimately show "wf_wildcard w \<or> wf_specs w \<noteq> []" "\<forall>spec\<in>set (wf_specs w). 0 \<le> ws_day spec \<and> ws_day spec \<le> 6"
    using w by auto
qed

lemma parse_fields_ok:
  assumes "parse_fields secs texts tz = Inr s" and "values_in {0..59} secs"
  shows "schedule_ok s" and "s_timezone s = tz"
proof -
  from assms(1) obtain mt ht dt mot wt minutes hours dom months dow b where
    "parse_simple_field 0 59 [] id True True mt = Inr minutes"
    "parse_simple_field 0 24 [] normalize_hour True True ht = Inr hours"
    "parse_monthday_field dt = Inr dom" "parse_simple_field 1 12 month_names id True True mot = Inr months"
    "parse_weekday_field wt = Inr dow"
    and s: "s = \<lparr>s_seconds = secs, s_minutes = minutes, s_hours = hours, s_day_of_month = dom,
                s_months = months, s_day_of_week = dow, s_day_and = b, s_timezone = tz\<rparr>"
    by (auto simp: parse_fields_def value_error_def Let_def split: list.splits prod.splits)
  note parsed = this
  show "schedule_ok s"
    using parse_simple_field_values [OF parsed(1)] parse_simple_field_values [OF parsed(2)]
      parse_simple_field_values [OF parsed(4)] parse_monthday_field_values [OF parsed(3)]
      parse_weekday_field_values [OF parsed(5)] assms(2) normalize_hours
    by (simp add: schedule_ok_def s)
  show "s_timezone s = tz" by (simp add: s)
qed

lemma parse_cron_schedule_ok:
  assumes "parse_cron_schedule zi text = Inr s"
  shows "schedule_ok s"
proof -
  from assms obtain fields tz where f: "split_cron_schedule zi text = Inr (fields, tz)"
    and p: "(if length fields = 6
       then and_then (parse_simple_field 0 59 [] id True True (hd fields)) (\<lambda>secs. parse_fields secs (tl fields) tz)
       else parse_fields \<lparr>f_values = [0], f_wildcard = False\<rparr> fields tz) = Inr s"
    by (auto simp: parse_cron_schedule_def)
  show ?thesis
  proof (cases "length fields = 6")
    case True
    with p obtain secs where "parse_simple_field 0 59 [] id True True (hd fields) = Inr secs"
      "parse_fields secs (tl fields) tz = Inr s" by auto
    with parse_simple_field_values [OF this(1)] show ?thesis by (auto intro: parse_fields_ok)
  next
    case False
    with p have "parse_fields \<lparr>f_values = [0], f_wildcard = False\<rparr> fields tz = Inr s" by simp
    then show ?thesis by (rule parse_fields_ok) (simp add: values_in_def)
  qed
qed

lemma parse_all_ok: "parse_all zi cs = Inr ss \<Longrightarrow> s \<in> set ss \<Longrightarrow> schedule_ok s"
  by (induction cs arbitrary: ss) (auto dest: parse_cron_schedule_ok)

lemma parse_schedule_ok:
  assumes "parse_schedule zi text = Inr ss" and "s \<in> set ss"
  shows "schedule_ok s"
  using assms by (auto simp: parse_schedule_def Let_def split: if_splits sum.splits error.splits
      dest: parse_cron_schedule_ok parse_all_ok)

section \<open>A run that is found matches\<close>

definition matches_time :: "schedule \<Rightarrow> time \<Rightarrow> bool" where
  "matches_time s t \<longleftrightarrow> matches_minute s t \<and> wall_second t mod 60 \<in> set (f_values (s_seconds s))"

lemma wall_parts:
  assumes "0 \<le> h" "h < 24" "0 \<le> m" "m < 60" "0 \<le> s" "s < 60" and "t div 1000000 = wall_time ordinal h m s div 1000000"
  shows "wall_date t = ordinal" and "wall_hour t = h" and "wall_minute t = m" and "wall_second t mod 60 = s"
proof -
  let ?k = "h * 3600 + m * 60 + s"
  have k: "0 \<le> ?k" "?k < 86400" using assms by linarith+
  have w: "t div 1000000 = (ordinal - epoch_ordinal) * 86400 + ?k"
    using assms(7) by (simp add: wall_time_def algebra_simps)
  have "t div 86400000000 = (t div 1000000) div 86400" by (simp add: zdiv_zmult2_eq)
  also have "\<dots> = ordinal - epoch_ordinal" unfolding w using k by simp
  finally show "wall_date t = ordinal" by (simp add: wall_date_def)
  have "t mod 86400000000 div 1000000 = (t div 1000000) mod 86400"
    using zmod_zmult2_eq [of 86400 t 1000000] by simp
  moreover have "((ordinal - epoch_ordinal) * 86400 + ?k) mod 86400 = ?k"
    using k by (simp only: mod_mult_self3 mod_pos_pos_trivial)
  ultimately have sec: "wall_second t = ?k" unfolding wall_second_def w by simp
  show "wall_hour t = h" unfolding wall_hour_def sec
    using assms by (intro int_div_pos_eq [where r = "m * 60 + s"]) linarith+
  have "?k mod 3600 = m * 60 + s" using assms by (intro int_mod_pos_eq [where q = h]) linarith+
  moreover have "(m * 60 + s) div 60 = m" using assms by (intro int_div_pos_eq [where r = s]) linarith+
  ultimately show "wall_minute t = m" unfolding wall_minute_def sec by simp
  show "wall_second t mod 60 = s" unfolding sec
    using assms by (intro int_mod_pos_eq [where q = "h * 60 + m"]) simp_all
qed

lemma set_ordered_values [simp]: "set (ordered_values forward f) = set (f_values f)"
  by (simp add: ordered_values_def)

lemma candidate_timesE:
  assumes "u \<in> set (candidate_times s tz forward b ordinal)"
  obtains h m sec where "h \<in> set (f_values (s_hours s))" "m \<in> set (f_values (s_minutes s))" "sec \<in> set (f_values (s_seconds s))"
    "u \<in> set (timeline_candidates tz forward (wall_time ordinal h m sec))"
  using assms by (auto simp: candidate_times_def Let_def split: if_splits)

lemma in_concat_mapI: "x \<in> set xs \<Longrightarrow> u \<in> set (f x) \<Longrightarrow> u \<in> set (concat (map f xs))"
  by auto

lemma candidate_timesI:
  assumes "h \<in> set (f_values (s_hours s))" and "m \<in> set (f_values (s_minutes s))" and "sec \<in> set (f_values (s_seconds s))"
    and "u \<in> set (timeline_candidates tz forward (wall_time ordinal h m sec))"
    and "\<not> (ordinal = wall_date b \<and> (if forward then h < wall_hour b else wall_hour b < h))"
    and "\<not> (ordinal = wall_date b \<and> h = wall_hour b \<and> (if forward then m < wall_minute b else wall_minute b < m))"
  shows "u \<in> set (candidate_times s tz forward b ordinal)"
proof -
  define skip where "skip = (ordinal = wall_date b \<and> (case tz of None \<Rightarrow> True | Some z \<Rightarrow> \<not> is_zone_info z))"
  define at where "at hour minute =
    (if skip \<and> hour = wall_hour b \<and> (if forward then minute < wall_minute b else wall_minute b < minute) then []
     else concat (map (\<lambda>second. timeline_candidates tz forward (wall_time ordinal hour minute second))
       (ordered_values forward (s_seconds s))))" for hour minute
  have eq: "candidate_times s tz forward b ordinal = concat (map (\<lambda>hour.
     if skip \<and> (if forward then hour < wall_hour b else wall_hour b < hour) then []
     else concat (map (at hour) (ordered_values forward (s_minutes s)))) (ordered_values forward (s_hours s)))"
    unfolding candidate_times_def Let_def skip_def at_def ..
  have "\<not> (skip \<and> h = wall_hour b \<and> (if forward then m < wall_minute b else wall_minute b < m))"
    using assms(6) unfolding skip_def by blast
  with assms(3,4) have "u \<in> set (at h m)" unfolding at_def by (auto intro: bexI [of _ sec])
  with assms(2) have "u \<in> set (concat (map (at h) (ordered_values forward (s_minutes s))))" by auto
  moreover have "\<not> (skip \<and> (if forward then h < wall_hour b else wall_hour b < h))"
    using assms(5) unfolding skip_def by blast
  ultimately show ?thesis unfolding eq using assms(1) by (intro in_concat_mapI [of h]) simp_all
qed

text \<open>The wall time of an instant on the timeline of a search.\<close>

definition shown :: "tzinfo option \<Rightarrow> time \<Rightarrow> time" where
  "shown tz u = (case tz of None \<Rightarrow> u | Some z \<Rightarrow> to_wall z u)"

lemma timeline_candidates_shown:
  "u \<in> set (timeline_candidates tz forward w) \<Longrightarrow> shown tz u div 1000000 = w div 1000000"
  by (auto simp: timeline_candidates_def shown_def same_local_time_def Let_def split: option.splits if_splits)

lemma candidate_matches:
  assumes "schedule_ok s" and "matches_date s ordinal" and u: "u \<in> set (candidate_times s tz forward b ordinal)"
  shows "matches_time s (shown tz u)" and "wall_date (shown tz u) = ordinal"
proof -
  from u obtain h m sec where v: "h \<in> set (f_values (s_hours s))" "m \<in> set (f_values (s_minutes s))"
    "sec \<in> set (f_values (s_seconds s))" and c: "u \<in> set (timeline_candidates tz forward (wall_time ordinal h m sec))"
    by (rule candidate_timesE)
  have "0 \<le> h" "h < 24" "0 \<le> m" "m < 60" "0 \<le> sec" "sec < 60"
    using assms(1) values_in_range [OF v(1), of 0 23] values_in_range [OF v(2), of 0 59] values_in_range [OF v(3), of 0 59]
    by (simp_all add: schedule_ok_def)
  note parts = wall_parts [OF this timeline_candidates_shown [OF c]]
  show "wall_date (shown tz u) = ordinal" by (rule parts)
  show "matches_time s (shown tz u)"
    using assms(2) v by (simp add: matches_time_def matches_minute_def matches_date_def field_matches_def parts)
qed

lemma search_days_sound:
  assumes "schedule_ok s" and "search_days n s tz forward base b ordinal = Inr u"
  shows "beyond forward base u" and "matches_time s (shown tz u)"
proof -
  have "beyond forward base u \<and> matches_time s (shown tz u)"
    using assms(2)
  proof (induction n arbitrary: ordinal)
    case (Suc n)
    show ?case
    proof (cases "if matches_date s ordinal then find (beyond forward base) (candidate_times s tz forward b ordinal) else None")
      case None
      with Suc show ?thesis by (auto simp: Let_def split: if_splits)
    next
      case (Some v)
      with Suc.prems have "u = v" by simp
      with Some have "matches_date s ordinal" "u \<in> set (candidate_times s tz forward b ordinal)" "beyond forward base u"
        by (auto simp: find_Some_iff split: if_splits)
      then show ?thesis using candidate_matches [OF assms(1)] by blast
    qed
  qed (simp add: value_error_def)
  then show "beyond forward base u" "matches_time s (shown tz u)" by blast+
qed

section \<open>The nearest run\<close>

text \<open>Times without a zone, UTC and fixed offsets: wall time and timeline run in step.\<close>

definition steady :: "tzinfo option \<Rightarrow> bool" where
  "steady tz \<longleftrightarrow> (case tz of None \<Rightarrow> True | Some z \<Rightarrow> \<not> is_zone_info z)"

definition steady_offset :: "tzinfo option \<Rightarrow> time" where
  "steady_offset tz = (case tz of Some (Fixed o') \<Rightarrow> o' | _ \<Rightarrow> 0)"

lemma steady_shown: "steady tz \<Longrightarrow> shown tz u = u + steady_offset tz"
  by (cases tz; cases "the tz") (auto simp: steady_def shown_def steady_offset_def)

lemma steady_candidates: "steady tz \<Longrightarrow> timeline_candidates tz forward w = [w - steady_offset tz]"
  by (cases tz; cases "the tz") (auto simp: steady_def timeline_candidates_def steady_offset_def same_local_time_def Let_def)

text \<open>The instants at which a schedule fires: whole seconds whose wall time matches.\<close>

definition fires_at :: "schedule \<Rightarrow> tzinfo option \<Rightarrow> time \<Rightarrow> bool" where
  "fires_at s tz u \<longleftrightarrow> matches_time s (shown tz u) \<and> shown tz u mod 1000000 = 0"

definition before :: "bool \<Rightarrow> int \<Rightarrow> int \<Rightarrow> bool" where
  "before forward a b \<longleftrightarrow> (if forward then a < b else b < a)"

lemma beyond_before: "beyond forward base u = before forward base u"
  by (simp add: beyond_def before_def)

lemma wall_parts_range: "0 \<le> wall_hour t" "wall_hour t < 24" "0 \<le> wall_minute t" "wall_minute t < 60"
  "0 \<le> wall_second t mod 60" "wall_second t mod 60 < 60"
proof -
  have sec: "0 \<le> wall_second t" "wall_second t < 86400"
    unfolding wall_second_def using pos_mod_bound [of 86400000000 t] by (simp_all add: div_less_iff_less_mult)
  then show "0 \<le> wall_hour t" "wall_hour t < 24" "0 \<le> wall_minute t" "wall_minute t < 60"
    by (simp_all add: wall_hour_def wall_minute_def div_less_iff_less_mult)
qed simp_all

lemma wall_time_of_parts:
  assumes "t mod 1000000 = 0"
  shows "wall_time (wall_date t) (wall_hour t) (wall_minute t) (wall_second t mod 60) = t"
proof -
  have "wall_hour t * 3600 + wall_minute t * 60 + wall_second t mod 60 = wall_second t"
  proof -
    have "wall_minute t * 60 + wall_second t mod 60 = wall_second t mod 3600"
      using div_mult_mod_eq [of "wall_second t mod 3600" 60] mod_mod_cancel [of 60 3600 "wall_second t"]
      by (simp add: wall_minute_def)
    then show ?thesis using div_mult_mod_eq [of "wall_second t" 3600] unfolding wall_hour_def by linarith
  qed
  moreover have "seconds (wall_second t) = t mod day_length"
  proof -
    have "t mod day_length mod 1000000 = 0" using assms by (simp add: mod_mod_cancel)
    then show ?thesis using div_mult_mod_eq [of "t mod day_length" 1000000] by (simp add: wall_second_def)
  qed
  ultimately show ?thesis
    using div_mult_mod_eq [of t day_length] by (simp add: wall_time_def wall_date_def)
qed

lemma wall_order:
  assumes "wall_date a = wall_date b" and "a \<le> b"
  shows "wall_hour a \<le> wall_hour b" and "wall_hour a = wall_hour b \<Longrightarrow> wall_minute a \<le> wall_minute b"
proof -
  have "a mod day_length \<le> b mod day_length"
    using assms div_mult_mod_eq [of a day_length] div_mult_mod_eq [of b day_length] unfolding wall_date_def by linarith
  then have sec: "wall_second a \<le> wall_second b" by (simp add: wall_second_def zdiv_mono1)
  then show hour: "wall_hour a \<le> wall_hour b" by (simp add: wall_hour_def zdiv_mono1)
  show "wall_minute a \<le> wall_minute b" if "wall_hour a = wall_hour b"
  proof -
    have "wall_second a mod 3600 \<le> wall_second b mod 3600"
      using that sec div_mult_mod_eq [of "wall_second a" 3600] div_mult_mod_eq [of "wall_second b" 3600]
      unfolding wall_hour_def by linarith
    then show ?thesis by (simp add: wall_minute_def zdiv_mono1)
  qed
qed

lemma field_member: "values_in {a..b} f \<Longrightarrow> field_matches f v \<Longrightarrow> a \<le> v \<Longrightarrow> v \<le> b \<Longrightarrow> v \<in> set (f_values f)"
  by (auto simp: values_in_def field_matches_def)

lemma steady_candidate:
  assumes "schedule_ok s" and st: "steady tz" and f: "fires_at s tz u" and bey: "beyond forward base u"
  shows "matches_date s (wall_date (shown tz u))"
    and "u \<in> set (candidate_times s tz forward (shown tz base) (wall_date (shown tz u)))"
proof -
  let ?t = "shown tz u" and ?b = "shown tz base"
  note sh = steady_shown [OF st]
  have m: "matches_minute s ?t" "wall_second ?t mod 60 \<in> set (f_values (s_seconds s))" "?t mod 1000000 = 0"
    using f by (auto simp: fires_at_def matches_time_def)
  then show "matches_date s (wall_date ?t)" by (simp add: matches_minute_def matches_date_def)
  note r = wall_parts_range [of ?t]
  have h: "wall_hour ?t \<in> set (f_values (s_hours s))"
    by (rule field_member [of 0 23]) (use m(1) assms(1) r in \<open>auto simp: matches_minute_def schedule_ok_def\<close>)
  have mi: "wall_minute ?t \<in> set (f_values (s_minutes s))"
    by (rule field_member [of 0 59]) (use m(1) assms(1) r in \<open>auto simp: matches_minute_def schedule_ok_def\<close>)
  have fw: "?b \<le> ?t" if forward using bey that sh by (simp add: beyond_def)
  have bw: "?t \<le> ?b" if "\<not> forward" using bey that sh by (simp add: beyond_def)
  have hours: "\<not> (wall_date ?t = wall_date ?b \<and> (if forward then wall_hour ?t < wall_hour ?b else wall_hour ?b < wall_hour ?t))"
    using fw wall_order(1) [of ?b ?t] bw wall_order(1) [of ?t ?b] by (cases forward) auto
  have minutes: "\<not> (wall_date ?t = wall_date ?b \<and> wall_hour ?t = wall_hour ?b
        \<and> (if forward then wall_minute ?t < wall_minute ?b else wall_minute ?b < wall_minute ?t))"
    using fw wall_order(2) [of ?b ?t] bw wall_order(2) [of ?t ?b] by (cases forward) auto
  have "u \<in> set (timeline_candidates tz forward (wall_time (wall_date ?t) (wall_hour ?t) (wall_minute ?t) (wall_second ?t mod 60)))"
    unfolding wall_time_of_parts [OF m(3)] steady_candidates [OF st] by (simp add: sh)
  from candidate_timesI [OF h mi m(2) this hours minutes]
  show "u \<in> set (candidate_times s tz forward ?b (wall_date ?t))" .
qed

lemma sorted_wrt_concat_map:
  assumes "sorted_wrt Q xs" and "\<forall>x\<in>set xs. sorted_wrt R (f x)"
    and "\<forall>x\<in>set xs. \<forall>y\<in>set xs. Q x y \<longrightarrow> (\<forall>a\<in>set (f x). \<forall>b\<in>set (f y). R a b)"
  shows "sorted_wrt R (concat (map f xs))"
  using assms by (induction xs) (auto simp: sorted_wrt_append)

lemma before_simps [simp]: "before True = (<)" "before False = (>)"
  by (simp_all add: before_def fun_eq_iff)

lemma ordered_values_sorted: "sorted_wrt (before forward) (ordered_values forward f)"
proof -
  have "sorted_wrt (<) (sort (remdups (f_values f)))" by (simp add: strict_sorted_iff)
  then show ?thesis by (cases forward) (simp_all add: ordered_values_def sorted_wrt_rev)
qed

lemma wall_time_less:
  assumes "0 \<le> m" "m < 60" "0 \<le> x" "x < 60" "0 \<le> m'" "m' < 60" "0 \<le> x'" "x' < 60"
  shows "h < h' \<Longrightarrow> wall_time d h m x < wall_time d h' m' x'"
    and "m < m' \<Longrightarrow> wall_time d h m x < wall_time d h m' x'"
    and "x < x' \<Longrightarrow> wall_time d h m x < wall_time d h m x'"
  using assms by (simp_all add: wall_time_def)

lemma candidate_times_sorted:
  assumes "schedule_ok s" and "steady tz"
  shows "sorted_wrt (before forward) (candidate_times s tz forward b ordinal)"
proof -
  let ?o = "steady_offset tz"
  have vals: "0 \<le> x \<and> x < 60" if "x \<in> set (f_values (s_seconds s)) \<or> x \<in> set (f_values (s_minutes s))" for x
    using that assms(1) values_in_range [of x _ 0 59] by (fastforce simp: schedule_ok_def)
  have secs: "sorted_wrt (before forward) (concat (map (\<lambda>second. timeline_candidates tz forward (wall_time ordinal h m second))
      (ordered_values forward (s_seconds s))))" if "0 \<le> m" "m < 60" for h m
    by (rule sorted_wrt_concat_map [OF ordered_values_sorted])
      (use that wall_time_less(3) [of m _ m] vals in \<open>auto simp: steady_candidates [OF assms(2)] before_def\<close>)
  have minutes: "sorted_wrt (before forward) (concat (map (\<lambda>minute. if c minute then []
      else concat (map (\<lambda>second. timeline_candidates tz forward (wall_time ordinal h minute second))
        (ordered_values forward (s_seconds s)))) (ordered_values forward (s_minutes s))))" for h c
    apply (rule sorted_wrt_concat_map [OF ordered_values_sorted])
    subgoal using secs vals by simp
    subgoal using wall_time_less(2) vals by (cases forward) (auto simp: steady_candidates [OF assms(2)])
    done
  show ?thesis
    unfolding candidate_times_def Let_def
    apply (rule sorted_wrt_concat_map [OF ordered_values_sorted])
    subgoal using minutes by simp
    subgoal using wall_time_less(1) vals by (cases forward) (auto simp: steady_candidates [OF assms(2)] split: if_splits)
    done
qed

lemma find_first:
  assumes "sorted_wrt R xs" and "find P xs = Some u" and "v \<in> set xs" and "P v"
  shows "v = u \<or> R u v"
  using assms by (induction xs) (auto split: if_splits)

definition no_earlier_date :: "bool \<Rightarrow> int \<Rightarrow> int \<Rightarrow> bool" where
  "no_earlier_date forward a d \<longleftrightarrow> (if forward then a \<le> d else d \<le> a)"

lemma date_order: "wall_date a < wall_date b \<Longrightarrow> a < b"
  by (rule ccontr) (simp add: wall_date_def not_less zdiv_mono1 leD)

lemma date_mono: "a \<le> b \<Longrightarrow> wall_date a \<le> wall_date b"
  using date_order linorder_not_less by blast

lemma date_passed:
  assumes "schedule_ok s" and "steady tz" and "fires_at s tz v" and "beyond forward base v"
    and "(if matches_date s ordinal then find (beyond forward base) (candidate_times s tz forward (shown tz base) ordinal)
          else None) = None"
  shows "wall_date (shown tz v) \<noteq> ordinal"
  using steady_candidate [OF assms(1-4)] assms(4,5) by (auto simp: find_None_iff)

lemma search_days_nearest_from:
  assumes "schedule_ok s" and "steady tz" and "search_days n s tz forward base (shown tz base) ordinal = Inr u"
    and "fires_at s tz v" and "beyond forward base v" and "no_earlier_date forward ordinal (wall_date (shown tz v))"
  shows "\<not> before forward v u"
  using assms(3,6)
proof (induction n arbitrary: ordinal)
  case (Suc n)
  let ?d = "wall_date (shown tz v)"
  note cand = steady_candidate [OF assms(1,2,4,5)]
  show ?case
  proof (cases "if matches_date s ordinal then find (beyond forward base) (candidate_times s tz forward (shown tz base) ordinal) else None")
    case None
    let ?next = "if forward then ordinal + 1 else ordinal - 1"
    note passed = date_passed [OF assms(1,2,4,5) None]
    have "no_earlier_date forward ?next ?d" using passed Suc.prems(2) by (auto simp: no_earlier_date_def split: if_splits)
    moreover have "search_days n s tz forward base (shown tz base) ?next = Inr u"
      using Suc.prems(1) None by (auto simp: Let_def split: if_splits)
    ultimately show ?thesis by (intro Suc.IH)
  next
    case (Some w)
    with Suc.prems(1) have "w = u" by simp
    with Some have f: "matches_date s ordinal" "find (beyond forward base) (candidate_times s tz forward (shown tz base) ordinal) = Some u"
      by (auto split: if_splits)
    then have "u \<in> set (candidate_times s tz forward (shown tz base) ordinal)" by (auto simp: find_Some_iff)
    from candidate_matches(2) [OF assms(1) f(1) this] have du: "wall_date (shown tz u) = ordinal" .
    show ?thesis
    proof (cases "?d = ordinal")
      case True
      with find_first [OF candidate_times_sorted [OF assms(1,2)] f(2), of v] cand assms(5)
      show ?thesis by (cases forward) auto
    next
      case False
      then have "before forward ordinal ?d" using Suc.prems(2) by (auto simp: no_earlier_date_def before_def split: if_splits)
      then have "before forward (shown tz u) (shown tz v)"
        by (cases forward) (auto intro: date_order simp: du [symmetric])
      then show ?thesis by (cases forward) (simp_all add: steady_shown [OF assms(2)])
    qed
  qed
qed (simp add: value_error_def)

lemma base_date:
  assumes "steady tz" and "beyond forward base v"
  shows "no_earlier_date forward (wall_date (shown tz base)) (wall_date (shown tz v))"
  using assms by (cases forward) (auto simp: no_earlier_date_def beyond_def steady_shown intro!: date_mono)

text \<open>Nothing the schedule names lies between the base and the run that is found.\<close>

lemma search_days_nearest:
  assumes "schedule_ok s" and "steady tz"
    and "search_days n s tz forward base (shown tz base) (wall_date (shown tz base)) = Inr u"
    and "fires_at s tz v" and "beyond forward base v"
  shows "\<not> before forward v u"
  using search_days_nearest_from [OF assms(1-5) base_date [OF assms(2,5)]] .

text \<open>And a run that exists within the window is found.\<close>

lemma search_days_finds_from:
  assumes "schedule_ok s" and "steady tz" and "fires_at s tz v" and "beyond forward base v"
    and d: "min_ordinal \<le> wall_date (shown tz v)" "wall_date (shown tz v) \<le> max_ordinal"
    and "no_earlier_date forward ordinal (wall_date (shown tz v))" and "\<bar>wall_date (shown tz v) - ordinal\<bar> < int n"
    and "min_ordinal \<le> ordinal" and "ordinal \<le> max_ordinal"
  shows "\<exists>u. search_days n s tz forward base (shown tz base) ordinal = Inr u"
  using assms(7-10)
proof (induction n arbitrary: ordinal)
  case (Suc n)
  let ?d = "wall_date (shown tz v)"
  let ?next = "if forward then ordinal + 1 else ordinal - 1"
  show ?case
  proof (cases "if matches_date s ordinal then find (beyond forward base) (candidate_times s tz forward (shown tz base) ordinal) else None")
    case None
    note passed = date_passed [OF assms(1-4) None]
    have n: "no_earlier_date forward ?next ?d" "\<bar>?d - ?next\<bar> < int n"
      using passed Suc.prems by (auto simp: no_earlier_date_def split: if_splits)
    have range: "min_ordinal \<le> ?next" "?next \<le> max_ordinal"
      using passed Suc.prems(1,3,4) d by (auto simp: no_earlier_date_def split: if_splits)
    then show ?thesis using None Suc.IH [OF n range] by (simp add: Let_def)
  qed simp
qed simp

section \<open>Schedules and their runs\<close>

text \<open>The zone a schedule is read in for an aware base.\<close>

definition schedule_zone :: "schedule \<Rightarrow> tzinfo \<Rightarrow> tzinfo" where
  "schedule_zone s z = (case s_timezone s of Some z' \<Rightarrow> z' | None \<Rightarrow> z)"

lemma shown_Some [simp]: "shown (Some z) u = to_wall z u"
  by (simp add: shown_def)

lemma find_run_aware:
  "find_run_for_schedule s (Aware u z) forward =
     and_then (search_days max_search_days s (Some (schedule_zone s z)) forward u (to_wall (schedule_zone s z) u)
        (wall_date (to_wall (schedule_zone s z) u))) (\<lambda>r. Inr (Aware r z))"
  by (simp add: find_run_for_schedule_def schedule_zone_def Let_def)

lemma find_run_aware_sound:
  assumes "schedule_ok s" and "find_run_for_schedule s (Aware u z) forward = Inr m"
  obtains r where "m = Aware r z" "beyond forward u r" "matches_time s (to_wall (schedule_zone s z) r)"
  using assms search_days_sound [OF assms(1), of max_search_days "Some (schedule_zone s z)"] by (auto simp: find_run_aware)

lemma find_run_aware_nearest:
  assumes "schedule_ok s" and "find_run_for_schedule s (Aware u z) forward = Inr (Aware r z)"
    and "\<not> is_zone_info (schedule_zone s z)" and "fires_at s (Some (schedule_zone s z)) v" and "beyond forward u v"
  shows "\<not> before forward v r"
  using search_days_nearest [OF assms(1), of "Some (schedule_zone s z)" max_search_days forward u r v] assms(2-5)
  by (auto simp: find_run_aware steady_def)

lemma find_run_aware_finds:
  assumes "schedule_ok s" and "\<not> is_zone_info (schedule_zone s z)" and "fires_at s (Some (schedule_zone s z)) v"
    and "beyond forward u v"
    and "min_ordinal \<le> wall_date (to_wall (schedule_zone s z) u)" "wall_date (to_wall (schedule_zone s z) u) \<le> max_ordinal"
    and "min_ordinal \<le> wall_date (to_wall (schedule_zone s z) v)" "wall_date (to_wall (schedule_zone s z) v) \<le> max_ordinal"
    and "\<bar>wall_date (to_wall (schedule_zone s z) v) - wall_date (to_wall (schedule_zone s z) u)\<bar> < int max_search_days"
  shows "\<exists>r. find_run_for_schedule s (Aware u z) forward = Inr (Aware r z)"
  using search_days_finds_from [OF assms(1), of "Some (schedule_zone s z)" v forward u
      "wall_date (to_wall (schedule_zone s z) u)" max_search_days]
    base_date [of "Some (schedule_zone s z)" forward u v] assms(2-9)
  by (auto simp: find_run_aware steady_def)

lemma run_candidates_set:
  "run_candidates ss base forward = Inr ms \<Longrightarrow> set ms = {m. \<exists>s\<in>set ss. find_run_for_schedule s base forward = Inr m}"
  by (induction ss arbitrary: ms) (auto split: sum.splits error.splits)

lemma best_moment_in: "best_moment forward m ms \<in> insert m (set ms)"
proof (induction ms arbitrary: m)
  case (Cons k ms)
  show ?case using Cons.IH [of m] Cons.IH [of k] by auto
qed simp

lemma best_moment_best:
  "n \<in> insert m (set ms) \<Longrightarrow> \<not> before forward (moment_key n) (moment_key (best_moment forward m ms))"
proof (induction ms arbitrary: m n)
  case (Cons k ms)
  define c where "c = (if (if forward then moment_key k < moment_key m else moment_key m < moment_key k) then k else m)"
  have c: "\<not> before forward (moment_key m) (moment_key c)" "\<not> before forward (moment_key k) (moment_key c)"
    by (cases forward; simp add: c_def)+
  note IH = Cons.IH [of c c] Cons.IH [of n c]
  have eq: "best_moment forward m (k # ms) = best_moment forward c ms" by (simp add: c_def)
  show ?case unfolding eq
  proof (cases "n \<in> set ms")
    case False
    with Cons.prems have "n = m \<or> n = k" by simp
    with IH(1) c show "\<not> before forward (moment_key n) (moment_key (best_moment forward c ms))"
      by (cases forward) (elim disjE; simp)+
  qed (use IH(2) in simp)
qed (cases forward; simp)

lemma find_runE:
  assumes "find_run ss base forward = Inr m"
  obtains s where "s \<in> set ss" "find_run_for_schedule s base forward = Inr m"
    "\<And>s' m'. s' \<in> set ss \<Longrightarrow> find_run_for_schedule s' base forward = Inr m' \<Longrightarrow> \<not> before forward (moment_key m') (moment_key m)"
proof -
  from assms obtain k ks where r: "run_candidates ss base forward = Inr (k # ks)" and m: "m = best_moment forward k ks"
    by (auto simp: find_run_def value_error_def split: list.splits)
  note set = run_candidates_set [OF r]
  have "m \<in> set (k # ks)" using best_moment_in [of forward k ks] by (simp add: m)
  with set obtain s where "s \<in> set ss" "find_run_for_schedule s base forward = Inr m" by auto
  moreover have "\<not> before forward (moment_key m') (moment_key m)"
    if "s' \<in> set ss" "find_run_for_schedule s' base forward = Inr m'" for s' m'
  proof -
    have "m' \<in> set (k # ks)" unfolding set using that by blast
    then show ?thesis unfolding m by (intro best_moment_best) simp
  qed
  ultimately show ?thesis using that by blast
qed

text \<open>Every run a schedule text gives matches one of its schedules, on the right side of the base.\<close>

lemma parsed_run_sound:
  assumes "parse_schedule zi text = Inr ss" and "find_run ss (Aware u z) forward = Inr m"
  obtains r s where "m = Aware r z" "beyond forward u r" "s \<in> set ss" "matches_time s (to_wall (schedule_zone s z) r)"
  using assms by (metis find_runE find_run_aware_sound parse_schedule_ok)

lemma next_run_later:
  assumes "next_run zi text (Aware u z) = Inr m"
  obtains r where "m = Aware r z" "u < r"
  using assms by (auto simp: next_run_def beyond_def elim!: parsed_run_sound)

lemma latest_run_not_later:
  assumes "latest_run zi text (Aware u Utc) = Inr m"
  obtains r where "m = Aware r Utc" "r \<le> u"
  using assms by (auto simp: latest_run_def previous_run_def beyond_def elim!: parsed_run_sound)

end
