(* ===== verification/Schedules.thy ===== *)
theory Schedules
  imports Recurring_Runs Cron_Facts
begin

text \<open>
  The cron functions as \<^verbatim>\<open>operations/recurring.py\<close> uses them: on instants in UTC, as the database and
  \<open>timezone.now()\<close> give them.  They keep the contract recurring runs rely on, whatever the schedule and its
  time zone.  With a zone that puts the clock back the search is not exact: the last section shows the
  runs it passes over.
\<close>

section \<open>Cron functions on instants\<close>

definition utc_cron :: "zone_info \<Rightarrow> cron" where
  "utc_cron zi = \<lparr>
     is_valid_cron = is_valid_schedule zi,
     latest_cron_run = (\<lambda>schedule t. and_then (latest_run zi schedule (Aware t Utc)) (\<lambda>m. Inr (moment_key m))),
     next_cron_run = (\<lambda>schedule t. and_then (next_run zi schedule (Aware t Utc)) (\<lambda>m. Inr (moment_key m)))\<rparr>"

interpretation utc: cron_runs "latest_cron_run (utc_cron zi)" "next_cron_run (utc_cron zi)" for zi
proof unfold_locales
  fix s t u
  show "u \<le> t" if "latest_cron_run (utc_cron zi) s t = Inr u"
    using that by (auto simp: utc_cron_def elim!: latest_run_not_later)
  show "t < u" if "next_cron_run (utc_cron zi) s t = Inr u"
    using that by (auto simp: utc_cron_def elim!: next_run_later)
qed

section \<open>Runs on the day of the base\<close>

lemma search_days_first_day:
  assumes "matches_date s d" and "find (beyond forward base) (candidate_times s tz forward b d) = Some u" and "0 < n"
  shows "search_days n s tz forward base b d = Inr u"
  using assms by (cases n) simp_all

text \<open>To evaluate a run on the day of the base, only that day has to be searched.\<close>

definition runs_today :: "schedule \<Rightarrow> time \<Rightarrow> bool \<Rightarrow> time \<Rightarrow> bool" where
  "runs_today s t forward r \<longleftrightarrow>
     (let z = schedule_zone s Utc; b = to_wall z t; d = wall_date b
      in matches_date s d \<and> find (beyond forward t) (candidate_times s (Some z) forward b d) = Some r)"

definition text_runs_today :: "zone_info \<Rightarrow> string \<Rightarrow> time \<Rightarrow> bool \<Rightarrow> time \<Rightarrow> bool" where
  "text_runs_today zi text t forward r \<longleftrightarrow>
     (case parse_schedule zi text of Inr [s] \<Rightarrow> runs_today s t forward r | _ \<Rightarrow> False)"

lemma runs_today_find_run:
  assumes "runs_today s t forward r"
  shows "find_run [s] (Aware t Utc) forward = Inr (Aware r Utc)"
proof -
  have "find_run_for_schedule s (Aware t Utc) forward = Inr (Aware r Utc)"
    using assms by (simp add: find_run_aware runs_today_def Let_def search_days_first_day max_search_days_def)
  then show ?thesis by (simp add: find_run_def)
qed

lemma text_runs_todayE:
  assumes "text_runs_today zi text t forward r"
  obtains s where "parse_schedule zi text = Inr [s]" "find_run [s] (Aware t Utc) forward = Inr (Aware r Utc)"
  using assms by (auto simp: text_runs_today_def split: sum.splits list.splits intro: runs_today_find_run)

lemma next_run_today: "text_runs_today zi text t True r \<Longrightarrow> next_cron_run (utc_cron zi) text t = Inr r"
  by (auto simp: utc_cron_def next_run_def elim!: text_runs_todayE)

lemma latest_run_today: "text_runs_today zi text (t + 1) False r \<Longrightarrow> latest_cron_run (utc_cron zi) text t = Inr r"
  by (auto simp: utc_cron_def latest_run_def previous_run_def elim!: text_runs_todayE)

section \<open>Runs of a schedule without daylight saving\<close>

text \<open>For a schedule text that is one schedule in UTC or at a fixed offset, \<open>next_cron_run\<close> gives the first
  instant after the base at which the schedule fires.\<close>

lemma single_run:
  assumes "find_run [s] base forward = Inr m"
  shows "find_run_for_schedule s base forward = Inr m"
  using assms by (auto elim: find_runE)

lemma next_cron_run_first:
  assumes "parse_schedule zi text = Inr [s]" and "\<not> is_zone_info (schedule_zone s Utc)"
    and "next_cron_run (utc_cron zi) text t = Inr r"
  shows "t < r" and "matches_time s (to_wall (schedule_zone s Utc) r)"
    and "fires_at s (Some (schedule_zone s Utc)) v \<Longrightarrow> t < v \<Longrightarrow> r \<le> v"
proof -
  from assms(1,3) obtain m where "find_run [s] (Aware t Utc) True = Inr m" and r: "r = moment_key m"
    by (auto simp: utc_cron_def next_run_def)
  then have f: "find_run_for_schedule s (Aware t Utc) True = Inr m" by (intro single_run)
  have ok: "schedule_ok s" using parse_schedule_ok [OF assms(1)] by simp
  obtain r' where r': "m = Aware r' Utc" "beyond True t r'" "matches_time s (to_wall (schedule_zone s Utc) r')"
    by (rule find_run_aware_sound [OF ok f])
  then have "r' = r" using r by simp
  with r' have m: "m = Aware r Utc" and "t < r" "matches_time s (to_wall (schedule_zone s Utc) r)" by (auto simp: beyond_def)
  then show "t < r" "matches_time s (to_wall (schedule_zone s Utc) r)" by blast+
  show "r \<le> v" if "fires_at s (Some (schedule_zone s Utc)) v" "t < v"
    using find_run_aware_nearest [OF ok f [unfolded m] assms(2) that(1)] that(2) by (simp add: beyond_def)
qed

section \<open>Putting the clock back\<close>

text \<open>A zone one hour behind UTC in which, at a given instant, the clock is put back by one more hour.\<close>

definition fall_back :: "time \<Rightarrow> zone" where
  "fall_back switch = \<lparr>zone_key = ''Test/Zone'',
     offset_at = (\<lambda>u. if u < switch then - seconds 3600 else - seconds 7200),
     offset_of_wall = (\<lambda>fo w. if w < switch - seconds 7200 then - seconds 3600
        else if w < switch - seconds 3600 then (if fo then - seconds 7200 else - seconds 3600)
        else - seconds 7200)\<rparr>"

definition switch_over :: time where
  "switch_over = seconds 1730599200"

definition half_hourly :: schedule where
  "half_hourly = \<lparr>s_seconds = \<lparr>f_values = [0], f_wildcard = False\<rparr>, s_minutes = \<lparr>f_values = [0, 30], f_wildcard = False\<rparr>,
     s_hours = \<lparr>f_values = [0..23], f_wildcard = True\<rparr>, s_day_of_month = \<lparr>f_values = [1..31], f_wildcard = True\<rparr>,
     s_months = \<lparr>f_values = [1..12], f_wildcard = True\<rparr>, s_day_of_week = \<lparr>wf_specs = [], wf_wildcard = True\<rparr>,
     s_day_and = False, s_timezone = Some (Zone (fall_back switch_over))\<rparr>"

lemma half_hourly_runs:
  "find_run_for_schedule half_hourly (Aware (switch_over - seconds 3600) Utc) True = Inr (Aware switch_over Utc)"
  "fires_at half_hourly (s_timezone half_hourly) (switch_over - seconds 1800)"
proof -
  let ?z = "Zone (fall_back switch_over)" and ?u = "switch_over - seconds 3600"
  let ?d = "wall_date (to_wall ?z ?u)"
  have "schedule_zone half_hourly Utc = ?z" by (simp add: schedule_zone_def half_hourly_def)
  moreover have "search_days max_search_days half_hourly (Some ?z) True ?u (to_wall ?z ?u) ?d = Inr switch_over"
  proof (rule search_days_first_day)
    show "matches_date half_hourly ?d" by code_simp
    show "find (beyond True ?u) (candidate_times half_hourly (Some ?z) True (to_wall ?z ?u) ?d) = Some switch_over" by code_simp
    show "0 < max_search_days" by (simp add: max_search_days_def)
  qed
  ultimately show "find_run_for_schedule half_hourly (Aware ?u Utc) True = Inr (Aware switch_over Utc)"
    by (simp add: find_run_aware)
  show "fires_at half_hourly (s_timezone half_hourly) (switch_over - seconds 1800)" by code_simp
qed

end
