(* ===== verification/Cron_Natural_Facts.thy ===== *)
theory Cron_Natural_Facts
  imports Cron_Natural
begin

text \<open>
  Facts about natural-language schedules: the slots for hours and minutes always hold minutes, merging them
  ends when no graded slot is left or all are merged, and an accepted text always gives at least one
  schedule.
\<close>

definition slot_ok :: "natural_slot \<Rightarrow> bool" where
  "slot_ok s \<longleftrightarrow> (ns_key s = ''hm'' \<longrightarrow> slot_values s 1 \<noteq> [])"

named_theorems slot_ok_rules

lemma or_else_Inr: "or_else r q = Inr x \<longleftrightarrow> r = Inr x \<or> (\<exists>m. r = Inl (ValueError m)) \<and> q = Inr x"
  by (auto simp: or_else_def split: sum.splits error.splits)

lemma slot_ok_slot [simp]: "slot_ok (slot key a b) \<longleftrightarrow> (key = ''hm'' \<longrightarrow> data_values b \<noteq> [])"
  by (simp add: slot_ok_def slot_def slot_values_def)

lemma slot_ok_grades [simp]: "slot_ok (s\<lparr>ns_strong := g\<rparr>) = slot_ok s" "slot_ok (s\<lparr>ns_weak := g\<rparr>) = slot_ok s"
  by (simp_all add: slot_ok_def slot_values_def)

lemma map_all_nonempty: "map_all f xs = Inr ys \<Longrightarrow> xs \<noteq> [] \<Longrightarrow> ys \<noteq> []"
  by (cases xs) auto

lemma natural_list_parts_nonempty: "natural_list_parts s = Inr parts \<Longrightarrow> parts \<noteq> []"
  by (auto simp: natural_list_parts_def value_error_def split: if_splits)

lemma parse_number_list_nonempty: "parse_number_list s = Inr ns \<Longrightarrow> data_values ns \<noteq> []"
  by (auto simp: parse_number_list_def dest!: natural_list_parts_nonempty map_all_nonempty)

lemma at_segment_ok: "parse_at_segment zi segment = Inr ss \<Longrightarrow> list_all slot_ok ss"
  by (auto simp: parse_at_segment_def minute_slot_def list_all_iff Let_def split: if_splits option.splits prod.splits
      dest!: parse_number_list_nonempty)

lemma from_segment_ok: "parse_from_segment segment = Inr ss \<Longrightarrow> list_all slot_ok ss"
  by (auto simp: parse_from_segment_def or_else_Inr value_error_def parse_weekday_range_slot_def
      parse_monthday_range_slot_def parse_hour_range_slot_def split: if_splits prod.splits)

lemma interval_slot_ok:
  assumes "parse_every_interval_slot subject = Inr (Some ss)"
  shows "list_all slot_ok ss"
proof -
  from assms obtain count_text unit_text where m: "interval_match subject = Some (count_text, unit_text)"
    by (cases "interval_match subject") (auto simp: parse_every_interval_slot_def)
  note step = assms [unfolded parse_every_interval_slot_def m option.case prod.case]
  obtain u where u: "(if unit_text = ''M'' then Some ''month'' else map_of natural_interval_units (lower unit_text)) = Some u"
    using step by (cases "if unit_text = ''M'' then Some ''month'' else map_of natural_interval_units (lower unit_text)") simp_all
  define n where "n = (case count_text of None \<Rightarrow> 1 | Some t \<Rightarrow> int (nat_of_digits t))"
  note step = step [unfolded u option.case, folded n_def, unfolded Let_def]
  have "0 < n" using step by (rule contrapos_pp) (simp add: value_error_def)
  moreover obtain v where "validate_natural_interval_count n u = Inr v"
    using step \<open>0 < n\<close> by (cases "validate_natural_interval_count n u") simp_all
  ultimately show ?thesis using step
    by (simp add: minute_slot_def value_error_def split: if_splits) (auto simp: minute_slot_def)
qed

lemma every_subject_ok: "parse_every_subject subject = Inr ss \<Longrightarrow> list_all slot_ok ss"
  by (auto simp: parse_every_subject_def Let_def split: option.splits if_splits dest: interval_slot_ok)

lemma on_object_ok: "parse_on_object segment = Inr ss \<Longrightarrow> list_all slot_ok ss"
  by (auto simp: parse_on_object_def minute_slot_def Let_def split: option.splits if_splits dest!: parse_number_list_nonempty)

lemma try_splits_ok:
  assumes "\<And>s ss. parse s = Inr ss \<Longrightarrow> list_all slot_ok ss"
  shows "try_splits zi parse message tokens is = Inr ss \<Longrightarrow> list_all slot_ok ss"
  by (induction "is") (auto simp: or_else_Inr value_error_def dest: assms at_segment_ok)

lemma every_segment_ok: "parse_every_segment zi segment = Inr ss \<Longrightarrow> list_all slot_ok ss"
  unfolding parse_every_segment_def or_else_Inr by (metis every_subject_ok try_splits_ok [where parse = parse_every_subject])

lemma on_segment_ok: "parse_on_segment zi segment = Inr ss \<Longrightarrow> list_all slot_ok ss"
  unfolding parse_on_segment_def or_else_Inr by (metis on_object_ok try_splits_ok [where parse = parse_on_object])

lemma bare_segment_ok: "parse_bare_natural_segment zi segment = Inr ss \<Longrightarrow> list_all slot_ok ss"
  unfolding parse_bare_natural_segment_def or_else_Inr value_error_def using at_segment_ok from_segment_ok by blast

lemma timezone_slot_ok: "parse_timezone_slot zi segment = Inr s \<Longrightarrow> slot_ok s"
  by (auto simp: parse_timezone_slot_def value_error_def Let_def split: if_splits)

lemma one_timezone_slot_ok: "and_then (parse_timezone_slot zi segment) (\<lambda>s. Inr [s]) = Inr ss \<Longrightarrow> list_all slot_ok ss"
  by (cases "parse_timezone_slot zi segment") (auto dest: timezone_slot_ok)

lemma natural_segment_ok:
  assumes "parse_natural_segment zi prefix segment = Inr ss"
  shows "list_all slot_ok ss"
proof (cases "prefix = Some ''on''")
  case True
  with assms obtain tz :: "tzinfo option" where "(if tz \<noteq> None then and_then (parse_timezone_slot zi segment) (\<lambda>s. Inr [s])
      else parse_on_segment zi segment) = Inr ss"
    by (cases "parse_timezone zi segment False") (simp_all add: parse_natural_segment_def)
  then show ?thesis using one_timezone_slot_ok on_segment_ok by (cases tz) simp_all
next
  case False
  note step = assms [unfolded parse_natural_segment_def if_not_P [OF False]]
  show ?thesis
    using step every_segment_ok bare_segment_ok at_segment_ok from_segment_ok one_timezone_slot_ok
    by (cases "prefix = Some ''every''"; cases "prefix = Some ''from''"; cases "prefix = Some ''at''"; cases "prefix = Some ''in''") simp_all
qed

lemma natural_slots_of_ok: "natural_slots_of zi t = Inr ss \<Longrightarrow> list_all slot_ok ss"
proof (induction zi t arbitrary: ss rule: natural_slots_of.induct)
  case (2 zi c cs)
  obtain prefix segment rest where t: "take_natural_prefixed_segment (c # cs) = (prefix, segment, rest)" by (metis prod_cases3)
  from 2(2) t obtain slots more where
    s: "(if segment = [] then Inr [] else parse_natural_segment zi prefix segment) = Inr slots"
    and m: "natural_slots_of zi rest = Inr more" and ss: "ss = slots @ more"
    by auto
  have "list_all slot_ok more" using 2(1) [OF t [symmetric] refl refl m] .
  moreover have "list_all slot_ok slots" using s natural_segment_ok by (auto split: if_splits)
  ultimately show ?case by (simp add: ss)
qed simp

section \<open>Merging\<close>

lemma conflate_values:
  assumes "data_values (ns_data1 s) \<noteq> []" and "data_values (ns_data1 t) \<noteq> []"
  shows "data_values (slot_conflate s t 1) \<noteq> []"
  using assms by (auto simp: slot_conflate_def natural_data_values_def Let_def)

lemma slot_append_ok: "slot_ok s \<Longrightarrow> slot_ok t \<Longrightarrow> ns_key t = ''hm'' \<Longrightarrow> slot_ok (slot_append s t)"
  using conflate_values [of s t] by (auto simp: slot_ok_def slot_append_def slot_values_def)

lemma ns_key_append [simp]: "ns_key (slot_append s t) = ns_key s"
  by (simp add: slot_append_def)

definition hms_ok :: "natural_slot list \<Rightarrow> bool" where
  "hms_ok hms \<longleftrightarrow> hms \<noteq> [] \<and> (\<forall>s\<in>set hms. ns_key s = ''hm'' \<and> slot_values s 1 \<noteq> [])"

lemma set_remove_at: "set (remove_at i xs) \<subseteq> set xs"
  by (auto simp: remove_at_def dest: in_set_takeD in_set_dropD)

lemma merge_step_ok:
  assumes "hms_ok hms" and "2 \<le> length hms" and "i < length hms" and "j < length hms"
  shows "hms_ok (remove_at j (hms[i := slot_append (hms ! i) (hms ! j)]))"
proof -
  let ?a = "slot_append (hms ! i) (hms ! j)"
  have m: "hms ! i \<in> set hms" "hms ! j \<in> set hms" using assms(3,4) by simp_all
  have "slot_ok (hms ! i)" "slot_ok (hms ! j)" "ns_key (hms ! i) = ''hm''" "ns_key (hms ! j) = ''hm''"
    using assms(1) m unfolding hms_ok_def slot_ok_def by blast+
  then have a: "ns_key ?a = ''hm''" "slot_values ?a 1 \<noteq> []" using slot_append_ok [of "hms ! i" "hms ! j"] by (simp_all add: slot_ok_def)
  have "length (remove_at j (hms[i := ?a])) = length hms - 1" using assms(4) by (simp add: length_remove_at)
  then have "remove_at j (hms[i := ?a]) \<noteq> []" using assms(2) by auto
  moreover have "set (remove_at j (hms[i := ?a])) \<subseteq> insert ?a (set hms)"
    by (rule subset_trans [OF set_remove_at set_update_subset_insert])
  ultimately show ?thesis using assms(1) a unfolding hms_ok_def by blast
qed

lemma merge_graded_result:
  "hms_ok hms \<Longrightarrow> hms_ok (merge_graded hms) \<and> (length (merge_graded hms) \<le> 1 \<or> first_graded (merge_graded hms) = None)"
proof (induction hms rule: merge_graded.induct)
  case (3 hm hm' hms)
  show ?case
  proof (cases "first_graded (hm # hm' # hms)")
    case None
    with 3(2) show ?thesis by simp
  next
    case (Some i)
    let ?all = "hm # hm' # hms" and ?j = "if i = 0 then 1 else i - 1"
    have "i < length ?all" "?j < length ?all" using first_graded_bound [OF Some] by auto
    from merge_step_ok [OF 3(2) _ this] have "hms_ok (remove_at ?j (?all[i := slot_append (?all ! i) (?all ! ?j)]))" by simp
    from 3(1) [OF Some refl refl this] show ?thesis unfolding merge_graded.simps Some option.case Let_def .
  qed
qed simp_all

lemma dict_append_nonempty_list: "dict_append k v gs \<noteq> []"
  by (cases gs) (auto split: if_splits)

lemma fold_dict_append_nonempty: "gs \<noteq> [] \<Longrightarrow> fold (\<lambda>v. dict_append k v) vs gs \<noteq> []"
  by (induction vs arbitrary: gs) (simp_all add: dict_append_nonempty_list)

lemma group_minutes_keeps: "gs \<noteq> [] \<Longrightarrow> group_minutes hms gs \<noteq> []"
  by (induction hms arbitrary: gs) (simp_all add: fold_dict_append_nonempty)

lemma group_minutes_nonempty: "hms_ok hms \<Longrightarrow> group_minutes hms gs \<noteq> []"
proof (cases hms)
  case (Cons hm rest)
  assume "hms_ok hms"
  with Cons obtain m ms where "slot_values hm 1 = m # ms" by (cases "slot_values hm 1") (auto simp: hms_ok_def)
  then show ?thesis unfolding Cons by (simp, intro group_minutes_keeps fold_dict_append_nonempty dict_append_nonempty_list)
qed (simp add: hms_ok_def)

lemma determine_hms_nonempty: "hms = [] \<or> hms_ok hms \<Longrightarrow> determine_natural_hms hms \<noteq> []"
  using merge_graded_result [of hms] group_minutes_nonempty by (auto simp: determine_natural_hms_def)

lemma group_slots_hms:
  "group_slots ss grouped hms = (grouped', hms') \<Longrightarrow> list_all slot_ok ss \<Longrightarrow>
   \<forall>s\<in>set hms. ns_key s = ''hm'' \<and> slot_values s 1 \<noteq> [] \<Longrightarrow> \<forall>s\<in>set hms'. ns_key s = ''hm'' \<and> slot_values s 1 \<noteq> []"
proof (induction ss arbitrary: grouped hms)
  case (Cons s ss)
  show ?case
  proof (cases "ns_key s = ''hm''")
    case True
    with Cons.prems show ?thesis by (intro Cons.IH [of grouped "hms @ [s]"]) (simp_all add: slot_ok_def)
  next
    case False
    with Cons.prems(1) have "group_slots ss (grouped(ns_key s \<mapsto> (case grouped (ns_key s) of Some t \<Rightarrow> slot_append t s | None \<Rightarrow> s))) hms
      = (grouped', hms')" by simp
    then show ?thesis using Cons.prems(2,3) by (intro Cons.IH) simp_all
  qed
qed simp

lemma expand_natural_nonempty:
  assumes "expand_natural_schedule zi text = Inr crons"
  shows "crons \<noteq> []"
proof -
  from assms obtain t slots where p: "natural_slots_of zi t = Inr slots" and c: "crons = natural_slots_to_crons slots"
    by (auto simp: expand_natural_schedule_def parse_natural_slots_def value_error_def Let_def split: if_splits)
  obtain grouped hms where g: "group_slots slots Map.empty [] = (grouped, hms)" by force
  have hms: "\<forall>s\<in>set hms. ns_key s = ''hm'' \<and> slot_values s 1 \<noteq> []"
    using group_slots_hms [OF g natural_slots_of_ok [OF p]] by simp
  have midnight: "hms_ok [slot ''hm'' (nint 0) (nint 0)]" by (simp add: hms_ok_def slot_def slot_values_def)
  have "determine_natural_hms (if c then [slot ''hm'' (nint 0) (nint 0)] else hms) \<noteq> []" for c
    using hms midnight by (intro determine_hms_nonempty) (auto simp: hms_ok_def)
  then show ?thesis by (simp add: c natural_slots_to_crons_def g Let_def)
qed

lemma parse_all_length: "parse_all zi cs = Inr ss \<Longrightarrow> length ss = length cs"
  by (induction cs arbitrary: ss) auto

lemma parse_schedule_nonempty:
  assumes "parse_schedule zi text = Inr ss"
  shows "ss \<noteq> []"
  using assms expand_natural_nonempty parse_all_length
  by (fastforce simp: parse_schedule_def Let_def split: if_splits sum.splits error.splits)

end
