(* ===== verification/Samples.thy ===== *)
theory Samples
  imports Claim_Outcomes Schedules Cron_Natural_Facts
begin

text \<open>
  A small application to instantiate the theorems with: one task with concurrency limit 1, a connection
  of each database family, and the states a queue goes through when the task is enqueued twice, claimed
  and completed.  Every state is computed from the model and proved to be what the operations give.
\<close>

section \<open>The application\<close>

text \<open>A clock that shows a new microsecond at every reading.\<close>

definition ticks :: "int \<Rightarrow> time stream" where
  "ticks n = siterate (\<lambda>x. x + 1) n"

lemma ticks_simps [simp]: "shd (ticks n) = n" "stl (ticks n) = ticks (n + 1)"
  by (simp_all add: ticks_def)

definition demo_task :: task where
  "demo_task = \<lparr>module_path = ''app.report'', t_queue_name = ''default'', t_priority = OInt 0,
     run_after = None, takes_context = False, has_using = True,
     task_attrs = (\<lambda>n. if n = ''concurrency_key'' then Some (OStr ''report'')
       else if n = ''concurrency_limit'' then Some (OInt 1) else None),
     func_attrs = (\<lambda>_. None), bound_format = (\<lambda>template args kwargs. Inr template)\<rparr>"

definition demo_session :: "backend_family \<Rightarrow> session" where
  "demo_session fam = \<lparr>caps = \<lparr>cap_family = fam, cap_skip_locked = True, cap_listen_notify = (fam = Postgresql),
       cap_serialized_writes = (fam = Sqlite)\<rparr>,
     locked = (\<lambda>_ _. False), import_task = (\<lambda>_. Inr demo_task), float_repr = (\<lambda>_. [])\<rparr>"

definition demo_config :: backend_config where
  "demo_config = \<lparr>backend_alias = ''default'', allowed_queues = [], use_skip_locked = True,
     listen_notify = True, preserve_finished_jobs = True, default_concurrency_duration = 60,
     clear_finished_jobs_after = Some 86400, clear_failed_jobs_after = None,
     clear_recurring_executions_after = None\<rparr>"

definition demo_limits :: "string \<Rightarrow> int" where
  "demo_limits k = 1"

abbreviation demo_enqueue :: "backend_family \<Rightarrow> uuid \<Rightarrow> operation" where
  "demo_enqueue fam i \<equiv> Enqueue (demo_session fam) demo_config demo_task [] [] True i"

abbreviation demo_claim :: "backend_family \<Rightarrow> operation" where
  "demo_claim fam \<equiv> Claim (demo_session fam) demo_config 5 SelNone None"

section \<open>States\<close>

definition demo_job :: "uuid \<Rightarrow> time \<Rightarrow> job" where
  "demo_job i t = \<lparr>job_id = i, task_path = ''app.report'', job_queue_name = ''default'', job_priority = 0,
     payload = JObject [(''args'', JList []), (''kwargs'', JObject [])], job_backend_alias = ''default'',
     scheduled_at = None, concurrency_key = Some ''report'', concurrency_limit = Some 1,
     concurrency_duration = Some 60, concurrency_on_conflict = Some ''block'', finished_at = None,
     return_value = JNull, job_created_at = t, job_updated_at = t + 1\<rparr>"

definition demo_semaphore :: semaphore where
  "demo_semaphore = \<lparr>sem_id = 1, sem_key = ''report'', sem_value = 0, sem_active_count = Some 1,
     sem_limit = 1, sem_expires_at = 60000003, sem_created_at = 3, sem_updated_at = 3\<rparr>"

text \<open>One job: it is ready and holds the only slot.\<close>

definition demo_one :: db where
  "demo_one = (empty_db (ticks 5))\<lparr>jobs := [demo_job 1 0],
     ready_executions := [\<lparr>re_id = 2, re_job = 1, re_backend_alias = ''default'',
       re_queue_name = ''default'', re_priority = 0, re_created_at = 4, re_latency_started_at = Some 2\<rparr>],
     semaphores := [demo_semaphore], next_pk := 3, notified := [''default'']\<rparr>"

text \<open>Two jobs: the second is blocked.\<close>

definition demo_two :: db where
  "demo_two = demo_one\<lparr>jobs := [demo_job 1 0, demo_job 2 5],
     blocked_executions := [\<lparr>be_id = 3, be_job = 2, be_backend_alias = ''default'',
       be_queue_name = ''default'', be_priority = 0, be_concurrency_key = ''report'',
       be_expires_at = 60000007, be_created_at = 9\<rparr>],
     next_pk := 4, clock := ticks 10\<rparr>"

text \<open>The first job is claimed.\<close>

definition demo_claimed :: db where
  "demo_claimed = demo_two\<lparr>ready_executions := [],
     claimed_executions := [\<lparr>ce_id = 4, ce_job = 1, ce_process = None, ce_created_at = 10\<rparr>],
     next_pk := 5, clock := ticks 11\<rparr>"

lemmas demo_defs = demo_task_def demo_session_def demo_config_def empty_db_def demo_job_def
  demo_semaphore_def demo_one_def demo_two_def demo_claimed_def demo_limits_def

text \<open>The definitions to unfold when an operation is evaluated.\<close>

lemmas enqueue_eval = after_def enqueue_job_with_dispatch_def prepare_submission_def
  validate_queue_allowed_def validate_priority_def normalize_payload_def normalize_json_round_trip_def
  resolve_concurrency_key_def task_option_def is_missing_def concurrency_policy_def
  concurrency_settings_def positive_int_option_def str_option_def check_on_conflict_def column_int_def
  enqueue_transition_def create_job_def timezone_now_def dispatch_job_def dispatch_decision_def
  job_key_def concurrency_settings_for_job_def historical_policy_def concurrency_dispatch_outcome_def
  create_ready_execution_def create_blocked_execution_def ensure_no_other_execution_state_def
  ready_execution_fields_def blocked_execution_fields_def execution_backend_alias_def ref_of_job_def
  execution_queue_name_def execution_priority_def create_ready_def insert_ready_def create_blocked_def
  insert_blocked_def may_insert_def job_ids_def has_state_def state_keys.simps should_notify_def
  notify_ready_queues_on_commit_def call_limit_ok_def

lemmas semaphore_eval = semaphore_acquire_def postgres_semaphore_acquire_def find_semaphore_def
  insert_semaphore_def take_pk_def new_semaphore_def reconciled_available_expression_def
  update_semaphores_def sql_set_def assign_defs semaphore_release_def released_available_expression_def
  consume_released_semaphore_slot_def handoff_released_claimed_slot_def

lemmas claim_eval = guard_that_def claim_ready_jobs_def claim_ready_jobs_once_def select_ready_rows_def
  selectors_match_all_def ready_queryset_def exclude_active_pauses_def ordered_rows_def lock_ready_def
  locked_queryset_def first_n_def with_jobs_def map_filter_def find_job_def lock_active_pauses_def
  consume_ready_and_create_claimed_executions_def no_state_def state_models_except_def
  execution_state_models_def claimed_row_def insert_claimed_def delete_pks_def claimed_jobs_of_def

lemma demo_run_one: "run_operation (demo_enqueue Postgresql 1) (empty_db (ticks 0)) = Inr demo_one"
  by (simp add: demo_defs enqueue_eval semaphore_eval Let_def numeral_2_eq_2 numeral_3_eq_3)

lemma demo_run_two: "run_operation (demo_enqueue Postgresql 2) demo_one = Inr demo_two"
  by (simp add: demo_defs enqueue_eval semaphore_eval Let_def)

lemma demo_run_claimed: "run_operation (demo_claim Postgresql) demo_two = Inr demo_claimed"
  by (simp add: demo_defs enqueue_eval claim_eval Let_def)

lemma demo_lawful [simp]: "lawful demo_limits (demo_enqueue fam i) d"
  by (simp add: demo_defs enqueue_eval)

lemma demo_reachable:
  "reachable demo_limits demo_one" "reachable demo_limits demo_two" "reachable demo_limits demo_claimed"
proof -
  show one: "reachable demo_limits demo_one"
    by (rule reachable.onward [OF reachable.initial step.commit [OF demo_lawful demo_run_one]])
  show two: "reachable demo_limits demo_two"
    by (rule reachable.onward [OF one step.commit [OF demo_lawful demo_run_two]])
  show "reachable demo_limits demo_claimed"
    by (rule reachable.onward [OF two step.commit [OF _ demo_run_claimed]]) simp
qed

section \<open>A recurring task\<close>

definition no_zones :: zone_info where
  "no_zones k = Inl (ZoneInfoNotFoundError k)"

definition demo_cron :: cron where
  "demo_cron = utc_cron no_zones"

lemma demo_cron_valid: "is_valid_cron demo_cron ''0 * * * *''"
  unfolding demo_cron_def utc_cron_def by code_simp

lemma demo_cron_runs:
  "latest_cron_run demo_cron ''0 * * * *'' 3600000001 = Inr 3600000000"
  "next_cron_run demo_cron ''0 * * * *'' 3600000000 = Inr 7200000000"
  "latest_cron_run demo_cron ''0 * * * *'' 3600000000 = Inr 3600000000"
  unfolding demo_cron_def
  by (rule latest_run_today next_run_today; code_simp)+

definition demo_recurring :: recurring_config where
  "demo_recurring = \<lparr>rc_key = ''hourly'', rc_task_path = ''app.report'', rc_schedule = ''0 * * * *'',
     rc_args = [], rc_kwargs = [], rc_queue_name = ''default'', rc_priority = 0, rc_description = []\<rparr>"

definition demo_using :: task_using where
  "demo_using t queue priority backend = Inr t"

definition demo_recurring_task :: "time option \<Rightarrow> recurring_task" where
  "demo_recurring_task next_at = \<lparr>rt_id = 1, rt_backend_alias = ''default'', rt_key = ''hourly'',
     rt_task_path = ''app.report'', rt_payload = JObject [(''args'', JList []), (''kwargs'', JObject [])],
     rt_schedule = ''0 * * * *'', rt_queue_name = ''default'', rt_priority = 0, rt_description = [],
     rt_static = True, rt_next_run_at = next_at\<rparr>"

text \<open>The task is in the configuration; its run at one o'clock is reserved, and published.\<close>

definition demo_planned :: db where
  "demo_planned = (empty_db (ticks 0))\<lparr>recurring_tasks := [demo_recurring_task None], next_pk := 2\<rparr>"

definition demo_execution :: "uuid option \<Rightarrow> recurring_execution" where
  "demo_execution job = \<lparr>rx_id = 2, rx_backend_alias = ''default'', rx_intended_job_id = Some 7, rx_job = job,
     rx_task_key = ''hourly'', rx_run_at = 3600000000, rx_created_at = 0\<rparr>"

definition demo_reserved :: db where
  "demo_reserved = (empty_db (ticks 1))\<lparr>recurring_tasks := [demo_recurring_task (Some 7200000000)],
     recurring_executions := [demo_execution None], next_pk := 3\<rparr>"

definition demo_reservation :: reservation where
  "demo_reservation = \<lparr>rs_execution_id = 2, rs_intended_job_id = Some 7, rs_recurring_task_id = 1,
     rs_task_key = ''hourly'', rs_run_at = 3600000000, rs_next_run_at = 7200000000, rs_task_path = ''app.report'',
     rs_payload = JObject [(''args'', JList []), (''kwargs'', JObject [])], rs_queue_name = ''default'',
     rs_priority = 0, rs_backend_alias = ''default''\<rparr>"

definition demo_published :: db where
  "demo_published = demo_reserved\<lparr>recurring_executions := [demo_execution (Some 7)], jobs := [demo_job 7 1],
     ready_executions := [\<lparr>re_id = 4, re_job = 7, re_backend_alias = ''default'',
       re_queue_name = ''default'', re_priority = 0, re_created_at = 5, re_latency_started_at = Some 3\<rparr>],
     semaphores := [demo_semaphore\<lparr>sem_id := 3, sem_expires_at := 60000004, sem_created_at := 4, sem_updated_at := 4\<rparr>],
     next_pk := 5, notified := [''default''], clock := ticks 6\<rparr>"

lemmas demo_recurring_defs = demo_defs demo_recurring_def demo_using_def demo_recurring_task_def demo_planned_def
  demo_execution_def demo_reserved_def demo_reservation_def demo_published_def

lemmas recurring_eval = upsert_static_recurring_tasks_def validate_recurring_task_definition_def recurring_string_def
  apply_static_recurring_tasks_def desired_by_key_def static_definition_def existing_by_key_def current_by_key_def
  new_recurring_task_def column_json_def find_recurring_task_def insert_recurring_task_def apply_definition_def
  reserve_recurring_task_def next_run_after_def create_execution_ignore_conflicts_def find_execution_def
  advance_next_run_at_def recurring_reservation_def locked_queryset_def timezone_now_def guard_that_def

lemma demo_run_planned:
  "run_operation (Upsert_static demo_cron (demo_session Postgresql) demo_config [(''hourly'', demo_recurring)]) (empty_db (ticks 0))
     = Inr demo_planned"
  by (simp add: demo_recurring_defs recurring_eval enqueue_eval demo_cron_valid dict_of_pairs_def Let_def)

lemma demo_reserve:
  "reserve_recurring_task demo_cron (demo_session Postgresql) demo_config 1 3600000000 7 demo_planned
     = Inr (Some demo_reservation, demo_reserved)"
  by (simp add: demo_recurring_defs recurring_eval demo_cron_runs Let_def)

lemma demo_publish:
  "publish_reserved_recurring_task (demo_session Postgresql) demo_config demo_using demo_reservation 9 demo_reserved
     = Inr (Some (demo_execution (Some 7)), demo_published)"
  by (simp add: demo_recurring_defs publish_reserved_recurring_task_def enqueue_reserved_recurring_task_def
      reserved_call_def attach_reserved_recurring_job_def locked_queryset_def enqueue_job_def payload_args_def count_if_def
      find_job_def dict_of_pairs_def enqueue_eval semaphore_eval Let_def)

lemma demo_reachable_runs:
  "reachable demo_limits demo_planned" "reachable demo_limits demo_reserved" "reachable demo_limits demo_published"
proof -
  show planned: "reachable demo_limits demo_planned"
    by (rule reachable.onward [OF reachable.initial step.commit [OF _ demo_run_planned]]) simp
  have "run_operation (Reserve_run demo_cron (demo_session Postgresql) demo_config 1 3600000000 7) demo_planned = Inr demo_reserved"
    unfolding run_operation.simps demo_reserve by (simp add: after_def)
  then show reserved: "reachable demo_limits demo_reserved"
    by (rule reachable.onward [OF planned step.commit [rotated]]) simp
  have publish: "run_operation (Publish_run (demo_session Postgresql) demo_config demo_using demo_reservation 9) demo_reserved = Inr demo_published"
    by (simp add: demo_publish after_def)
  have "lawful demo_limits (Publish_run (demo_session Postgresql) demo_config demo_using demo_reservation 9) demo_reserved"
    by (simp add: demo_recurring_defs reserved_call_def payload_args_def enqueue_eval)
  then show "reachable demo_limits demo_published"
    by (rule reachable.onward [OF reserved step.commit [OF _ publish]])
qed

end
