(* ===== verification/Samples_Work.thy ===== *)
theory Samples_Work
  imports Samples
begin

text \<open>
  More states of the sample application: the claimed job is completed or fails, and its slot goes to the job
  that was waiting for it.
\<close>

definition demo_handed_over :: "time \<Rightarrow> nat \<Rightarrow> db \<Rightarrow> db" where
  "demo_handed_over t pk d = d\<lparr>claimed_executions := [], blocked_executions := [],
     ready_executions := [\<lparr>re_id = pk, re_job = 2, re_backend_alias = ''default'', re_queue_name = ''default'',
       re_priority = 0, re_created_at = t, re_latency_started_at = Some t\<rparr>],
     semaphores := [demo_semaphore\<lparr>sem_expires_at := t + 60000000, sem_updated_at := t\<rparr>],
     next_pk := Suc pk, clock := ticks (t + 1), notified := [''default'', ''default'']\<rparr>"

definition demo_completed :: db where
  "demo_completed = (demo_handed_over 12 5 demo_claimed)\<lparr>jobs := [finished_columns (JInt 5) 11 (demo_job 1 0), demo_job 2 5]\<rparr>"

definition demo_error :: exception_info where
  "demo_error = \<lparr>ei_class = ''builtins.ValueError'', ei_message = ''bad'', ei_traceback = []\<rparr>"

definition demo_failed :: db where
  "demo_failed = (demo_handed_over 12 6 demo_claimed)\<lparr>failed_executions := [\<lparr>fe_id = 5, fe_job = 1,
     fe_exception_class = ''builtins.ValueError'', fe_message = ''bad'', fe_traceback = [], fe_retry_at = None,
     fe_created_at = 11\<rparr>]\<rparr>"

text \<open>A key whose three slots are all taken.\<close>

definition demo_saturated :: "backend_family \<Rightarrow> time stream \<Rightarrow> db" where
  "demo_saturated fam ts = snd (semaphore_acquire (demo_session fam) ''k'' 3 60
     (snd (semaphore_acquire (demo_session fam) ''k'' 3 60 (snd (semaphore_acquire (demo_session fam) ''k'' 3 60 (empty_db ts))))))"

lemmas demo_work_defs = demo_defs demo_handed_over_def demo_completed_def demo_error_def demo_failed_def

lemmas release_eval = release_concurrency_slot_def release_settings_def unblock_next_blocked_job_def
  consume_blocked_job_for_slot_def consume_next_blocked_job_with_released_slot_def blocked_rows_in_order_def
  blocked_execution_values_def blocked_job_ref_def create_ready_execution_after_blocked_consume_def
  semaphore_limit_def

lemmas complete_eval = complete_claimed_job_def resolve_claimed_job_def complete_transition_def
  delete_claimed_and_finish_job_if_no_execution_state_def delete_claimed_and_finish_job_def state_count_def
  finish_rows_def update_job_def claimed_pks_def finished_columns_def fail_claimed_job_def fail_transition_def
  delete_claimed_execution_def create_failed_def insert_failed_def ensure_job_ids_have_no_other_execution_state_def
  job_ids_with_other_execution_state_def

lemma demo_complete:
  "complete_claimed_job (demo_session Postgresql) demo_config (JobId 1) (JInt 5) None demo_claimed
     = Inr (finished_columns (JInt 5) 11 (demo_job 1 0), demo_completed)"
  by (simp add: demo_work_defs complete_eval release_eval enqueue_eval semaphore_eval claim_eval count_if_def Let_def)
    (simp add: image_iff)

lemma demo_fail:
  "fail_claimed_job (demo_session Postgresql) demo_config (JobId 1) demo_error None demo_claimed
     = Inr (demo_job 1 0, demo_failed)"
  by (simp add: demo_work_defs complete_eval release_eval enqueue_eval semaphore_eval claim_eval count_if_def Let_def)

end
