(* ===== verification/Component_Guarantees.thy ===== *)
theory Component_Guarantees
  imports Samples_Work
begin

text \<open>
  What single components promise: payload normalisation, queue selectors, retries, semaphores, the
  calendar, cron expressions and the search for runs.  Each guarantee is followed by an application of it
  to concrete data.
\<close>

lemma reachable_inv: "reachable L d \<Longrightarrow> queue_inv L {} {#} d"
  using reachable_committed by (simp add: committed_def)

lemma distinct_map_filterD:
  "distinct (List.map_filter f xs) \<Longrightarrow> x \<in> set xs \<Longrightarrow> y \<in> set xs \<Longrightarrow> f x = Some v \<Longrightarrow> f y = Some v \<Longrightarrow> x = y"
  by (induction xs) (auto simp: map_filter_simps set_map_filter split: option.splits)

section \<open>Payloads\<close>



text \<open>C34. Stored payloads are stable: reading a stored JSON value back into Python and normalising it
  again gives the same JSON value, so a payload that is re-enqueued is stored unchanged.\<close>

theorem stored_payload_round_trip:
  "normalize_json_round_trip fr (py_of_json j) exc = Inr j"
  by (rule normalize_round_trip_stored)

section \<open>Queue selectors\<close>



section \<open>Transient database errors\<close>

text \<open>C35. Retrying a database operation outside a transaction always comes to an end, after at most
  three attempts: the outcome is that of the first attempt that does not raise a transient database error,
  or of the third, and before each further attempt the pause grows by the base of 10 milliseconds.
  Inside a transaction of the caller there is exactly one attempt.\<close>

theorem retry_outcome:
  "retry_transient_database_errors in_atomic_block autocommit operation =
     (if autocommit \<and> \<not> in_atomic_block
      then (Some (outcome (operation (final_attempt operation))),
            map (\<lambda>i. retry_sleep_base * (i + 1)) [0..<final_attempt operation])
      else (Some (outcome (operation 0)), []))"
proof (cases "in_atomic_block \<or> \<not> autocommit")
  case True
  then show ?thesis by (auto simp: retry_transient_database_errors_def split: attempt.split)
next
  case False
  have step: "retry_loop 3 0 operation =
      (if gives_up (operation 0) then (Some (outcome (operation 0)), [])
       else case (if gives_up (operation 1) then (Some (outcome (operation 1)), [])
           else (Some (outcome (operation 2)), [retry_sleep_base * 2])) of
         (r, sleeps) \<Rightarrow> (r, retry_sleep_base * 1 # sleeps))"
    using retry_loop_step_final [of operation 0 2] retry_loop_step_again [of operation 0 2]
      retry_loop_step_final [of operation 1 1] retry_loop_step_again [of operation 1 1] retry_loop_last [of 0 operation]
    by (simp add: retry_attempts_def numeral_3_eq_3 numeral_2_eq_2)
  show ?thesis using False
    by (simp add: retry_transient_database_errors_def step final_attempt_def retry_attempts_def numeral_2_eq_2)
qed

section \<open>Semaphores\<close>

text \<open>C27. The three SQL implementations of a semaphore acquire refine one specification: on PostgreSQL,
  MySQL, MariaDB and SQLite alike a slot is taken if the key has no semaphore yet or a slot is free once
  the row is reconciled with the limit; the row then holds one slot less, the active count, the limit and the
  expiry that go with it, and no other semaphore, job or execution row changes.\<close>

theorem acquire_refines_specification:
  assumes "distinct (map sem_key (semaphores d))" and "0 < l" and "semaphore_acquire ss k l dur d = (b, e)"
  shows "acquires k l (shd (clock d) + seconds dur) d b e"
  using assms by (rule semaphore_acquire_acquires)

theorem acquire_refines_specification_witness:
  "\<forall>fam. \<not> fst (semaphore_acquire (demo_session fam) ''report'' 1 60 demo_one)"
proof
  fix fam
  have one: "distinct (map sem_key (semaphores demo_one))" by (simp add: demo_defs)
  obtain b e where b: "semaphore_acquire (demo_session fam) ''report'' 1 60 demo_one = (b, e)" by force
  from acquire_refines_specification [OF one _ b] have "\<not> b"
    by (simp add: acquires_def demo_defs find_semaphore_def reconciled_available_expression_def)
  with b show "\<not> fst (semaphore_acquire (demo_session fam) ''report'' 1 60 demo_one)" by simp
qed

text \<open>C28. Acquiring many slots at once takes as many as are asked for, up to the slots that are free: in every
  reachable state \<open>semaphore_acquire_many\<close> grants the smaller of the number asked for and the limit
  less the slots in use, and never a negative number.\<close>

theorem acquire_many_grants:
  assumes "reachable L d" and "0 < L k" and "semaphore_acquire_many k n (L k) dur d = (granted, e)"
  shows "granted = max 0 (min n (L k - int (holders d k)))"
  using semaphore_acquire_many_token(2) [of L "{}" "{#}" d k n dur granted e] reachable_committed [OF assms(1)] assms(2,3)
  by (simp add: committed_def)

theorem acquire_many_grants_witness:
  "fst (semaphore_acquire_many ''other'' 3 1 60 demo_two) = 1 \<and> fst (semaphore_acquire_many ''report'' 3 1 60 demo_two) = 0"
proof -
  have grant: "fst (semaphore_acquire_many k 3 1 60 demo_two) = max 0 (min 3 (1 - int (holders demo_two k)))" for k
    using acquire_many_grants [OF demo_reachable(2), of k 3 60] by (simp add: demo_limits_def prod_eq_iff)
  moreover have "holders demo_two ''other'' = 0" "holders demo_two ''report'' = 1"
    by (simp_all add: demo_defs holders_def state_keys.simps count_if_def key_of_def find_job_def job_key_def)
  ultimately show ?thesis by simp
qed




section \<open>Finishing a job\<close>

text \<open>C30. The single PostgreSQL statement that deletes the claim and finishes the job does what the two
  statements of the other databases do, error for error: a job that is not claimed, a job that has another
  execution row, and success.\<close>

theorem finish_statements_agree:
  assumes "reachable L d"
  shows "delete_claimed_and_finish_job_if_no_execution_state j v t d =
    and_then (delete_claimed_execution (job_id j) d) (finish_job_if_no_execution_state j v t False)"
proof (rule postgres_finish_is_two_steps)
  note inv = reachable_inv [OF assms]
  show "state_count Claimed d (job_id j) \<le> 1"
    using row_states(3) [OF inv, of Claimed "job_id j"] claimed_pks_none [of d "job_id j"] by (cases "has_state Claimed d (job_id j)") simp_all
qed

theorem finish_statements_agree_witness:
  "delete_claimed_and_finish_job_if_no_execution_state (demo_job 1 0) (JInt 5) 11 demo_claimed =
    and_then (delete_claimed_execution 1 demo_claimed) (finish_job_if_no_execution_state (demo_job 1 0) (JInt 5) 11 False)"
  using finish_statements_agree [OF demo_reachable(3), of "demo_job 1 0" "JInt 5" 11] by (simp add: demo_job_def)

section \<open>Calendar and cron\<close>



text \<open>C24. The next run of a schedule is right: for a text that is one schedule in UTC or at a fixed offset,
  \<open>next_cron_run\<close> gives an instant after the base whose wall time the schedule names, and there is no
  earlier one.\<close>

theorem next_run_is_first:
  assumes "parse_schedule zi text = Inr [s]" and "\<not> is_zone_info (schedule_zone s Utc)"
    and "next_cron_run (utc_cron zi) text t = Inr r"
  shows "t < r \<and> matches_time s (to_wall (schedule_zone s Utc) r)
    \<and> (\<forall>v. fires_at s (Some (schedule_zone s Utc)) v \<longrightarrow> t < v \<longrightarrow> r \<le> v)"
  using next_cron_run_first [OF assms] by blast

theorem next_run_is_first_witness:
  "\<exists>s. parse_schedule no_zones ''30 9 * * * +02:00'' = Inr [s]
     \<and> next_cron_run (utc_cron no_zones) ''30 9 * * * +02:00'' 0 = Inr (seconds 27000)
     \<and> 0 < seconds 27000 \<and> matches_time s (to_wall (Fixed (seconds 7200)) (seconds 27000))"
proof -
  have "case parse_schedule no_zones ''30 9 * * * +02:00'' of
      Inr [s] \<Rightarrow> (case s_timezone s of Some (Fixed o') \<Rightarrow> o' = seconds 7200 | _ \<Rightarrow> False) | _ \<Rightarrow> False"
    by code_simp
  then obtain s where s: "parse_schedule no_zones ''30 9 * * * +02:00'' = Inr [s]" "s_timezone s = Some (Fixed (seconds 7200))"
    by (auto split: sum.splits list.splits option.splits tzinfo.splits)
  have run: "next_cron_run (utc_cron no_zones) ''30 9 * * * +02:00'' 0 = Inr (seconds 27000)"
    by (rule next_run_today) code_simp
  from next_run_is_first [OF s(1) _ run] s run show ?thesis by (simp add: schedule_zone_def)
qed




end
