(* ===== verification/Configuration.thy ===== *)
theory Configuration
  imports Recurring Cron_Natural Complex_Main "HOL-Library.Log_Nat"
begin

text \<open>
  The configuration of a backend, \<^verbatim>\<open>config.py\<close>: the options of the settings, a TOML file, environment
  variables and command line overrides are merged, every option is validated, and the result is the record
  the runtime and the operations take as an argument.  A message keeps the name of the option and what is
  expected of it and leaves out the printed value; warnings are not modelled.
\<close>

section \<open>Configuration values\<close>

record worker_config =
  w_queues :: "string list"
  w_threads :: int
  w_processes :: int
  w_polling_interval :: pyfloat
  w_prefetch_multiplier :: int

record dispatcher_config =
  d_batch_size :: int
  d_polling_interval :: pyfloat
  d_concurrency_maintenance :: bool
  d_concurrency_maintenance_interval :: pyfloat

record scheduler_config =
  s_dynamic_tasks_enabled :: bool
  s_polling_interval :: pyfloat

text \<open>\<open>BackendConfig\<close>: the columns the operations use are those of \<open>backend_config\<close>.\<close>

record full_config = backend_config +
  mode :: string
  workers :: "worker_config list"
  dispatchers :: "dispatcher_config list"
  scheduler :: "scheduler_config option"
  recurring :: "(string \<times> recurring_config) list"
  process_heartbeat_interval :: pyfloat
  process_alive_threshold :: pyfloat
  shutdown_timeout :: pyfloat
  supervisor_pidfile :: "string option"
  database_alias :: string
  async_thread_sensitive :: bool
  async_close_connections :: bool
  on_thread_error :: "string option"
  skip_recurring :: bool
  only_work :: bool
  only_dispatch :: bool

definition cleanup_enabled :: "full_config \<Rightarrow> bool" where
  "cleanup_enabled c \<longleftrightarrow> preserve_finished_jobs c \<and> clear_finished_jobs_after c \<noteq> None
     \<or> clear_failed_jobs_after c \<noteq> None \<or> clear_recurring_executions_after c \<noteq> None"

text \<open>What the configuration reads of its surroundings: a TOML file, given by any value that may or may not
  be a path, \<open>import_string\<close> for a callback and for a task (with whether the task has \<open>using\<close>),
  \<open>float(text)\<close>, \<open>float.__repr__\<close> and the zone database.\<close>

datatype file_result = Contents pyval | Unreadable | Invalid_toml | Not_a_path

record surroundings =
  read_toml :: "pyval \<Rightarrow> file_result"
  import_callback :: "string \<Rightarrow> error + unit"
  import_named_task :: "string \<Rightarrow> error + bool"
  float_of_text :: "string \<Rightarrow> pyfloat option"
  repr_of_float :: "pyfloat \<Rightarrow> string"
  zones :: zone_info

type_synonym options = "(pyval \<times> pyval) list"

section \<open>Validators\<close>

abbreviation improper :: "string \<Rightarrow> error + 'a" where
  "improper message \<equiv> Inl (ImproperlyConfigured message)"

definition truthy_env_values :: "string list" where
  "truthy_env_values = [''1'', ''true'', ''yes'', ''on'']"

definition falsy_env_values :: "string list" where
  "falsy_env_values = [''0'', ''false'', ''no'', ''off'']"

definition parse_bool :: "string \<Rightarrow> string \<Rightarrow> error + bool" where
  "parse_bool value name =
     (let normalized = lower (strip value)
      in if normalized \<in> set truthy_env_values then Inr True
         else if normalized \<in> set falsy_env_values then Inr False
         else improper (name @ '' must be one of the boolean words''))"

fun py_int :: "pyval \<Rightarrow> int option" where
  "py_int (PInt i) = Some i"
| "py_int (PIntSub i) = Some i"
| "py_int _ = None"

definition bool_option :: "pyval \<Rightarrow> string \<Rightarrow> error + bool" where
  "bool_option value name =
     (case value of
        PBool b \<Rightarrow> Inr b
      | PStr s \<Rightarrow> parse_bool s name
      | _ \<Rightarrow> (case py_int value of
          Some i \<Rightarrow> if i = 0 \<or> i = 1 then Inr (i = 1) else improper (name @ '' must be a boolean'')
        | None \<Rightarrow> improper (name @ '' must be a boolean'')))"

definition integer :: "pyval \<Rightarrow> string \<Rightarrow> string \<Rightarrow> error + int" where
  "integer value name expectation =
     (case py_int value of
        Some i \<Rightarrow> Inr i
      | None \<Rightarrow> (case value of
          PStr s \<Rightarrow> if isdecimal (unsigned (strip s)) then Inr (int_of (strip s))
                    else improper (name @ '' must be '' @ expectation)
        | _ \<Rightarrow> improper (name @ '' must be '' @ expectation)))"

definition positive_int :: "pyval \<Rightarrow> string \<Rightarrow> error + int" where
  "positive_int value name =
     and_then (integer value name ''a positive integer'') (\<lambda>number.
       if number \<le> 0 then improper (name @ '' must be a positive integer'') else Inr number)"

definition priority_int :: "pyval \<Rightarrow> string \<Rightarrow> error + int" where
  "priority_int value name =
     and_then (integer value name ''an integer from -100 to 100'') (\<lambda>number.
       if number < -100 \<or> 100 < number then improper (name @ '' must be an integer from -100 to 100'')
       else Inr number)"

definition optional_nonnegative_int :: "pyval \<Rightarrow> string \<Rightarrow> error + int option" where
  "optional_nonnegative_int value name =
     (if value = PNone then Inr None
      else and_then (integer value name ''a non-negative integer'') (\<lambda>number.
        if number < 0 then improper (name @ '' must be a non-negative integer'') else Inr (Some number)))"

text \<open>\<open>float(i)\<close>: the nearest binary number with a mantissa of 53 bits, ties to even; integers that round to
  \<open>2 ^ 1024\<close> or more overflow.\<close>

definition float_of_int :: "int \<Rightarrow> error + pyfloat" where
  "float_of_int i =
     (let a = \<bar>i\<bar>; k = nat (bitlen a - 53); q = a div 2 ^ k; r = a mod 2 ^ k;
          q' = (if 2 ^ k < 2 * r \<or> 2 * r = 2 ^ k \<and> k \<noteq> 0 \<and> odd q then q + 1 else q)
      in if 2 ^ 1024 \<le> q' * 2 ^ k then Inl OverflowError else Inr (Finite (sgn i * q') (int k)))"

text \<open>\<open>float(value)\<close>: \<open>TypeError\<close> and \<open>ValueError\<close> are caught, \<open>OverflowError\<close> is not.\<close>

definition float_option :: "surroundings \<Rightarrow> pyval \<Rightarrow> error \<Rightarrow> error + pyfloat" where
  "float_option env value exc =
     (case value of
        PFloat f \<Rightarrow> Inr f
      | PFloatSub f \<Rightarrow> Inr f
      | PInt i \<Rightarrow> float_of_int i
      | PIntSub i \<Rightarrow> float_of_int i
      | PStr s \<Rightarrow> (case float_of_text env s of Some f \<Rightarrow> Inr f | None \<Rightarrow> Inl exc)
      | _ \<Rightarrow> Inl exc)"

fun float_sign :: "pyfloat \<Rightarrow> int option" where
  "float_sign (Finite m e) = Some (sgn m)"
| "float_sign _ = None"

definition positive_float :: "surroundings \<Rightarrow> pyval \<Rightarrow> string \<Rightarrow> error + pyfloat" where
  "positive_float env value name =
     (let exc = ImproperlyConfigured (name @ '' must be a positive number'')
      in and_then (float_option env value exc) (\<lambda>number.
           if float_sign number = Some 1 then Inr number else Inl exc))"

definition nonnegative_float :: "surroundings \<Rightarrow> pyval \<Rightarrow> string \<Rightarrow> error + pyfloat" where
  "nonnegative_float env value name =
     (let exc = ImproperlyConfigured (name @ '' must be a non-negative number'')
      in and_then (float_option env value exc) (\<lambda>number.
           if float_sign number \<in> {Some 0, Some 1} then Inr number else Inl exc))"

definition string_option :: "pyval \<Rightarrow> string \<Rightarrow> error + string" where
  "string_option value name = (case value of PStr s \<Rightarrow> Inr s | _ \<Rightarrow> improper (name @ '' must be a string''))"

definition nonempty_string_option :: "pyval \<Rightarrow> string \<Rightarrow> error + string" where
  "nonempty_string_option value name =
     and_then (string_option value name) (\<lambda>s. if s = [] then improper (name @ '' must be a non-empty string'') else Inr s)"

definition optional_string_option :: "pyval \<Rightarrow> string \<Rightarrow> error + string option" where
  "optional_string_option value name =
     (if value = PNone then Inr None else and_then (string_option value name) (\<lambda>s. Inr (Some s)))"

text \<open>Lists and tuples are the sequences, dictionaries the mappings; \<open>PObject\<close> is neither.\<close>

fun py_sequence :: "pyval \<Rightarrow> pyval list option" where
  "py_sequence (PList vs) = Some vs"
| "py_sequence (PTuple vs) = Some vs"
| "py_sequence _ = None"

fun py_mapping :: "pyval \<Rightarrow> options option" where
  "py_mapping (PDict kvs) = Some kvs"
| "py_mapping _ = None"

fun py_string :: "pyval \<Rightarrow> string option" where
  "py_string (PStr s) = Some s"
| "py_string _ = None"

definition as_string_tuple :: "pyval \<Rightarrow> error + string list" where
  "as_string_tuple value =
     (if value = PNone then Inr []
      else case value of
        PStr s \<Rightarrow> Inr [s]
      | _ \<Rightarrow> (case py_sequence value of
          Some vs \<Rightarrow> if list_all (\<lambda>v. py_string v \<noteq> None) vs then Inr (map (the \<circ> py_string) vs)
                     else improper ''expected a string or a sequence of strings''
        | None \<Rightarrow> improper ''expected a string or a sequence of strings''))"

definition as_queue_selectors :: "pyval \<Rightarrow> error + string list" where
  "as_queue_selectors value = (case value of PStr s \<Rightarrow> Inr [s] | _ \<Rightarrow> as_string_tuple value)"

definition tuple_option :: "pyval \<Rightarrow> string \<Rightarrow> error + pyval list" where
  "tuple_option value name =
     (case py_sequence value of Some vs \<Rightarrow> Inr vs | None \<Rightarrow> improper (name @ '' must be a sequence''))"

definition dict_option :: "pyval \<Rightarrow> string \<Rightarrow> error + options" where
  "dict_option value name =
     (case py_mapping value of Some kvs \<Rightarrow> Inr kvs | None \<Rightarrow> improper (name @ '' must be a mapping''))"

definition reject_unknown_options :: "options \<Rightarrow> string list \<Rightarrow> string \<Rightarrow> error + unit" where
  "reject_unknown_options opts allowed name =
     guard_that (fst ` set opts \<subseteq> PStr ` set allowed) (ImproperlyConfigured (name @ '' contains unknown options''))"

text \<open>\<open>options.get(name, default)\<close>.\<close>

definition get_option :: "options \<Rightarrow> string \<Rightarrow> pyval \<Rightarrow> pyval" where
  "get_option opts name dflt = (case map_of opts (PStr name) of Some v \<Rightarrow> v | None \<Rightarrow> dflt)"

section \<open>Defaults\<close>

text \<open>\<open>0.1\<close> is the binary number the literal denotes.\<close>

definition default_worker :: "(string \<times> pyval) list" where
  "default_worker = [(''queues'', PStr ''*''), (''threads'', PInt 3), (''processes'', PInt 1),
     (''polling_interval'', PFloat (Finite 3602879701896397 (-55))), (''prefetch_multiplier'', PInt 2)]"

definition default_dispatcher :: "(string \<times> pyval) list" where
  "default_dispatcher = [(''batch_size'', PInt 500), (''polling_interval'', PInt 1),
     (''concurrency_maintenance'', PBool True), (''concurrency_maintenance_interval'', PInt 600)]"

definition default_scheduler :: "(string \<times> pyval) list" where
  "default_scheduler = [(''dynamic_tasks_enabled'', PBool False), (''polling_interval'', PInt 5)]"

definition recurring_task_options :: "string list" where
  "recurring_task_options = [''task_path'', ''schedule'', ''args'', ''kwargs'', ''queue_name'', ''priority'', ''description'']"

definition py_dict :: "(string \<times> pyval) list \<Rightarrow> pyval" where
  "py_dict kvs = PDict (map (\<lambda>(k, v). (PStr k, v)) kvs)"

definition default_options :: "(string \<times> pyval) list" where
  "default_options = [(''mode'', PStr ''fork''), (''workers'', PList [py_dict default_worker]),
     (''dispatchers'', PList [py_dict default_dispatcher]), (''scheduler'', py_dict default_scheduler),
     (''recurring'', PDict []), (''process_heartbeat_interval'', PInt 60), (''process_alive_threshold'', PInt 300),
     (''shutdown_timeout'', PInt 5), (''supervisor_pidfile'', PNone), (''preserve_finished_jobs'', PBool True),
     (''clear_finished_jobs_after'', PInt 86400), (''clear_failed_jobs_after'', PNone),
     (''clear_recurring_executions_after'', PNone), (''default_concurrency_duration'', PInt 180),
     (''database_alias'', PStr ''default''), (''use_skip_locked'', PBool True), (''listen_notify'', PBool True),
     (''async_thread_sensitive'', PBool False), (''async_close_connections'', PBool False),
     (''on_thread_error'', PNone)]"

definition deprecated_options :: "string list" where
  "deprecated_options = [''silence_polling'']"

section \<open>Builders\<close>

text \<open>A mapping given alone stands for a list with one element; \<open>raw or []\<close> ignores every false value, and other
  values that cannot be iterated raise \<open>TypeError\<close>.  Iterating over text gives its characters.\<close>

definition entries :: "pyval \<Rightarrow> error + pyval list" where
  "entries raw =
     (case raw of
        PDict kvs \<Rightarrow> Inr [raw]
      | PStr s \<Rightarrow> Inr (map (\<lambda>c. PStr [c]) s)
      | PList vs \<Rightarrow> Inr vs
      | PTuple vs \<Rightarrow> Inr vs
      | PNone \<Rightarrow> Inr []
      | PBool b \<Rightarrow> if b then Inl (TypeError []) else Inr []
      | PInt i \<Rightarrow> if i = 0 then Inr [] else Inl (TypeError [])
      | PIntSub i \<Rightarrow> if i = 0 then Inr [] else Inl (TypeError [])
      | PFloat f \<Rightarrow> if float_sign f = Some 0 then Inr [] else Inl (TypeError [])
      | PFloatSub f \<Rightarrow> if float_sign f = Some 0 then Inr [] else Inl (TypeError [])
      | PObject n \<Rightarrow> Inl (TypeError []))"

definition indexed :: "string \<Rightarrow> nat \<Rightarrow> string" where
  "indexed name index = name @ ''['' @ str_nat index @ '']''"

definition worker_entry :: "surroundings \<Rightarrow> string \<Rightarrow> nat \<Rightarrow> pyval \<Rightarrow> error + worker_config" where
  "worker_entry env md index raw =
     (case py_mapping raw of
        None \<Rightarrow> improper ''worker entries must be mappings''
      | Some opts \<Rightarrow>
          let name = indexed ''workers'' index; get = (\<lambda>k. get_option opts k (the (map_of default_worker k)))
          in and_then (reject_unknown_options opts (map fst default_worker) name) (\<lambda>_.
             and_then (as_queue_selectors (get ''queues'')) (\<lambda>queues.
             and_then (positive_int (get ''threads'') (name @ ''.threads'')) (\<lambda>threads.
             and_then (positive_int (get ''processes'') (name @ ''.processes'')) (\<lambda>processes.
             and_then (positive_float env (get ''polling_interval'') (name @ ''.polling_interval'')) (\<lambda>polling_interval.
             and_then (positive_int (get ''prefetch_multiplier'') (name @ ''.prefetch_multiplier'')) (\<lambda>prefetch_multiplier.
               Inr \<lparr>w_queues = queues, w_threads = threads,
                 w_processes = (if md = ''async'' \<and> 1 < processes then 1 else processes),
                 w_polling_interval = polling_interval, w_prefetch_multiplier = prefetch_multiplier\<rparr>)))))))"

fun map_indexed :: "(nat \<Rightarrow> 'a \<Rightarrow> error + 'b) \<Rightarrow> nat \<Rightarrow> 'a list \<Rightarrow> error + 'b list" where
  "map_indexed f i [] = Inr []"
| "map_indexed f i (x # xs) =
     and_then (f i x) (\<lambda>y. and_then (map_indexed f (Suc i) xs) (\<lambda>ys. Inr (y # ys)))"

definition build_worker_configs :: "surroundings \<Rightarrow> pyval \<Rightarrow> string \<Rightarrow> error + worker_config list" where
  "build_worker_configs env raw md = and_then (entries raw) (map_indexed (worker_entry env md) 0)"

definition dispatcher_entry :: "surroundings \<Rightarrow> nat \<Rightarrow> pyval \<Rightarrow> error + dispatcher_config" where
  "dispatcher_entry env index raw =
     (case py_mapping raw of
        None \<Rightarrow> improper ''dispatcher entries must be mappings''
      | Some opts \<Rightarrow>
          let name = indexed ''dispatchers'' index; get = (\<lambda>k. get_option opts k (the (map_of default_dispatcher k)))
          in and_then (reject_unknown_options opts (map fst default_dispatcher) name) (\<lambda>_.
             and_then (positive_int (get ''batch_size'') (name @ ''.batch_size'')) (\<lambda>batch_size.
             and_then (positive_float env (get ''polling_interval'') (name @ ''.polling_interval'')) (\<lambda>polling_interval.
             and_then (bool_option (get ''concurrency_maintenance'') (name @ ''.concurrency_maintenance'')) (\<lambda>maintenance.
             and_then (nonnegative_float env (get ''concurrency_maintenance_interval'')
                 (name @ ''.concurrency_maintenance_interval'')) (\<lambda>interval.
               Inr \<lparr>d_batch_size = batch_size, d_polling_interval = polling_interval,
                 d_concurrency_maintenance = maintenance, d_concurrency_maintenance_interval = interval\<rparr>))))))"

definition build_dispatcher_configs :: "surroundings \<Rightarrow> pyval \<Rightarrow> error + dispatcher_config list" where
  "build_dispatcher_configs env raw = and_then (entries raw) (map_indexed (dispatcher_entry env) 0)"

definition build_scheduler_config :: "surroundings \<Rightarrow> pyval \<Rightarrow> error + scheduler_config" where
  "build_scheduler_config env raw =
     (case py_mapping (if raw = PNone then PDict [] else raw) of
        None \<Rightarrow> improper ''scheduler config must be a mapping''
      | Some opts \<Rightarrow>
          let get = (\<lambda>k. get_option opts k (the (map_of default_scheduler k)))
          in and_then (reject_unknown_options opts (map fst default_scheduler) ''scheduler'') (\<lambda>_.
             and_then (bool_option (get ''dynamic_tasks_enabled'') ''scheduler.dynamic_tasks_enabled'') (\<lambda>dynamic.
             and_then (positive_float env (get ''polling_interval'') ''scheduler.polling_interval'') (\<lambda>polling_interval.
               Inr \<lparr>s_dynamic_tasks_enabled = dynamic, s_polling_interval = polling_interval\<rparr>))))"

text \<open>One entry of the recurring tasks, checked in the order of the code.\<close>

definition recurring_entry ::
  "surroundings \<Rightarrow> string list \<Rightarrow> pyval \<times> pyval \<Rightarrow> error + string \<times> recurring_config" where
  "recurring_entry env allowed item =
     and_then (nonempty_string_option (fst item) ''recurring task key'') (\<lambda>key.
     let name = ''recurring task '' @ py_repr key in
     case py_mapping (snd item) of
       None \<Rightarrow> improper ''recurring entries must be mappings''
     | Some opts \<Rightarrow>
         and_then (reject_unknown_options opts recurring_task_options name) (\<lambda>_.
         let raw_task_path = get_option opts ''task_path'' PNone; raw_schedule = get_option opts ''schedule'' PNone in
         if raw_task_path \<in> {PNone, PStr []} \<or> raw_schedule \<in> {PNone, PStr []}
         then improper (name @ '' requires task_path and schedule'')
         else
           and_then (nonempty_string_option raw_task_path (name @ '' task_path'')) (\<lambda>task_path.
           and_then (nonempty_string_option raw_schedule (name @ '' schedule'')) (\<lambda>schedule.
           and_then (guard_that (is_valid_schedule (zones env) schedule)
               (ImproperlyConfigured (name @ '' has an invalid cron schedule''))) (\<lambda>_.
           and_then (nonempty_string_option (get_option opts ''queue_name'' (PStr ''default'')) (name @ '' queue_name'')) (\<lambda>queue_name.
           and_then (priority_int (get_option opts ''priority'' (PInt 0)) (name @ '' priority'')) (\<lambda>priority.
           and_then (guard_that (allowed = [] \<or> queue_name \<in> set allowed)
               (ImproperlyConfigured (name @ '' is invalid: queue is not allowed''))) (\<lambda>_.
           and_then (tuple_option (get_option opts ''args'' (PList [])) (name @ '' args'')) (\<lambda>args.
           and_then (dict_option (get_option opts ''kwargs'' (PDict [])) (name @ '' kwargs'')) (\<lambda>kwargs.
           and_then (case import_named_task env task_path of
               Inl (ImportError m) \<Rightarrow> improper (name @ '' is invalid: '' @ m)
             | r \<Rightarrow> r) (\<lambda>has_using'.
           and_then (guard_that has_using'
               (ImproperlyConfigured (name @ '' is invalid: task_path must reference a Django task''))) (\<lambda>_.
           and_then (string_option (get_option opts ''description'' (PStr [])) (name @ '' description'')) (\<lambda>description.
             Inr (key, \<lparr>rc_key = key, rc_task_path = task_path, rc_schedule = schedule, rc_args = args, rc_kwargs = kwargs,
               rc_queue_name = queue_name, rc_priority = priority, rc_description = description\<rparr>))))))))))))))"

definition build_recurring_config ::
  "surroundings \<Rightarrow> pyval \<Rightarrow> string list \<Rightarrow> error + (string \<times> recurring_config) list" where
  "build_recurring_config env raw allowed =
     (if raw = PNone then Inr []
      else case py_mapping raw of
          None \<Rightarrow> improper ''recurring config must be a mapping''
        | Some items \<Rightarrow> map_all (recurring_entry env allowed) items)"

definition validated_callback_path :: "surroundings \<Rightarrow> pyval \<Rightarrow> error + string option" where
  "validated_callback_path env path =
     (if path \<in> {PNone, PStr []} then Inr None
      else and_then (string_option path ''on_thread_error'') (\<lambda>path.
        case import_callback env path of
          Inr _ \<Rightarrow> Inr (Some path)
        | Inl (ImportError _) \<Rightarrow> improper (''on_thread_error must be importable: '' @ path)
        | Inl err \<Rightarrow> Inl err))"

section \<open>Sources of options\<close>

text \<open>\<open>json.dumps(value, sort_keys=True, allow_nan=False)\<close>, as the value the text denotes with the members of an
  object in the order they are written: keys of one kind are sorted, and keys of different kinds cannot be
  compared.\<close>

definition key_number :: "pyval \<Rightarrow> rat" where
  "key_number k = (case py_number k of
      Some (m, e) \<Rightarrow> if 0 \<le> e then of_int m * 2 ^ nat e else of_int m / 2 ^ nat (- e)
    | None \<Rightarrow> 0)"

definition key_kind :: "pyval \<Rightarrow> nat" where
  "key_kind k = (case k of PStr _ \<Rightarrow> 1 | PNone \<Rightarrow> 2 | _ \<Rightarrow> 0)"

definition sort_items :: "(pyval \<times> 'a) list \<Rightarrow> error + (pyval \<times> 'a) list" where
  "sort_items kvs =
     (if (\<exists>k\<in>fst ` set kvs. \<exists>l\<in>fst ` set kvs. key_kind k \<noteq> key_kind l) then Inl (TypeError [])
      else Inr (sort_key (\<lambda>(k, v). (key_number k, case py_string k of Some s \<Rightarrow> map (\<lambda>c. (of_char c :: nat)) s | None \<Rightarrow> [])) kvs))"

fun dumps :: "surroundings \<Rightarrow> pyval \<Rightarrow> error + json"
  and dumps_items :: "surroundings \<Rightarrow> pyval list \<Rightarrow> error + json list"
  and dumps_pairs :: "surroundings \<Rightarrow> options \<Rightarrow> error + (pyval \<times> string \<times> json) list"
where
  "dumps env (PList vs) = and_then (dumps_items env vs) (\<lambda>js. Inr (JList js))"
| "dumps env (PTuple vs) = and_then (dumps_items env vs) (\<lambda>js. Inr (JList js))"
| "dumps env (PDict kvs) =
     and_then (dumps_pairs env kvs) (\<lambda>ps. and_then (sort_items ps) (\<lambda>ps. Inr (JObject (map snd ps))))"
| "dumps env v = json_round_trip (repr_of_float env) v"
| "dumps_items env [] = Inr []"
| "dumps_items env (v # vs) = and_then (dumps env v) (\<lambda>j. and_then (dumps_items env vs) (\<lambda>js. Inr (j # js)))"
| "dumps_pairs env [] = Inr []"
| "dumps_pairs env ((k, v) # kvs) =
     and_then (json_key (repr_of_float env) k) (\<lambda>s. and_then (dumps env v) (\<lambda>j.
       and_then (dumps_pairs env kvs) (\<lambda>ps. Inr ((k, s, j) # ps))))"

definition cache_key :: "surroundings \<Rightarrow> pyval \<Rightarrow> error + json" where
  "cache_key env value =
     (case dumps env value of
        Inr j \<Rightarrow> Inr j
      | Inl _ \<Rightarrow> improper ''dj_queue config values must be JSON-serializable'')"

definition json_serializable_options :: "surroundings \<Rightarrow> options \<Rightarrow> string \<Rightarrow> error + options" where
  "json_serializable_options env opts name =
     (case dumps env (PDict opts) of
        Inr _ \<Rightarrow> Inr opts
      | Inl _ \<Rightarrow> improper (name @ '' values must be JSON-serializable''))"

definition without_deprecated_options :: "options \<Rightarrow> options" where
  "without_deprecated_options opts = filter (\<lambda>(k, v). k \<notin> PStr ` set deprecated_options) opts"

definition validated_toml_options :: "surroundings \<Rightarrow> options \<Rightarrow> string \<Rightarrow> error + options" where
  "validated_toml_options env opts name =
     and_then (json_serializable_options env opts name) (\<lambda>opts.
     let opts = without_deprecated_options opts
     in and_then (reject_unknown_options opts (map fst default_options) name) (\<lambda>_. Inr opts))"

text \<open>The truth value of a configuration path.\<close>

fun py_true :: "pyval \<Rightarrow> bool" where
  "py_true PNone = False"
| "py_true (PBool b) = b"
| "py_true (PStr s) = (s \<noteq> [])"
| "py_true (PInt i) = (i \<noteq> 0)"
| "py_true (PIntSub i) = (i \<noteq> 0)"
| "py_true (PFloat f) = (float_sign f \<noteq> Some 0)"
| "py_true (PFloatSub f) = (float_sign f \<noteq> Some 0)"
| "py_true (PList vs) = (vs \<noteq> [])"
| "py_true (PTuple vs) = (vs \<noteq> [])"
| "py_true (PDict kvs) = (kvs \<noteq> [])"
| "py_true (PObject n) = True"

definition load_toml_options :: "surroundings \<Rightarrow> pyval \<Rightarrow> string \<Rightarrow> error + options" where
  "load_toml_options env config_path alias =
     (if \<not> py_true config_path then Inr []
      else case read_toml env config_path of
        Not_a_path \<Rightarrow> Inl (TypeError [])
      | Unreadable \<Rightarrow> improper ''DJ_QUEUE_CONFIG could not be read''
      | Invalid_toml \<Rightarrow> improper ''DJ_QUEUE_CONFIG TOML is invalid''
      | Contents document \<Rightarrow>
          (case py_mapping document of
             None \<Rightarrow> improper ''DJ_QUEUE_CONFIG must point to a TOML mapping''
           | Some config_payload \<Rightarrow>
               (let raw_backends = get_option config_payload ''backends'' PNone in
                if raw_backends = PNone then validated_toml_options env config_payload ''DJ_QUEUE_CONFIG''
                else if length config_payload \<noteq> 1
                then improper ''DJ_QUEUE_CONFIG must use either a flat options mapping or a top-level backends mapping''
                else case py_mapping raw_backends of
                    None \<Rightarrow> improper ''DJ_QUEUE_CONFIG backends must be a mapping''
                  | Some backends \<Rightarrow>
                      (let backend_options = get_option backends alias PNone in
                       if backend_options = PNone then Inr []
                       else case py_mapping backend_options of
                           None \<Rightarrow> improper ''DJ_QUEUE_CONFIG backends entry must be a mapping''
                         | Some opts \<Rightarrow> validated_toml_options env opts ''DJ_QUEUE_CONFIG backends''))))"

text \<open>\<open>dict.update\<close>: the later value is the one that is found.\<close>

definition updated :: "options \<Rightarrow> options \<Rightarrow> options" where
  "updated base newer = newer @ base"

definition toml_path :: "options \<Rightarrow> (string \<times> string) list \<Rightarrow> pyval" where
  "toml_path cli vars =
     (let cli_config = get_option cli ''config'' PNone in
      if py_true cli_config then cli_config
      else case map_of vars ''DJ_QUEUE_CONFIG'' of Some s \<Rightarrow> PStr s | None \<Rightarrow> PNone)"

definition resolved_options ::
  "surroundings \<Rightarrow> string \<Rightarrow> options \<Rightarrow> options \<Rightarrow> (string \<times> string) list \<Rightarrow> error + options" where
  "resolved_options env alias backend_block cli vars =
     (case py_mapping (get_option backend_block ''OPTIONS'' (PDict [])) of
        None \<Rightarrow> improper ''TASKS backend OPTIONS must be a mapping''
      | Some raw \<Rightarrow>
          let settings_options = without_deprecated_options raw
          in and_then (reject_unknown_options settings_options (map fst default_options) ''TASKS backend OPTIONS'') (\<lambda>_.
             let resolved = updated (map (\<lambda>(k, v). (PStr k, v)) default_options) settings_options
             in and_then (load_toml_options env (toml_path cli vars) alias) (\<lambda>toml.
                let resolved = updated resolved toml;
                    resolved = (case map_of vars ''DJ_QUEUE_MODE'' of
                      Some m \<Rightarrow> updated resolved [(PStr ''mode'', PStr m)] | None \<Rightarrow> resolved);
                    cli_mode = get_option cli ''mode'' PNone
                in Inr (if cli_mode \<noteq> PNone then updated resolved [(PStr ''mode'', cli_mode)] else resolved))))"

definition resolve_skip_recurring :: "options \<Rightarrow> (string \<times> string) list \<Rightarrow> error + bool" where
  "resolve_skip_recurring cli vars =
     (case map_of cli (PStr ''skip_recurring'') of
        Some v \<Rightarrow> bool_option v ''skip_recurring''
      | None \<Rightarrow> (case map_of vars ''DJ_QUEUE_SKIP_RECURRING'' of
          None \<Rightarrow> Inr False
        | Some s \<Rightarrow> parse_bool s ''DJ_QUEUE_SKIP_RECURRING''))"

section \<open>The configuration of a backend\<close>

text \<open>The options that are read as \<open>resolved_options[...]\<close> and those read with \<open>.get\<close> all have a default, so
  that the lookups never fail.\<close>

fun unhashable :: "pyval \<Rightarrow> bool" where
  "unhashable (PList _) = True"
| "unhashable (PDict _) = True"
| "unhashable (PTuple vs) = list_ex unhashable vs"
| "unhashable _ = False"

definition resolve_mode :: "pyval \<Rightarrow> error + string" where
  "resolve_mode m =
     (if unhashable m then Inl (TypeError [])
      else if m = PStr ''fork'' then Inr ''fork''
      else if m = PStr ''async'' then Inr ''async''
      else improper ''dj_queue mode must be fork or async'')"

definition build_backend_config ::
  "surroundings \<Rightarrow> string \<Rightarrow> options \<Rightarrow> options \<Rightarrow> options \<Rightarrow> (string \<times> string) list \<Rightarrow> error + full_config" where
  "build_backend_config env alias backend_block resolved cli vars =
     (let get = (\<lambda>k. get_option resolved k PNone) in
      and_then (resolve_mode (get ''mode'')) (\<lambda>md.
      and_then (bool_option (get_option cli ''only_work'' (PBool False)) ''--only-work'') (\<lambda>work.
      and_then (bool_option (get_option cli ''only_dispatch'' (PBool False)) ''--only-dispatch'') (\<lambda>dispatch.
      and_then (guard_that (\<not> (work \<and> dispatch))
          (ImproperlyConfigured ''--only-work and --only-dispatch cannot be combined'')) (\<lambda>_.
      and_then (resolve_skip_recurring cli vars) (\<lambda>skip.
      and_then (bool_option (get ''preserve_finished_jobs'') ''preserve_finished_jobs'') (\<lambda>preserve.
      and_then (as_string_tuple (get_option backend_block ''QUEUES'' (PList []))) (\<lambda>allowed.
      and_then (validated_callback_path env (get ''on_thread_error'')) (\<lambda>callback.
      and_then (build_recurring_config env (get ''recurring'') allowed) (\<lambda>tasks.
      and_then (build_scheduler_config env (get ''scheduler'')) (\<lambda>sched.
      and_then (build_worker_configs env (get ''workers'') md) (\<lambda>ws.
      and_then (build_dispatcher_configs env (get ''dispatchers'')) (\<lambda>ds.
      and_then (nonnegative_float env (get ''process_heartbeat_interval'') ''process_heartbeat_interval'') (\<lambda>heartbeat.
      and_then (positive_float env (get ''process_alive_threshold'') ''process_alive_threshold'') (\<lambda>alive.
      and_then (nonnegative_float env (get ''shutdown_timeout'') ''shutdown_timeout'') (\<lambda>timeout.
      and_then (optional_string_option (get ''supervisor_pidfile'') ''supervisor_pidfile'') (\<lambda>pidfile.
      and_then (optional_nonnegative_int (get ''clear_finished_jobs_after'') ''clear_finished_jobs_after'') (\<lambda>finished.
      and_then (optional_nonnegative_int (get ''clear_failed_jobs_after'') ''clear_failed_jobs_after'') (\<lambda>failed.
      and_then (optional_nonnegative_int (get ''clear_recurring_executions_after'') ''clear_recurring_executions_after'') (\<lambda>executions.
      and_then (positive_int (get ''default_concurrency_duration'') ''default_concurrency_duration'') (\<lambda>duration.
      and_then (string_option (get ''database_alias'') ''database_alias'') (\<lambda>database.
      and_then (bool_option (get ''use_skip_locked'') ''use_skip_locked'') (\<lambda>skip_locked.
      and_then (bool_option (get ''listen_notify'') ''listen_notify'') (\<lambda>notify.
      and_then (bool_option (get ''async_thread_sensitive'') ''async_thread_sensitive'') (\<lambda>thread_sensitive.
      and_then (bool_option (get ''async_close_connections'') ''async_close_connections'') (\<lambda>close_connections.
        Inr \<lparr>backend_alias = alias, allowed_queues = allowed, use_skip_locked = skip_locked, listen_notify = notify,
          preserve_finished_jobs = preserve, default_concurrency_duration = duration,
          clear_finished_jobs_after = finished, clear_failed_jobs_after = failed,
          clear_recurring_executions_after = executions, mode = md, workers = ws, dispatchers = ds, scheduler = Some sched,
          recurring = tasks, process_heartbeat_interval = heartbeat, process_alive_threshold = alive,
          shutdown_timeout = timeout, supervisor_pidfile = pidfile, database_alias = database,
          async_thread_sensitive = thread_sensitive, async_close_connections = close_connections,
          on_thread_error = callback, skip_recurring = skip, only_work = work, only_dispatch = dispatch\<rparr>))))))))))))))))))))))))))"

definition scheduler_has_work :: "full_config \<Rightarrow> bool" where
  "scheduler_has_work c \<longleftrightarrow>
     (case scheduler c of Some s \<Rightarrow> s_dynamic_tasks_enabled s | None \<Rightarrow> False) \<or> recurring c \<noteq> [] \<or> cleanup_enabled c"

definition select_runtime_topology :: "full_config \<Rightarrow> error + full_config" where
  "select_runtime_topology c =
     (let c = (if only_work c then c\<lparr>dispatchers := [], scheduler := None\<rparr>
        else if only_dispatch c then c\<lparr>workers := [], scheduler := None\<rparr>
        else if skip_recurring c \<or> \<not> scheduler_has_work c then c\<lparr>scheduler := None\<rparr> else c)
      in if workers c = [] \<and> dispatchers c = [] \<and> scheduler c = None
         then improper ''dj_queue requires at least one worker, dispatcher, or scheduler workload'' else Inr c)"

text \<open>The \<open>TASKS\<close> setting is a mapping from aliases to blocks.\<close>

definition dj_queue_backend_path :: string where
  "dj_queue_backend_path = ''dj_queue.backend.DjQueueBackend''"

definition is_dj_queue_backend_alias :: "options \<Rightarrow> bool" where
  "is_dj_queue_backend_alias block \<longleftrightarrow> get_option block ''BACKEND'' PNone = PStr dj_queue_backend_path"

fun configured_aliases :: "(string \<times> pyval) list \<Rightarrow> error + string list" where
  "configured_aliases [] = Inr []"
| "configured_aliases ((alias, raw) # tasks) =
     (case py_mapping raw of
        None \<Rightarrow> improper ''TASKS entries must be mappings''
      | Some block \<Rightarrow> and_then (configured_aliases tasks) (\<lambda>aliases.
          Inr (if is_dj_queue_backend_alias block then alias # aliases else aliases)))"

definition configured_backend_aliases :: "(string \<times> pyval) list \<Rightarrow> error + string list" where
  "configured_backend_aliases tasks = (if tasks = [] then Inr [''default''] else configured_aliases tasks)"

definition ensure_dj_queue_backend_alias :: "(string \<times> pyval) list \<Rightarrow> string \<Rightarrow> error + unit" where
  "ensure_dj_queue_backend_alias tasks alias =
     and_then (configured_backend_aliases tasks) (\<lambda>aliases.
       guard_that (alias \<in> set aliases) (ImproperlyConfigured ''backend alias is not configured for DjQueueBackend''))"

definition backend_block :: "(string \<times> pyval) list \<Rightarrow> string \<Rightarrow> error + options" where
  "backend_block tasks alias =
     (if tasks = [] then (if alias = ''default'' then Inr [] else improper ''backend alias is not configured'')
      else case map_of tasks alias of
          None \<Rightarrow> improper ''backend alias is not configured''
        | Some raw \<Rightarrow> (case py_mapping raw of
            None \<Rightarrow> improper ''TASKS entries must be mappings''
          | Some block \<Rightarrow> Inr block))"

definition load_backend_config_uncached ::
  "surroundings \<Rightarrow> string \<Rightarrow> options \<Rightarrow> (string \<times> string) list \<Rightarrow> (string \<times> pyval) list \<Rightarrow> error + full_config" where
  "load_backend_config_uncached env alias cli vars tasks =
     and_then (ensure_dj_queue_backend_alias tasks alias) (\<lambda>_.
     and_then (backend_block tasks alias) (\<lambda>block.
     and_then (resolved_options env alias block cli vars) (\<lambda>resolved.
     and_then (build_backend_config env alias block resolved cli vars) select_runtime_topology)))"

definition config_env_keys :: "string list" where
  "config_env_keys = [''DJ_QUEUE_CONFIG'', ''DJ_QUEUE_MODE'', ''DJ_QUEUE_SKIP_RECURRING'']"

type_synonym config_key = "string \<times> json \<times> string option list \<times> json"
type_synonym config_cache = "(config_key \<times> full_config) list"

definition config_cache_key ::
  "surroundings \<Rightarrow> string \<Rightarrow> options \<Rightarrow> (string \<times> string) list \<Rightarrow> options \<Rightarrow> error + config_key" where
  "config_cache_key env alias cli vars block =
     and_then (if cli = [] then Inr (JObject []) else cache_key env (PDict cli)) (\<lambda>cli_key.
     and_then (cache_key env (PDict block)) (\<lambda>block_key.
       Inr (alias, cli_key, map (map_of vars) config_env_keys, block_key)))"

definition load_backend_config ::
  "surroundings \<Rightarrow> string \<Rightarrow> options \<Rightarrow> (string \<times> string) list \<Rightarrow> (string \<times> pyval) list \<Rightarrow> config_cache
     \<Rightarrow> error + full_config \<times> config_cache" where
  "load_backend_config env alias cli vars tasks cache =
     and_then (ensure_dj_queue_backend_alias tasks alias) (\<lambda>_.
     and_then (backend_block tasks alias) (\<lambda>block.
     and_then (config_cache_key env alias cli vars block) (\<lambda>key.
       case map_of cache key of
         Some c \<Rightarrow> Inr (c, cache)
       | None \<Rightarrow>
           and_then (load_backend_config_uncached env alias cli
               (filter (\<lambda>(k, v). k \<in> set config_env_keys) vars) tasks) (\<lambda>c.
             Inr (c, (key, c) # cache)))))"

definition load_allowed_queues :: "(string \<times> pyval) list \<Rightarrow> string \<Rightarrow> error + string list" where
  "load_allowed_queues tasks alias =
     and_then (ensure_dj_queue_backend_alias tasks alias) (\<lambda>_.
     and_then (backend_block tasks alias) (\<lambda>block. as_string_tuple (get_option block ''QUEUES'' (PList []))))"

definition resolve_backend_config ::
  "surroundings \<Rightarrow> string \<Rightarrow> full_config option \<Rightarrow> (string \<times> string) list \<Rightarrow> (string \<times> pyval) list \<Rightarrow> config_cache
     \<Rightarrow> error + full_config \<times> config_cache" where
  "resolve_backend_config env alias config vars tasks cache =
     (case config of
        None \<Rightarrow> load_backend_config env alias [] vars tasks cache
      | Some c \<Rightarrow> if backend_alias c \<noteq> alias
          then improper ''dj_queue config belongs to a different backend alias'' else Inr (c, cache))"

end
