(* ===== verification/Configuration_Facts.thy ===== *)
theory Configuration_Facts
  imports Configuration Schedules
begin

text \<open>
  What a loaded configuration is worth: every number is in its range, the topology has something to run, each
  option comes from the source with the highest precedence that sets it, and the recurring tasks it names pass
  the checks of the scheduler that writes them to the database.
\<close>

section \<open>Validators\<close>

named_theorems validated "what the result of a validator satisfies"

lemma positive_int_Inr [validated]: "positive_int v n = Inr i \<Longrightarrow> 0 < i"
  by (auto simp: positive_int_def split: if_splits)

lemma priority_int_Inr [validated]: "priority_int v n = Inr i \<Longrightarrow> -100 \<le> i \<and> i \<le> 100"
  by (auto simp: priority_int_def split: if_splits)

lemma optional_int_Inr [validated]: "optional_nonnegative_int v n = Inr (Some i) \<Longrightarrow> 0 \<le> i"
  by (auto simp: optional_nonnegative_int_def split: if_splits)

lemma positive_float_Inr [validated]: "positive_float env v n = Inr f \<Longrightarrow> float_sign f = Some 1"
  by (auto simp: positive_float_def Let_def split: if_splits)

lemma nonnegative_float_Inr [validated]: "nonnegative_float env v n = Inr f \<Longrightarrow> float_sign f \<in> {Some 0, Some 1}"
  by (auto simp: nonnegative_float_def Let_def split: if_splits)

lemma nonempty_string_Inr [validated]: "nonempty_string_option v n = Inr s \<Longrightarrow> s \<noteq> []"
  by (auto simp: nonempty_string_option_def split: if_splits)

lemma resolve_mode_Inr [validated]: "resolve_mode m = Inr s \<Longrightarrow> s = ''fork'' \<or> s = ''async''"
  by (auto simp: resolve_mode_def split: if_splits)

lemma map_indexed_all:
  "map_indexed f i xs = Inr ys \<Longrightarrow> (\<And>i x y. f i x = Inr y \<Longrightarrow> P y) \<Longrightarrow> \<forall>y\<in>set ys. P y"
  by (induction xs arbitrary: i ys) (auto simp: and_then_Inr_iff)

lemma map_all_in: "map_all f xs = Inr ys \<Longrightarrow> y \<in> set ys \<Longrightarrow> \<exists>x\<in>set xs. f x = Inr y"
  by (induction xs arbitrary: ys) (auto simp: and_then_Inr_iff)

section \<open>Well-formed configurations\<close>

definition worker_ok :: "string \<Rightarrow> worker_config \<Rightarrow> bool" where
  "worker_ok md w \<longleftrightarrow> 0 < w_threads w \<and> 0 < w_processes w \<and> (md = ''async'' \<longrightarrow> w_processes w = 1)
     \<and> float_sign (w_polling_interval w) = Some 1 \<and> 0 < w_prefetch_multiplier w"

definition dispatcher_ok :: "dispatcher_config \<Rightarrow> bool" where
  "dispatcher_ok c \<longleftrightarrow> 0 < d_batch_size c \<and> float_sign (d_polling_interval c) = Some 1
     \<and> float_sign (d_concurrency_maintenance_interval c) \<in> {Some 0, Some 1}"

definition recurring_entry_ok :: "surroundings \<Rightarrow> string list \<Rightarrow> string \<times> recurring_config \<Rightarrow> bool" where
  "recurring_entry_ok env allowed x \<longleftrightarrow> (case x of (key, rc) \<Rightarrow>
     rc_key rc = key \<and> key \<noteq> [] \<and> rc_task_path rc \<noteq> [] \<and> rc_schedule rc \<noteq> [] \<and> is_valid_schedule (zones env) (rc_schedule rc)
     \<and> rc_queue_name rc \<noteq> [] \<and> (allowed = [] \<or> rc_queue_name rc \<in> set allowed) \<and> -100 \<le> rc_priority rc \<and> rc_priority rc \<le> 100
     \<and> import_named_task env (rc_task_path rc) = Inr True)"

definition options_ok :: "surroundings \<Rightarrow> full_config \<Rightarrow> bool" where
  "options_ok env c \<longleftrightarrow> mode c \<in> {''fork'', ''async''} \<and> list_all (worker_ok (mode c)) (workers c)
     \<and> list_all dispatcher_ok (dispatchers c) \<and> list_all (recurring_entry_ok env (allowed_queues c)) (recurring c)
     \<and> (\<forall>s. scheduler c = Some s \<longrightarrow> float_sign (s_polling_interval s) = Some 1)
     \<and> float_sign (process_heartbeat_interval c) \<in> {Some 0, Some 1} \<and> float_sign (process_alive_threshold c) = Some 1
     \<and> float_sign (shutdown_timeout c) \<in> {Some 0, Some 1} \<and> 0 < default_concurrency_duration c
     \<and> (\<forall>n. clear_finished_jobs_after c = Some n \<longrightarrow> 0 \<le> n) \<and> (\<forall>n. clear_failed_jobs_after c = Some n \<longrightarrow> 0 \<le> n)
     \<and> (\<forall>n. clear_recurring_executions_after c = Some n \<longrightarrow> 0 \<le> n) \<and> \<not> (only_work c \<and> only_dispatch c)"

definition topology_ok :: "full_config \<Rightarrow> bool" where
  "topology_ok c \<longleftrightarrow> (workers c \<noteq> [] \<or> dispatchers c \<noteq> [] \<or> scheduler c \<noteq> None)
     \<and> (only_work c \<longrightarrow> dispatchers c = [] \<and> scheduler c = None) \<and> (only_dispatch c \<longrightarrow> workers c = [] \<and> scheduler c = None)
     \<and> (scheduler c \<noteq> None \<longrightarrow> \<not> skip_recurring c \<and> scheduler_has_work c)"

lemma worker_entry_ok: "worker_entry env md i raw = Inr w \<Longrightarrow> worker_ok md w"
  by (auto simp: worker_entry_def worker_ok_def Let_def and_then_Inr_iff split: option.splits dest: validated)

lemma dispatcher_entry_ok: "dispatcher_entry env i raw = Inr w \<Longrightarrow> dispatcher_ok w"
  by (auto simp: dispatcher_entry_def dispatcher_ok_def Let_def and_then_Inr_iff split: option.splits dest: validated)

lemma scheduler_entry_ok: "build_scheduler_config env raw = Inr s \<Longrightarrow> float_sign (s_polling_interval s) = Some 1"
  by (auto simp: build_scheduler_config_def Let_def and_then_Inr_iff split: option.splits dest: validated)

lemma import_checked:
  "(case r of Inl (ImportError m) \<Rightarrow> improper (f m) | r \<Rightarrow> r) = Inr b \<Longrightarrow> r = Inr b"
  by (auto split: sum.splits error.splits)

lemma recurring_entry_Inr:
  assumes "recurring_entry env allowed item = Inr x"
  shows "recurring_entry_ok env allowed x"
proof (cases "py_mapping (snd item)")
  case None
  with assms show ?thesis by (auto simp: recurring_entry_def Let_def elim!: and_then_InrE)
next
  case (Some opts)
  note step = assms [unfolded recurring_entry_def Some Let_def option.case]
  show ?thesis using step
    by (elim and_then_InrE, simp split: if_split_asm)
      (elim and_then_InrE, frule import_checked, auto simp: recurring_entry_ok_def guard_that_Inr dest: validated)
qed

lemma build_workers_ok: "build_worker_configs env raw md = Inr ws \<Longrightarrow> list_all (worker_ok md) ws"
  by (auto simp: build_worker_configs_def list_all_iff and_then_Inr_iff dest!: map_indexed_all [where P = "worker_ok md"] worker_entry_ok)

lemma build_dispatchers_ok: "build_dispatcher_configs env raw = Inr ws \<Longrightarrow> list_all dispatcher_ok ws"
  by (auto simp: build_dispatcher_configs_def list_all_iff and_then_Inr_iff dest!: map_indexed_all [where P = dispatcher_ok] dispatcher_entry_ok)

lemma build_recurring_ok: "build_recurring_config env raw allowed = Inr rs \<Longrightarrow> list_all (recurring_entry_ok env allowed) rs"
  by (auto simp: build_recurring_config_def list_all_iff split: if_splits option.splits dest: map_all_in recurring_entry_Inr)

lemma build_config_ok:
  assumes "build_backend_config env alias block opts cli vars = Inr c"
  shows "options_ok env c" and "scheduler c \<noteq> None" and "backend_alias c = alias"
proof -
  note step = assms [unfolded build_backend_config_def Let_def]
  note facts = build_workers_ok build_dispatchers_ok build_recurring_ok scheduler_entry_ok
  from step show "options_ok env c"
    by (elim and_then_InrE, clarsimp simp: options_ok_def) (auto dest: validated facts)
  from step show "scheduler c \<noteq> None" "backend_alias c = alias" by (elim and_then_InrE, auto)+
qed

lemma select_topology:
  assumes "select_runtime_topology c = Inr e" and "options_ok env c" and "scheduler c \<noteq> None"
  shows "options_ok env e" and "topology_ok e" and "backend_alias e = backend_alias c"
proof -
  from assms(1) have e: "e = (if only_work c then c\<lparr>dispatchers := [], scheduler := None\<rparr>
        else if only_dispatch c then c\<lparr>workers := [], scheduler := None\<rparr>
        else if skip_recurring c \<or> \<not> scheduler_has_work c then c\<lparr>scheduler := None\<rparr> else c)"
    and ne: "\<not> (workers e = [] \<and> dispatchers e = [] \<and> scheduler e = None)"
    by (auto simp: select_runtime_topology_def Let_def split: if_splits)
  show "options_ok env e" using assms(2) by (auto simp: e options_ok_def)
  show "topology_ok e" using ne assms(2) by (auto simp: e topology_ok_def options_ok_def)
  show "backend_alias e = backend_alias c" by (simp add: e)
qed

lemma load_uncached_ok:
  assumes "load_backend_config_uncached env alias cli vars tasks = Inr c"
  shows "options_ok env c" and "topology_ok c" and "backend_alias c = alias"
proof -
  from assms obtain block opts c0 where
    "build_backend_config env alias block opts cli vars = Inr c0" "select_runtime_topology c0 = Inr c"
    by (auto simp: load_backend_config_uncached_def)
  with select_topology [OF this(2) build_config_ok(1,2)] build_config_ok(3)
  show "options_ok env c" "topology_ok c" "backend_alias c = alias" by auto
qed

section \<open>Precedence\<close>

lemma get_updated:
  "get_option (updated base newer) k d = get_option newer k (get_option base k d)"
  by (simp add: get_option_def updated_def map_add_def split: option.splits)

lemma get_singleton [simp]: "get_option [(PStr k, v)] k' d = (if k' = k then v else d)"
  by (simp add: get_option_def)

lemma resolved_options_Inr:
  assumes "resolved_options env alias block cli vars = Inr opts"
  obtains raw toml where "py_mapping (get_option block ''OPTIONS'' (PDict [])) = Some raw"
    "load_toml_options env (toml_path cli vars) alias = Inr toml"
    "\<And>k d. get_option opts k d =
      (let configured = get_option toml k (get_option (without_deprecated_options raw) k
             (get_option (map (\<lambda>(k, v). (PStr k, v)) default_options) k d))
       in if k = ''mode'' \<and> get_option cli ''mode'' PNone \<noteq> PNone then get_option cli ''mode'' PNone
          else if k = ''mode'' then (case map_of vars ''DJ_QUEUE_MODE'' of Some m \<Rightarrow> PStr m | None \<Rightarrow> configured)
          else configured)"
proof -
  from assms obtain raw where r: "py_mapping (get_option block ''OPTIONS'' (PDict [])) = Some raw"
    by (cases "py_mapping (get_option block ''OPTIONS'' (PDict []))") (simp_all add: resolved_options_def)
  note step = assms [unfolded resolved_options_def r option.case Let_def]
  from step obtain toml where t: "load_toml_options env (toml_path cli vars) alias = Inr toml"
    by (elim and_then_InrE)
  from step have "opts = (let resolved = updated (updated (map (\<lambda>(k, v). (PStr k, v)) default_options) (without_deprecated_options raw)) toml;
      resolved = (case map_of vars ''DJ_QUEUE_MODE'' of Some m \<Rightarrow> updated resolved [(PStr ''mode'', PStr m)] | None \<Rightarrow> resolved)
      in if get_option cli ''mode'' PNone \<noteq> PNone then updated resolved [(PStr ''mode'', get_option cli ''mode'' PNone)] else resolved)"
    by (simp only: t and_then_simps Let_def and_then_Inr_iff) simp
  then show ?thesis by (intro that [OF r t]) (simp add: get_updated Let_def split: option.splits)
qed

section \<open>Recurring tasks of a configuration\<close>

lemma recurring_validates:
  assumes "options_ok env c"
    and "\<And>p. import_named_task env p = (case import_task ss p of Inl e \<Rightarrow> Inl e | Inr t \<Rightarrow> Inr (has_using t))"
  shows "validate_static (utc_cron (zones env)) ss (backend_config.truncate c) (map snd (recurring c)) = Inr ()"
proof -
  have "validate_static (utc_cron (zones env)) ss (backend_config.truncate c) (map snd xs) = Inr ()"
    if "list_all (recurring_entry_ok env (allowed_queues c)) xs" for xs
    using that
  proof (induction xs)
    case (Cons x xs)
    obtain key rc where x: "x = (key, rc)" by (cases x)
    with Cons.prems have ok: "recurring_entry_ok env (allowed_queues c) (key, rc)" by simp
    with assms(2) [of "rc_task_path rc"] obtain t where "import_task ss (rc_task_path rc) = Inr t" "has_using t"
      by (auto simp: recurring_entry_ok_def split: sum.splits)
    with ok have "validate_recurring_task_definition (utc_cron (zones env)) ss (backend_config.truncate c)
      (OStr (rc_task_path rc)) (OStr (rc_queue_name rc)) (OInt (rc_priority rc)) (Some (OStr (rc_schedule rc))) = Inr t"
      by (auto simp: validate_recurring_task_definition_def recurring_string_def recurring_entry_ok_def utc_cron_def
          validate_queue_allowed_def validate_priority_def guard_that_def backend_config.defs)
    with Cons x show ?case by simp
  qed simp
  with assms(1) show ?thesis by (simp add: options_ok_def)
qed

end
