(* ===== verification/Runners.thy ===== *)
theory Runners
  imports Lifecycle Configuration
begin

text \<open>
  The runners of \<^verbatim>\<open>runtime/\<close>: the common base, the dispatcher, the scheduler and the worker.  A pass of a
  runner is a sequence of transactions; when one raises, what the earlier ones have committed stays, and so does
  what the runner has noted about itself.  Threads, sleeping, hooks and logging are not modelled.  Instants of
  the monotonic clock and intervals are rational numbers of seconds, and arithmetic on them is exact.
\<close>

section \<open>Passes\<close>

text \<open>A pass works on a state and returns a value or raises; either way there is a state afterwards.\<close>

type_synonym ('s, 'a) pass = "'s \<Rightarrow> (error + 'a) \<times> 's"

definition answer :: "'a \<Rightarrow> ('s, 'a) pass" where
  "answer x s = (Inr x, s)"

definition followed :: "('s, 'a) pass \<Rightarrow> ('a \<Rightarrow> ('s, 'b) pass) \<Rightarrow> ('s, 'b) pass" where
  "followed f g s = (case f s of (Inl e, t) \<Rightarrow> (Inl e, t) | (Inr x, t) \<Rightarrow> g x t)"

text \<open>One transaction on the database of a runner: an exception rolls it back.\<close>

definition transact :: "(db \<Rightarrow> error + 'a \<times> db) \<Rightarrow> ('r \<times> db, 'a) pass" where
  "transact f s = (case f (snd s) of Inl e \<Rightarrow> (Inl e, s) | Inr (x, d) \<Rightarrow> (Inr x, (fst s, d)))"

text \<open>Several transactions in an operation of its own.\<close>

definition transacts :: "(db \<Rightarrow> (error + 'a) \<times> db) \<Rightarrow> ('r \<times> db, 'a) pass" where
  "transacts f s = (case f (snd s) of (x, d) \<Rightarrow> (x, (fst s, d)))"

definition read_clock :: "('r \<times> db, time) pass" where
  "read_clock s = (case timezone_now (snd s) of (t, d) \<Rightarrow> (Inr t, (fst s, d)))"

definition note_that :: "('r \<Rightarrow> 'r) \<Rightarrow> ('r \<times> db, unit) pass" where
  "note_that f s = (Inr (), (f (fst s), snd s))"

section \<open>Time\<close>

definition float_value :: "pyfloat \<Rightarrow> rat" where
  "float_value f = (case f of Finite m e \<Rightarrow> if 0 \<le> e then of_int m * 2 ^ nat e else of_int m / 2 ^ nat (- e) | _ \<Rightarrow> 0)"

text \<open>\<open>timedelta.total_seconds()\<close>: microseconds divided by a million, rounded to 53 bits, ties to even.\<close>

definition round_ratio :: "int \<Rightarrow> int \<Rightarrow> int" where
  "round_ratio n m = (let q = n div m; r = n mod m in if m < 2 * r \<or> 2 * r = m \<and> odd q then q + 1 else q)"

definition total_seconds :: "time \<Rightarrow> rat" where
  "total_seconds t =
     (if t = 0 then 0
      else
        let a = \<bar>t\<bar>; k = bitlen a - 20;
            b = (if (if 0 \<le> k then 1000000 * 2 ^ nat k \<le> a else 1000000 \<le> a * 2 ^ nat (- k)) then k else k - 1);
            e = b - 52;
            v = (if e \<le> 0 then of_int (round_ratio (a * 2 ^ nat (- e)) 1000000) / 2 ^ nat (- e)
                 else of_int (round_ratio a (1000000 * 2 ^ nat e)) * 2 ^ nat e)
        in if t < 0 then - v else v)"

section \<open>The base runner\<close>

text \<open>\<open>BaseRunner\<close> without its threads; \<open>r_more\<close> holds the fields of the subclass.\<close>

record 'm runner =
  r_kind :: string
  r_name :: string
  r_pid :: int
  r_hostname :: string
  r_supervisor :: "nat option"
  r_metadata :: json
  r_process :: "process option"
  r_started :: bool
  r_stopped :: bool
  r_stop_requested :: bool
  r_last_liveness_check :: "rat option"
  r_more :: 'm

definition request_stop :: "'m runner \<Rightarrow> 'm runner" where
  "request_stop r = r\<lparr>r_stop_requested := True\<rparr>"

definition rollout_protocol_version :: int where
  "rollout_protocol_version = 1"

text \<open>\<open>runtime_metadata\<close>: the metadata of the subclass with the version of the package and the protocol.\<close>

definition runtime_metadata :: "string \<Rightarrow> (string \<times> json) list \<Rightarrow> json" where
  "runtime_metadata version metadata = JObject (dict_of_pairs (metadata @
     [(''dj_queue_version'', JStr version), (''rollout_protocol'', JInt rollout_protocol_version)]))"

definition start_process :: "full_config \<Rightarrow> ('m runner \<times> db, process) pass" where
  "start_process c s =
     (case r_process (fst s) of
        Some p \<Rightarrow> (Inr p, s)
      | None \<Rightarrow>
          let r = fst s
          in followed (transact (register_process (backend_config.truncate c) (r_kind r) (r_pid r) (r_hostname r) (r_name r)
                 (r_metadata r) (r_supervisor r)))
               (\<lambda>p. followed (note_that (\<lambda>r. r\<lparr>r_process := Some p, r_started := True\<rparr>)) (\<lambda>_. answer p)) s)"

definition effective_heartbeat_interval :: "full_config \<Rightarrow> rat" where
  "effective_heartbeat_interval c =
     (if 0 < float_value (process_heartbeat_interval c) then float_value (process_heartbeat_interval c)
      else max (min (float_value (process_alive_threshold c) / 2) 60) (1 / 100))"

definition liveness_check_interval :: "full_config \<Rightarrow> rat \<Rightarrow> rat" where
  "liveness_check_interval c polling_interval =
     max (max (min (min 5 (effective_heartbeat_interval c)) (float_value (process_alive_threshold c) / 10)) polling_interval) 1"

definition liveness_check_due :: "full_config \<Rightarrow> rat \<Rightarrow> rat \<Rightarrow> 'm runner \<Rightarrow> bool" where
  "liveness_check_due c polling_interval monotonic r =
     (case r_last_liveness_check r of None \<Rightarrow> True | Some t \<Rightarrow> liveness_check_interval c polling_interval \<le> monotonic - t)"

text \<open>\<open>should_continue\<close> reads the monotonic clock to see whether the check is due and again after the query.\<close>

definition should_continue :: "full_config \<Rightarrow> rat \<Rightarrow> rat \<times> rat \<Rightarrow> 'm runner \<Rightarrow> db \<Rightarrow> bool \<times> 'm runner" where
  "should_continue c polling_interval monotonic r d =
     (if r_stop_requested r then (False, r)
      else case r_process r of
        None \<Rightarrow> (False, r)
      | Some p \<Rightarrow>
          if \<not> liveness_check_due c polling_interval (fst monotonic) r then (True, r)
          else
            let r = r\<lparr>r_last_liveness_check := Some (snd monotonic)\<rparr>
            in if process_exists (proc_id p) d then (True, r) else (False, request_stop r))"

text \<open>One round of the heartbeat thread: a row that is gone stops the runner.\<close>

definition heartbeat :: "('m runner \<times> db, bool) pass" where
  "heartbeat s =
     (case r_process (fst s) of
        None \<Rightarrow> (Inr False, s)
      | Some p \<Rightarrow>
          (case touch_process_row (proc_id p) (snd s) of
             (n, d) \<Rightarrow> if n = 0 then (Inr False, (request_stop (fst s), d)) else (Inr True, (fst s, d))))"

definition begin_stop :: "'m runner \<Rightarrow> process option \<times> 'm runner" where
  "begin_stop r =
     (if r_stopped r then (None, r) else (r_process r, request_stop (r\<lparr>r_stopped := True\<rparr>)))"

definition deregister_runner :: "'m runner \<times> db \<Rightarrow> 'm runner \<times> db" where
  "deregister_runner s =
     (case r_process (fst s) of
        None \<Rightarrow> s
      | Some p \<Rightarrow> ((fst s)\<lparr>r_process := None\<rparr>, deregister_process (proc_id p) (snd s)))"

definition stop_runner :: "'m runner \<times> db \<Rightarrow> 'm runner \<times> db" where
  "stop_runner s =
     (case begin_stop (fst s) of
        (None, r) \<Rightarrow> (r, snd s)
      | (Some p, r) \<Rightarrow> deregister_runner (r, snd s))"

text \<open>\<open>_poll_once_handled\<close>: an exception goes to the error handler and ends the loop.\<close>

definition poll_once_handled :: "('s, 'a) pass \<Rightarrow> 's \<Rightarrow> bool \<times> 's" where
  "poll_once_handled poll s = (case poll s of (Inl e, t) \<Rightarrow> (False, t) | (Inr x, t) \<Rightarrow> (True, t))"

definition poll_once_if_running ::
  "full_config \<Rightarrow> rat \<Rightarrow> rat \<times> rat \<Rightarrow> ('m runner \<times> db, 'a) pass \<Rightarrow> 'm runner \<times> db \<Rightarrow> bool \<times> 'm runner \<times> db" where
  "poll_once_if_running c polling_interval monotonic poll s =
     (case should_continue c polling_interval monotonic (fst s) (snd s) of
        (continue, r) \<Rightarrow> if continue then poll_once_handled poll (r, snd s) else (False, (r, snd s)))"

section \<open>The dispatcher\<close>

definition dispatcher_metadata :: "dispatcher_config \<Rightarrow> (string \<times> json) list" where
  "dispatcher_metadata dc =
     (let number = (\<lambda>f. case f of Finite m e \<Rightarrow> JFloat m e | _ \<Rightarrow> JNull)
      in [(''batch_size'', JInt (d_batch_size dc)), (''polling_interval'', number (d_polling_interval dc)),
          (''concurrency_maintenance'', JBool (d_concurrency_maintenance dc)),
          (''concurrency_maintenance_interval'', number (d_concurrency_maintenance_interval dc))])"

text \<open>The subclass adds \<open>_last_maintenance_at\<close>; the clock is read only when there was a maintenance before.\<close>

definition maintenance_due :: "dispatcher_config \<Rightarrow> (time option runner \<times> db, bool) pass" where
  "maintenance_due dc s =
     (if \<not> d_concurrency_maintenance dc then (Inr False, s)
      else case r_more (fst s) of
        None \<Rightarrow> (Inr True, s)
      | Some t \<Rightarrow> followed read_clock (\<lambda>now.
          answer (float_value (d_concurrency_maintenance_interval dc) \<le> total_seconds (now - t))) s)"

definition dispatcher_poll :: "session \<Rightarrow> full_config \<Rightarrow> dispatcher_config \<Rightarrow> (time option runner \<times> db, job list) pass" where
  "dispatcher_poll ss c dc =
     (let cfg = backend_config.truncate c; n = d_batch_size dc in
      followed (start_process c) (\<lambda>_.
      followed (transact (promote_scheduled_jobs ss cfg n)) (\<lambda>promoted.
      followed (transact (promote_failed_job_retries ss cfg n)) (\<lambda>retried.
      followed (maintenance_due dc) (\<lambda>due.
        if due then
          followed (transact (cleanup_expired_semaphores ss cfg (OInt n))) (\<lambda>_.
          followed (transact (promote_expired_blocked_jobs ss cfg n)) (\<lambda>_.
          followed read_clock (\<lambda>now.
          followed (note_that (\<lambda>r. r\<lparr>r_more := Some now\<rparr>)) (\<lambda>_. answer (promoted @ retried)))))
        else answer (promoted @ retried))))))"

section \<open>The scheduler\<close>

definition cleanup_batch_size :: int where "cleanup_batch_size = 500"
definition cleanup_interval :: rat where "cleanup_interval = 60"
definition recurring_batch_size :: int where "recurring_batch_size = 500"

record scheduler_state =
  static_tasks_synced :: bool
  last_cleanup_at :: "time option"

definition scheduler_metadata :: "full_config \<Rightarrow> scheduler_config \<Rightarrow> (string \<times> json) list" where
  "scheduler_metadata c sc =
     [(''dynamic_tasks_enabled'', JBool (s_dynamic_tasks_enabled sc)),
      (''polling_interval'', case s_polling_interval sc of Finite m e \<Rightarrow> JFloat m e | _ \<Rightarrow> JNull),
      (''static_task_count'', JInt (int (length (recurring c)))), (''cleanup_enabled'', JBool (cleanup_enabled c))]"

definition sync_static_tasks :: "cron \<Rightarrow> session \<Rightarrow> full_config \<Rightarrow> ('m runner \<times> db, unit) pass" where
  "sync_static_tasks cr ss c = transact (\<lambda>d. and_then
     (upsert_static_recurring_tasks cr ss (backend_config.truncate c) (recurring c) d) (\<lambda>d. Inr ((), d)))"

definition ensure_static_tasks_synced :: "cron \<Rightarrow> session \<Rightarrow> full_config \<Rightarrow> (scheduler_state runner \<times> db, bool) pass" where
  "ensure_static_tasks_synced cr ss c s =
     (if static_tasks_synced (r_more (fst s)) then (Inr False, s)
      else followed (sync_static_tasks cr ss c) (\<lambda>_.
        followed (note_that (\<lambda>r. r\<lparr>r_more := (r_more r)\<lparr>static_tasks_synced := True\<rparr>\<rparr>)) (\<lambda>_. answer True)) s)"

text \<open>\<open>Scheduler.start\<close> synchronises the static tasks after it has registered the process.\<close>

definition scheduler_start :: "cron \<Rightarrow> session \<Rightarrow> full_config \<Rightarrow> (scheduler_state runner \<times> db, process) pass" where
  "scheduler_start cr ss c =
     followed (start_process c) (\<lambda>p. followed (ensure_static_tasks_synced cr ss c) (\<lambda>_. answer p))"

definition has_recurring_work :: "full_config \<Rightarrow> scheduler_config \<Rightarrow> bool" where
  "has_recurring_work c sc \<longleftrightarrow> s_dynamic_tasks_enabled sc \<or> recurring c \<noteq> []"

definition cleanup_due :: "full_config \<Rightarrow> time \<Rightarrow> scheduler_state \<Rightarrow> bool" where
  "cleanup_due c now st \<longleftrightarrow> cleanup_enabled c \<and>
     (case last_cleanup_at st of None \<Rightarrow> True | Some t \<Rightarrow> cleanup_interval \<le> total_seconds (now - t))"

definition clear_when :: "bool \<Rightarrow> (db \<Rightarrow> error + nat \<times> db) \<Rightarrow> ('r \<times> db, nat) pass" where
  "clear_when b f = (if b then transact f else answer 0)"

definition run_cleanup :: "session \<Rightarrow> full_config \<Rightarrow> time \<Rightarrow> ('r \<times> db, nat) pass" where
  "run_cleanup ss c now =
     (let cfg = backend_config.truncate c in
      followed (clear_when (preserve_finished_jobs c \<and> clear_finished_jobs_after c \<noteq> None)
        (clear_finished_jobs ss cfg (clear_finished_jobs_after c) None cleanup_batch_size (Some now))) (\<lambda>a.
      followed (clear_when (clear_failed_jobs_after c \<noteq> None)
        (clear_failed_jobs ss cfg (clear_failed_jobs_after c) None cleanup_batch_size (Some now))) (\<lambda>b.
      followed (clear_when (clear_recurring_executions_after c \<noteq> None)
        (clear_recurring_executions ss cfg (clear_recurring_executions_after c) None cleanup_batch_size (Some now))) (\<lambda>e.
        answer (a + b + e)))))"

definition scheduler_poll ::
  "cron \<Rightarrow> session \<Rightarrow> full_config \<Rightarrow> scheduler_config \<Rightarrow> task_using \<Rightarrow> time option \<Rightarrow> uuid stream
     \<Rightarrow> (scheduler_state runner \<times> db, job list) pass" where
  "scheduler_poll cr ss c sc us now ids =
     (let cfg = backend_config.truncate c in
      followed (case now of None \<Rightarrow> read_clock | Some t \<Rightarrow> answer t) (\<lambda>now.
      followed (\<lambda>s. if r_process (fst s) = None then followed (scheduler_start cr ss c) (\<lambda>_. answer ()) s
                    else followed (ensure_static_tasks_synced cr ss c) (\<lambda>_. answer ()) s) (\<lambda>_.
      followed (if has_recurring_work c sc
                then transacts (fire_due_recurring_tasks cr ss cfg us now (s_dynamic_tasks_enabled sc) (Some recurring_batch_size) ids)
                else answer []) (\<lambda>fired s.
        if cleanup_due c now (r_more (fst s))
        then followed (run_cleanup ss c now) (\<lambda>_.
          followed (note_that (\<lambda>r. r\<lparr>r_more := (r_more r)\<lparr>last_cleanup_at := Some now\<rparr>\<rparr>)) (\<lambda>_. answer fired)) s
        else (Inr fired, s)))))"

section \<open>The worker\<close>

text \<open>\<open>WorkerPool\<close>: the counter of jobs in flight and whether it is closing.\<close>

record pool =
  max_workers :: int
  in_flight :: int
  closing :: bool

definition idle_capacity :: "pool \<Rightarrow> int" where
  "idle_capacity p = max 0 (max_workers p - in_flight p)"

text \<open>\<open>submit\<close>: refused by a closing pool; when the executor refuses the counter is taken back.\<close>

definition pool_submit :: "bool \<Rightarrow> pool \<Rightarrow> bool \<times> pool" where
  "pool_submit accepted p =
     (if closing p then (False, p)
      else
        let p = p\<lparr>in_flight := in_flight p + 1\<rparr>
        in if accepted then (True, p) else (False, p\<lparr>in_flight := in_flight p - 1\<rparr>))"

definition pool_complete :: "pool \<Rightarrow> pool" where
  "pool_complete p = p\<lparr>in_flight := in_flight p - 1\<rparr>"

definition worker_metadata :: "worker_config \<Rightarrow> (string \<times> json) list" where
  "worker_metadata w =
     [(''queues'', JList (map JStr (w_queues w))), (''threads'', JInt (w_threads w)),
      (''prefetch_multiplier'', JInt (w_prefetch_multiplier w)),
      (''polling_interval'', case w_polling_interval w of Finite m e \<Rightarrow> JFloat m e | _ \<Rightarrow> JNull)]"

definition claim_limit :: "worker_config \<Rightarrow> pool \<Rightarrow> int" where
  "claim_limit w p = max 0 (w_threads w * w_prefetch_multiplier w - in_flight p)"

text \<open>A failure of the worker itself is recorded with the job; a second failure while recording it is only
  handed to the error handler.\<close>

definition fail_after_worker_error ::
  "session \<Rightarrow> full_config \<Rightarrow> exception_info \<Rightarrow> claimed_job \<Rightarrow> 'r \<times> db \<Rightarrow> 'r \<times> db" where
  "fail_after_worker_error ss c err cj s =
     (case fail_claimed_job ss (backend_config.truncate c) (ClaimedObject cj) err None (snd s) of
        Inl _ \<Rightarrow> s
      | Inr (_, d) \<Rightarrow> (fst s, d))"

definition process_exit_error :: "string \<Rightarrow> string \<Rightarrow> exception_info" where
  "process_exit_error message trace =
     \<lparr>ei_class = ''dj_queue.exceptions.ProcessExitError'', ei_message = message, ei_traceback = trace\<rparr>"

definition handle_submit_error :: "session \<Rightarrow> full_config \<Rightarrow> string \<Rightarrow> claimed_job \<Rightarrow> 'm runner \<times> db \<Rightarrow> 'm runner \<times> db" where
  "handle_submit_error ss c trace cj s =
     (case fail_after_worker_error ss c (process_exit_error ''worker stopped before job submission'' trace) cj s of
        (r, d) \<Rightarrow> (request_stop r, d))"

text \<open>The loop over the claimed jobs; \<open>accepts\<close> tells which of them the executor takes.\<close>

fun submit_jobs ::
  "session \<Rightarrow> full_config \<Rightarrow> string \<Rightarrow> (nat \<Rightarrow> bool) \<Rightarrow> nat \<Rightarrow> claimed_job list \<Rightarrow> claimed_job list
     \<Rightarrow> (pool runner \<times> db, claimed_job list) pass" where
  "submit_jobs ss c trace accepts i [] submitted s = (Inr submitted, s)"
| "submit_jobs ss c trace accepts i (cj # cjs) submitted s =
     (case pool_submit (accepts i) (r_more (fst s)) of
        (ok, p) \<Rightarrow>
          let s = ((fst s)\<lparr>r_more := p\<rparr>, snd s)
          in if ok then submit_jobs ss c trace accepts (Suc i) cjs (submitted @ [cj]) s
             else submit_jobs ss c trace accepts (Suc i) cjs submitted (handle_submit_error ss c trace cj s))"

definition worker_poll ::
  "session \<Rightarrow> full_config \<Rightarrow> worker_config \<Rightarrow> string \<Rightarrow> (nat \<Rightarrow> bool) \<Rightarrow> (pool runner \<times> db, claimed_job list) pass" where
  "worker_poll ss c w trace accepts s =
     (if r_stop_requested (fst s) then (Inr [], s)
      else followed (start_process c) (\<lambda>process s.
        let p = r_more (fst s); limit = claim_limit w p in
        if idle_capacity p \<le> 0 \<or> limit \<le> 0 then (Inr [], s)
        else followed (transact (claim_ready_jobs ss (backend_config.truncate c) limit (SelTuple (w_queues w)) (Some process)))
               (\<lambda>claimed. submit_jobs ss c trace accepts 0 claimed []) s) s)"

text \<open>A job that ends in the pool: the counter goes down, and an exception of the execution itself (not of
  the task, which is recorded) fails the job and stops the worker.\<close>

definition job_done ::
  "session \<Rightarrow> full_config \<Rightarrow> task_call \<Rightarrow> (error \<Rightarrow> exception_info) \<Rightarrow> claimed_job \<Rightarrow> pool runner \<times> db \<Rightarrow> pool runner \<times> db" where
  "job_done ss c run describe cj s =
     (let s' = ((fst s)\<lparr>r_more := pool_complete (r_more (fst s))\<rparr>, snd s)
      in case execute_claimed_job ss (backend_config.truncate c) run (ClaimedObject cj) (snd s) of
           Inr (_, d) \<Rightarrow> (fst s', d)
         | Inl e \<Rightarrow> (case fail_after_worker_error ss c (describe e) cj s' of (r, d) \<Rightarrow> (request_stop r, d)))"

text \<open>\<open>Worker.stop\<close>: a pool that drains in time gives the row up; otherwise the row is marked as draining and goes when
  the pool is empty.  \<open>isoformat\<close> is \<open>datetime.isoformat\<close>.\<close>

definition draining_metadata :: "(time \<Rightarrow> string) \<Rightarrow> json \<Rightarrow> int \<Rightarrow> json \<Rightarrow> time \<Rightarrow> json" where
  "draining_metadata isoformat timeout active metadata now =
     JObject (fold (\<lambda>(k, v). dict_set k v)
       [(''shutdown_state'', JStr ''draining''), (''shutdown_started_at'', JStr (isoformat now)), (''shutdown_timeout'', timeout),
        (''active_jobs'', JInt active)]
       (case metadata of JObject ps \<Rightarrow> ps | _ \<Rightarrow> []))"

definition worker_stop :: "(time \<Rightarrow> string) \<Rightarrow> json \<Rightarrow> bool \<Rightarrow> pool runner \<times> db \<Rightarrow> bool \<times> pool runner \<times> db" where
  "worker_stop isoformat timeout drained s =
     (case begin_stop (fst s) of
        (None, r) \<Rightarrow> (True, (r, snd s))
      | (Some p, r) \<Rightarrow>
          let r = r\<lparr>r_more := (r_more r)\<lparr>closing := True\<rparr>\<rparr>
          in if drained then (True, deregister_runner (r, snd s))
             else
               let (now, d) = timezone_now (snd s);
                   m = draining_metadata isoformat timeout (in_flight (r_more r)) (proc_metadata p) now
               in (False, (r\<lparr>r_process := Some (p\<lparr>proc_metadata := m\<rparr>)\<rparr>, snd (set_process_metadata (proc_id p) m d))))"

end
