(* ===== verification/Supervisors.thy ===== *)
theory Supervisors
  imports Runners "HOL-Library.Multiset"
begin

unbundle bit_operations_syntax

text \<open>
  The supervisor of \<^verbatim>\<open>runtime/supervisor.py\<close> and \<^verbatim>\<open>runtime/topology.py\<close>: which runners a configuration asks for, the
  housekeeping of stale processes, the delays before a crashed runner is started again, and the table of child
  processes.  The results of \<open>fork\<close> and \<open>waitpid\<close> and the readings of the monotonic clock are inputs.
\<close>

section \<open>Topology\<close>

datatype runner_kind = Worker_runner worker_config | Dispatcher_runner dispatcher_config | Scheduler_runner

record runner_definition =
  rd_kind :: runner_kind
  rd_name :: string

definition worker_definitions :: "nat \<Rightarrow> worker_config \<Rightarrow> runner_definition list" where
  "worker_definitions index w =
     map (\<lambda>i. \<lparr>rd_kind = Worker_runner w,
         rd_name = ''worker-'' @ (if w_processes w = 1 then str_nat index else str_nat index @ ''-'' @ str_nat (i + 1))\<rparr>)
       [0..<nat (w_processes w)]"

definition runner_definitions :: "full_config \<Rightarrow> runner_definition list" where
  "runner_definitions c =
     concat (map (\<lambda>i. worker_definitions (i + 1) (workers c ! i)) [0..<length (workers c)])
     @ map (\<lambda>i. \<lparr>rd_kind = Dispatcher_runner (dispatchers c ! i), rd_name = ''dispatcher-'' @ str_nat (i + 1)\<rparr>)
         [0..<length (dispatchers c)]
     @ (case scheduler c of None \<Rightarrow> [] | Some _ \<Rightarrow> [\<lparr>rd_kind = Scheduler_runner, rd_name = ''scheduler-1''\<rparr>])"

section \<open>Connections\<close>

text \<open>\<^verbatim>\<open>runtime/connection_budget.py\<close>.\<close>

definition estimate_persistent_worker_connections :: "int \<Rightarrow> int \<Rightarrow> int" where
  "estimate_persistent_worker_connections worker_processes worker_threads = worker_processes + worker_threads + 2"

definition estimate_config_worker_connections :: "full_config \<Rightarrow> int" where
  "estimate_config_worker_connections c =
     estimate_persistent_worker_connections (sum_list (map w_processes (workers c)))
       (sum_list (map (\<lambda>w. w_processes w * w_threads w) (workers c)))"

definition available_connections :: "int \<times> int \<Rightarrow> int" where
  "available_connections capacity = max 0 (fst capacity - snd capacity)"

definition connection_budget_ratio :: "int \<Rightarrow> int \<times> int \<Rightarrow> rat" where
  "connection_budget_ratio estimated capacity =
     (if available_connections capacity \<le> 0 then 1 else of_int estimated / of_int (available_connections capacity))"

section \<open>Delays\<close>

text \<open>\<open>x * 2 ** n\<close> on a float: the integer is converted first, which overflows from \<open>2 ** 1024\<close> on.\<close>

definition scaled :: "rat \<Rightarrow> nat \<Rightarrow> error + rat" where
  "scaled x n = (if 1024 \<le> n then Inl OverflowError else Inr (x * 2 ^ n))"

definition restart_backoff_base_delay :: rat where "restart_backoff_base_delay = float_value (Finite 3602879701896397 (-55))"
definition restart_backoff_max_delay :: rat where "restart_backoff_max_delay = 30"
definition restart_backoff_reset_after :: rat where "restart_backoff_reset_after = 60"

text \<open>\<open>_reconnect_delay\<close> of \<^verbatim>\<open>runtime/notify.py\<close>.\<close>

definition notify_reconnect_base_delay :: rat where "notify_reconnect_base_delay = 1 / 2"
definition notify_reconnect_max_delay :: rat where "notify_reconnect_max_delay = 5"

definition reconnect_delay :: "nat \<Rightarrow> error + rat" where
  "reconnect_delay failures =
     and_then (scaled notify_reconnect_base_delay (failures - 1)) (\<lambda>delay. Inr (min delay notify_reconnect_max_delay))"

section \<open>The state of a supervisor\<close>

record pending_replacement =
  pr_not_before :: rat
  pr_old_pid :: int
  pr_spec :: runner_definition
  pr_status :: int

record supervisor_state =
  monotonic_readings :: "rat stream"
  last_housekeeping_at :: "rat option"
  restart_failures :: "(string \<times> nat) list"
  children :: "(int \<times> runner_definition) list"
  child_started_at :: "(int \<times> rat) list"
  pending_replacements :: "pending_replacement list"

definition monotonic :: "(supervisor_state runner \<times> db, rat) pass" where
  "monotonic s =
     (let st = r_more (fst s)
      in (Inr (shd (monotonic_readings st)),
          ((fst s)\<lparr>r_more := st\<lparr>monotonic_readings := stl (monotonic_readings st)\<rparr>\<rparr>, snd s)))"

definition note_state :: "(supervisor_state \<Rightarrow> supervisor_state) \<Rightarrow> (supervisor_state runner \<times> db, unit) pass" where
  "note_state f = note_that (\<lambda>r. r\<lparr>r_more := f (r_more r)\<rparr>)"

section \<open>Housekeeping\<close>

definition recovery_batch_size :: int where "recovery_batch_size = 500"

definition housekeeping_interval :: "full_config \<Rightarrow> rat" where
  "housekeeping_interval c =
     (let heartbeat = float_value (process_heartbeat_interval c); threshold = float_value (process_alive_threshold c)
      in if 0 < heartbeat then max (min threshold (max heartbeat 1)) 1 else max (min threshold 60) 1)"

definition housekeeping_due :: "full_config \<Rightarrow> (supervisor_state runner \<times> db, bool) pass" where
  "housekeeping_due c s =
     (case last_housekeeping_at (r_more (fst s)) of
        None \<Rightarrow> (Inr True, s)
      | Some t \<Rightarrow> followed monotonic (\<lambda>now. answer (housekeeping_interval c \<le> now - t)) s)"

definition fail_orphaned_jobs :: "session \<Rightarrow> full_config \<Rightarrow> int \<Rightarrow> ('r \<times> db, job list) pass" where
  "fail_orphaned_jobs ss c n =
     transact (fail_orphaned_claimed_jobs ss (backend_config.truncate c)
       \<lparr>ei_class = ''dj_queue.exceptions.ProcessMissingError'', ei_message = ''process no longer registered'',
         ei_traceback = ''process no longer registered''\<rparr> n)"

text \<open>\<open>timedelta(seconds=threshold)\<close>: microseconds, ties to even.\<close>

definition timedelta_seconds :: "pyfloat \<Rightarrow> time" where
  "timedelta_seconds f = (case f of
      Finite m e \<Rightarrow> if 0 \<le> e then m * 2 ^ nat e * 1000000 else round_ratio (m * 1000000) (2 ^ nat (- e))
    | _ \<Rightarrow> 0)"

definition prune_stale_process_rows ::
  "session \<Rightarrow> full_config \<Rightarrow> time option \<Rightarrow> int \<Rightarrow> ('m runner \<times> db, process list) pass" where
  "prune_stale_process_rows ss c now n =
     followed (case now of None \<Rightarrow> read_clock | Some t \<Rightarrow> answer t) (\<lambda>now s.
       transact (prune_stale_processes ss (backend_config.truncate c) (now - timedelta_seconds (process_alive_threshold c))
         \<lparr>ei_class = ''dj_queue.exceptions.ProcessPrunedError'', ei_message = ''process heartbeat expired'',
           ei_traceback = ''process heartbeat expired''\<rparr> (map_option proc_id (r_process (fst s))) n) s)"

text \<open>\<open>Supervisor.poll_once\<close>: an exception of the housekeeping is handled and the next one is due later as usual.\<close>

definition supervisor_poll :: "session \<Rightarrow> full_config \<Rightarrow> (supervisor_state runner \<times> db, process list) pass" where
  "supervisor_poll ss c =
     followed (housekeeping_due c) (\<lambda>due s.
       if \<not> due then (Inr [], s)
       else
         case followed (fail_orphaned_jobs ss c recovery_batch_size) (\<lambda>failed.
           let remaining = recovery_batch_size - int (length failed)
           in if 0 < remaining then prune_stale_process_rows ss c None remaining else answer []) s of
           (r, s) \<Rightarrow> followed monotonic (\<lambda>now. followed (note_state (\<lambda>st. st\<lparr>last_housekeeping_at := Some now\<rparr>)) (\<lambda>_.
             answer (case r of Inl _ \<Rightarrow> [] | Inr pruned \<Rightarrow> pruned))) s)"

section \<open>Restarting runners\<close>

fun dict_put :: "'k \<Rightarrow> 'v \<Rightarrow> ('k \<times> 'v) list \<Rightarrow> ('k \<times> 'v) list" where
  "dict_put k v [] = [(k, v)]"
| "dict_put k v ((k', v') # ps) = (if k' = k then (k, v) # ps else (k', v') # dict_put k v ps)"

definition dict_drop :: "'k \<Rightarrow> ('k \<times> 'v) list \<Rightarrow> ('k \<times> 'v) list" where
  "dict_drop k ps = filter (\<lambda>(k', v). k' \<noteq> k) ps"

definition count_failure :: "string \<Rightarrow> (supervisor_state runner \<times> db, rat) pass" where
  "count_failure name s =
     (let failures = (case map_of (restart_failures (r_more (fst s))) name of None \<Rightarrow> 0 | Some n \<Rightarrow> n) + 1
      in followed (note_state (\<lambda>st. st\<lparr>restart_failures := dict_put name failures (restart_failures st)\<rparr>)) (\<lambda>_ s.
        if failures \<le> 1 then (Inr 0, s)
        else (and_then (scaled restart_backoff_base_delay (failures - 2)) (\<lambda>delay. Inr (min delay restart_backoff_max_delay)), s)) s)"

definition restart_backoff_delay :: "string \<Rightarrow> rat option \<Rightarrow> (supervisor_state runner \<times> db, rat) pass" where
  "restart_backoff_delay name started_at =
     (case started_at of
        None \<Rightarrow> count_failure name
      | Some t \<Rightarrow> followed monotonic (\<lambda>now.
          if restart_backoff_reset_after \<le> now - t
          then followed (note_state (\<lambda>st. st\<lparr>restart_failures := dict_drop name (restart_failures st)\<rparr>)) (\<lambda>_. answer 0)
          else count_failure name))"

section \<open>Child processes\<close>

text \<open>\<open>os.WIFEXITED\<close> and its relatives on a wait status.\<close>

definition wifexited :: "int \<Rightarrow> bool" where "wifexited wstatus \<longleftrightarrow> wstatus AND 127 = 0"
definition wexitstatus :: "int \<Rightarrow> int" where "wexitstatus wstatus = drop_bit 8 wstatus AND 255"
definition wtermsig :: "int \<Rightarrow> int" where "wtermsig wstatus = wstatus AND 127"
definition wifsignaled :: "int \<Rightarrow> bool" where "wifsignaled wstatus \<longleftrightarrow> wtermsig wstatus \<noteq> 0 \<and> wtermsig wstatus \<noteq> 127"

definition child_exit_message :: "int option \<Rightarrow> string" where
  "child_exit_message wstatus =
     (case wstatus of
        None \<Rightarrow> ''child process exited''
      | Some s \<Rightarrow>
          if wifexited s then ''child process exited with status '' @ str_int (wexitstatus s)
          else if wifsignaled s then ''child process exited from signal '' @ str_int (wtermsig s)
          else ''child process exited with wait status '' @ str_int s)"

definition fail_jobs_for_child ::
  "session \<Rightarrow> full_config \<Rightarrow> int \<Rightarrow> runner_definition \<Rightarrow> int option \<Rightarrow> ('m runner \<times> db, job list) pass" where
  "fail_jobs_for_child ss c pid spec wstatus s =
     (let message = child_exit_message wstatus
      in transact (fail_claimed_jobs_for_child ss (backend_config.truncate c) pid (rd_name spec)
           (map_option proc_id (r_process (fst s))) (process_exit_error message message)) s)"

text \<open>\<open>_launch_child\<close>; \<open>forked\<close> is the result of the launcher.\<close>

definition launch_child :: "error + int \<Rightarrow> runner_definition \<Rightarrow> (supervisor_state runner \<times> db, int) pass" where
  "launch_child forked spec s =
     (case forked of
        Inl e \<Rightarrow> (Inl e, s)
      | Inr pid \<Rightarrow>
          followed (note_state (\<lambda>st. st\<lparr>children := dict_put pid spec (children st)\<rparr>)) (\<lambda>_.
          followed monotonic (\<lambda>now.
          followed (note_state (\<lambda>st. st\<lparr>child_started_at := dict_put pid now (child_started_at st)\<rparr>)) (\<lambda>_. answer pid))) s)"

definition replace_child ::
  "error + int \<Rightarrow> runner_definition \<Rightarrow> int \<Rightarrow> int \<Rightarrow> rat option \<Rightarrow> (supervisor_state runner \<times> db, int option) pass" where
  "replace_child forked spec old_pid wstatus started_at =
     followed (restart_backoff_delay (rd_name spec) started_at) (\<lambda>delay.
       if delay \<noteq> 0 then
         followed monotonic (\<lambda>now. followed (note_state (\<lambda>st. st\<lparr>pending_replacements := pending_replacements st @
           [\<lparr>pr_not_before = now + delay, pr_old_pid = old_pid, pr_spec = spec, pr_status = wstatus\<rparr>]\<rparr>)) (\<lambda>_. answer None))
       else followed (launch_child forked spec) (\<lambda>pid. answer (Some pid)))"

text \<open>The first pending replacement that is due leaves the list and is launched.\<close>

fun take_due :: "rat \<Rightarrow> pending_replacement list \<Rightarrow> (pending_replacement \<times> pending_replacement list) option" where
  "take_due now [] = None"
| "take_due now (p # ps) =
     (if now < pr_not_before p then map_option (\<lambda>(q, qs). (q, p # qs)) (take_due now ps) else Some (p, ps))"

definition start_due_child_replacement :: "error + int \<Rightarrow> (supervisor_state runner \<times> db, int option) pass" where
  "start_due_child_replacement forked =
     followed monotonic (\<lambda>now s.
       case take_due now (pending_replacements (r_more (fst s))) of
         None \<Rightarrow> (Inr None, s)
       | Some (p, ps) \<Rightarrow>
           followed (note_state (\<lambda>st. st\<lparr>pending_replacements := ps\<rparr>)) (\<lambda>_.
           followed (launch_child forked (pr_spec p)) (\<lambda>pid. answer (Some pid))) s)"

text \<open>\<open>waitpid\<close> raises \<open>ChildProcessError\<close> (\<open>None\<close>), finds no child that ended (pid 0), or a pid with its status.\<close>

definition check_children ::
  "session \<Rightarrow> full_config \<Rightarrow> (int \<times> int) option \<Rightarrow> error + int \<Rightarrow> (supervisor_state runner \<times> db, int option) pass" where
  "check_children ss c waited forked =
     followed (start_due_child_replacement forked) (\<lambda>replacement s.
       if replacement \<noteq> None then (Inr replacement, s)
       else if children (r_more (fst s)) = [] then (Inr None, s)
       else case waited of
         None \<Rightarrow> (Inr None, s)
       | Some (pid, wstatus) \<Rightarrow>
           if pid = 0 then (Inr None, s)
           else
             let st = r_more (fst s); spec = map_of (children st) pid; started_at = map_of (child_started_at st) pid
             in followed (note_state (\<lambda>st. st\<lparr>children := dict_drop pid (children st),
                    child_started_at := dict_drop pid (child_started_at st)\<rparr>)) (\<lambda>_ s.
                  case spec of
                    None \<Rightarrow> (Inr None, s)
                  | Some sp \<Rightarrow> followed (fail_jobs_for_child ss c pid sp (Some wstatus)) (\<lambda>_.
                      replace_child forked sp pid wstatus started_at) s) s)"

definition start_children :: "(runner_definition \<Rightarrow> error + int) \<Rightarrow> full_config \<Rightarrow> (supervisor_state runner \<times> db, unit) pass" where
  "start_children forked c s =
     (if children (r_more (fst s)) \<noteq> [] then (Inr (), s)
      else fold (\<lambda>spec f. followed f (\<lambda>_. followed (launch_child (forked spec) spec) (\<lambda>_. answer ())))
        (runner_definitions c) (answer ()) s)"

definition fork_supervisor_poll ::
  "session \<Rightarrow> full_config \<Rightarrow> (int \<times> int) option \<Rightarrow> error + int \<Rightarrow> (supervisor_state runner \<times> db, int option) pass" where
  "fork_supervisor_poll ss c waited forked = followed (supervisor_poll ss c) (\<lambda>_. check_children ss c waited forked)"

text \<open>\<open>_wait_for_children\<close>: one result of \<open>waitpid\<close> per round, until the deadline.\<close>

fun fail_children ::
  "session \<Rightarrow> full_config \<Rightarrow> (int \<times> runner_definition) list \<Rightarrow> (supervisor_state runner \<times> db, unit) pass" where
  "fail_children ss c [] s = (Inr (), s)"
| "fail_children ss c ((pid, spec) # cs) s =
     followed (fail_jobs_for_child ss c pid spec None) (\<lambda>_. fail_children ss c cs) s"

fun wait_for_children ::
  "session \<Rightarrow> full_config \<Rightarrow> (int \<times> int) option list \<Rightarrow> (supervisor_state runner \<times> db, unit) pass" where
  "wait_for_children ss c [] s = (Inr (), s)"
| "wait_for_children ss c (waited # rest) s =
     (if children (r_more (fst s)) = [] then (Inr (), s)
      else case waited of
        None \<Rightarrow> followed (fail_children ss c (children (r_more (fst s)))) (\<lambda>_.
          note_state (\<lambda>st. st\<lparr>children := [], child_started_at := []\<rparr>)) s
      | Some (pid, wstatus) \<Rightarrow>
          if pid = 0 then wait_for_children ss c rest s
          else
            let spec = map_of (children (r_more (fst s))) pid
            in followed (note_state (\<lambda>st. st\<lparr>children := dict_drop pid (children st),
                   child_started_at := dict_drop pid (child_started_at st)\<rparr>)) (\<lambda>_.
                 followed (case spec of None \<Rightarrow> answer [] | Some sp \<Rightarrow> fail_jobs_for_child ss c pid sp (Some wstatus)) (\<lambda>_.
                   wait_for_children ss c rest)) s)"

text \<open>\<open>ForkSupervisor.stop\<close>: the children that are left after the deadline are killed one by one.\<close>

fun kill_children ::
  "session \<Rightarrow> full_config \<Rightarrow> (int \<times> runner_definition) list \<Rightarrow> (supervisor_state runner \<times> db, unit) pass" where
  "kill_children ss c [] s = (Inr (), s)"
| "kill_children ss c ((pid, spec) # cs) s =
     followed (fail_jobs_for_child ss c pid spec None) (\<lambda>_.
     followed (note_state (\<lambda>st. st\<lparr>children := dict_drop pid (children st),
       child_started_at := dict_drop pid (child_started_at st)\<rparr>)) (\<lambda>_. kill_children ss c cs)) s"

definition fork_supervisor_stop ::
  "session \<Rightarrow> full_config \<Rightarrow> (int \<times> int) option list \<Rightarrow> (supervisor_state runner \<times> db, unit) pass" where
  "fork_supervisor_stop ss c waited =
     followed (wait_for_children ss c waited) (\<lambda>_ s.
     followed (kill_children ss c (children (r_more (fst s)))) (\<lambda>_.
     followed (note_state (\<lambda>st. st\<lparr>pending_replacements := []\<rparr>)) (\<lambda>_ s. (Inr (), stop_runner s))) s)"

text \<open>\<open>Supervisor.start\<close>: with the pid file taken (\<open>locked_pidfile\<close> is the result of that), the process is registered and
  orphaned claims are failed; an exception stops the supervisor again.\<close>

definition supervisor_start :: "session \<Rightarrow> full_config \<Rightarrow> error + unit \<Rightarrow> (supervisor_state runner \<times> db, process) pass" where
  "supervisor_start ss c locked_pidfile s =
     (case followed (\<lambda>s. (locked_pidfile, s)) (\<lambda>_. followed (start_process c) (\<lambda>p.
         followed (fail_orphaned_jobs ss c recovery_batch_size) (\<lambda>_. answer p))) s of
        (Inl e, t) \<Rightarrow> (Inl e, stop_runner t)
      | (Inr p, t) \<Rightarrow> (Inr p, t))"

text \<open>\<open>ForkSupervisor.start\<close>, without the signal handlers and the heartbeat thread.\<close>

definition fork_supervisor_start ::
  "session \<Rightarrow> full_config \<Rightarrow> error + unit \<Rightarrow> (runner_definition \<Rightarrow> error + int) \<Rightarrow> (int \<times> int) option list
     \<Rightarrow> (supervisor_state runner \<times> db, process) pass" where
  "fork_supervisor_start ss c locked_pidfile forked waited =
     followed (supervisor_start ss c locked_pidfile) (\<lambda>p s.
       case start_children forked c s of
         (Inl e, t) \<Rightarrow> (Inl e, snd (fork_supervisor_stop ss c waited t))
       | (Inr _, t) \<Rightarrow> (Inr p, t))"

end
