(* ===== verification/Runner_Facts.thy ===== *)
theory Runner_Facts
  imports Supervisors Outcomes
begin

text \<open>
  What a pass of a runner does to the queue: it is a sequence of the transactions of \<open>Lifecycle\<close>, also when it is
  interrupted by an exception, so that the guarantees for reachable states hold after every pass.
\<close>

section \<open>Passes as steps\<close>

named_theorems stepping "passes that are sequences of steps"

definition steps_only :: "(string \<Rightarrow> int) \<Rightarrow> ('r \<times> db, 'a) pass \<Rightarrow> bool" where
  "steps_only L f \<longleftrightarrow> (\<forall>s. (step L)\<^sup>*\<^sup>* (snd s) (snd (snd (f s))))"

lemma steps_onlyD: "steps_only L f \<Longrightarrow> f s = (x, t) \<Longrightarrow> (step L)\<^sup>*\<^sup>* (snd s) (snd t)"
  by (metis steps_only_def snd_conv)

lemma steps_answer [stepping]: "steps_only L (answer x)"
  by (simp add: steps_only_def answer_def)

lemma steps_followed [stepping]:
  assumes "steps_only L f" and "\<And>x. steps_only L (g x)"
  shows "steps_only L (followed f g)"
proof (unfold steps_only_def, intro allI)
  fix s
  obtain x t where f: "f s = (x, t)" by (metis surj_pair)
  have "(step L)\<^sup>*\<^sup>* (snd s) (snd t)" using steps_onlyD [OF assms(1) f] .
  moreover have "(step L)\<^sup>*\<^sup>* (snd t) (snd (snd (g y t)))" for y
    using assms(2) unfolding steps_only_def by blast
  ultimately show "(step L)\<^sup>*\<^sup>* (snd s) (snd (snd (followed f g s)))"
    using f by (auto simp: followed_def split: sum.split intro: rtranclp_trans)
qed

lemma steps_note [stepping]: "steps_only L (note_that f)"
  by (simp add: steps_only_def note_that_def)

lemma steps_clock [stepping]: "steps_only L read_clock"
  by (auto simp: steps_only_def read_clock_def timezone_now_def intro: step.tick)

lemma steps_branch [stepping]:
  "steps_only L f \<Longrightarrow> steps_only L g \<Longrightarrow> steps_only L (if b then f else g)"
  "steps_only L f \<Longrightarrow> (\<And>x. steps_only L (h x)) \<Longrightarrow> steps_only L (case v of None \<Rightarrow> f | Some x \<Rightarrow> h x)"
  by (auto split: option.split)

text \<open>A pass that looks at the state to decide what to do.\<close>

lemma steps_state: "(\<And>s. steps_only L (f s)) \<Longrightarrow> steps_only L (\<lambda>s. f s s)"
  by (simp add: steps_only_def)

text \<open>A transaction of an operation that needs no care of its caller.\<close>

lemma steps_transact:
  assumes "\<And>d. lawful L x d" and "\<And>d. run_operation x d = after (f d)"
  shows "steps_only L (transact f)"
proof (unfold steps_only_def, intro allI)
  fix s
  show "(step L)\<^sup>*\<^sup>* (snd s) (snd (snd (transact f s)))"
  proof (cases "f (snd s)")
    case (Inr y)
    then have "run_operation x (snd s) = Inr (snd y)" by (simp add: assms(2) after_def split_def)
    then have "step L (snd s) (snd y)" by (rule step.commit [OF assms(1)])
    with Inr show ?thesis by (cases y) (auto simp: transact_def)
  qed (simp add: transact_def)
qed

lemma steps_register_process [stepping]: "steps_only L (transact (register_process cfg kind pid host name md sv))"
  by (rule steps_transact [of L "Register_process cfg kind pid host name md sv"]) simp_all

lemma steps_promote_scheduled [stepping]: "steps_only L (transact (promote_scheduled_jobs ss cfg n))"
  by (rule steps_transact [of L "Promote_scheduled ss cfg n"]) simp_all

lemma steps_promote_retries [stepping]: "steps_only L (transact (promote_failed_job_retries ss cfg n))"
  by (rule steps_transact [of L "Promote_retries ss cfg n"]) simp_all

lemma steps_cleanup_semaphores [stepping]: "steps_only L (transact (cleanup_expired_semaphores ss cfg v))"
  by (rule steps_transact [of L "Cleanup_semaphores ss cfg v"]) simp_all

lemma steps_promote_blocked [stepping]: "steps_only L (transact (promote_expired_blocked_jobs ss cfg n))"
  by (rule steps_transact [of L "Promote_blocked ss cfg n"]) simp_all

lemma steps_claim [stepping]: "steps_only L (transact (claim_ready_jobs ss cfg n qs p))"
  by (rule steps_transact [of L "Claim ss cfg n qs p"]) simp_all

lemma steps_clear_finished [stepping]: "steps_only L (transact (clear_finished_jobs ss cfg older path n now))"
  by (rule steps_transact [of L "Clear_finished ss cfg older path n now"]) simp_all

lemma steps_clear_failed [stepping]: "steps_only L (transact (clear_failed_jobs ss cfg older path n now))"
  by (rule steps_transact [of L "Clear_failed ss cfg older path n now"]) simp_all

lemma steps_clear_recurring [stepping]: "steps_only L (transact (clear_recurring_executions ss cfg older path n now))"
  by (rule steps_transact [of L "Clear_recurring ss cfg older path n now"]) simp_all

lemma steps_fail_orphaned [stepping]: "steps_only L (transact (fail_orphaned_claimed_jobs ss cfg err n))"
  by (rule steps_transact [of L "Fail_orphaned ss cfg err n"]) simp_all

lemma steps_prune_processes [stepping]: "steps_only L (transact (prune_stale_processes ss cfg cutoff err ex n))"
  by (rule steps_transact [of L "Prune_processes ss cfg cutoff err ex n"]) simp_all

lemma steps_fail_for_child [stepping]: "steps_only L (transact (fail_claimed_jobs_for_child ss cfg cpid name sv err))"
  by (rule steps_transact [of L "Fail_for_child ss cfg cpid name sv err"]) simp_all

lemma steps_upsert [stepping]: "steps_only L (sync_static_tasks cr ss c)"
  unfolding sync_static_tasks_def
  by (rule steps_transact [of L "Upsert_static cr ss (backend_config.truncate c) (recurring c)"])
    (auto simp: after_def and_then_def split: sum.split)

section \<open>The passes of dispatchers and schedulers\<close>

lemma steps_at: "steps_only L f \<Longrightarrow> (step L)\<^sup>*\<^sup>* (snd s) (snd (snd (f s)))"
  unfolding steps_only_def by blast

lemma steps_onlyI: "(\<And>s. (step L)\<^sup>*\<^sup>* (snd s) (snd (snd (f s)))) \<Longrightarrow> steps_only L f"
  by (simp add: steps_only_def)

lemma steps_start [stepping]: "steps_only L (start_process c)"
proof (rule steps_onlyI)
  fix s :: "'m runner \<times> db"
  define r where "r = fst s"
  have "start_process c s = (case r_process r of Some p \<Rightarrow> answer p s | None \<Rightarrow>
      followed (transact (register_process (backend_config.truncate c) (r_kind r) (r_pid r) (r_hostname r) (r_name r)
        (r_metadata r) (r_supervisor r)))
      (\<lambda>p. followed (note_that (\<lambda>r. r\<lparr>r_process := Some p, r_started := True\<rparr>)) (\<lambda>_. answer p)) s)"
    by (simp add: start_process_def r_def answer_def Let_def split: option.split)
  then show "(step L)\<^sup>*\<^sup>* (snd s) (snd (snd (start_process c s)))"
    by (cases "r_process r") (auto simp del: split_paired_All intro!: steps_at stepping)
qed

lemma steps_maintenance_due [stepping]: "steps_only L (maintenance_due dc)"
  by (rule steps_onlyI) (auto simp: maintenance_due_def split: option.split intro!: steps_at stepping)

lemma dispatcher_poll_steps: "steps_only L (dispatcher_poll ss c dc)"
  unfolding dispatcher_poll_def Let_def by (intro stepping)

lemma steps_ensure_synced [stepping]: "steps_only L (ensure_static_tasks_synced cr ss c)"
  by (rule steps_onlyI) (auto simp: ensure_static_tasks_synced_def intro!: steps_at stepping)

lemma steps_run_cleanup [stepping]: "steps_only L (run_cleanup ss c now)"
  unfolding run_cleanup_def clear_when_def Let_def by (intro stepping)

text \<open>Recurring tasks whose calls declare the limits of their keys.\<close>

definition limits_declared :: "(string \<Rightarrow> int) \<Rightarrow> session \<Rightarrow> backend_config \<Rightarrow> task_using \<Rightarrow> bool" where
  "limits_declared L ss cfg us \<longleftrightarrow> (\<forall>rs t args kwargs. reserved_call ss cfg us rs = Inr (t, args, kwargs)
     \<longrightarrow> call_limit_ok L cfg t args kwargs)"

lemma fire_once_steps:
  assumes "limits_declared L ss cfg us" and "fire_once cr ss cfg us r t s = (x, e)"
  shows "(step L)\<^sup>*\<^sup>* (snd s) e"
proof -
  obtain f d where s: "s = (f, d)" by (cases s)
  obtain y c where fire: "fire_recurring_task cr ss cfg us (rt_id r) t (shd (fs_ids f), shd (stl (fs_ids f))) d = (y, c)" by force
  have "(step L)\<^sup>*\<^sup>* d c"
    by (rule fire_steps [OF fire]) (use assms(1) in \<open>auto simp: limits_declared_def split: sum.split\<close>)
  moreover have "c = e" using assms(2) s fire by (auto simp: fire_once_def Let_def split: sum.splits)
  ultimately show ?thesis by (simp add: s)
qed

lemma fire_pending_steps:
  assumes "limits_declared L ss cfg us"
  shows "fire_pending cr ss cfg us r xs s = (x, e) \<Longrightarrow> (step L)\<^sup>*\<^sup>* (snd s) e"
proof (induction xs arbitrary: s)
  case (Cons y ys)
  obtain z c where one: "fire_once cr ss cfg us r (rx_run_at y) s = (z, c)" by force
  note first = fire_once_steps [OF assms one]
  show ?case
  proof (cases z)
    case (Inr f)
    show ?thesis
    proof (cases "fs_done f")
      case False
      with Cons.prems one Inr have "fire_pending cr ss cfg us r ys (f, c) = (x, e)" by simp
      from Cons.IH [OF this] first show ?thesis by (auto intro: rtranclp_trans)
    qed (use Cons.prems one Inr first in simp)
  qed (use Cons.prems one first in simp)
qed simp

lemma fire_task_steps:
  assumes "limits_declared L ss cfg us" and "fire_task cr ss cfg us now pending r s = (x, e)"
  shows "(step L)\<^sup>*\<^sup>* (snd s) e"
proof -
  obtain z c where p: "fire_pending cr ss cfg us r (filter (\<lambda>x. rx_task_key x = rt_key r) pending) s = (z, c)" by force
  note first = fire_pending_steps [OF assms(1) p]
  have "e = c \<or> (\<exists>f t. fire_once cr ss cfg us r t (f, c) = (x, e))"
    using assms(2) p by (auto simp: fire_task_def split: sum.splits if_splits option.splits)
  with first fire_once_steps [OF assms(1)] show ?thesis by (fastforce intro: rtranclp_trans)
qed

lemma fire_tasks_steps:
  assumes "limits_declared L ss cfg us"
  shows "fire_tasks cr ss cfg us now pending rs s = (x, e) \<Longrightarrow> (step L)\<^sup>*\<^sup>* (snd s) e"
proof (induction rs arbitrary: s)
  case (Cons r rs)
  obtain z c where one: "fire_task cr ss cfg us now pending r s = (z, c)" by force
  note first = fire_task_steps [OF assms one]
  have "e = c \<or> (\<exists>f. fire_tasks cr ss cfg us now pending rs (f, c) = (x, e))"
    using Cons.prems one by (auto split: sum.splits if_splits)
  with first Cons.IH show ?case by (fastforce intro: rtranclp_trans)
qed simp

lemma fire_due_steps:
  assumes "limits_declared L ss cfg us"
  shows "steps_only L (transacts (fire_due_recurring_tasks cr ss cfg us now dyn B ids))"
proof (rule steps_onlyI)
  fix s :: "'r \<times> db"
  obtain x e where e: "fire_due_recurring_tasks cr ss cfg us now dyn B ids (snd s) = (x, e)" by force
  have "(step L)\<^sup>*\<^sup>* (snd s) e"
  proof (cases "due_tasks ss cfg now dyn B (snd s) = []")
    case False
    then obtain y where "fire_tasks cr ss cfg us now (pending_executions cfg (due_tasks ss cfg now dyn B (snd s)) B (snd s))
        (due_tasks ss cfg now dyn B (snd s)) (\<lparr>fs_fired = [], fs_remaining = B, fs_ids = ids, fs_done = False\<rparr>, snd s) = (y, e)"
      using e by (auto simp: fire_due_recurring_tasks_def Let_def split: prod.splits sum.splits)
    from fire_tasks_steps [OF assms this] show ?thesis by simp
  qed (use e in \<open>simp add: fire_due_recurring_tasks_def\<close>)
  with e show "(step L)\<^sup>*\<^sup>* (snd s) (snd (snd (transacts (fire_due_recurring_tasks cr ss cfg us now dyn B ids) s)))"
    by (simp add: transacts_def)
qed

lemma scheduler_poll_steps:
  assumes "limits_declared L ss (backend_config.truncate c) us"
  shows "steps_only L (scheduler_poll cr ss c sc us now ids)"
proof -
  have start: "steps_only L (\<lambda>s. if r_process (fst s) = None then followed (scheduler_start cr ss c) (\<lambda>_. answer ()) s
      else followed (ensure_static_tasks_synced cr ss c) (\<lambda>_. answer ()) s)"
    by (rule steps_onlyI) (auto simp: scheduler_start_def intro!: steps_at stepping)
  have cleanup: "steps_only L (\<lambda>s. if cleanup_due c t (r_more (fst s))
      then followed (run_cleanup ss c t) (\<lambda>_.
          followed (note_that (\<lambda>r. r\<lparr>r_more := (r_more r)\<lparr>last_cleanup_at := Some t\<rparr>\<rparr>)) (\<lambda>_. answer fired)) s
      else (Inr fired, s))" for t fired
    by (rule steps_onlyI) (auto intro!: steps_at stepping)
  show ?thesis unfolding scheduler_poll_def Let_def
    by (intro stepping start cleanup fire_due_steps [OF assms])
qed

end
