(* ===== verification/Worker_Facts.thy ===== *)
theory Worker_Facts
  imports Runner_Facts Claim_Outcomes
begin

text \<open>
  The worker: a pass is a sequence of steps of the queue, it never holds more jobs than its threads and its
  prefetch multiplier allow, and a job that ends is completed or failed by a lawful operation.
\<close>

section \<open>Claims leave the jobs alone\<close>

lemma consume_one_jobs: "consume_one_by_one m pk rs d = (rs', e) \<Longrightarrow> jobs e = jobs d"
proof (induction rs arbitrary: d rs' e)
  case (Cons r rs)
  then show ?case by (auto simp: Let_def split: prod.splits if_splits)
qed simp

lemma consume_selected_jobs: "consume_selected_rows ss m pk rs d = (rs', e) \<Longrightarrow> jobs e = jobs d"
  by (auto simp: consume_selected_rows_def consume_ready_rows_def split: if_splits dest: consume_one_jobs)

lemma for_each_jobs:
  assumes "\<And>x d e. f x d = Inr e \<Longrightarrow> jobs e = jobs d"
  shows "for_each f xs d = Inr e \<Longrightarrow> jobs e = jobs d"
proof (induction xs arbitrary: d)
  case (Cons x xs)
  then obtain c where "f x d = Inr c" "for_each f xs c = Inr e" by auto
  with Cons.IH assms show ?case by metis
qed simp

lemma claim_keeps_jobs:
  assumes "claim_ready_jobs ss cfg n queues p d = Inr (js, e)"
  shows "jobs e = jobs d"
proof -
  have created: "for_each (\<lambda>i. insert_claimed (claimed_row i q t)) xs c = Inr b \<Longrightarrow> jobs b = jobs c"
    "create_claimed_executions ys q t c = Inr b \<Longrightarrow> jobs b = jobs c" for q t xs ys b c
    unfolding create_claimed_executions_def
    by (erule for_each_jobs [rotated], erule insert_claimed_jobs create_claimed_jobs)+
  show ?thesis
    using assms
    by (auto simp: claim_ready_jobs_def claim_ready_jobs_once_def Let_def timezone_now_def
        consume_ready_and_create_claimed_executions_def split: if_splits prod.splits
        dest!: created consume_selected_jobs)
qed

lemma current_job_jobs:
  assumes "jobs e = jobs d"
  shows "current_job L e j = current_job L d j"
  using key_of_jobs_cong [OF assms] assms by (simp add: current_job_def job_ids_def)

lemma claimed_current:
  assumes "committed L d" and "claim_ready_jobs ss cfg n queues p d = Inr (js, e)" and "cj \<in> set js"
  shows "current_job L e (cj_job cj)"
proof -
  note inv = assms(1) [unfolded committed_def]
  obtain rows0 rows where rows: "select_ready_rows ss cfg n queues (ready_queryset cfg d) d = Inr rows0"
      "set rows \<subseteq> set rows0" "map cj_job js = map snd rows"
    using claim_rows [OF inv assms(2)] assms(3) by (metis empty_iff list.set(1))
  from assms(3) have "cj_job cj \<in> snd ` set rows" by (metis image_eqI rows(3) set_map)
  then obtain x where "x \<in> set rows0" "cj_job cj = snd x" using rows(2) by auto
  with select_ready_rows_selection [OF inv rows(1)] have "find_job d (re_job (fst x)) = Some (cj_job cj)"
    by (auto simp: selection_def)
  from current_stored [OF inv this] show ?thesis by (simp add: current_job_jobs [OF claim_keeps_jobs [OF assms(2)]])
qed

section \<open>Submitting\<close>

lemma fail_keeps_jobs: "fail_claimed_job ss cfg a err task d = Inr (j, e) \<Longrightarrow> jobs e = jobs d"
  by (auto simp: fail_claimed_job_def fail_transition_def delete_claimed_execution_def create_failed_def insert_failed_def
      timezone_now_def Let_def aside_def split: if_splits dest!: release_aside)

lemma fail_after_error:
  assumes "fail_after_worker_error ss c err cj s = t" and "current_job L (snd s) (cj_job cj)"
  shows "(step L)\<^sup>*\<^sup>* (snd s) (snd t) \<and> jobs (snd t) = jobs (snd s) \<and> fst t = fst s"
proof (cases "fail_claimed_job ss (backend_config.truncate c) (ClaimedObject cj) err None (snd s)")
  case (Inr y)
  have "run_operation (Fail ss (backend_config.truncate c) (ClaimedObject cj) err None) (snd s) = Inr (snd y)"
    using Inr by (simp add: after_def split_def)
  then have "step L (snd s) (snd y)" by (rule step.commit [rotated]) (simp add: current_argument_def assms(2))
  with Inr assms(1) show ?thesis
    by (auto simp: fail_after_worker_error_def split: prod.splits dest: fail_keeps_jobs)
qed (use assms(1) in \<open>auto simp: fail_after_worker_error_def\<close>)

text \<open>Handling a refused job costs the pool nothing.\<close>

lemma handle_submit_error_effect:
  assumes "handle_submit_error ss c trace cj s = t" and "current_job L (snd s) (cj_job cj)"
  shows "(step L)\<^sup>*\<^sup>* (snd s) (snd t) \<and> jobs (snd t) = jobs (snd s) \<and> fst t = request_stop (fst s)"
  using fail_after_error [OF refl assms(2), of ss c "process_exit_error ''worker stopped before job submission'' trace"] assms(1)
  by (auto simp: handle_submit_error_def split: prod.splits)

lemma submit_jobs_steps:
  assumes "submit_jobs ss c trace accepts i cjs submitted s = (x, t)"
    and "\<forall>cj\<in>set cjs. current_job L (snd s) (cj_job cj)"
  shows "(step L)\<^sup>*\<^sup>* (snd s) (snd t)"
  using assms
proof (induction cjs arbitrary: i submitted s)
  case (Cons cj cjs)
  obtain ok p where p: "pool_submit (accepts i) (r_more (fst s)) = (ok, p)" by force
  let ?s = "((fst s)\<lparr>r_more := p\<rparr>, snd s)"
  show ?case
  proof (cases ok)
    case True
    with Cons.prems p have "submit_jobs ss c trace accepts (Suc i) cjs (submitted @ [cj]) ?s = (x, t)" by (simp add: Let_def)
    from Cons.IH [OF this] Cons.prems(2) show ?thesis by simp
  next
    case False
    let ?h = "handle_submit_error ss c trace cj ?s"
    have next_pass: "submit_jobs ss c trace accepts (Suc i) cjs submitted ?h = (x, t)" using False Cons.prems(1) p by (simp add: Let_def)
    note h = handle_submit_error_effect [OF refl, of L ?s cj ss c trace]
    have cur: "current_job L (snd ?s) (cj_job cj)" using Cons.prems(2) by simp
    note same = conjunct1 [OF conjunct2 [OF h [OF cur]], THEN current_job_jobs, of L]
    have "\<forall>cj\<in>set cjs. current_job L (snd ?h) (cj_job cj)" unfolding same using Cons.prems(2) by simp
    from Cons.IH [OF next_pass this] have "(step L)\<^sup>*\<^sup>* (snd ?h) (snd t)" .
    with h [OF cur] show ?thesis by (auto intro: rtranclp_trans)
  qed
qed simp

lemma submit_jobs_counts:
  assumes "submit_jobs ss c trace accepts i cjs submitted s = (x, t)"
  shows "\<exists>js. x = Inr (submitted @ js) \<and> set js \<subseteq> set cjs \<and> length js \<le> length cjs
    \<and> in_flight (r_more (fst t)) = in_flight (r_more (fst s)) + int (length js)"
  using assms
proof (induction cjs arbitrary: i submitted s)
  case (Cons cj cjs)
  obtain ok p where p: "pool_submit (accepts i) (r_more (fst s)) = (ok, p)" by force
  let ?s = "((fst s)\<lparr>r_more := p\<rparr>, snd s)"
  have flight: "in_flight p = in_flight (r_more (fst s)) + (if ok then 1 else 0)"
    using p by (auto simp: pool_submit_def Let_def split: if_splits)
  show ?case
  proof (cases ok)
    case True
    with Cons.prems p have "submit_jobs ss c trace accepts (Suc i) cjs (submitted @ [cj]) ?s = (x, t)" by (simp add: Let_def)
    from Cons.IH [OF this] obtain js where "x = Inr ((submitted @ [cj]) @ js)" "set js \<subseteq> set cjs" "length js \<le> length cjs"
        "in_flight (r_more (fst t)) = in_flight p + int (length js)" by auto
    with flight True show ?thesis by (intro exI [of _ "cj # js"]) auto
  next
    case False
    let ?h = "handle_submit_error ss c trace cj ?s"
    have "submit_jobs ss c trace accepts (Suc i) cjs submitted ?h = (x, t)" using False Cons.prems(1) p by (simp add: Let_def)
    from Cons.IH [OF this] obtain js where js: "x = Inr (submitted @ js)" "set js \<subseteq> set cjs" "length js \<le> length cjs"
        "in_flight (r_more (fst t)) = in_flight (r_more (fst ?h)) + int (length js)" by blast
    have "r_more (fst ?h) = p"
      by (auto simp: handle_submit_error_def fail_after_worker_error_def request_stop_def split: sum.splits prod.splits)
    with js flight False show ?thesis by (intro exI [of _ js]) auto
  qed
qed simp

section \<open>A pass of a worker\<close>

lemma steps_committed: "(step L)\<^sup>*\<^sup>* d e \<Longrightarrow> committed L d \<Longrightarrow> committed L e"
  by (induction rule: rtranclp_induct) (auto intro: step_committed)

lemma steps_reachable: "(step L)\<^sup>*\<^sup>* d e \<Longrightarrow> reachable L d \<Longrightarrow> reachable L e"
  by (induction rule: rtranclp_induct) (auto intro: reachable.onward)

lemma start_process_more: "start_process c s = (x, t) \<Longrightarrow> r_more (fst t) = r_more (fst s)"
  by (auto simp: start_process_def followed_def transact_def note_that_def answer_def Let_def split: option.splits sum.splits prod.splits)

text \<open>The ways a pass can go.\<close>

lemma worker_pollE:
  assumes "worker_poll ss c w trace accepts s = (x, t)"
  obtains (idle) "t = s" "x = Inr []"
  | (started) y where "start_process c s = (y, t)" "x = Inr [] \<or> (\<exists>e. x = Inl e)"
  | (refused) p u e where "start_process c s = (Inr p, u)" "t = u" "x = Inl e"
  | (claimed) p u js d where "start_process c s = (Inr p, u)" "0 < claim_limit w (r_more (fst u))"
      "claim_ready_jobs ss (backend_config.truncate c) (claim_limit w (r_more (fst u))) (SelTuple (w_queues w)) (Some p) (snd u) = Inr (js, d)"
      "submit_jobs ss c trace accepts 0 js [] (fst u, d) = (x, t)"
proof (cases "r_stop_requested (fst s)")
  case True
  with assms idle show ?thesis by (simp add: worker_poll_def)
next
  case False
  obtain y u where st: "start_process c s = (y, u)" by (cases "start_process c s")
  show ?thesis
  proof (cases y)
    case (Inl e)
    with assms False st have "u = t" "x = Inl e" by (auto simp: worker_poll_def followed_def)
    with st started show ?thesis by blast
  next
    case (Inr p)
    let ?l = "claim_limit w (r_more (fst u))"
    let ?c = "claim_ready_jobs ss (backend_config.truncate c) ?l (SelTuple (w_queues w)) (Some p) (snd u)"
    note step = assms [unfolded worker_poll_def if_not_P [OF False] followed_def st Inr prod.case sum.case Let_def]
    show ?thesis
    proof (cases "idle_capacity (r_more (fst u)) \<le> 0 \<or> ?l \<le> 0")
      case True
      with step have "u = t" "x = Inr []" by auto
      with st started show ?thesis by blast
    next
      case busy: False
      show ?thesis
      proof (cases ?c)
        case Inl
        with step busy have "t = u" "\<exists>e. x = Inl e" by (auto simp: transact_def)
        with st Inr refused show ?thesis by blast
      next
        case (Inr z)
        obtain js d where z: "z = (js, d)" by (cases z)
        with step busy Inr have "submit_jobs ss c trace accepts 0 js [] (fst u, d) = (x, t)" by (simp add: transact_def)
        with st \<open>y = Inr p\<close> busy Inr z claimed show ?thesis by simp
      qed
    qed
  qed
qed

lemma worker_poll_steps:
  assumes "committed L (snd s)" and "worker_poll ss c w trace accepts s = (x, t)"
  shows "(step L)\<^sup>*\<^sup>* (snd s) (snd t)"
  using assms(2)
proof (cases rule: worker_pollE)
  case (claimed p u js d)
  have u: "(step L)\<^sup>*\<^sup>* (snd s) (snd u)" using steps_onlyD [OF steps_start claimed(1)] .
  then have inv: "committed L (snd u)" using assms(1) by (rule steps_committed)
  have "run_operation (Claim ss (backend_config.truncate c) (claim_limit w (r_more (fst u))) (SelTuple (w_queues w)) (Some p)) (snd u) = Inr d"
    using claimed(3) by (simp add: after_def)
  then have "step L (snd u) d" by (rule step.commit [rotated]) simp
  moreover have "(step L)\<^sup>*\<^sup>* d (snd t)"
    using submit_jobs_steps [OF claimed(4), of L] claimed_current [OF inv claimed(3)] by simp
  ultimately show ?thesis using u by (meson rtranclp.rtrancl_into_rtrancl rtranclp_trans)
qed (auto dest: steps_onlyD [OF steps_start])

lemma claim_length:
  assumes "committed L d" and "claim_ready_jobs ss cfg n queues p d = Inr (js, e)" and "0 < n"
  shows "int (length js) \<le> n"
proof (cases "js = []")
  case False
  note inv = assms(1) [unfolded committed_def]
  obtain rows0 and rows :: "ready_row list" where
    "select_ready_rows ss cfg n queues (ready_queryset cfg d) d = Inr rows0" "length rows \<le> length rows0" "map cj_job js = map snd rows"
    by (rule claim_rows [OF inv assms(2) False]) blast
  with select_ready_rows_limit [OF assms(3)] map_eq_imp_length_eq show ?thesis by fastforce
qed (use assms(3) in simp)

lemma worker_poll_flight:
  assumes "committed L (snd s)" and "worker_poll ss c w trace accepts s = (x, t)"
  shows "in_flight (r_more (fst t)) = in_flight (r_more (fst s)) + (case x of Inl _ \<Rightarrow> 0 | Inr js \<Rightarrow> int (length js))"
    and "in_flight (r_more (fst t)) \<le> max (in_flight (r_more (fst s))) (w_threads w * w_prefetch_multiplier w)"
  using assms(2)
proof (atomize(full), cases rule: worker_pollE)
  case (claimed p u js d)
  have "committed L (snd u)" using steps_onlyD [OF steps_start claimed(1)] assms(1) by (rule steps_committed)
  from claim_length [OF this claimed(3,2)] have "int (length js) \<le> claim_limit w (r_more (fst u))" .
  moreover obtain js' where "x = Inr js'" "length js' \<le> length js"
      "in_flight (r_more (fst t)) = in_flight (r_more (fst u)) + int (length js')"
    using submit_jobs_counts [OF claimed(4)] by auto
  ultimately show "in_flight (r_more (fst t)) = in_flight (r_more (fst s)) + (case x of Inl _ \<Rightarrow> 0 | Inr js \<Rightarrow> int (length js))
    \<and> in_flight (r_more (fst t)) \<le> max (in_flight (r_more (fst s))) (w_threads w * w_prefetch_multiplier w)"
    using start_process_more [OF claimed(1)] claimed(2) by (auto simp: claim_limit_def)
qed (auto dest: start_process_more split: sum.split)

text \<open>A job that ends gives its place in the pool back.\<close>

lemma job_done_steps:
  assumes "current_job L (snd s) (cj_job cj)" and "job_done ss c run describe cj s = t"
  shows "(step L)\<^sup>*\<^sup>* (snd s) (snd t)"
proof (cases "execute_claimed_job ss (backend_config.truncate c) run (ClaimedObject cj) (snd s)")
  case (Inr y)
  have "run_operation (Execute ss (backend_config.truncate c) run (ClaimedObject cj)) (snd s) = Inr (snd y)"
    using Inr by (simp add: after_def split_def)
  then have "step L (snd s) (snd y)" by (rule step.commit [rotated]) (simp add: current_argument_def assms(1))
  with Inr assms(2) show ?thesis by (auto simp: job_done_def Let_def split: prod.splits)
next
  case (Inl e)
  let ?s = "((fst s)\<lparr>r_more := pool_complete (r_more (fst s))\<rparr>, snd s)"
  have "snd t = snd (fail_after_worker_error ss c (describe e) cj ?s)"
    using Inl assms(2) by (auto simp: job_done_def Let_def split: prod.splits)
  with fail_after_error [OF refl, of L ?s cj ss c "describe e"] assms(1) show ?thesis by simp
qed

lemma job_done_flight: "in_flight (r_more (fst (job_done ss c run describe cj s))) = in_flight (r_more (fst s)) - 1"
  by (auto simp: job_done_def fail_after_worker_error_def request_stop_def pool_complete_def Let_def split: sum.splits prod.splits)

end
