(* ===== verification/Supervisor_Facts.thy ===== *)
theory Supervisor_Facts
  imports Worker_Facts
begin

text \<open>
  The supervisor: its rounds are sequences of steps of the queue, the runners it starts have names of their own, a
  round loses no runner, and the delays before a restart are bounded until the arithmetic overflows.
\<close>

section \<open>Rounds as steps\<close>

lemma steps_step:
  assumes "lawful L x d" and "run_operation x d = Inr e"
  shows "(step L)\<^sup>*\<^sup>* d e"
  using step.commit [OF assms] by simp

lemma steps_deregister: "(step L)\<^sup>*\<^sup>* (snd s) (snd (deregister_runner s))"
  by (auto simp: deregister_runner_def split: option.split intro: steps_step [of L "Deregister_process _"])

lemma steps_stop_runner: "(step L)\<^sup>*\<^sup>* (snd s) (snd (stop_runner s))"
  using steps_deregister [of L "(_, snd s)"] by (auto simp: stop_runner_def split: option.split prod.split)

lemma steps_heartbeat [stepping]: "steps_only L heartbeat"
proof (rule steps_onlyI)
  fix s :: "'m runner \<times> db"
  have "(step L)\<^sup>*\<^sup>* (snd s) (snd (touch_process_row pk (snd s)))" for pk
    by (rule steps_step [of L "Touch_process pk"]) simp_all
  then show "(step L)\<^sup>*\<^sup>* (snd s) (snd (snd (heartbeat s)))"
    by (auto simp: heartbeat_def split: option.split prod.split) (metis snd_conv)+
qed

lemma steps_monotonic [stepping]: "steps_only L monotonic"
  by (simp add: steps_only_def monotonic_def Let_def)

lemma steps_note_state [stepping]: "steps_only L (note_state f)"
  unfolding note_state_def by (rule stepping)

lemma steps_housekeeping_due [stepping]: "steps_only L (housekeeping_due c)"
  by (rule steps_onlyI) (auto simp: housekeeping_due_def split: option.split intro!: steps_at stepping)

lemma steps_fail_orphaned_jobs [stepping]: "steps_only L (fail_orphaned_jobs ss c n)"
  unfolding fail_orphaned_jobs_def by (rule stepping)

lemma steps_prune_rows [stepping]: "steps_only L (prune_stale_process_rows ss c now n)"
  unfolding prune_stale_process_rows_def by (intro stepping steps_onlyI steps_prune_processes [THEN steps_at])

text \<open>A pass whose exception is handled.\<close>

lemma steps_handled:
  assumes "steps_only L f" and "\<And>r. steps_only L (g r)"
  shows "steps_only L (\<lambda>s. case f s of (r, t) \<Rightarrow> g r t)"
  using assms unfolding steps_only_def by (auto split: prod.split) (metis rtranclp_trans snd_conv)

lemma steps_supervisor_poll [stepping]: "steps_only L (supervisor_poll ss c)"
proof -
  have "steps_only L (\<lambda>s :: supervisor_state runner \<times> db.
       case followed (fail_orphaned_jobs ss c recovery_batch_size) (\<lambda>failed.
           let remaining = recovery_batch_size - int (length failed)
           in if 0 < remaining then prune_stale_process_rows ss c None remaining else answer []) s of
           (r, s) \<Rightarrow> followed monotonic (\<lambda>now. followed (note_state (\<lambda>st. st\<lparr>last_housekeeping_at := Some now\<rparr>)) (\<lambda>_.
             answer (case r of Inl _ \<Rightarrow> [] | Inr pruned \<Rightarrow> pruned))) s)"
    unfolding Let_def by (intro steps_handled steps_followed steps_fail_orphaned_jobs steps_branch(1) steps_prune_rows steps_answer
        steps_monotonic steps_note_state)
  note work = steps_at [OF this]
  show ?thesis unfolding supervisor_poll_def
    by (intro steps_followed steps_housekeeping_due steps_onlyI) (use work in \<open>simp add: Let_def\<close>)
qed

lemma steps_count_failure [stepping]: "steps_only L (count_failure name)"
  by (rule steps_onlyI) (simp add: count_failure_def Let_def followed_def note_state_def note_that_def)

lemma steps_backoff [stepping]: "steps_only L (restart_backoff_delay name started_at)"
  unfolding restart_backoff_delay_def by (intro stepping)

lemma steps_fail_jobs_for_child [stepping]: "steps_only L (fail_jobs_for_child ss c pid spec wstatus)"
  unfolding fail_jobs_for_child_def Let_def by (intro steps_onlyI steps_fail_for_child [THEN steps_at])

lemma steps_launch [stepping]: "steps_only L (launch_child forked spec)"
  by (rule steps_onlyI) (auto simp: launch_child_def split: sum.split intro!: steps_at stepping)

lemma steps_replace [stepping]: "steps_only L (replace_child forked spec old_pid wstatus started_at)"
  unfolding replace_child_def by (intro stepping)

lemma steps_due_replacement [stepping]: "steps_only L (start_due_child_replacement forked)"
  unfolding start_due_child_replacement_def
  by (intro stepping steps_onlyI) (auto split: option.split intro!: steps_at stepping)

lemma steps_check_children [stepping]: "steps_only L (check_children ss c waited forked)"
proof -
  have replaced: "steps_only L (followed (note_state f) (\<lambda>_ s. case spec of None \<Rightarrow> (Inr None, s)
      | Some sp \<Rightarrow> followed (fail_jobs_for_child ss c pid sp (Some wstatus)) (\<lambda>_. replace_child forked sp pid wstatus started_at) s))"
    for f spec pid wstatus started_at
    by (intro steps_followed steps_note_state steps_onlyI) (auto split: option.split intro!: steps_at stepping)
  show ?thesis unfolding check_children_def Let_def
    by (intro steps_followed steps_due_replacement steps_onlyI) (auto split: option.split intro!: replaced [THEN steps_at])
qed

lemma fork_supervisor_poll_steps: "steps_only L (fork_supervisor_poll ss c waited forked)"
  unfolding fork_supervisor_poll_def by (intro stepping)

lemma steps_pair: "steps_only L f \<Longrightarrow> (step L)\<^sup>*\<^sup>* d (snd (snd (f (r, d))))"
  by (drule steps_at [of L f "(r, d)"]) simp

lemma steps_fail_children [stepping]: "steps_only L (fail_children ss c cs)"
proof (induction cs)
  case (Cons x cs)
  obtain pid spec where x: "x = (pid, spec)" by (cases x)
  from Cons.IH have "steps_only L (followed (fail_jobs_for_child ss c pid spec None) (\<lambda>_. fail_children ss c cs))"
    by (intro steps_followed steps_fail_jobs_for_child)
  then show ?case by (simp add: steps_only_def x)
qed (simp add: steps_only_def)

lemma steps_kill_children [stepping]: "steps_only L (kill_children ss c cs)"
proof (induction cs)
  case (Cons x cs)
  obtain pid spec where x: "x = (pid, spec)" by (cases x)
  from Cons.IH have "steps_only L (followed (fail_jobs_for_child ss c pid spec None) (\<lambda>_.
      followed (note_state (\<lambda>st. st\<lparr>children := dict_drop pid (children st),
        child_started_at := dict_drop pid (child_started_at st)\<rparr>)) (\<lambda>_. kill_children ss c cs)))"
    by (intro steps_followed steps_fail_jobs_for_child steps_note_state)
  then show ?case by (simp add: steps_only_def x)
qed (simp add: steps_only_def)

lemma steps_wait_for_children [stepping]: "steps_only L (wait_for_children ss c ws)"
proof (induction ws)
  case (Cons w ws)
  have gone: "steps_only L (followed (fail_children ss c cs) (\<lambda>_. note_state f))" for cs f
    by (intro stepping)
  have reaped: "steps_only L (followed (note_state f) (\<lambda>_. followed g (\<lambda>_. wait_for_children ss c ws)))" if "steps_only L g"
    for f and g :: "(supervisor_state runner \<times> db, job list) pass"
    by (intro steps_followed steps_note_state that Cons.IH)
  show ?case
    by (rule steps_onlyI) (auto simp: Let_def split: option.split
        intro!: gone [THEN steps_pair] reaped [THEN steps_pair] Cons.IH [THEN steps_pair] steps_answer steps_fail_jobs_for_child)
qed (simp add: steps_only_def)

lemma fork_supervisor_stop_steps: "steps_only L (fork_supervisor_stop ss c ws)"
proof -
  have finish: "steps_only L (followed (kill_children ss c cs) (\<lambda>_.
     followed (note_state f) (\<lambda>_ s. (Inr (), stop_runner s))))" for cs f
    by (intro steps_followed steps_kill_children steps_note_state steps_onlyI) (simp add: steps_stop_runner)
  show ?thesis unfolding fork_supervisor_stop_def
    by (intro steps_followed steps_wait_for_children steps_onlyI) (rule finish [THEN steps_at])
qed

lemma supervisor_start_steps: "steps_only L (supervisor_start ss c locked_pidfile)"
proof (rule steps_onlyI)
  fix s :: "supervisor_state runner \<times> db"
  let ?f = "followed (\<lambda>s. (locked_pidfile, s)) (\<lambda>_. followed (start_process c) (\<lambda>p.
         followed (fail_orphaned_jobs ss c recovery_batch_size) (\<lambda>_. answer p)))"
  have "steps_only L ?f"
    by (intro steps_followed steps_start steps_fail_orphaned_jobs steps_answer) (simp add: steps_only_def)
  note work = steps_at [OF this, of s]
  show "(step L)\<^sup>*\<^sup>* (snd s) (snd (snd (supervisor_start ss c locked_pidfile s)))"
    using work steps_stop_runner [of L "snd (?f s)"]
    by (cases "?f s") (auto simp: supervisor_start_def split: sum.split)
qed

section \<open>Restart delays\<close>

lemma float_tenth: "0 < restart_backoff_base_delay" "restart_backoff_base_delay \<le> 30"
  by (simp_all add: restart_backoff_base_delay_def float_value_def)

lemma count_failure_result:
  "fst (count_failure name s) =
     (case map_of (restart_failures (r_more (fst s))) name of
        None \<Rightarrow> Inr 0
      | Some n \<Rightarrow> if n = 0 then Inr 0
          else if n < 1025 then Inr (min (restart_backoff_base_delay * 2 ^ (n - 1)) restart_backoff_max_delay)
          else Inl OverflowError)"
  by (auto simp: count_failure_def followed_def note_state_def note_that_def scaled_def Let_def split: option.split)

lemma map_of_dict_put: "map_of (dict_put k v ps) = (map_of ps)(k \<mapsto> v)"
  by (induction ps) auto

lemma count_failure_counts:
  "restart_failures (r_more (fst (snd (count_failure name s)))) =
     dict_put name (Suc (case map_of (restart_failures (r_more (fst s))) name of None \<Rightarrow> 0 | Some n \<Rightarrow> n)) (restart_failures (r_more (fst s)))"
  by (simp add: count_failure_def followed_def note_state_def note_that_def Let_def split: option.split)

section \<open>The table of children\<close>

lemma map_of_dict_drop: "map_of (dict_drop k ps) = (map_of ps)(k := None)"
  by (induction ps) (auto simp: dict_drop_def)

lemma dict_put_fresh: "k \<notin> fst ` set ps \<Longrightarrow> dict_put k v ps = ps @ [(k, v)]"
  by (induction ps) auto

lemma dict_drop_mset:
  "distinct (map fst ps) \<Longrightarrow> map_of ps k = Some v \<Longrightarrow> image_mset snd (mset ps) = add_mset v (image_mset snd (mset (dict_drop k ps)))"
proof (induction ps)
  case (Cons p ps)
  obtain k' v' where p: "p = (k', v')" by (cases p)
  show ?case
  proof (cases "k' = k")
    case True
    with Cons.prems p have "dict_drop k ps = ps"
      by (auto simp: dict_drop_def filter_id_conv image_iff)
    moreover have "dict_drop k (p # ps) = dict_drop k ps" using p True by (simp add: dict_drop_def)
    ultimately show ?thesis using p True Cons.prems by simp
  next
    case False
    then have "dict_drop k (p # ps) = p # dict_drop k ps" using p by (simp add: dict_drop_def)
    with Cons p False show ?thesis by simp
  qed
qed simp

lemma dict_drop_absent: "map_of ps k = None \<Longrightarrow> dict_drop k ps = ps"
  by (auto simp: dict_drop_def filter_id_conv map_of_eq_None_iff image_iff)

lemma dict_drop_keys: "set (map fst (dict_drop k ps)) \<subseteq> set (map fst ps)" "distinct (map fst ps) \<Longrightarrow> distinct (map fst (dict_drop k ps))"
  by (auto simp: dict_drop_def distinct_map_filter)

text \<open>The runners a supervisor answers for: those that run and those that wait to be started again.\<close>

definition runner_specs :: "supervisor_state \<Rightarrow> runner_definition multiset" where
  "runner_specs st = image_mset snd (mset (children st)) + image_mset pr_spec (mset (pending_replacements st))"

definition children_ok :: "error + int \<Rightarrow> supervisor_state \<Rightarrow> bool" where
  "children_ok forked st \<longleftrightarrow> distinct (map fst (children st)) \<and> (case forked of Inl _ \<Rightarrow> True | Inr pid \<Rightarrow> pid \<notin> fst ` set (children st))"

lemma children_ok_iff:
  "children_ok forked st \<longleftrightarrow> distinct (map fst (children st)) \<and> (\<forall>pid. forked = Inr pid \<longrightarrow> pid \<notin> fst ` set (children st))"
  by (auto simp: children_ok_def split: sum.split)

lemma launch_child_specs:
  assumes "launch_child forked spec s = (Inr x, t)" and "children_ok forked (r_more (fst s))"
  shows "runner_specs (r_more (fst t)) = add_mset spec (runner_specs (r_more (fst s))) \<and> distinct (map fst (children (r_more (fst t))))"
  using assms
  by (auto simp: launch_child_def children_ok_def runner_specs_def followed_def note_state_def note_that_def monotonic_def answer_def
      dict_put_fresh Let_def split: sum.splits)

lemma take_due_mset: "take_due now ps = Some (p, qs) \<Longrightarrow> mset ps = add_mset p (mset qs)"
  by (induction ps arbitrary: p qs) (auto split: if_splits)

lemma backoff_specs:
  "restart_backoff_delay name started_at s = (x, t) \<Longrightarrow> children (r_more (fst t)) = children (r_more (fst s))
    \<and> pending_replacements (r_more (fst t)) = pending_replacements (r_more (fst s))"
  by (auto simp: restart_backoff_delay_def count_failure_def followed_def note_state_def note_that_def monotonic_def answer_def Let_def
      split: option.splits if_splits sum.splits)

lemma fail_jobs_for_child_state: "fail_jobs_for_child ss c pid spec wstatus s = (x, t) \<Longrightarrow> fst t = fst s"
  by (auto simp: fail_jobs_for_child_def transact_def Let_def split: sum.splits)

lemma replace_child_specs:
  assumes "replace_child forked spec old_pid wstatus started_at s = (Inr x, t)" and "children_ok forked (r_more (fst s))"
  shows "runner_specs (r_more (fst t)) = add_mset spec (runner_specs (r_more (fst s))) \<and> distinct (map fst (children (r_more (fst t))))"
proof -
  obtain y u where u: "restart_backoff_delay (rd_name spec) started_at s = (y, u)" by (metis surj_pair)
  note same = backoff_specs [OF u]
  from assms(1) u obtain delay where y: "y = Inr delay" by (cases y) (auto simp: replace_child_def followed_def)
  have ok: "children_ok forked (r_more (fst u))" and specs: "runner_specs (r_more (fst u)) = runner_specs (r_more (fst s))"
    using same assms(2) by (simp_all add: children_ok_iff runner_specs_def)
  show ?thesis
  proof (cases "delay = 0")
    case True
    with assms(1) u y obtain z where "launch_child forked spec u = (Inr z, t)"
      by (auto simp: replace_child_def followed_def answer_def split: prod.splits sum.splits)
    from launch_child_specs [OF this ok] specs show ?thesis by simp
  next
    case False
    with assms u y show ?thesis using same
      by (auto simp: replace_child_def followed_def answer_def note_state_def note_that_def monotonic_def runner_specs_def
          children_ok_iff Let_def)
  qed
qed

lemma due_replacement_specs:
  assumes "start_due_child_replacement forked s = (Inr x, t)" and "children_ok forked (r_more (fst s))"
  shows "runner_specs (r_more (fst t)) = runner_specs (r_more (fst s)) \<and> distinct (map fst (children (r_more (fst t))))
    \<and> (x = None \<longrightarrow> children_ok forked (r_more (fst t)))"
proof -
  obtain now u where u: "monotonic s = (Inr now, u)" "runner_specs (r_more (fst u)) = runner_specs (r_more (fst s))"
      "children_ok forked (r_more (fst u))"
    using assms(2) by (auto simp: monotonic_def runner_specs_def children_ok_iff Let_def)
  show ?thesis
  proof (cases "take_due now (pending_replacements (r_more (fst u)))")
    case None
    with assms(1) u have "t = u" by (simp add: start_due_child_replacement_def followed_def)
    with u show ?thesis by (simp add: children_ok_iff)
  next
    case (Some q)
    obtain p ps where q: "q = (p, ps)" by (cases q)
    define v where "v = ((fst u)\<lparr>r_more := (r_more (fst u))\<lparr>pending_replacements := ps\<rparr>\<rparr>, snd u)"
    from assms(1) u(1) Some q obtain z where z: "launch_child forked (pr_spec p) v = (Inr z, t)" "x = Some z"
      by (auto simp: start_due_child_replacement_def followed_def note_state_def note_that_def answer_def v_def
          split: prod.splits sum.splits)
    have "children_ok forked (r_more (fst v))" using u(3) by (simp add: v_def children_ok_iff)
    note launched = launch_child_specs [OF z(1) this]
    have "runner_specs (r_more (fst u)) = add_mset (pr_spec p) (runner_specs (r_more (fst v)))"
      using take_due_mset [OF Some [unfolded q]] by (simp add: runner_specs_def v_def)
    with launched u(2) z(2) show ?thesis by simp
  qed
qed

lemma check_children_specs:
  assumes "check_children ss c waited forked s = (Inr x, t)" and "children_ok forked (r_more (fst s))"
  shows "runner_specs (r_more (fst t)) = runner_specs (r_more (fst s)) \<and> distinct (map fst (children (r_more (fst t))))"
proof -
  obtain y u where u: "start_due_child_replacement forked s = (y, u)" by (metis surj_pair)
  from assms(1) u obtain z where y: "y = Inr z" by (cases y) (auto simp: check_children_def followed_def)
  note first = due_replacement_specs [OF u [unfolded y] assms(2)]
  show ?thesis
  proof (cases "t = u")
    case False
    note step = assms(1) [unfolded check_children_def followed_def u y prod.case sum.case]
    from step False obtain pid wstatus where none: "z = None" and w: "waited = Some (pid, wstatus)"
      by (auto split: if_splits option.splits)
    let ?st = "r_more (fst u)"
    define v where "v = ((fst u)\<lparr>r_more := ?st\<lparr>children := dict_drop pid (children ?st),
        child_started_at := dict_drop pid (child_started_at ?st)\<rparr>\<rparr>, snd u)"
    have ok: "children_ok forked ?st" using first none by blast
    have vok: "children_ok forked (r_more (fst v))"
      using ok dict_drop_keys [where k = pid and ps = "children ?st"] by (auto simp: children_ok_iff v_def)
    have rest: "(case map_of (children ?st) pid of None \<Rightarrow> (Inr None, v)
        | Some sp \<Rightarrow> followed (fail_jobs_for_child ss c pid sp (Some wstatus)) (\<lambda>_.
            replace_child forked sp pid wstatus (map_of (child_started_at ?st) pid)) v) = (Inr x, t)"
      using step False w by (auto simp: v_def followed_def note_state_def note_that_def Let_def split: if_splits option.splits)
    show ?thesis
    proof (cases "map_of (children ?st) pid")
      case None
      with rest dict_drop_absent [OF None] first show ?thesis by (auto simp: v_def runner_specs_def)
    next
      case (Some sp)
      obtain f v' where f: "fail_jobs_for_child ss c pid sp (Some wstatus) v = (f, v')" by (metis surj_pair)
      with rest Some have rep: "replace_child forked sp pid wstatus (map_of (child_started_at ?st) pid) v' = (Inr x, t)"
        by (auto simp: followed_def split: sum.splits)
      have v': "fst v' = fst v" using fail_jobs_for_child_state [OF f] .
      have "runner_specs ?st = add_mset sp (runner_specs (r_more (fst v)))"
        using dict_drop_mset [OF _ Some] ok by (simp add: children_ok_iff runner_specs_def v_def)
      with replace_child_specs [OF rep] vok v' first show ?thesis by simp
    qed
  qed (use first in blast)
qed

section \<open>Names of runners\<close>

lemma str_nat_inj [simp]: "str_nat m = str_nat n \<longleftrightarrow> m = n"
  by (metis nat_of_digits_str_nat)

lemma str_nat_no_dash: "CHR ''-'' \<notin> set (str_nat n)"
  using isdecimal_str_nat [of n] by (auto simp: isdecimal_def list_all_iff is_digit_def)

lemma dash_unique:
  assumes "a @ CHR ''-'' # b = a' @ CHR ''-'' # b'" and "CHR ''-'' \<notin> set a" and "CHR ''-'' \<notin> set a'"
  shows "a = a' \<and> b = b'"
proof -
  have before: "takeWhile (\<lambda>x. x \<noteq> CHR ''-'') (u @ CHR ''-'' # v) = u" if "CHR ''-'' \<notin> set u" for u v
    using that by (induction u) auto
  have "a = a'" using before [OF assms(2), of b] before [OF assms(3), of b'] assms(1) by simp
  with assms(1) show ?thesis by simp
qed

lemma worker_names:
  "x \<in> rd_name ` set (worker_definitions i w) \<Longrightarrow>
     x = ''worker-'' @ str_nat i \<or> (\<exists>k. x = ''worker-'' @ str_nat i @ CHR ''-'' # str_nat k)"
  by (auto simp: worker_definitions_def split: if_splits)

lemma worker_names_apart:
  assumes "x \<in> rd_name ` set (worker_definitions i w)" and "x \<in> rd_name ` set (worker_definitions j w')"
  shows "i = j"
proof -
  have plain: "str_nat m \<noteq> str_nat n @ CHR ''-'' # s" for m n s
    using str_nat_no_dash [of m] by (metis in_set_conv_decomp)
  from worker_names [OF assms(1)] worker_names [OF assms(2)] consider "str_nat i = str_nat j"
    | k where "str_nat i = str_nat j @ CHR ''-'' # str_nat k" | k where "str_nat j = str_nat i @ CHR ''-'' # str_nat k"
    | k l where "str_nat i @ CHR ''-'' # str_nat k = str_nat j @ CHR ''-'' # str_nat l"
    by (metis same_append_eq)
  then show ?thesis
  proof cases
    case (4 k l)
    with dash_unique [OF _ str_nat_no_dash str_nat_no_dash] show ?thesis by (metis str_nat_inj)
  qed (simp_all add: plain)
qed

lemma worker_names_distinct: "distinct (map rd_name (worker_definitions i w))"
proof (cases "w_processes w = 1")
  case False
  then show ?thesis by (auto simp: worker_definitions_def comp_def distinct_map intro!: inj_onI)
qed (simp add: worker_definitions_def)

lemma distinct_concat_map:
  assumes "distinct xs" and "\<And>x. x \<in> set xs \<Longrightarrow> distinct (f x)"
    and "\<And>x y. x \<in> set xs \<Longrightarrow> y \<in> set xs \<Longrightarrow> x \<noteq> y \<Longrightarrow> set (f x) \<inter> set (f y) = {}"
  shows "distinct (concat (map f xs))"
  using assms
proof (induction xs)
  case (Cons x xs)
  have "set (f x) \<inter> set (f y) = {}" if "y \<in> set xs" for y using Cons.prems(1) that by (intro Cons.prems(3)) auto
  then have "set (f x) \<inter> set (concat (map f xs)) = {}" by auto
  moreover have "distinct (concat (map f xs))" using Cons.prems by (intro Cons.IH) auto
  ultimately show ?case using Cons.prems(2) [of x] by simp
qed simp

lemma runner_names_differ: "distinct (map rd_name (runner_definitions c))"
proof -
  let ?f = "\<lambda>i. map rd_name (worker_definitions (i + 1) (workers c ! i))"
  have "distinct (concat (map ?f [0..<length (workers c)]))"
  proof (rule distinct_concat_map)
    show "set (?f i) \<inter> set (?f j) = {}" if "i \<noteq> j" for i j
    proof (rule ccontr)
      assume "set (?f i) \<inter> set (?f j) \<noteq> {}"
      then obtain x where x: "x \<in> set (?f i)" "x \<in> set (?f j)" by blast
      have "i + 1 = j + 1" using x by (intro worker_names_apart) (simp_all only: set_map)
      with that show False by simp
    qed
  qed (simp_all add: worker_names_distinct)
  moreover have "CHR ''d'' # s \<noteq> rd_name x \<and> CHR ''s'' # s \<noteq> rd_name x"
    if "x \<in> set (worker_definitions (Suc i) (workers c ! i))" for x i s
    using that by (auto dest!: worker_names [OF imageI])
  ultimately show ?thesis
    by (auto simp: runner_definitions_def map_concat comp_def distinct_map inj_on_def split: option.split)
qed

section \<open>Stopping\<close>

lemma kill_children_empties:
  assumes "kill_children ss c cs s = (Inr x, t)" and "fst ` set (children (r_more (fst s))) \<subseteq> fst ` set cs"
  shows "children (r_more (fst t)) = []"
  using assms
proof (induction cs arbitrary: s)
  case (Cons y cs)
  obtain pid spec where y: "y = (pid, spec)" by (cases y)
  obtain z u where z: "fail_jobs_for_child ss c pid spec None s = (Inr z, u)"
    using Cons.prems(1) by (cases "fail_jobs_for_child ss c pid spec None s") (auto simp: y followed_def split: sum.splits)
  define v where "v = ((fst u)\<lparr>r_more := (r_more (fst u))\<lparr>children := dict_drop pid (children (r_more (fst u))),
        child_started_at := dict_drop pid (child_started_at (r_more (fst u)))\<rparr>\<rparr>, snd u)"
  have "kill_children ss c cs v = (Inr x, t)"
    using Cons.prems(1) z by (simp add: y followed_def note_state_def note_that_def v_def)
  moreover have "fst ` set (children (r_more (fst v))) \<subseteq> fst ` set cs"
    using Cons.prems(2) fail_jobs_for_child_state [OF z] by (auto simp: v_def y dict_drop_def)
  ultimately show ?case by (rule Cons.IH)
qed simp

lemma stop_runner_stops: "r_stopped (fst (stop_runner s)) \<and> r_more (fst (stop_runner s)) = r_more (fst s)"
  by (auto simp: stop_runner_def begin_stop_def deregister_runner_def request_stop_def split: option.splits prod.splits if_splits)

lemma fork_supervisor_stop_empties:
  assumes "fork_supervisor_stop ss c ws s = (Inr (), t)"
  shows "children (r_more (fst t)) = [] \<and> pending_replacements (r_more (fst t)) = [] \<and> r_stopped (fst t)"
proof -
  obtain u where u: "wait_for_children ss c ws s = (Inr (), u)"
    using assms by (cases "wait_for_children ss c ws s") (auto simp: fork_supervisor_stop_def followed_def split: sum.splits)
  obtain v where v: "kill_children ss c (children (r_more (fst u))) u = (Inr (), v)"
    using assms u by (cases "kill_children ss c (children (r_more (fst u))) u") (auto simp: fork_supervisor_stop_def followed_def split: sum.splits)
  have "t = stop_runner ((fst v)\<lparr>r_more := (r_more (fst v))\<lparr>pending_replacements := []\<rparr>\<rparr>, snd v)"
    using assms u v by (simp add: fork_supervisor_stop_def followed_def note_state_def note_that_def)
  with kill_children_empties [OF v] stop_runner_stops show ?thesis by auto
qed

section \<open>Starting\<close>

lemma launch_fresh:
  assumes "launch_child forked spec s = (Inr pid, t)" and "pid \<notin> fst ` set (children (r_more (fst s)))"
  shows "forked = Inr pid \<and> children (r_more (fst t)) = children (r_more (fst s)) @ [(pid, spec)]
    \<and> pending_replacements (r_more (fst t)) = pending_replacements (r_more (fst s))"
  using assms
  by (auto simp: launch_child_def followed_def note_state_def note_that_def monotonic_def answer_def dict_put_fresh Let_def split: sum.splits)

lemma launch_forked: "launch_child forked spec s = (Inr pid, t) \<Longrightarrow> forked = Inr pid"
  by (auto simp: launch_child_def followed_def note_state_def note_that_def monotonic_def answer_def Let_def split: sum.splits)

lemma followed_InrE:
  assumes "followed f g s = (Inr y, t)"
  obtains x u where "f s = (Inr x, u)" "g x u = (Inr y, t)"
  using assms by (auto simp: followed_def split: prod.splits sum.splits)

lemma launch_all:
  assumes "fold (\<lambda>spec f. followed f (\<lambda>_. followed (launch_child (forked spec) spec) (\<lambda>_. answer ()))) specs (answer ()) s = (Inr (), t)"
    and "distinct specs" and "inj_on forked (set specs)" and "children (r_more (fst s)) = []"
  shows "children (r_more (fst t)) = map (\<lambda>spec. (projr (forked spec), spec)) specs
    \<and> (\<forall>spec\<in>set specs. \<exists>pid. forked spec = Inr pid)
    \<and> pending_replacements (r_more (fst t)) = pending_replacements (r_more (fst s))"
  using assms
proof (induction specs arbitrary: t rule: rev_induct)
  case Nil
  then show ?case by (simp add: answer_def)
next
  case (snoc spec specs)
  let ?f = "fold (\<lambda>spec f. followed f (\<lambda>_. followed (launch_child (forked spec) spec) (\<lambda>_. answer ()))) specs (answer ())"
  from snoc.prems(1) have "followed ?f (\<lambda>_. followed (launch_child (forked spec) spec) (\<lambda>_. answer ())) s = (Inr (), t)" by simp
  then obtain u where u: "?f s = (Inr (), u)"
    and "followed (launch_child (forked spec) spec) (\<lambda>_. answer ()) u = (Inr (), t)" by (rule followed_InrE) simp
  then obtain pid where l: "launch_child (forked spec) spec u = (Inr pid, t)" by (auto simp: answer_def elim: followed_InrE)
  note before = snoc.IH [OF u]
  have IH: "children (r_more (fst u)) = map (\<lambda>spec. (projr (forked spec), spec)) specs"
    "\<forall>spec\<in>set specs. \<exists>pid. forked spec = Inr pid" "pending_replacements (r_more (fst u)) = pending_replacements (r_more (fst s))"
    using before snoc.prems(2-4) by (auto simp: inj_on_def)
  have "pid \<notin> fst ` set (children (r_more (fst u)))"
  proof
    assume "pid \<in> fst ` set (children (r_more (fst u)))"
    then obtain x where "x \<in> set specs" "projr (forked x) = pid" by (auto simp: IH(1))
    then have "forked x = forked spec" using IH(2) launch_forked [OF l] by fastforce
    with snoc.prems(2,3) \<open>x \<in> set specs\<close> show False by (auto simp: inj_on_def)
  qed
  from launch_fresh [OF l this] IH show ?case by auto
qed

lemma start_children_specs:
  assumes "start_children forked c s = (Inr (), t)" and "children (r_more (fst s)) = []"
    and "inj_on forked (set (runner_definitions c))"
  shows "runner_specs (r_more (fst t)) = mset (runner_definitions c) + image_mset pr_spec (mset (pending_replacements (r_more (fst s))))"
proof -
  have "distinct (runner_definitions c)" using runner_names_differ [of c] by (simp add: distinct_map)
  with launch_all [of forked "runner_definitions c" s t] assms show ?thesis
    by (simp add: start_children_def runner_specs_def image_mset.compositionality comp_def)
qed

end
