(* ===== verification/Runtime_Guarantees.thy ===== *)
theory Runtime_Guarantees
  imports Component_Guarantees Configuration_Facts Supervisor_Facts
begin

text \<open>
  The guarantees of the configuration and of the running processes: what a loaded configuration satisfies, that the
  passes of workers, dispatchers, schedulers and supervisors keep the queue in a reachable state, the bounds on what a
  worker takes on, and the book-keeping of child processes.
\<close>

section \<open>A sample configuration\<close>

definition demo_env :: surroundings where
  "demo_env = \<lparr>read_toml = (\<lambda>_. Contents (PDict [(PStr ''mode'', PStr ''fork''), (PStr ''listen_notify'', PBool False)])),
     import_callback = (\<lambda>_. Inr ()),
     import_named_task = (\<lambda>p. case import_task (demo_session Postgresql) p of Inl e \<Rightarrow> Inl e | Inr t \<Rightarrow> Inr (has_using t)),
     float_of_text = (\<lambda>_. None), repr_of_float = (\<lambda>_. []), zones = no_zones\<rparr>"

definition demo_worker :: worker_config where
  "demo_worker = \<lparr>w_queues = [''*''], w_threads = 3, w_processes = 1, w_polling_interval = Finite 3602879701896397 (-55),
     w_prefetch_multiplier = 2\<rparr>"

definition demo_dispatcher :: dispatcher_config where
  "demo_dispatcher = \<lparr>d_batch_size = 500, d_polling_interval = Finite 1 0, d_concurrency_maintenance = True,
     d_concurrency_maintenance_interval = Finite 600 0\<rparr>"

definition demo_scheduler :: scheduler_config where
  "demo_scheduler = \<lparr>s_dynamic_tasks_enabled = False, s_polling_interval = Finite 5 0\<rparr>"

definition demo_full :: "(string \<times> recurring_config) list \<Rightarrow> full_config" where
  "demo_full tasks = \<lparr>backend_alias = ''default'', allowed_queues = [], use_skip_locked = True, listen_notify = True,
     preserve_finished_jobs = True, default_concurrency_duration = 180, clear_finished_jobs_after = Some 86400,
     clear_failed_jobs_after = None, clear_recurring_executions_after = None, mode = ''fork'', workers = [demo_worker],
     dispatchers = [demo_dispatcher], scheduler = Some demo_scheduler, recurring = tasks,
     process_heartbeat_interval = Finite 60 0, process_alive_threshold = Finite 300 0, shutdown_timeout = Finite 5 0,
     supervisor_pidfile = None, database_alias = ''default'', async_thread_sensitive = False, async_close_connections = False,
     on_thread_error = None, skip_recurring = False, only_work = False, only_dispatch = False\<rparr>"

text \<open>The settings of a project with one recurring task.\<close>

definition demo_tasks :: "(string \<times> pyval) list" where
  "demo_tasks = [(''default'', PDict [(PStr ''BACKEND'', PStr dj_queue_backend_path),
     (PStr ''OPTIONS'', PDict [(PStr ''recurring'', PDict [(PStr ''hourly'',
       PDict [(PStr ''task_path'', PStr ''app.report''), (PStr ''schedule'', PStr ''0 * * * *'')])])])])]"

definition demo_runner :: "string \<Rightarrow> 'm \<Rightarrow> 'm runner" where
  "demo_runner kind m = \<lparr>r_kind = kind, r_name = kind @ ''-1'', r_pid = 100, r_hostname = ''host'', r_supervisor = None,
     r_metadata = JObject [], r_process = None, r_started = False, r_stopped = False, r_stop_requested = False,
     r_last_liveness_check = None, r_more = m\<rparr>"

lemma demo_load: "load_backend_config_uncached demo_env ''default'' [] [] [] = Inr (demo_full [])"
  by code_simp

lemma demo_load_recurring:
  "load_backend_config_uncached demo_env ''default'' [] [] demo_tasks = Inr (demo_full [(''hourly'', demo_recurring)])"
  by code_simp

section \<open>Configuration\<close>

text \<open>The configurations in the cache belong to the alias in their key and are well formed.\<close>

definition cache_ok :: "surroundings \<Rightarrow> config_cache \<Rightarrow> bool" where
  "cache_ok env cache \<longleftrightarrow> list_all (\<lambda>(key, c). options_ok env c \<and> topology_ok c \<and> backend_alias c = fst key) cache"

lemma cache_okD: "cache_ok env cache \<Longrightarrow> map_of cache key = Some c \<Longrightarrow> options_ok env c \<and> topology_ok c \<and> backend_alias c = fst key"
  by (auto simp: cache_ok_def list_all_iff dest: map_of_SomeD)

lemma config_key_alias: "config_cache_key env alias cli vars block = Inr key \<Longrightarrow> fst key = alias"
  by (auto simp: config_cache_key_def)

text \<open>C20. A configuration that is loaded, from the cache or afresh, is well formed: every number is in the range its use needs
  (threads, processes, batches and intervals are positive, retentions are not negative), the mode is fork or async with
  one process per worker in async mode, every recurring task has a valid schedule and an allowed queue, there is at least one runner, and
  the restrictions of the command line are respected.\<close>

theorem loaded_config_well_formed:
  assumes "cache_ok env cache" and "load_backend_config env alias cli vars tasks cache = Inr (c, cache')"
  shows "options_ok env c \<and> topology_ok c \<and> backend_alias c = alias \<and> cache_ok env cache'"
proof -
  from assms(2) obtain block key where key: "config_cache_key env alias cli vars block = Inr key"
    and rest: "(case map_of cache key of Some c \<Rightarrow> Inr (c, cache)
       | None \<Rightarrow> and_then (load_backend_config_uncached env alias cli (filter (\<lambda>(k, v). k \<in> set config_env_keys) vars) tasks)
           (\<lambda>c. Inr (c, (key, c) # cache))) = Inr (c, cache')"
    by (auto simp: load_backend_config_def)
  show ?thesis
  proof (cases "map_of cache key")
    case None
    with rest have "load_backend_config_uncached env alias cli (filter (\<lambda>(k, v). k \<in> set config_env_keys) vars) tasks = Inr c"
      "cache' = (key, c) # cache" by auto
    with load_uncached_ok [OF this(1)] assms(1) config_key_alias [OF key] show ?thesis by (simp add: cache_ok_def)
  qed (use rest assms(1) cache_okD config_key_alias [OF key] in auto)
qed

theorem loaded_config_well_formed_witness:
  "\<exists>key. load_backend_config demo_env ''default'' [] [] [] [] = Inr (demo_full [], [(key, demo_full [])])
    \<and> options_ok demo_env (demo_full []) \<and> topology_ok (demo_full []) \<and> cache_ok demo_env [(key, demo_full [])]"
proof -
  let ?key = "(''default'', JObject [], [None, None, None], JObject [])"
  have load: "load_backend_config demo_env ''default'' [] [] [] [] = Inr (demo_full [], [(?key, demo_full [])])" by code_simp
  have "cache_ok demo_env []" by (simp add: cache_ok_def)
  from loaded_config_well_formed [OF this load] load show ?thesis by blast
qed

text \<open>C36. The recurring tasks of a loaded configuration pass the checks that storing them applies again, so that a scheduler does not
  stop on its own configuration, when both see the same tasks under the same import paths.\<close>

theorem configured_tasks_accepted:
  assumes "load_backend_config_uncached env alias cli vars tasks = Inr c"
    and "\<And>p. import_named_task env p = (case import_task ss p of Inl e \<Rightarrow> Inl e | Inr t \<Rightarrow> Inr (has_using t))"
  shows "validate_static (utc_cron (zones env)) ss (backend_config.truncate c) (map snd (recurring c)) = Inr ()"
  using load_uncached_ok(1) [OF assms(1)] assms(2) by (rule recurring_validates)

theorem configured_tasks_accepted_witness:
  "load_backend_config_uncached demo_env ''default'' [] [] demo_tasks = Inr (demo_full [(''hourly'', demo_recurring)])
    \<and> validate_static (utc_cron no_zones) (demo_session Postgresql) (backend_config.truncate (demo_full [(''hourly'', demo_recurring)]))
        [demo_recurring] = Inr ()"
  using configured_tasks_accepted [OF demo_load_recurring, of "demo_session Postgresql"] demo_load_recurring
  by (simp add: demo_env_def demo_full_def)

section \<open>Runners\<close>






definition demo_pool :: pool where
  "demo_pool = \<lparr>max_workers = 3, in_flight = 0, closing = False\<rparr>"


text \<open>C14. A worker counts every job it hands to its pool, and it never takes on more jobs than its threads times its prefetch
  multiplier.\<close>

theorem worker_load_bounded:
  assumes "reachable L (snd s)" and "worker_poll ss c w trace accepts s = (x, t)"
  shows "in_flight (r_more (fst t)) = in_flight (r_more (fst s)) + (case x of Inl _ \<Rightarrow> 0 | Inr js \<Rightarrow> int (length js))
    \<and> in_flight (r_more (fst t)) \<le> max (in_flight (r_more (fst s))) (w_threads w * w_prefetch_multiplier w)"
  using worker_poll_flight [OF reachable_committed [OF assms(1)] assms(2)] by blast

theorem worker_load_bounded_witness:
  "in_flight (r_more (fst (snd (worker_poll (demo_session Postgresql) (demo_full []) demo_worker [] (\<lambda>i. True)
     (demo_runner ''worker'' demo_pool, demo_two))))) \<le> 6"
  using worker_load_bounded [OF _ prod.collapse [symmetric], of demo_limits "(demo_runner ''worker'' demo_pool, demo_two)"
      "demo_session Postgresql" "demo_full []" demo_worker "[]" "\<lambda>i. True"]
  by (simp add: demo_reachable demo_runner_def demo_pool_def demo_worker_def)

section \<open>Supervisors\<close>


definition demo_supervisor :: supervisor_state where
  "demo_supervisor = \<lparr>monotonic_readings = sconst 1, last_housekeeping_at = Some 0, restart_failures = [],
     children = [(10, \<lparr>rd_kind = Scheduler_runner, rd_name = ''scheduler-1''\<rparr>)], child_started_at = [(10, 0)],
     pending_replacements = []\<rparr>"


text \<open>C18. A supervisor loses no runner: after a round of checking its children, the runners that run or wait to be started again are
  the same as before, when the process identifier of a new child is not one of a child that still runs.\<close>

theorem no_runner_lost:
  assumes "check_children ss c waited forked s = (Inr x, t)" and "children_ok forked (r_more (fst s))"
  shows "runner_specs (r_more (fst t)) = runner_specs (r_more (fst s))"
  using check_children_specs [OF assms] by blast

theorem no_runner_lost_witness:
  "\<exists>x t. check_children (demo_session Postgresql) (demo_full []) (Some (10, 9)) (Inr 11)
      (demo_runner ''supervisor'' demo_supervisor, empty_db (ticks 0)) = (Inr x, t)
    \<and> runner_specs (r_more (fst t)) = {#\<lparr>rd_kind = Scheduler_runner, rd_name = ''scheduler-1''\<rparr>#}"
proof -
  let ?s = "(demo_runner ''supervisor'' demo_supervisor, empty_db (ticks 0))"
  let ?r = "check_children (demo_session Postgresql) (demo_full []) (Some (10, 9)) (Inr 11) ?s"
  have "\<exists>x t. ?r = (Inr x, t)"
    by (simp add: check_children_def start_due_child_replacement_def followed_def monotonic_def note_state_def note_that_def
        fail_jobs_for_child_def transact_def fail_claimed_jobs_for_child_def fail_claimed_jobs_for_process_def replace_child_def restart_backoff_delay_def
        count_failure_def launch_child_def answer_def demo_runner_def demo_supervisor_def empty_db_def dict_drop_def
        restart_backoff_reset_after_def Let_def)
  then obtain x t where r: "?r = (Inr x, t)" by blast
  have "children_ok (Inr 11) (r_more (fst ?s))" by (simp add: children_ok_def demo_runner_def demo_supervisor_def)
  from no_runner_lost [OF r this] r show ?thesis by (auto simp: runner_specs_def demo_runner_def demo_supervisor_def)
qed

text \<open>Failures of a runner in a row are counted.\<close>

lemma crashes_counted:
  assumes "map_of (restart_failures (r_more (fst s))) name = None"
  shows "map_of (restart_failures (r_more (fst (((\<lambda>s. snd (count_failure name s)) ^^ n) s)))) name = (if n = 0 then None else Some n)"
  using assms by (induction n) (auto simp: count_failure_counts map_of_dict_put)

text \<open>C37. A runner that ends again and again is first restarted at once, then after 0.1 seconds, doubled up to 30 seconds; from the
  1026th failure in a row on, the computation of the delay itself raises \<open>OverflowError\<close>.\<close>

theorem restart_delays:
  assumes "map_of (restart_failures (r_more (fst s))) name = None"
  shows "fst (count_failure name (((\<lambda>s. snd (count_failure name s)) ^^ n) s)) =
     (if n = 0 then Inr 0
      else if n < 1025 then Inr (min (restart_backoff_base_delay * 2 ^ (n - 1)) restart_backoff_max_delay)
      else Inl OverflowError)"
  by (simp add: count_failure_result crashes_counted [OF assms])

theorem restart_delays_witness:
  "fst (count_failure ''worker-1'' (((\<lambda>s. snd (count_failure ''worker-1'' s)) ^^ 1025)
     (demo_runner ''supervisor'' demo_supervisor, empty_db (ticks 0)))) = Inl OverflowError"
  by (subst restart_delays) (simp_all add: demo_runner_def demo_supervisor_def)

text \<open>C19. A supervisor that has started its children answers for exactly the runners of the configuration, when every child has a process
  identifier of its own.\<close>

theorem supervisor_starts_all_runners:
  assumes "start_children forked c s = (Inr (), t)" and "children (r_more (fst s)) = []"
    and "pending_replacements (r_more (fst s)) = []" and "inj_on forked (set (runner_definitions c))"
  shows "runner_specs (r_more (fst t)) = mset (runner_definitions c)"
  using start_children_specs [OF assms(1,2,4)] assms(3) by simp

theorem supervisor_starts_all_runners_witness:
  "\<exists>t. start_children (\<lambda>spec. Inr (if rd_kind spec = Scheduler_runner then 12 else if rd_name spec = ''worker-1'' then 10 else 11)) (demo_full [])
      (demo_runner ''supervisor'' (demo_supervisor\<lparr>children := []\<rparr>), empty_db (ticks 0)) = (Inr (), t)
    \<and> runner_specs (r_more (fst t)) = mset (runner_definitions (demo_full []))"
proof -
  let ?f = "\<lambda>spec. Inr (if rd_kind spec = Scheduler_runner then 12 else if rd_name spec = ''worker-1'' then 10 else 11) :: error + int"
  let ?s = "(demo_runner ''supervisor'' (demo_supervisor\<lparr>children := []\<rparr>), empty_db (ticks 0))"
  have defs: "runner_definitions (demo_full []) = [\<lparr>rd_kind = Worker_runner demo_worker, rd_name = ''worker-1''\<rparr>,
      \<lparr>rd_kind = Dispatcher_runner demo_dispatcher, rd_name = ''dispatcher-1''\<rparr>, \<lparr>rd_kind = Scheduler_runner, rd_name = ''scheduler-1''\<rparr>]"
    by code_simp
  have "\<exists>t. start_children ?f (demo_full []) ?s = (Inr (), t)"
    by (simp add: start_children_def defs followed_def answer_def launch_child_def note_state_def note_that_def monotonic_def
        demo_runner_def demo_supervisor_def Let_def)
  then obtain t where t: "start_children ?f (demo_full []) ?s = (Inr (), t)" by blast
  have "inj_on ?f (set (runner_definitions (demo_full [])))" by (simp add: defs)
  from supervisor_starts_all_runners [OF t _ _ this] t show ?thesis by (auto simp: demo_runner_def demo_supervisor_def)
qed

section \<open>Retention\<close>

lemma cleared_jobs:
  assumes "clear_finished_jobs ss cfg (Some older) path n (Some now) d = Inr (k, e)" and "distinct (map job_id (jobs d))"
    and "j \<in> set (jobs d)" and "j \<notin> set (jobs e)"
  shows "finished_before (now - seconds older) (backend_alias cfg) path j"
proof -
  let ?sel = "filter (finished_before (now - seconds older) (backend_alias cfg) path) (jobs d)"
  define ids where "ids = first_n n (map job_id (locked_queryset ss cfg TJob job_id
      (order_by (\<lambda>j. (the (finished_at j), job_id j)) ?sel)))"
  have "job_id j \<in> set ids"
    using assms(1,3,4)
    by (auto simp: clear_finished_jobs_def now_or_def Let_def ids_def [symmetric] delete_jobs_without_execution_state_def delete_jobs_def
        split: if_splits)
  then have "job_id j \<in> job_id ` set ?sel"
    unfolding ids_def by (auto dest!: first_n_subsetD set_locked_queryset [THEN subsetD])
  then obtain i where "i \<in> set ?sel" "job_id i = job_id j" by auto
  moreover from this have "i = j" using assms(2,3) by (auto simp: distinct_map inj_on_def)
  ultimately show ?thesis by simp
qed

text \<open>C21. Clearing finished jobs deletes only jobs of the backend that have finished before the cutoff: no unfinished job and no job within
  the retention time is lost.\<close>

theorem cleanup_keeps_recent_jobs:
  assumes "reachable L d" and "clear_finished_jobs ss cfg (Some older) path n (Some now) d = Inr (k, e)"
    and "j \<in> set (jobs d)" and "j \<notin> set (jobs e)"
  shows "job_backend_alias j = backend_alias cfg \<and> (\<exists>t. finished_at j = Some t \<and> t < now - seconds older)"
  using cleared_jobs [OF assms(2) _ assms(3,4)] reachable_inv [OF assms(1)]
  by (auto simp: queue_inv_def keys_ok_def finished_before_def split: option.splits)

theorem cleanup_keeps_recent_jobs_witness:
  "\<exists>k e. clear_finished_jobs (demo_session Postgresql) demo_config (Some 1) None 10 (Some 5000000) demo_completed = Inr (k, e)
    \<and> finished_columns (JInt 5) 11 (demo_job 1 0) \<notin> set (jobs e)
    \<and> (\<exists>t. finished_at (finished_columns (JInt 5) 11 (demo_job 1 0)) = Some t \<and> t < 5000000 - seconds 1)"
proof -
  let ?j = "finished_columns (JInt 5) 11 (demo_job 1 0)"
  have "run_operation (Complete (demo_session Postgresql) demo_config (JobId 1) (JInt 5) None) demo_claimed = Inr demo_completed"
    unfolding run_operation.simps demo_complete by (simp add: after_def)
  then have d: "reachable demo_limits demo_completed"
    by (rule reachable.onward [OF demo_reachable(3) step.commit [rotated]]) (simp add: current_argument_def)
  have j: "?j \<in> set (jobs demo_completed)" by (simp add: demo_completed_def demo_handed_over_def)
  have "\<exists>k e. clear_finished_jobs (demo_session Postgresql) demo_config (Some 1) None 10 (Some 5000000) demo_completed = Inr (k, e)
      \<and> ?j \<notin> set (jobs e)"
    by (simp add: demo_work_defs clear_finished_jobs_def now_or_def finished_before_def locked_queryset_def
        delete_jobs_without_execution_state_def ensure_job_ids_have_no_other_execution_state_def
        job_ids_with_other_execution_state_def delete_jobs_def finished_columns_def state_models_except_def
        execution_state_models_def has_state_def state_keys.simps first_n_def Let_def)
  then obtain k e where run: "clear_finished_jobs (demo_session Postgresql) demo_config (Some 1) None 10 (Some 5000000) demo_completed
      = Inr (k, e)" and gone: "?j \<notin> set (jobs e)" by blast
  from cleanup_keeps_recent_jobs [OF d run j gone] run gone show ?thesis by blast
qed

end
