(* ===== verification/Queue_State.thy ===== *)
theory Queue_State
  imports Runners
begin

text \<open>
  What users see of the queues: the states and summaries of \<^verbatim>\<open>queue_state.py\<close>, the read-only queries of
  \<^verbatim>\<open>reads/queues.py\<close>, \<^verbatim>\<open>reads/jobs.py\<close> and \<^verbatim>\<open>reads/processes.py\<close>, and the \<open>QueueInfo\<close> of \<^verbatim>\<open>api.py\<close>.
\<close>

section \<open>States\<close>

text \<open>\<open>QUEUE_STATE_DEFINITIONS\<close>: name and state in the order of their rank.\<close>

definition queue_state_definitions :: "(string \<times> job_status) list" where
  "queue_state_definitions = [(''ready'', Live Ready), (''scheduled'', Live Scheduled), (''claimed'', Live Claimed),
     (''blocked'', Live Blocked), (''failed'', Live Failed), (''finished'', Finished), (''invalid'', Invalid)]"

definition summary_state_definitions :: "(string \<times> job_status) list" where
  "summary_state_definitions = filter (\<lambda>(name, st). name \<noteq> ''invalid'') queue_state_definitions"

definition is_queue_state :: "string \<Rightarrow> bool" where
  "is_queue_state name \<longleftrightarrow> map_of queue_state_definitions name \<noteq> None"

definition job_status_query_filter :: "db \<Rightarrow> job_status \<Rightarrow> job \<Rightarrow> bool" where
  "job_status_query_filter d st j =
     (case st of Finished \<Rightarrow> finished_at j \<noteq> None | Live m \<Rightarrow> has_state m d (job_id j) | Invalid \<Rightarrow> True)"

text \<open>\<open>_state_query\<close>, also the condition of \<open>_filter_state_queryset\<close>.\<close>

definition state_query :: "db \<Rightarrow> job_status \<Rightarrow> job \<Rightarrow> bool" where
  "state_query d st j =
     (if st = Invalid then invalid_execution_state d j else job_status_query_filter d st j \<and> \<not> invalid_execution_state d j)"

definition filter_queue_state :: "db \<Rightarrow> job_status \<Rightarrow> job list \<Rightarrow> job list" where
  "filter_queue_state d st js = filter (state_query d st) js"

text \<open>The keys of \<open>query_order\<close>; a descending column is negated.  The row of the state is there for every job the
  filter lets through.\<close>

definition row_value :: "('r \<Rightarrow> uuid) \<Rightarrow> ('r \<Rightarrow> int) \<Rightarrow> 'r list \<Rightarrow> uuid \<Rightarrow> int" where
  "row_value jb f rows i = (case find (\<lambda>r. jb r = i) rows of Some r \<Rightarrow> f r | None \<Rightarrow> 0)"

definition query_order :: "db \<Rightarrow> job_status \<Rightarrow> job \<Rightarrow> int list" where
  "query_order d st j =
     (let i = job_id j; p = - job_priority j in
      case st of
        Live Ready \<Rightarrow> [p, row_value re_job (\<lambda>r. int (re_id r)) (ready_executions d) i]
      | Live Scheduled \<Rightarrow> [row_value se_job se_scheduled_at (scheduled_executions d) i, p,
          row_value se_job (\<lambda>r. int (se_id r)) (scheduled_executions d) i]
      | Live Claimed \<Rightarrow> [row_value ce_job ce_created_at (claimed_executions d) i, int i]
      | Live Blocked \<Rightarrow> [row_value be_job be_expires_at (blocked_executions d) i, p,
          row_value be_job (\<lambda>r. int (be_id r)) (blocked_executions d) i]
      | Live Failed \<Rightarrow> [- row_value fe_job fe_created_at (failed_executions d) i, int i]
      | Finished \<Rightarrow> [- (case finished_at j of Some t \<Rightarrow> t | None \<Rightarrow> 0), int i]
      | Invalid \<Rightarrow> [int i])"

definition queue_state_queryset :: "string \<Rightarrow> string \<Rightarrow> string \<Rightarrow> db \<Rightarrow> error + job list" where
  "queue_state_queryset al queue_name name d =
     (case map_of queue_state_definitions name of
        None \<Rightarrow> Inl (LookupError name)
      | Some st \<Rightarrow> Inr (order_by (query_order d st) (filter_queue_state d st
          (filter (\<lambda>j. job_backend_alias j = al \<and> job_queue_name j = queue_name) (jobs d)))))"

definition status_rank_expression :: "db \<Rightarrow> job \<Rightarrow> int" where
  "status_rank_expression d j =
     (case find (\<lambda>i. state_query d (snd (queue_state_definitions ! i)) j) [0..<length queue_state_definitions] of
        Some i \<Rightarrow> int i | None \<Rightarrow> 99)"

section \<open>Summaries\<close>

record state_summary =
  qs_queue_name :: string
  qs_counts :: "(string \<times> nat) list"
  qs_oldest_ready_at :: "time option"
  qs_oldest_scheduled_at :: "time option"
  qs_oldest_blocked_at :: "time option"

definition empty_queue_state_summary :: "string \<Rightarrow> state_summary" where
  "empty_queue_state_summary queue_name =
     \<lparr>qs_queue_name = queue_name, qs_counts = map (\<lambda>(name, st). (name, 0)) summary_state_definitions,
       qs_oldest_ready_at = None, qs_oldest_scheduled_at = None, qs_oldest_blocked_at = None\<rparr>"

type_synonym summaries = "(string \<times> state_summary) list"

definition summary_values :: "summaries \<Rightarrow> string \<Rightarrow> state_summary" where
  "summary_values rows queue_name =
     (case map_of rows queue_name of Some s \<Rightarrow> s | None \<Rightarrow> empty_queue_state_summary queue_name)"

fun put_summary :: "string \<Rightarrow> state_summary \<Rightarrow> summaries \<Rightarrow> summaries" where
  "put_summary q s [] = [(q, s)]"
| "put_summary q s ((q', s') # rows) = (if q' = q then (q, s) # rows else (q', s') # put_summary q s rows)"

definition put_count :: "string \<Rightarrow> nat \<Rightarrow> state_summary \<Rightarrow> state_summary" where
  "put_count name n s = s\<lparr>qs_counts := map (\<lambda>(k, v). if k = name then (k, n) else (k, v)) (qs_counts s)\<rparr>"

definition oldest :: "time list \<Rightarrow> time option" where
  "oldest ts = (if ts = [] then None else Some (foldl min (hd ts) (tl ts)))"

text \<open>\<open>queryset.values("queue_name").annotate(...)\<close>: one row for each queue name; \<open>extra\<close> takes over the oldest instant.\<close>

definition merge_summary ::
  "string \<Rightarrow> ('r \<Rightarrow> string) \<Rightarrow> ('r list \<Rightarrow> state_summary \<Rightarrow> state_summary) \<Rightarrow> 'r list \<Rightarrow> summaries \<Rightarrow> summaries" where
  "merge_summary name queue_of extra found rows =
     fold (\<lambda>q rows.
         let own = filter (\<lambda>r. queue_of r = q) found
         in put_summary q (extra own (put_count name (length own) (summary_values rows q))) rows)
       (remdups (map queue_of found)) rows"

definition wanted :: "string option \<Rightarrow> string \<Rightarrow> bool" where
  "wanted queue_name q = (case queue_name of None \<Rightarrow> True | Some n \<Rightarrow> q = n)"

definition coalesced :: "ready_execution \<Rightarrow> time" where
  "coalesced r = (case re_latency_started_at r of Some t \<Rightarrow> t | None \<Rightarrow> re_created_at r)"

definition merge_ready_summary :: "string \<Rightarrow> string option \<Rightarrow> db \<Rightarrow> summaries \<Rightarrow> summaries" where
  "merge_ready_summary al queue_name d =
     merge_summary ''ready'' re_queue_name (\<lambda>rs s. s\<lparr>qs_oldest_ready_at := oldest (map coalesced rs)\<rparr>)
       (filter (\<lambda>r. re_backend_alias r = al \<and> wanted queue_name (re_queue_name r)) (ready_executions d))"

definition merge_scheduled_summary :: "string \<Rightarrow> string option \<Rightarrow> db \<Rightarrow> summaries \<Rightarrow> summaries" where
  "merge_scheduled_summary al queue_name d =
     merge_summary ''scheduled'' se_queue_name (\<lambda>rs s. s\<lparr>qs_oldest_scheduled_at := oldest (map se_scheduled_at rs)\<rparr>)
       (filter (\<lambda>r. se_backend_alias r = al \<and> wanted queue_name (se_queue_name r)) (scheduled_executions d))"

definition merge_blocked_summary :: "string \<Rightarrow> string option \<Rightarrow> db \<Rightarrow> summaries \<Rightarrow> summaries" where
  "merge_blocked_summary al queue_name d =
     merge_summary ''blocked'' be_queue_name (\<lambda>rs s. s\<lparr>qs_oldest_blocked_at := oldest (map be_expires_at rs)\<rparr>)
       (filter (\<lambda>r. be_backend_alias r = al \<and> wanted queue_name (be_queue_name r)) (blocked_executions d))"

text \<open>Claimed and failed rows have the queue of their job.\<close>

definition merge_joined_summary :: "string \<Rightarrow> ('r \<Rightarrow> uuid) \<Rightarrow> 'r list \<Rightarrow> string \<Rightarrow> string option \<Rightarrow> db \<Rightarrow> summaries \<Rightarrow> summaries" where
  "merge_joined_summary name jb table al queue_name d =
     merge_summary name (\<lambda>(r, j). job_queue_name j) (\<lambda>_ s. s)
       (filter (\<lambda>(r, j). job_backend_alias j = al \<and> wanted queue_name (job_queue_name j)) (with_jobs d jb table))"

definition merge_claimed_summary :: "string \<Rightarrow> string option \<Rightarrow> db \<Rightarrow> summaries \<Rightarrow> summaries" where
  "merge_claimed_summary al queue_name d = merge_joined_summary ''claimed'' ce_job (claimed_executions d) al queue_name d"

definition merge_failed_summary :: "string \<Rightarrow> string option \<Rightarrow> db \<Rightarrow> summaries \<Rightarrow> summaries" where
  "merge_failed_summary al queue_name d = merge_joined_summary ''failed'' fe_job (failed_executions d) al queue_name d"

definition merge_finished_summary :: "string \<Rightarrow> string option \<Rightarrow> db \<Rightarrow> summaries \<Rightarrow> summaries" where
  "merge_finished_summary al queue_name d =
     merge_summary ''finished'' job_queue_name (\<lambda>_ s. s)
       (filter (\<lambda>j. job_backend_alias j = al \<and> finished_at j \<noteq> None \<and> wanted queue_name (job_queue_name j)) (jobs d))"

definition char_codes :: "string \<Rightarrow> nat list" where
  "char_codes s = map of_char s"

definition state_table_summaries_by_queue :: "string \<Rightarrow> string option \<Rightarrow> db \<Rightarrow> summaries" where
  "state_table_summaries_by_queue al queue_name d =
     order_by (\<lambda>(q, s). char_codes q)
       (merge_finished_summary al queue_name d (merge_failed_summary al queue_name d (merge_claimed_summary al queue_name d
         (merge_blocked_summary al queue_name d (merge_scheduled_summary al queue_name d
           (merge_ready_summary al queue_name d []))))))"

definition queue_state_summary :: "string \<Rightarrow> string \<Rightarrow> db \<Rightarrow> state_summary" where
  "queue_state_summary al queue_name d =
     (case map_of (state_table_summaries_by_queue al (Some queue_name) d) queue_name of
        Some s \<Rightarrow> s | None \<Rightarrow> empty_queue_state_summary queue_name)"

definition summary_count :: "state_summary \<Rightarrow> string \<Rightarrow> nat" where
  "summary_count s name = (case map_of (qs_counts s) name of Some n \<Rightarrow> n | None \<Rightarrow> 0)"

section \<open>Queues\<close>

definition ready_rows :: "string \<Rightarrow> string \<Rightarrow> db \<Rightarrow> ready_execution list" where
  "ready_rows al queue_name d = filter (\<lambda>r. re_backend_alias r = al \<and> re_queue_name r = queue_name) (ready_executions d)"

definition queue_ready_count :: "string \<Rightarrow> string \<Rightarrow> db \<Rightarrow> nat" where
  "queue_ready_count al queue_name d = length (ready_rows al queue_name d)"

definition oldest_ready_at_for_queue :: "string \<Rightarrow> string \<Rightarrow> db \<Rightarrow> time option" where
  "oldest_ready_at_for_queue al queue_name d = oldest (map coalesced (ready_rows al queue_name d))"

definition queue_is_paused :: "string \<Rightarrow> string \<Rightarrow> db \<Rightarrow> bool" where
  "queue_is_paused al queue_name d =
     list_ex (\<lambda>p. pause_backend_alias p = al \<and> pause_queue_name p = queue_name) (pauses d)"

text \<open>A paused or empty queue has no latency; clocks that disagree do not make it negative.\<close>

definition queue_latency_seconds :: "time \<Rightarrow> bool \<Rightarrow> time option \<Rightarrow> rat option" where
  "queue_latency_seconds now paused oldest_ready_at =
     (if paused then None else map_option (\<lambda>t. max (total_seconds (now - t)) 0) oldest_ready_at)"

definition live_processes_for_backend :: "string \<Rightarrow> string \<Rightarrow> time \<Rightarrow> db \<Rightarrow> process list" where
  "live_processes_for_backend al kind cutoff d =
     filter (\<lambda>p. cutoff \<le> proc_last_heartbeat_at p) (filter (\<lambda>p. proc_kind p = kind \<and> proc_backend_alias p = al) (processes d))"

text \<open>The selectors of a worker are in the metadata of its row; a false value stands for every queue.\<close>

definition json_strings :: "json list \<Rightarrow> string list option" where
  "json_strings vs = those (map (\<lambda>v. case v of JStr s \<Rightarrow> Some s | _ \<Rightarrow> None) vs)"

definition worker_queue_selectors :: "process \<Rightarrow> selectors option" where
  "worker_queue_selectors worker =
     (case (case proc_metadata worker of JNull \<Rightarrow> Some [] | JObject ps \<Rightarrow> Some ps | _ \<Rightarrow> None) of
        None \<Rightarrow> None
      | Some metadata \<Rightarrow>
          let queues = (case map_of metadata ''queues'' of None \<Rightarrow> JNull | Some v \<Rightarrow> v)
          in if \<not> json_truthy queues then Some (SelTuple [''*''])
             else case queues of
               JStr s \<Rightarrow> Some (SelStr s)
             | JList vs \<Rightarrow> map_option SelTuple (json_strings vs)
             | _ \<Rightarrow> None)"

definition worker_matches_queue :: "string \<Rightarrow> process \<Rightarrow> bool" where
  "worker_matches_queue queue_name worker =
     (case worker_queue_selectors worker of None \<Rightarrow> False | Some s \<Rightarrow> queue_matches_selectors queue_name s)"

record queue_snapshot =
  snap_name :: string
  snap_counts :: "(string \<times> nat) list"
  snap_paused :: bool
  snap_latency_seconds :: "rat option"
  snap_oldest_scheduled_at :: "time option"
  snap_oldest_blocked_at :: "time option"
  snap_live_worker_count :: nat

definition queue_snapshot_of :: "string \<Rightarrow> time \<Rightarrow> state_summary \<Rightarrow> bool \<Rightarrow> process list \<Rightarrow> queue_snapshot" where
  "queue_snapshot_of queue_name now s paused live_workers =
     \<lparr>snap_name = queue_name, snap_counts = map (\<lambda>(name, st). (name @ ''_count'', summary_count s name)) summary_state_definitions,
       snap_paused = paused, snap_latency_seconds = queue_latency_seconds now paused (qs_oldest_ready_at s),
       snap_oldest_scheduled_at = qs_oldest_scheduled_at s, snap_oldest_blocked_at = qs_oldest_blocked_at s,
       snap_live_worker_count = count_if (worker_matches_queue queue_name) live_workers\<rparr>"

definition queue_rows :: "string \<Rightarrow> time \<Rightarrow> time \<Rightarrow> db \<Rightarrow> queue_snapshot list" where
  "queue_rows al now process_cutoff d =
     (let summaries = state_table_summaries_by_queue al None d;
          paused = map pause_queue_name (filter (\<lambda>p. pause_backend_alias p = al) (pauses d));
          recurring = map rt_queue_name (filter (\<lambda>t. rt_backend_alias t = al) (recurring_tasks d));
          live_workers = live_processes_for_backend al ''Worker'' process_cutoff d
      in map (\<lambda>q. queue_snapshot_of q now (summary_values summaries q) (q \<in> set paused) live_workers)
           (order_by char_codes (remdups (map fst summaries @ paused @ recurring))))"

section \<open>Jobs and processes\<close>

record failed_job_metrics =
  fm_count :: nat
  fm_oldest_created_at :: "time option"
  fm_oldest_age_seconds :: "rat option"
  fm_retention_seconds :: "int option"
  fm_over_retention_count :: nat
  fm_oldest_over_retention_created_at :: "time option"
  fm_oldest_over_retention_age_seconds :: "rat option"

definition age_seconds :: "time \<Rightarrow> time option \<Rightarrow> rat option" where
  "age_seconds now timestamp = map_option (\<lambda>t. max (total_seconds (now - t)) 0) timestamp"

definition failed_job_metrics_of :: "string \<Rightarrow> time \<Rightarrow> int option \<Rightarrow> db \<Rightarrow> failed_job_metrics" where
  "failed_job_metrics_of al now retention d =
     (let rows = map fst (filter (\<lambda>(f, j). job_backend_alias j = al) (with_jobs d fe_job (failed_executions d)));
          over = (case retention of None \<Rightarrow> [] | Some s \<Rightarrow> filter (\<lambda>f. fe_created_at f < now - seconds s) rows);
          first = oldest (map fe_created_at rows); first_over = oldest (map fe_created_at over)
      in \<lparr>fm_count = length rows, fm_oldest_created_at = first, fm_oldest_age_seconds = age_seconds now first,
           fm_retention_seconds = retention, fm_over_retention_count = length over,
           fm_oldest_over_retention_created_at = first_over, fm_oldest_over_retention_age_seconds = age_seconds now first_over\<rparr>)"

definition filter_process_status :: "process list \<Rightarrow> string \<Rightarrow> time \<Rightarrow> process list" where
  "filter_process_status ps wanted_status cutoff =
     (if wanted_status = ''live'' then filter (\<lambda>p. cutoff \<le> proc_last_heartbeat_at p) ps
      else if wanted_status = ''stale'' then filter (\<lambda>p. proc_last_heartbeat_at p < cutoff) ps else ps)"

definition has_live_processes :: "string \<Rightarrow> time \<Rightarrow> db \<Rightarrow> bool" where
  "has_live_processes al cutoff d \<longleftrightarrow>
     filter_process_status (filter (\<lambda>p. proc_backend_alias p = al) (processes d)) ''live'' cutoff \<noteq> []"

section \<open>The public interface to a queue\<close>

text \<open>\<open>QueueInfo\<close>, with the snapshot it may have been made from.\<close>

record queue_info =
  qi_queue_name :: string
  qi_backend_alias :: string
  qi_snapshot :: "queue_snapshot option"

definition queue_info_size :: "queue_info \<Rightarrow> db \<Rightarrow> nat" where
  "queue_info_size q d =
     (case qi_snapshot q of
        Some s \<Rightarrow> (case map_of (snap_counts s) ''ready_count'' of Some n \<Rightarrow> n | None \<Rightarrow> 0)
      | None \<Rightarrow> queue_ready_count (qi_backend_alias q) (qi_queue_name q) d)"

definition queue_info_latency :: "queue_info \<Rightarrow> db \<Rightarrow> rat option \<times> db" where
  "queue_info_latency q d =
     (case qi_snapshot q of
        Some s \<Rightarrow> (if snap_latency_seconds s = None \<and> \<not> snap_paused s then Some 0 else snap_latency_seconds s, d)
      | None \<Rightarrow>
          if queue_is_paused (qi_backend_alias q) (qi_queue_name q) d then (None, d)
          else
            let (now, d) = timezone_now d
            in (case queue_latency_seconds now False (oldest_ready_at_for_queue (qi_backend_alias q) (qi_queue_name q) d) of
                  None \<Rightarrow> Some 0 | Some s \<Rightarrow> Some s, d))"

definition queue_info_paused :: "queue_info \<Rightarrow> db \<Rightarrow> bool" where
  "queue_info_paused q d =
     (case qi_snapshot q of Some s \<Rightarrow> snap_paused s | None \<Rightarrow> queue_is_paused (qi_backend_alias q) (qi_queue_name q) d)"

definition queue_info_pause :: "backend_config \<Rightarrow> queue_info \<Rightarrow> db \<Rightarrow> queue_info \<times> db" where
  "queue_info_pause cfg q d = (q\<lparr>qi_snapshot := None\<rparr>, pause_queue cfg (qi_queue_name q) d)"

definition queue_info_resume :: "backend_config \<Rightarrow> queue_info \<Rightarrow> db \<Rightarrow> queue_info \<times> db" where
  "queue_info_resume cfg q d = (q\<lparr>qi_snapshot := None\<rparr>, snd (resume_queue cfg (qi_queue_name q) None d))"

text \<open>\<open>clear\<close> discards batches until one is empty: every batch is a transaction of its own, so that an exception
  leaves what the earlier batches did.  \<open>None\<close> is a loop that has not ended within the fuel.\<close>

fun clear_loop ::
  "nat \<Rightarrow> session \<Rightarrow> backend_config \<Rightarrow> string \<Rightarrow> int \<Rightarrow> nat \<Rightarrow> db \<Rightarrow> ((error + nat) \<times> db) option" where
  "clear_loop 0 ss cfg q n deleted d = None"
| "clear_loop (Suc fuel) ss cfg q n deleted d =
     (case discard_ready_jobs_for_queue ss cfg q n d of
        Inl e \<Rightarrow> Some (Inl e, d)
      | Inr (k, e) \<Rightarrow> if k = 0 then Some (Inr deleted, e) else clear_loop fuel ss cfg q n (deleted + k) e)"

definition queue_info_clear :: "session \<Rightarrow> backend_config \<Rightarrow> int \<Rightarrow> queue_info \<Rightarrow> db \<Rightarrow> ((error + nat) \<times> queue_info \<times> db) option" where
  "queue_info_clear ss cfg n q d =
     map_option (\<lambda>(r, e). (r, case r of Inl _ \<Rightarrow> q | Inr _ \<Rightarrow> q\<lparr>qi_snapshot := None\<rparr>, e))
       (clear_loop (Suc (length (jobs d))) ss cfg (qi_queue_name q) n 0 d)"

definition queue_info_all :: "string \<Rightarrow> time \<Rightarrow> time \<Rightarrow> db \<Rightarrow> queue_info list" where
  "queue_info_all al now cutoff d =
     map (\<lambda>row. \<lparr>qi_queue_name = snap_name row, qi_backend_alias = al, qi_snapshot = Some row\<rparr>) (queue_rows al now cutoff d)"

end
