(* ===== verification/Queue_State_Facts.thy ===== *)
theory Queue_State_Facts
  imports Queue_State Worker_Facts
begin

text \<open>
  The filters of the queue states agree with the status of a job, a summary counts the rows of a queue, and clearing a queue
  ends.
\<close>

section \<open>Filters and status\<close>

lemma pairs_of_states:
  "list_ex (\<lambda>(a, b). P a \<and> P b) (pairs_of execution_state_models) \<longleftrightarrow> 1 < length (filter P execution_state_models)"
  by (simp add: execution_state_models_def)

lemma invalid_status: "invalid_execution_state d j \<longleftrightarrow> status d j = Some Invalid"
proof -
  have "list_ex (\<lambda>m. finished_at j \<noteq> None \<and> has_state m d (job_id j)) execution_state_models
      \<longleftrightarrow> finished_at j \<noteq> None \<and> live_execution_states d j \<noteq> []"
    by (auto simp: live_execution_states_def list_ex_iff filter_empty_conv)
  then show ?thesis
    unfolding invalid_execution_state_def pairs_of_states status_def live_execution_states_def Let_def
    by (auto split: list.split)
qed

lemma status_states:
  assumes "status d j \<noteq> Some Invalid"
  shows "status d j = Some st \<longleftrightarrow> st \<noteq> Invalid \<and> job_status_query_filter d st j"
proof -
  let ?live = "live_execution_states d j"
  have mem: "has_state m d (job_id j) \<longleftrightarrow> m \<in> set ?live" for m
    by (cases m) (simp_all add: live_execution_states_def execution_state_models_def)
  have "length ?live \<le> 1" "finished_at j \<noteq> None \<Longrightarrow> ?live = []"
    using assms by (auto simp: status_def Let_def split: if_splits list.splits)
  then show ?thesis
    using assms by (cases ?live; cases st) (auto simp: status_def job_status_query_filter_def mem Let_def split: if_splits)
qed

lemma state_query_status: "state_query d st j \<longleftrightarrow> status d j = Some st"
  by (cases "status d j = Some Invalid") (auto simp: state_query_def invalid_status status_states)

section \<open>Clearing a queue\<close>

lemma those_length: "those xs = Some ys \<Longrightarrow> length ys = length xs"
  by (induction xs arbitrary: ys) (auto split: option.splits)

lemma for_each_release_jobs:
  "for_each (\<lambda>j. release_concurrency_slot ss cfg j None) js d = Inr e \<Longrightarrow> jobs e = jobs d"
proof (induction js arbitrary: d)
  case (Cons j js)
  then obtain c where "release_concurrency_slot ss cfg j None d = Inr c"
    "for_each (\<lambda>j. release_concurrency_slot ss cfg j None) js c = Inr e" by auto
  with Cons.IH release_aside show ?case by (metis aside_def)
qed simp

lemma discard_rows_jobs:
  assumes "discard_rows ss cfg m pk release rows d = Inr (k, e)" and "k \<noteq> 0"
  shows "length (jobs e) < length (jobs d)"
proof -
  from assms have ne: "rows \<noteq> []" by (auto simp: discard_rows_def)
  obtain rows' c where con: "consume_selected_rows ss m (\<lambda>x. pk (fst x)) rows d = (rows', c)" by force
  let ?ids = "map (\<lambda>x. job_id (snd x)) rows'"
  let ?c = "snd (delete_jobs (set ?ids) c)"
  from assms ne con obtain js where js: "those (map (find_job c) ?ids) = Some js" "k = length js"
    and e: "(if release then for_each (\<lambda>j. release_concurrency_slot ss cfg j None) js ?c else Inr ?c) = Inr e"
    by (auto simp: discard_rows_def Let_def split: if_splits option.splits)
  have "jobs e = filter (\<lambda>j. job_id j \<notin> set ?ids) (jobs c)"
    using e for_each_release_jobs [of ss cfg js ?c e] by (auto simp: delete_jobs_def split: if_splits)
  moreover have "rows' \<noteq> []" using js assms(2) by auto
  then obtain x xs where x: "rows' = x # xs" by (cases rows') auto
  then have "\<exists>j. find_job c (job_id (snd x)) = Some j" using js(1) by (auto split: option.splits)
  then obtain j where "j \<in> set (jobs c)" "job_id j = job_id (snd x)" using find_job_Some by blast
  then have "length (filter (\<lambda>j. job_id j \<notin> set ?ids) (jobs c)) < length (jobs c)"
    by (intro length_filter_less [of j]) (auto simp: x)
  ultimately show ?thesis using consume_selected_jobs [OF con] by simp
qed

lemma discard_nothing:
  assumes inv: "committed L d" and "discard_ready_jobs_for_queue ss cfg q n d = Inr (0, e)" and "0 < n"
  shows "e = d \<and> list_all (\<lambda>r. locked ss TReady (re_id r)) (ready_rows (backend_alias cfg) q d)"
proof -
  note inv' = inv [unfolded committed_def]
  let ?all = "with_jobs d re_job (order_by re_id (filter (\<lambda>r. re_backend_alias r = backend_alias cfg \<and> re_queue_name r = q) (ready_executions d)))"
  define rows where "rows = first_n n (locked_queryset ss cfg TReady (\<lambda>x. re_id (fst x)) ?all)"
  have sel: "selection re_id re_job (ready_executions d) d rows"
    unfolding rows_def by (intro selection_first_n selection_locked ready.selection_query [OF inv'])
  have run: "discard_rows ss cfg Ready re_id True rows d = Inr (0, e)"
    using assms(2) by (simp add: discard_ready_jobs_for_queue_def discard_ready_query_def rows_def)
  have rows: "rows = []"
  proof (rule ccontr)
    assume ne: "rows \<noteq> []"
    obtain rows' c where con: "consume_selected_rows ss Ready (\<lambda>x. re_id (fst x)) rows d = (rows', c)" by force
    have "rows' = rows" using ready.consumed_selection(1) [OF inv' sel con] .
    with run ne con show False
      by (auto simp: discard_rows_def Let_def split: option.splits if_splits dest: those_length)
  qed
  then have none: "locked_queryset ss cfg TReady (\<lambda>x. re_id (fst x)) ?all = []"
    using assms(3) by (simp add: rows_def first_n_def)
  have "locked ss TReady (re_id r)" if r: "r \<in> set (ready_rows (backend_alias cfg) q d)" for r
  proof -
    have mem: "(re_id r, re_job r) \<in> set (state_keys Ready d)" using r by (auto simp: ready_rows_def state_keys.simps)
    then have "re_job r \<in> job_ids d" using row_job_live(1) [OF inv'] by blast
    then obtain j where "find_job d (re_job r) = Some j"
      by (cases "find_job d (re_job r)") (auto simp: job_ids_def find_job_def find_None_iff)
    then have "(r, j) \<in> set ?all" using r by (auto simp: set_with_jobs ready_rows_def)
    with none show ?thesis by (auto simp: locked_queryset_def filter_empty_conv split: if_splits)
  qed
  moreover have "e = d" using run rows by (simp add: discard_rows_def)
  ultimately show ?thesis by (simp add: list_all_iff)
qed

text \<open>With fuel for every job and one round more, the loop ends; what it leaves in the queue is held by others.\<close>

lemma clear_loop_ends:
  assumes "reachable L d" and "0 < n" and "length (jobs d) < fuel"
  shows "\<exists>r e. clear_loop fuel ss cfg q n k d = Some (r, e) \<and> reachable L e
    \<and> (case r of Inl _ \<Rightarrow> True | Inr _ \<Rightarrow> list_all (\<lambda>x. locked ss TReady (re_id x)) (ready_rows (backend_alias cfg) q e))"
  using assms
proof (induction fuel arbitrary: d k)
  case (Suc fuel)
  show ?case
  proof (cases "discard_ready_jobs_for_queue ss cfg q n d")
    case (Inl err)
    with Suc.prems(1) show ?thesis by simp
  next
    case (Inr x)
    obtain i e where x: "x = (i, e)" by (cases x)
    have "run_operation (Discard_ready_queue ss cfg q n) d = Inr e" using Inr x by (simp add: after_def)
    then have e: "reachable L e" by (intro reachable.onward [OF Suc.prems(1)] step.commit [of L "Discard_ready_queue ss cfg q n"]) simp_all
    show ?thesis
    proof (cases "i = 0")
      case True
      with discard_nothing [OF reachable_committed [OF Suc.prems(1)] _ Suc.prems(2), of ss cfg q e] Inr x e show ?thesis by simp
    next
      case False
      have "length (jobs e) < length (jobs d)"
        using Inr x False by (intro discard_rows_jobs) (simp_all add: discard_ready_jobs_for_queue_def discard_ready_query_def)
      then have "length (jobs e) < fuel" using Suc.prems(3) by simp
      from Suc.IH [OF e Suc.prems(2) this] show ?thesis using Inr x False by simp
    qed
  qed
qed simp

lemma queue_clear_ends:
  assumes "reachable L d" and "0 < n"
  shows "\<exists>r q' e. queue_info_clear ss cfg n q d = Some (r, q', e) \<and> reachable L e
    \<and> (case r of Inl _ \<Rightarrow> True | Inr _ \<Rightarrow> list_all (\<lambda>x. locked ss TReady (re_id x)) (ready_rows (backend_alias cfg) (qi_queue_name q) e))"
  using clear_loop_ends [OF assms, of "Suc (length (jobs d))" ss cfg "qi_queue_name q" 0] by (auto simp: queue_info_clear_def)

section \<open>Summaries\<close>

lemma map_of_put_summary: "map_of (put_summary q s rows) = (map_of rows)(q \<mapsto> s)"
  by (induction rows) auto

lemma keys_put_summary: "map fst (put_summary q s rows) = (if q \<in> fst ` set rows then map fst rows else map fst rows @ [q])"
proof (induction rows)
  case (Cons p rows)
  then show ?case by (cases p) simp
qed simp

lemma summary_values_put: "summary_values (put_summary q s rows) p = (if p = q then s else summary_values rows p)"
  by (simp add: summary_values_def map_of_put_summary)

lemma fold_summaries:
  "distinct qs \<Longrightarrow> summary_values (fold (\<lambda>q rows. put_summary q (g q (summary_values rows q)) rows) qs rows) p =
     (if p \<in> set qs then g p (summary_values rows p) else summary_values rows p)"
  by (induction qs arbitrary: rows) (auto simp: summary_values_put)

lemma fold_summaries_keys:
  "distinct (map fst rows) \<Longrightarrow> distinct (map fst (fold (\<lambda>q rows. put_summary q (g q rows) rows) qs rows))"
  by (induction qs arbitrary: rows) (simp_all add: keys_put_summary)

lemma merge_summary_values:
  "summary_values (merge_summary name queue_of extra found rows) p =
     (let own = filter (\<lambda>r. queue_of r = p) found
      in if own = [] then summary_values rows p else extra own (put_count name (length own) (summary_values rows p)))"
  by (simp add: merge_summary_def fold_summaries [where g = "\<lambda>q s. extra (filter (\<lambda>r. queue_of r = q) found)
      (put_count name (length (filter (\<lambda>r. queue_of r = q) found)) s)"] filter_empty_conv image_iff Let_def) metis

lemma merge_summary_keys: "distinct (map fst rows) \<Longrightarrow> distinct (map fst (merge_summary name queue_of extra found rows))"
  unfolding merge_summary_def Let_def by (rule fold_summaries_keys)

lemma summary_count_put:
  "summary_count (put_count name n s) other = (if other = name \<and> name \<in> fst ` set (qs_counts s) then n else summary_count s other)"
proof -
  have "map_of (map (\<lambda>(k, v). if k = name then (k, n) else (k, v)) ps) other =
      (if other = name \<and> name \<in> fst ` set ps then Some n else map_of ps other)" for ps
  proof (induction ps)
    case (Cons p ps)
    then show ?case by (cases p; cases "other = name") simp_all
  qed simp
  then show ?thesis by (simp add: summary_count_def put_count_def)
qed

lemma put_count_fields [simp]:
  "fst ` set (qs_counts (put_count name n s)) = fst ` set (qs_counts s)" "qs_oldest_ready_at (put_count name n s) = qs_oldest_ready_at s"
  by (force simp: put_count_def image_iff)+

lemma map_of_sorted:
  assumes "distinct (map fst ps)"
  shows "map_of (sort_key f ps) k = map_of ps k"
proof -
  have "map_of (sort_key f ps) k = Some v \<longleftrightarrow> map_of ps k = Some v" for v
    using assms by (simp add: map_of_eq_Some_iff distinct_map_sort_key)
  then show ?thesis by (metis not_None_eq)
qed

text \<open>The count and the oldest instant of the ready rows pass through the later merges.\<close>

definition ready_part :: "state_summary \<Rightarrow> nat \<times> time option \<times> string set" where
  "ready_part s = (summary_count s ''ready'', qs_oldest_ready_at s, fst ` set (qs_counts s))"

lemma ready_part_put: "name \<noteq> ''ready'' \<Longrightarrow> ready_part (put_count name n s) = ready_part s"
  by (simp add: ready_part_def summary_count_put)

lemma merge_other:
  assumes "name \<noteq> ''ready''" and "\<And>rs s. ready_part (extra rs s) = ready_part s"
  shows "ready_part (summary_values (merge_summary name queue_of extra found rows) p) = ready_part (summary_values rows p)"
  by (simp add: merge_summary_values Let_def assms(2) ready_part_put [OF assms(1)])

lemma empty_ready_part: "ready_part (empty_queue_state_summary q) = (0, None, {''ready'', ''scheduled'', ''claimed'', ''blocked'', ''failed'', ''finished''})"
  by (simp add: ready_part_def empty_queue_state_summary_def summary_state_definitions_def queue_state_definitions_def summary_count_def)

lemma ready_part_fields [simp]:
  "ready_part (s\<lparr>qs_oldest_scheduled_at := t\<rparr>) = ready_part s" "ready_part (s\<lparr>qs_oldest_blocked_at := t\<rparr>) = ready_part s"
  by (simp_all add: ready_part_def summary_count_def)

lemma summaries_ready:
  assumes "wanted queue_name q"
  shows "summary_count (summary_values (state_table_summaries_by_queue al queue_name d) q) ''ready'' = queue_ready_count al q d
    \<and> qs_oldest_ready_at (summary_values (state_table_summaries_by_queue al queue_name d) q) = oldest_ready_at_for_queue al q d"
proof -
  let ?rows = "merge_finished_summary al queue_name d (merge_failed_summary al queue_name d (merge_claimed_summary al queue_name d
         (merge_blocked_summary al queue_name d (merge_scheduled_summary al queue_name d (merge_ready_summary al queue_name d [])))))"
  have "distinct (map fst ?rows)"
    unfolding merge_finished_summary_def merge_failed_summary_def merge_claimed_summary_def merge_joined_summary_def
      merge_blocked_summary_def merge_scheduled_summary_def merge_ready_summary_def
    by (intro merge_summary_keys) simp
  then have sv: "summary_values (state_table_summaries_by_queue al queue_name d) q = summary_values ?rows q"
    by (simp add: summary_values_def state_table_summaries_by_queue_def map_of_sorted)
  let ?found = "filter (\<lambda>r. re_backend_alias r = al \<and> wanted queue_name (re_queue_name r)) (ready_executions d)"
  have own: "filter (\<lambda>r. re_queue_name r = q) ?found = ready_rows al q d"
    using assms by (auto simp: ready_rows_def intro!: filter_cong)
  have none: "summary_values [] q = empty_queue_state_summary q" by (simp add: summary_values_def)
  have "ready_part (summary_values ?rows q) = ready_part (summary_values (merge_ready_summary al queue_name d []) q)"
    unfolding merge_finished_summary_def merge_failed_summary_def merge_claimed_summary_def merge_joined_summary_def
      merge_blocked_summary_def merge_scheduled_summary_def
    by (simp add: merge_other)
  also have "\<dots> = (queue_ready_count al q d, oldest_ready_at_for_queue al q d, snd (snd (ready_part (empty_queue_state_summary q))))"
  proof (cases "ready_rows al q d = []")
    case True
    then have "summary_values (merge_ready_summary al queue_name d []) q = empty_queue_state_summary q"
      unfolding merge_ready_summary_def merge_summary_values own none Let_def by simp
    with True empty_ready_part [of q] show ?thesis
      by (simp add: queue_ready_count_def oldest_ready_at_for_queue_def oldest_def)
  next
    case False
    let ?s = "put_count ''ready'' (length (ready_rows al q d)) (empty_queue_state_summary q)"
    have "summary_values (merge_ready_summary al queue_name d []) q
        = ?s\<lparr>qs_oldest_ready_at := oldest (map coalesced (ready_rows al q d))\<rparr>"
      unfolding merge_ready_summary_def merge_summary_values own none Let_def using False by simp
    moreover have "summary_count (?s\<lparr>qs_oldest_ready_at := t\<rparr>) ''ready'' = summary_count ?s ''ready''" for t
      by (simp add: summary_count_def)
    moreover have "''ready'' \<in> fst ` set (qs_counts (empty_queue_state_summary q))"
      using empty_ready_part [of q] by (simp add: ready_part_def)
    ultimately show ?thesis
      by (simp add: ready_part_def summary_count_put queue_ready_count_def oldest_ready_at_for_queue_def)
  qed
  finally show ?thesis by (simp add: sv ready_part_def)
qed

text \<open>A queue seen through a snapshot and seen directly.\<close>

lemma snapshot_values:
  assumes "q \<in> set (queue_info_all al now cutoff d)"
  obtains s where "qi_snapshot q = Some s" "qi_backend_alias q = al"
    "map_of (snap_counts s) ''ready_count'' = Some (queue_ready_count al (qi_queue_name q) d)"
    "snap_paused s = queue_is_paused al (qi_queue_name q) d"
    "snap_latency_seconds s = queue_latency_seconds now (snap_paused s) (oldest_ready_at_for_queue al (qi_queue_name q) d)"
proof -
  from assms obtain name where q: "qi_queue_name q = name" "qi_backend_alias q = al"
    "qi_snapshot q = Some (queue_snapshot_of name now (summary_values (state_table_summaries_by_queue al None d) name)
       (name \<in> set (map pause_queue_name (filter (\<lambda>p. pause_backend_alias p = al) (pauses d))))
       (live_processes_for_backend al ''Worker'' cutoff d))"
    by (auto simp: queue_info_all_def queue_rows_def queue_snapshot_of_def Let_def)
  have "wanted None name" by (simp add: wanted_def)
  note ready = summaries_ready [OF this, of al d]
  have "map_of (snap_counts (queue_snapshot_of name now s p ws)) ''ready_count'' = Some (summary_count s ''ready'')" for s p ws
    by (simp add: queue_snapshot_of_def summary_state_definitions_def queue_state_definitions_def)
  then show ?thesis
    using ready q by (intro that [OF q(3)]) (auto simp: queue_snapshot_of_def queue_is_paused_def list_ex_iff image_iff)
qed

lemma snapshots_agree:
  assumes "q \<in> set (queue_info_all al now cutoff d)" and "shd (clock d) = now"
  shows "queue_info_size q d = queue_info_size (q\<lparr>qi_snapshot := None\<rparr>) d
    \<and> queue_info_paused q d = queue_info_paused (q\<lparr>qi_snapshot := None\<rparr>) d
    \<and> fst (queue_info_latency q d) = fst (queue_info_latency (q\<lparr>qi_snapshot := None\<rparr>) d)"
proof -
  obtain s where "qi_snapshot q = Some s" "qi_backend_alias q = al"
    "map_of (snap_counts s) ''ready_count'' = Some (queue_ready_count al (qi_queue_name q) d)"
    "snap_paused s = queue_is_paused al (qi_queue_name q) d"
    "snap_latency_seconds s = queue_latency_seconds now (snap_paused s) (oldest_ready_at_for_queue al (qi_queue_name q) d)"
    by (rule snapshot_values [OF assms(1)])
  with assms(2) show ?thesis
    by (auto simp: queue_info_size_def queue_info_paused_def queue_info_latency_def queue_latency_seconds_def timezone_now_def Let_def
      oldest_ready_at_for_queue_def ready_rows_def split: option.split)
qed

end
