(* ===== verification/Task_Results.thy ===== *)
theory Task_Results
  imports Queue_State_Facts
begin

text \<open>
  The task interface of Django on top of the queue: the results of \<^verbatim>\<open>task_results.py\<close> and the backend of \<^verbatim>\<open>backend.py\<close>.
  \<open>Task.using\<close>, the construction of a task that stands for one that cannot be imported, and the checks of the base class
  belong to Django and are parameters.
\<close>

section \<open>Results\<close>

datatype result_status = Result_ready | Result_running | Result_failed | Result_successful

record task_result =
  tr_task :: task
  tr_id :: uuid
  tr_status :: result_status
  tr_enqueued_at :: time
  tr_started_at :: "time option"
  tr_finished_at :: "time option"
  tr_last_attempted_at :: "time option"
  tr_args :: json
  tr_kwargs :: json
  tr_backend :: string
  tr_errors :: "(string \<times> string) list"
  tr_worker_ids :: "string list"
  tr_return_value :: "json option"

type_synonym task_binding = "task \<Rightarrow> int \<Rightarrow> string \<Rightarrow> time option \<Rightarrow> string \<Rightarrow> error + task"

definition bind_task_to_job :: "task_binding \<Rightarrow> task \<Rightarrow> job \<Rightarrow> error + task" where
  "bind_task_to_job using' t j =
     (if has_using t then using' t (job_priority j) (job_queue_name j) (scheduled_at j) (job_backend_alias j) else Inr t)"

definition task_for_job :: "session \<Rightarrow> task_binding \<Rightarrow> (job \<Rightarrow> error + task) \<Rightarrow> job \<Rightarrow> error + task" where
  "task_for_job ss using' unavailable j =
     and_then (case import_task ss (task_path j) of
         Inl (AttributeError _) \<Rightarrow> unavailable j
       | Inl (ImportError _) \<Rightarrow> unavailable j
       | r \<Rightarrow> r) (\<lambda>t. bind_task_to_job using' t j)"

text \<open>\<open>job.payload.get(...)\<close>: a payload that is not a mapping has no such attribute.\<close>

definition payload_member :: "job \<Rightarrow> string \<Rightarrow> json \<Rightarrow> error + json" where
  "payload_member j k v =
     (case payload j of
        JObject ps \<Rightarrow> Inr (case map_of ps k of Some x \<Rightarrow> x | None \<Rightarrow> v)
      | _ \<Rightarrow> Inl (AttributeError ''get''))"

definition build_task_result ::
  "task \<Rightarrow> job \<Rightarrow> result_status \<Rightarrow> time option \<Rightarrow> time option \<Rightarrow> time option \<Rightarrow> (string \<times> string) list \<Rightarrow> string list
     \<Rightarrow> error + task_result" where
  "build_task_result t j st started finished attempted errors worker_ids =
     and_then (payload_member j ''args'' (JList [])) (\<lambda>args.
     and_then (payload_member j ''kwargs'' (JObject [])) (\<lambda>kwargs.
       Inr \<lparr>tr_task = t, tr_id = job_id j, tr_status = st, tr_enqueued_at = job_created_at j, tr_started_at = started,
         tr_finished_at = finished, tr_last_attempted_at = attempted, tr_args = args, tr_kwargs = kwargs,
         tr_backend = job_backend_alias j, tr_errors = errors, tr_worker_ids = worker_ids,
         tr_return_value = (if st = Result_successful then Some (return_value j) else None)\<rparr>))"

fun status_name :: "job_status \<Rightarrow> string" where
  "status_name (Live Ready) = ''ready''"
| "status_name (Live Scheduled) = ''scheduled''"
| "status_name (Live Claimed) = ''claimed''"
| "status_name (Live Blocked) = ''blocked''"
| "status_name (Live Failed) = ''failed''"
| "status_name Finished = ''finished''"
| "status_name Invalid = ''invalid''"

fun joined :: "string \<Rightarrow> string list \<Rightarrow> string" where
  "joined sep [] = []"
| "joined sep [x] = x"
| "joined sep (x # xs) = x @ sep @ joined sep xs"

definition process_name :: "db \<Rightarrow> nat \<Rightarrow> string list" where
  "process_name d pk = map proc_name (filter (\<lambda>p. proc_id p = pk) (processes d))"

definition task_result_from_job ::
  "session \<Rightarrow> task_binding \<Rightarrow> (job \<Rightarrow> error + task) \<Rightarrow> job \<Rightarrow> db \<Rightarrow> error + task_result" where
  "task_result_from_job ss using' unavailable j d =
     and_then (task_for_job ss using' unavailable j) (\<lambda>t.
       if status d j = Some Invalid
       then build_task_result t j Result_failed None (Some (job_updated_at j)) None
              [(''dj_queue.exceptions.DjQueueError'',
                ''job has invalid execution state: '' @ joined '', '' (map status_name (execution_state_names d j)))] []
       else if status d j = Some (Live Failed)
       then (case find (\<lambda>f. fe_job f = job_id j) (failed_executions d) of
               None \<Rightarrow> Inl (AttributeError ''failed_execution'')
             | Some f \<Rightarrow> build_task_result t j Result_failed None (Some (fe_created_at f)) (Some (fe_created_at f))
                 [(fe_exception_class f, fe_traceback f)] [])
       else if status d j = Some (Live Claimed)
       then (case find (\<lambda>c. ce_job c = job_id j) (claimed_executions d) of
               None \<Rightarrow> Inl (AttributeError ''claimed_execution'')
             | Some c \<Rightarrow> build_task_result t j Result_running (Some (ce_created_at c)) (finished_at j) (Some (ce_created_at c)) []
                 (case ce_process c of None \<Rightarrow> [] | Some pk \<Rightarrow> process_name d pk))
       else build_task_result t j (if status d j = Some Finished then Result_successful else Result_ready) None (finished_at j) None [] [])"

definition task_result_from_enqueued_job :: "task_binding \<Rightarrow> job \<Rightarrow> task \<Rightarrow> bool \<Rightarrow> error + task_result" where
  "task_result_from_enqueued_job using' j t successful =
     and_then (bind_task_to_job using' t j) (\<lambda>t.
       build_task_result t j (if successful then Result_successful else Result_ready) None
         (if successful then finished_at j else None) None [] [])"

definition task_result_for_claimed_job :: "task \<Rightarrow> claimed_job \<Rightarrow> error + task_result" where
  "task_result_for_claimed_job t cj =
     build_task_result t (cj_job cj) Result_running (Some (cj_claimed_at cj)) None (Some (cj_claimed_at cj)) [] (cj_worker_ids cj)"

section \<open>The backend\<close>

text \<open>\<open>TaskResultDoesNotExist\<close> is an exception of Django.\<close>

datatype result_error = Task_result_does_not_exist uuid | Raised error

definition get_result ::
  "session \<Rightarrow> task_binding \<Rightarrow> (job \<Rightarrow> error + task) \<Rightarrow> string \<Rightarrow> uuid \<Rightarrow> db \<Rightarrow> result_error + task_result" where
  "get_result ss using' unavailable al i d =
     (case find (\<lambda>j. job_id j = i \<and> job_backend_alias j = al) (jobs d) of
        None \<Rightarrow> Inl (Task_result_does_not_exist i)
      | Some j \<Rightarrow> (case task_result_from_job ss using' unavailable j d of Inl e \<Rightarrow> Inl (Raised e) | Inr r \<Rightarrow> Inr r))"

text \<open>\<open>base_check\<close> is \<open>BaseTaskBackend.validate_task\<close>.\<close>

definition validate_task :: "(task \<Rightarrow> error + unit) \<Rightarrow> backend_config \<Rightarrow> task \<Rightarrow> error + unit" where
  "validate_task base_check cfg t =
     and_then (validate_queue_allowed cfg (t_queue_name t)) (\<lambda>_.
     and_then (validate_priority (t_priority t)) (\<lambda>_. base_check t))"

definition backend_enqueue ::
  "(task \<Rightarrow> error + unit) \<Rightarrow> session \<Rightarrow> task_binding \<Rightarrow> backend_config \<Rightarrow> task \<Rightarrow> pyval list \<Rightarrow> (string \<times> pyval) list \<Rightarrow> uuid \<Rightarrow> db
     \<Rightarrow> (error + task_result) \<times> db" where
  "backend_enqueue base_check ss using' cfg t args kwargs new_id d =
     (case and_then (validate_task base_check cfg t) (\<lambda>_. enqueue_job_with_dispatch ss cfg t args kwargs False new_id d) of
        Inl e \<Rightarrow> (Inl e, d)
      | Inr ((out, j), e) \<Rightarrow> (task_result_from_enqueued_job using' j t (out = DISCARDED), e))"

definition backend_enqueue_all ::
  "(task \<Rightarrow> error + unit) \<Rightarrow> session \<Rightarrow> task_binding \<Rightarrow> backend_config
     \<Rightarrow> ((task \<times> pyval list \<times> (string \<times> pyval) list) \<times> uuid) list \<Rightarrow> db \<Rightarrow> (error + task_result list) \<times> db" where
  "backend_enqueue_all base_check ss using' cfg calls d =
     (case and_then (for_each (\<lambda>((t, _), _) _. validate_task base_check cfg t) calls ()) (\<lambda>_. enqueue_jobs_bulk ss cfg calls False d) of
        Inl e \<Rightarrow> (Inl e, d)
      | Inr (rs, e) \<Rightarrow> (map_all (\<lambda>(j, t, out). task_result_from_enqueued_job using' j t (out = Some DISCARDED)) rs, e))"

section \<open>Results and states\<close>

lemma build_task_result_Inr:
  "build_task_result t j st started finished attempted errors ws = Inr r \<Longrightarrow>
     tr_id r = job_id j \<and> tr_status r = st \<and> tr_errors r = errors
     \<and> tr_return_value r = (if st = Result_successful then Some (return_value j) else None)"
  by (auto simp: build_task_result_def)

definition result_status_of :: "job_status option \<Rightarrow> result_status" where
  "result_status_of st = (case st of Some Finished \<Rightarrow> Result_successful | Some (Live Failed) \<Rightarrow> Result_failed
     | Some (Live Claimed) \<Rightarrow> Result_running | Some Invalid \<Rightarrow> Result_failed | _ \<Rightarrow> Result_ready)"

lemma result_reports_status:
  assumes "task_result_from_job ss using' unavailable j d = Inr r"
  shows "tr_id r = job_id j \<and> tr_status r = result_status_of (status d j)
    \<and> tr_return_value r = (if status d j = Some Finished then Some (return_value j) else None)
    \<and> (tr_errors r \<noteq> [] \<longleftrightarrow> status d j \<in> {Some Invalid, Some (Live Failed)})"
  using assms
  by (auto simp: task_result_from_job_def result_status_of_def split: if_splits option.splits job_status.splits state_model.splits
      dest!: build_task_result_Inr)

end
