(* ===== verification/Health.thy ===== *)
theory Health
  imports Task_Results
begin

text \<open>
  The checks of \<^verbatim>\<open>health.py\<close>: each returns the texts of the problems it finds.  The diagnostics of PostgreSQL's own tables
  are not modelled.
\<close>

section \<open>Checks\<close>

definition problem :: "nat \<Rightarrow> string \<Rightarrow> string list" where
  "problem n message = (if n = 0 then [] else [str_nat n @ '' '' @ message])"

definition metadata_member :: "json \<Rightarrow> string \<Rightarrow> json option" where
  "metadata_member metadata k = (case metadata of JObject ps \<Rightarrow> Some (case map_of ps k of Some v \<Rightarrow> v | None \<Rightarrow> JNull) | _ \<Rightarrow> None)"

text \<open>Python's \<open>==\<close> of a stored value with an integer: \<open>1\<close>, \<open>1.0\<close> and \<open>True\<close> are equal.\<close>

definition json_equals_int :: "json \<Rightarrow> int \<Rightarrow> bool" where
  "json_equals_int v n =
     (case v of JInt i \<Rightarrow> i = n | JBool b \<Rightarrow> (if b then 1 else 0) = n
      | JFloat m e \<Rightarrow> float_value (Finite m e) = of_int n | _ \<Rightarrow> False)"

definition process_health_problems :: "string \<Rightarrow> time \<Rightarrow> string option \<Rightarrow> db \<Rightarrow> string list" where
  "process_health_problems al cutoff required_version d =
     (let live = filter (\<lambda>p. proc_backend_alias p = al \<and> cutoff \<le> proc_last_heartbeat_at p) (processes d);
          incompatible = count_if (\<lambda>p. case metadata_member (proc_metadata p) ''rollout_protocol'' of
            None \<Rightarrow> True | Some v \<Rightarrow> \<not> json_equals_int v rollout_protocol_version) live
      in problem incompatible (''live processes use an incompatible rollout protocol; expected '' @ str_int rollout_protocol_version)
         @ (case required_version of
              None \<Rightarrow> []
            | Some version \<Rightarrow> problem (count_if (\<lambda>p. metadata_member (proc_metadata p) ''dj_queue_version'' \<noteq> Some (JStr version)) live)
                (''live processes do not run required dj_queue version '' @ version)))"

text \<open>The policy of a job is absent, or complete with a key that is not empty; in SQL a condition on a column that is NULL does
  not hold.\<close>

definition policy_absent :: "job \<Rightarrow> bool" where
  "policy_absent j \<longleftrightarrow> concurrency_limit j = None \<and> concurrency_duration j = None \<and> concurrency_on_conflict j = None"

definition policy_complete :: "job \<Rightarrow> bool" where
  "policy_complete j \<longleftrightarrow>
     (case concurrency_key j of None \<Rightarrow> False | Some k \<Rightarrow> k \<noteq> [])
     \<and> (case concurrency_limit j of None \<Rightarrow> False | Some n \<Rightarrow> 1 \<le> n) \<and> (case concurrency_duration j of None \<Rightarrow> False | Some n \<Rightarrow> 1 \<le> n)
     \<and> (case concurrency_on_conflict j of None \<Rightarrow> False | Some c \<Rightarrow> c \<in> {''block'', ''discard''})"

text \<open>A row belongs to a backend by its own column or by its job.\<close>

definition ownership_mismatches ::
  "('r \<Rightarrow> uuid) \<Rightarrow> ('r \<Rightarrow> string) \<Rightarrow> ('r \<Rightarrow> string) \<Rightarrow> 'r list \<Rightarrow> string \<Rightarrow> db \<Rightarrow> nat \<times> nat" where
  "ownership_mismatches jb backend_of queue_of table al d =
     (let rows = filter (\<lambda>(r, j). backend_of r = al \<or> job_backend_alias j = al) (with_jobs d jb table)
      in (count_if (\<lambda>(r, j). backend_of r \<noteq> job_backend_alias j) rows, count_if (\<lambda>(r, j). queue_of r \<noteq> job_queue_name j) rows))"

definition ownership_problems :: "string \<Rightarrow> nat \<times> nat \<Rightarrow> string list" where
  "ownership_problems label counts =
     problem (fst counts) (label @ '' execution rows have mismatched backend ownership'')
     @ problem (snd counts) (label @ '' execution rows have mismatched queue ownership'')"

definition job_health_problems :: "string \<Rightarrow> db \<Rightarrow> string list" where
  "job_health_problems al d =
     (let own = filter (\<lambda>j. job_backend_alias j = al) (jobs d)
      in problem (count_if (invalid_execution_state d) own) ''jobs have invalid execution state''
         @ problem (count_if (\<lambda>j. \<not> (policy_absent j \<or> policy_complete j)) own) ''jobs have invalid concurrency policy''
         @ ownership_problems ''ready'' (ownership_mismatches re_job re_backend_alias re_queue_name (ready_executions d) al d)
         @ ownership_problems ''scheduled'' (ownership_mismatches se_job se_backend_alias se_queue_name (scheduled_executions d) al d)
         @ ownership_problems ''blocked'' (ownership_mismatches be_job be_backend_alias be_queue_name (blocked_executions d) al d))"

definition claim_health_problems :: "string \<Rightarrow> time \<Rightarrow> db \<Rightarrow> string list" where
  "claim_health_problems al cutoff d =
     problem (count_if (\<lambda>(c, j). job_backend_alias j = al
         \<and> (case ce_process c of
              None \<Rightarrow> True
            | Some pk \<Rightarrow> \<not> list_ex (\<lambda>p. proc_id p = pk \<and> proc_backend_alias p = al \<and> cutoff \<le> proc_last_heartbeat_at p) (processes d)))
         (with_jobs d ce_job (claimed_executions d)))
       ''claimed execution rows have missing or stale processes''"

definition recurring_health_problems :: "string \<Rightarrow> db \<Rightarrow> string list" where
  "recurring_health_problems al d =
     (let job_of = (\<lambda>x. case rx_job x of None \<Rightarrow> None | Some i \<Rightarrow> find_job d i)
      in problem (count_if (\<lambda>x. rx_backend_alias x = al \<and> rx_intended_job_id x \<noteq> None \<and> rx_job x = None) (recurring_executions d))
           ''recurring execution reservations have no job''
         @ problem (count_if (\<lambda>x. case job_of x of
               None \<Rightarrow> False
             | Some j \<Rightarrow> (rx_backend_alias x = al \<or> job_backend_alias j = al) \<and> rx_backend_alias x \<noteq> job_backend_alias j) (recurring_executions d))
           ''recurring execution rows have mismatched backend ownership''
         @ problem (count_if (\<lambda>x. rx_backend_alias x = al \<and> rx_intended_job_id x \<noteq> None \<and> rx_job x \<noteq> None
               \<and> rx_intended_job_id x \<noteq> rx_job x) (recurring_executions d))
           ''recurring execution rows have mismatched job identity'')"

definition impossible_slots :: "semaphore \<Rightarrow> bool" where
  "impossible_slots s \<longleftrightarrow> sem_limit s < 1 \<or> (case sem_active_count s of None \<Rightarrow> False | Some n \<Rightarrow> n < 0)
     \<or> sem_value s < 0 \<or> sem_limit s < sem_value s"

definition semaphore_health_problems :: "db \<Rightarrow> string list" where
  "semaphore_health_problems d = problem (count_if impossible_slots (semaphores d)) ''semaphores have impossible slot counts''"

definition retention_health_problems :: "string \<Rightarrow> time \<Rightarrow> int option \<Rightarrow> db \<Rightarrow> string list" where
  "retention_health_problems al now retention d =
     problem (fm_over_retention_count (failed_job_metrics_of al now retention d))
       (''failed execution rows exceed configured retention of '' @ (case retention of Some s \<Rightarrow> str_int s | None \<Rightarrow> ''None'') @ '' seconds'')"

section \<open>What reachable states guarantee\<close>

lemma count_if_none: "(\<And>x. x \<in> set xs \<Longrightarrow> \<not> P x) \<Longrightarrow> count_if P xs = 0"
  by (simp add: count_if_0_iff)

lemma no_invalid_jobs:
  assumes "reachable L d"
  shows "count_if (invalid_execution_state d) (filter P (jobs d)) = 0"
  using committed_status(4) [OF reachable_committed [OF assms]] by (intro count_if_none) auto

lemma possible_slots:
  assumes "reachable L d" and "s \<in> set (semaphores d)"
  shows "0 \<le> sem_value s \<and> sem_value s \<le> sem_limit s"
proof -
  have slots: "slots_ok L {#} d" using reachable_committed [OF assms(1)] by (simp add: committed_def queue_inv_def)
  then have dist: "distinct (map sem_key (semaphores d))" by (simp add: slots_ok_def semaphores_ok_def)
  obtain s' where s': "find_semaphore d (sem_key s) = Some s'"
    using assms(2) by (cases "find_semaphore d (sem_key s)") (auto simp: find_semaphore_def find_None_iff)
  then have "s' \<in> set (semaphores d)" "sem_key s' = sem_key s" by (auto simp: find_semaphore_def find_Some_iff)
  with dist assms(2) have "s' = s" by (auto simp: distinct_map inj_on_def)
  moreover have "slot_balance L {#} d (sem_key s)" using slots by (simp add: slots_ok_def)
  ultimately show ?thesis using s' by (simp add: slot_balance_def)
qed

end
