(* ===== verification/Interface_Guarantees.thy ===== *)
theory Interface_Guarantees
  imports Runtime_Guarantees Health
begin

text \<open>
  The guarantees of the interfaces for users and operators: what a task result says of a job, what the filters of the dashboard
  show, and that clearing a queue ends.
\<close>

section \<open>Task results\<close>

text \<open>C22. The result that a client gets for a task is what the queue knows of its job: in every reachable state it is
  successful, with the return value, exactly when the job has finished, failed, with an error, when the job has failed, running when it is
  claimed, and ready otherwise.\<close>

theorem task_result_matches_state:
  assumes "reachable L d" and "get_result ss using' unavailable al i d = Inr r"
  shows "\<exists>j. find_job d i = Some j \<and> job_backend_alias j = al \<and> tr_id r = i
    \<and> tr_status r = (if finished_at j \<noteq> None then Result_successful else if has_state Failed d i then Result_failed
        else if has_state Claimed d i then Result_running else Result_ready)
    \<and> tr_return_value r = (if finished_at j \<noteq> None then Some (return_value j) else None)
    \<and> (tr_errors r \<noteq> [] \<longleftrightarrow> has_state Failed d i)"
proof -
  from assms(2) obtain j where j: "find (\<lambda>j. job_id j = i \<and> job_backend_alias j = al) (jobs d) = Some j"
    and r: "task_result_from_job ss using' unavailable j d = Inr r"
    by (auto simp: get_result_def split: option.splits sum.splits)
  then have mem: "j \<in> set (jobs d)" "job_id j = i" "job_backend_alias j = al" by (auto simp: find_Some_iff)
  have "distinct (map job_id (jobs d))" using reachable_inv [OF assms(1)] by (simp add: queue_inv_def keys_ok_def)
  then have find: "find_job d i = Some j" using find_job_unique [OF _ mem(1)] mem(2) by simp
  note st = committed_status [OF reachable_committed [OF assms(1)] mem(1), unfolded mem(2)]
  from st(1) have "status d j = Some Finished \<or> (\<exists>m. status d j = Some (Live m))" by auto
  then have "result_status_of (status d j) = (if status d j = Some Finished then Result_successful
      else if status d j = Some (Live Failed) then Result_failed else if status d j = Some (Live Claimed) then Result_running else Result_ready)"
    and "status d j \<noteq> Some Invalid"
    by (auto simp: result_status_of_def split: state_model.split)
  with result_reports_status [OF r] st(2,3) find mem show ?thesis by auto
qed

theorem task_result_matches_state_witness:
  "\<exists>r. get_result (demo_session Postgresql) (\<lambda>t p q a b. Inr t) (\<lambda>j. Inr demo_task) ''default'' 1 demo_claimed = Inr r
    \<and> tr_status r = Result_running \<and> tr_errors r = []"
proof -
  let ?r = "get_result (demo_session Postgresql) (\<lambda>t p q a b. Inr t) (\<lambda>j. Inr demo_task) ''default'' 1 demo_claimed"
  have "\<exists>r. ?r = Inr r"
    by (simp add: demo_defs get_result_def task_result_from_job_def task_for_job_def bind_task_to_job_def build_task_result_def
        payload_member_def status_def live_execution_states_def execution_state_models_def has_state_def state_keys.simps Let_def)
  then obtain r where r: "?r = Inr r" by blast
  from task_result_matches_state [OF demo_reachable(3) r] r show ?thesis
    by (auto simp: demo_defs find_job_def has_state_def state_keys.simps)
qed

section \<open>Queue states\<close>

text \<open>C32. The queries by which operators filter jobs agree with the status the program computes for a job, in every state of the database,
  also a corrupt one: a job passes the filter of a state if and only if that state is its status.\<close>

theorem state_filters_agree:
  "filter_queue_state d st js = filter (\<lambda>j. status d j = Some st) js"
  by (simp add: filter_queue_state_def state_query_status cong: filter_cong)

text \<open>C23. Clearing a queue ends, although every discarded job may unblock another one that joins the queue: a batch that deletes
  something makes the table of jobs smaller.  When it ends without an exception, only rows that other transactions hold locked are left in the
  queue, and the state is reachable.\<close>

theorem queue_clear_terminates:
  assumes "reachable L d" and "0 < n"
  shows "\<exists>r q' e. queue_info_clear ss cfg n q d = Some (r, q', e) \<and> reachable L e
    \<and> (case r of Inl _ \<Rightarrow> True | Inr _ \<Rightarrow> list_all (\<lambda>x. locked ss TReady (re_id x)) (ready_rows (backend_alias cfg) (qi_queue_name q) e))"
  using assms by (rule queue_clear_ends)

theorem queue_clear_terminates_witness:
  "\<exists>r q' e. queue_info_clear (demo_session Postgresql) demo_config 500
      \<lparr>qi_queue_name = ''default'', qi_backend_alias = ''default'', qi_snapshot = None\<rparr> demo_two = Some (r, q', e) \<and> reachable demo_limits e"
  using queue_clear_terminates [OF demo_reachable(2), of 500 "demo_session Postgresql" demo_config
      "\<lparr>qi_queue_name = ''default'', qi_backend_alias = ''default'', qi_snapshot = None\<rparr>"] by auto

end
