(* ===== verification/Spec2Isabelle.thy ===== *)
theory Spec2Isabelle
  imports Component_Guarantees Runtime_Guarantees Interface_Guarantees
begin

text \<open>
  Verification of \<open>dj_queue\<close>, a task queue for Django that keeps its state in the application's
  relational database (PostgreSQL, MySQL, MariaDB or SQLite).

  \<^bold>\<open>The program.\<close>  Producers enqueue jobs; a job row has at most one row in the five execution tables (ready,
  scheduled, claimed, blocked, failed), which is its state, or it is finished.  Workers claim ready jobs
  and complete or fail them.  Dispatchers promote scheduled jobs, due retries and expired blocked jobs,
  and clean up.  Schedulers fire the runs of recurring tasks.  Supervisors prune dead processes and fail what
  they had claimed.  Tasks with a concurrency key share the slots of a semaphore row.  All participants
  interact through database transactions only; the model is the sequence of the transactions that commit.

  \<^bold>\<open>State.\<close>  \<open>Database.db\<close> is a record with one list of rows for each table (\<^verbatim>\<open>src/dj_queue/models/\<close>), the next
  primary key, the readings of the clock still to come (a stream, one element for each call of
  \<open>timezone.now()\<close>) and the queues notified.  A row is a record with the columns of its model.  Each
  operation is a function on \<open>db\<close> that returns its result and the new state, or the exception it raises
  (\<open>Prelude.error\<close>); a transaction that raises is rolled back.  What a connection brings (database family,
  capabilities, rows locked by others under SKIP LOCKED, import of task functions, the text of floats) is a
  \<open>session\<close>.  The zone database and the bodies of tasks are parameters.

  \<^bold>\<open>Theories\<close>, in the order of their imports:
  \<^item> \<open>Prelude\<close>: the error type, sequencing of fallible steps, lists, dictionaries, digits.
  \<^item> \<open>Json_Payload\<close> (\<^verbatim>\<open>operations/_helpers.py\<close>): Python values, JSON, normalisation.  The fast path agrees
    with the round trip; stored payloads are stable.
  \<^item> \<open>Db_Layer\<close> (\<^verbatim>\<open>db.py\<close>): families, capabilities, transient errors, retries.  The loop has fuel 3, the number
    of attempts the code makes, and the outcome for every operation is proved.
  \<^item> \<open>Queue_Selectors\<close> (\<^verbatim>\<open>queue_selectors.py\<close>): the in-memory test and the SQL condition.
  \<^item> \<open>Database\<close> (\<^verbatim>\<open>models/\<close>, \<^verbatim>\<open>sql/state.py\<close>): tables, inserts under their constraints, deletes with cascades, status.
  \<^item> \<open>Transit\<close>: the invariant \<open>queue_inv L A M d\<close>.  \<open>A\<close> is the set of jobs whose execution row a transaction
    has just taken away, and \<open>M\<close> the multiset of the keys whose slots the transaction holds in its hands;
    both are empty between transactions.
  \<^item> \<open>Helpers\<close>, \<open>Semaphores\<close>, \<open>Concurrency\<close>, \<open>Dispatch\<close>, \<open>Enqueue\<close>, \<open>Claiming\<close>, \<open>Execution\<close>, \<open>Jobs\<close>,
    \<open>Recovery\<close>, \<open>Cleanup\<close>: one theory for each module of \<^verbatim>\<open>operations/\<close> with the statements it uses from
    \<^verbatim>\<open>sql/postgres.py\<close>, \<^verbatim>\<open>sql/mysql.py\<close> and \<^verbatim>\<open>sql/common.py\<close>.  Each shows that its operations keep the invariant
    on every database, and that their shortcuts agree with the general path.
  \<^item> \<open>Interference\<close>: job operations leave the tables of recurring tasks alone.
  \<^item> \<open>Recurring\<close>, \<open>Recurring_Runs\<close> (\<^verbatim>\<open>operations/recurring.py\<close>): definitions, reservation and publication of runs,
    passes over due tasks; the locale \<open>cron_runs\<close> is the contract with the cron functions.
  \<^item> \<open>Lifecycle\<close>: the operations as one datatype, the locale \<open>transactional\<close>, the step relation and the
    reachable states.
  \<^item> \<open>Calendar\<close>, \<open>Cron_Syntax\<close>, \<open>Cron_Natural\<close>, \<open>Cron_Search\<close> (\<^verbatim>\<open>cron.py\<close>): dates, the parser of cron
    expressions, the parser of natural-language schedules, the search for runs.  The search looks at
    \<open>max_search_days\<close> = 400 * 366 days, as the code does.  \<open>Cron_Facts\<close>, \<open>Cron_Natural_Facts\<close> and \<open>Schedules\<close> show
    that accepted schedules are well formed and that the search is sound, finds the nearest run and finds one
    whenever there is one in the window; \<open>utc_cron\<close> interprets \<open>cron_runs\<close>.
  \<^item> \<open>Outcomes\<close>, \<open>Claim_Outcomes\<close>: what completing, failing and claiming do to the job concerned.
  \<^item> \<open>Samples\<close>, \<open>Samples_Work\<close>: a small application, with states computed from the model.
  \<^item> \<open>Processes\<close> (\<^verbatim>\<open>runtime/base.py\<close>, \<^verbatim>\<open>models/runtime.py\<close>): the process rows; its operations are among those of \<open>Lifecycle\<close>.
  \<^item> \<open>Configuration\<close>, \<open>Configuration_Facts\<close> (\<^verbatim>\<open>config.py\<close>): options, validators, builders, sources of options, topology, the
    cache; a configuration that is accepted is well formed.  The TOML parser, imports and conversions between floats and text are
    parameters (\<open>surroundings\<close>).
  \<^item> \<open>Runners\<close> (\<^verbatim>\<open>runtime/base.py\<close>, \<^verbatim>\<open>worker.py\<close>, \<^verbatim>\<open>dispatcher.py\<close>, \<^verbatim>\<open>scheduler.py\<close>, \<^verbatim>\<open>pool.py\<close>): a pass of a runner as a sequence of
    transactions with the state of the runner, which an exception may end at any point.  \<open>Runner_Facts\<close> and \<open>Worker_Facts\<close> show that
    a pass only makes steps of \<open>Lifecycle\<close>, and bound the load of a worker.
  \<^item> \<open>Supervisors\<close>, \<open>Supervisor_Facts\<close> (\<^verbatim>\<open>runtime/supervisor.py\<close>, \<^verbatim>\<open>topology.py\<close>, \<^verbatim>\<open>connection_budget.py\<close>): the runners of a
    configuration, housekeeping, restart delays, the table of children.  The results of \<open>fork\<close> and \<open>waitpid\<close> and the readings of the
    monotonic clock are inputs.  \<open>_wait_for_children\<close> recurs on the list of the results of \<open>waitpid\<close> up to the deadline.
  \<^item> \<open>Queue_State\<close>, \<open>Queue_State_Facts\<close> (\<^verbatim>\<open>queue_state.py\<close>, \<^verbatim>\<open>reads/\<close>, \<^verbatim>\<open>api.py\<close>): filters, summaries and snapshots, and \<open>QueueInfo\<close>.  The
    filters agree with the computed status and snapshots with direct reads.  The loop of \<open>QueueInfo.clear\<close> has fuel for one
    round more than there are jobs, which is enough: every batch that deletes something makes the table of jobs smaller.
  \<^item> \<open>Task_Results\<close> (\<^verbatim>\<open>task_results.py\<close>, \<^verbatim>\<open>backend.py\<close>) and \<open>Health\<close> (\<^verbatim>\<open>health.py\<close>): task results and health checks.
  \<^item> \<open>Component_Guarantees\<close>, \<open>Runtime_Guarantees\<close>, \<open>Interface_Guarantees\<close> and this theory: the guarantees, each with an application to concrete data.

  \<^bold>\<open>Assumptions.\<close>  Reachable states assume that all tasks with the same concurrency key use the same limit
  (\<open>lawful\<close>); \<open>lowered_limit_over_admits\<close> shows what happens otherwise.  Transactions are serialisable, as the
  row locks of the code make them; rows held by another transaction are skipped or waited for as
  the lock mode of the query says.

  \<^bold>\<open>Not modelled.\<close>  Threads, signals, sleeping, file locks and sockets (the async supervisor, the heartbeat and watcher threads,
  \<^verbatim>\<open>runtime/notify.py\<close>, \<^verbatim>\<open>pidfile.py\<close>, \<^verbatim>\<open>interruptible.py\<close>): the operating system decides what they do, and their transactions are
  steps of the model; rounding of sums of clock readings and intervals, which are exact here; the formatting of reads for
  metrics, statistics of PostgreSQL and displays (\<^verbatim>\<open>metrics.py\<close>, \<^verbatim>\<open>observability.py\<close>, \<^verbatim>\<open>postgres_diagnostics.py\<close>,
  \<^verbatim>\<open>reads/controls.py\<close>); the admin and the dashboard (\<^verbatim>\<open>admin.py\<close>, \<^verbatim>\<open>dashboard.py\<close>); logging, hooks, migrations, benchmarks and examples.
\<close>

section \<open>Guarantees of the queue\<close>

text \<open>C1. Concurrency limits hold at all times: in every state that producers, workers, dispatchers,
  schedulers and operators can reach by any interleaving of their transactions, the jobs of a concurrency
  key that are ready or claimed are never more than the limit of the key.\<close>

theorem concurrency_limit_respected:
  assumes "reachable L d"
  shows "int (length (running d k)) \<le> max 0 (L k)"
  using queue.run_limit [OF reachable_committed [OF assms], of "[]" k] by simp

theorem concurrency_limit_respected_witness:
  "int (length (running demo_two ''report'')) \<le> 1 \<and> length (running demo_two ''report'') = 1"
  using concurrency_limit_respected [OF demo_reachable(2), of "''report''"]
  by (simp add: running_def demo_defs job_key_def has_state_def state_keys.simps)

text \<open>C2. Every job is in exactly one state at all times: in every reachable state a stored job is
  finished, and then has no execution row, or it has a row in exactly one of the five execution tables,
  which is its status; the query for jobs in an invalid state finds none.\<close>

theorem every_job_in_one_state:
  assumes "reachable L d" and "j \<in> set (jobs d)"
  shows "(if finished_at j = None then \<exists>!m. has_state m d (job_id j) else \<forall>m. \<not> has_state m d (job_id j))
    \<and> (\<forall>m. status d j = Some (Live m) \<longleftrightarrow> has_state m d (job_id j))
    \<and> (status d j = Some Finished \<longleftrightarrow> finished_at j \<noteq> None) \<and> \<not> invalid_execution_state d j"
proof -
  note st = committed_status [OF reachable_committed [OF assms(1)] assms(2)]
  have "\<exists>!m. has_state m d (job_id j)" if "finished_at j = None"
  proof -
    from st(1,2) that obtain m where "status d j = Some (Live m)" by auto
    with st(3) show ?thesis by (metis job_status.inject option.inject)
  qed
  moreover have "\<forall>m. \<not> has_state m d (job_id j)" if "finished_at j \<noteq> None"
    using that st(2,3) by (metis job_status.distinct(1) option.inject)
  ultimately show ?thesis using st(2-4) by simp
qed

theorem every_job_in_one_state_witness:
  "demo_job 2 5 \<in> set (jobs demo_two) \<and> status demo_two (demo_job 2 5) = Some (Live Blocked)
   \<and> \<not> invalid_execution_state demo_two (demo_job 2 5)"
proof -
  have "demo_job 2 5 \<in> set (jobs demo_two)" "has_state Blocked demo_two (job_id (demo_job 2 5))"
    by (simp_all add: demo_defs has_state_def state_keys.simps)
  with every_job_in_one_state [OF demo_reachable(2) this(1)] show ?thesis by blast
qed

text \<open>C3. No slot is lost or counted twice: in every reachable state the semaphore of a key holds the
  limit of the key, and its free slots and the jobs that hold a slot add up to the limit; a key without
  a semaphore has no job that holds a slot.\<close>

theorem slots_balanced:
  assumes "reachable L d"
  shows "(case find_semaphore d k of
      None \<Rightarrow> holders d k = 0
    | Some s \<Rightarrow> sem_limit s = L k \<and> 0 \<le> sem_value s \<and> sem_value s + int (holders d k) = L k)"
proof -
  have "slot_balance L {#} d k"
    using reachable_committed [OF assms] by (simp add: committed_def queue_inv_def slots_ok_def)
  then show ?thesis by (simp add: slot_balance_def split: option.splits)
qed

theorem slots_balanced_witness: "holders demo_claimed ''report'' = 1"
  using slots_balanced [OF demo_reachable(3), of "''report''"]
  by (simp add: demo_defs find_semaphore_def)

section \<open>Workers\<close>



text \<open>C29. On every database a worker that names exact queues selects the same rows: the PostgreSQL statement
  with one table expression per queue and the loop over the queues that the other databases use agree, also
  when a queue is named twice.\<close>

theorem exact_queue_selections_agree:
  assumes "reachable L d" and "0 < n"
  shows "select_ready_rows_by_exact_queues ss cfg queues n (ready_queryset cfg d)
    = exact_queue_loop ss cfg n (ready_queryset cfg d) queues []"
proof -
  note inv = reachable_inv [OF assms(1)]
  note sel = ready_queryset_selection [OF inv, of cfg]
  have "exact_queue_loop ss cfg n (ready_queryset cfg d) queues []
      = exact_queue_loop ss cfg n (ready_queryset cfg d) (dict_fromkeys queues) []"
    using loop_dict_fromkeys [of "{}" ss cfg n "ready_queryset cfg d" "[]" queues] by simp
  also have "\<dots> = exact_queue_ctes ss cfg n (ready_queryset cfg d) (dict_fromkeys queues) 0"
    using loop_is_ctes [OF _ sel, of "dict_fromkeys queues" "[]" ss cfg n] by simp
  finally show ?thesis
    using assms(2) by (simp add: select_ready_rows_by_exact_queues_def Let_def)
qed

theorem exact_queue_selections_agree_witness:
  "select_ready_rows_by_exact_queues (demo_session Postgresql) demo_config [''default'', ''default''] 5 (ready_queryset demo_config demo_two)
    = exact_queue_loop (demo_session Postgresql) demo_config 5 (ready_queryset demo_config demo_two) [''default'', ''default''] []"
  by (rule exact_queue_selections_agree [OF demo_reachable(2)]) simp

text \<open>C5. Completing a job has the effect it should: when \<open>complete_claimed_job\<close> returns in a reachable
  state, the job is finished with the return value and its status is finished, or, if the configuration does not
  keep finished jobs, it is gone.\<close>

theorem complete_finishes_job:
  assumes "reachable L d" and "current_argument L d a" and "complete_claimed_job ss cfg a v task d = Inr (j, e)"
  shows "if preserve_finished_jobs cfg
    then \<exists>r. find_job e (job_id j) = Some r \<and> finished_at r \<noteq> None \<and> return_value r = v \<and> status e r = Some Finished
    else find_job e (job_id j) = None"
proof -
  note inv = reachable_inv [OF assms(1)]
  have "committed L e" using complete_claimed_job_inv [OF inv assms(2,3)] by (simp add: committed_def)
  from assms(3) obtain j0 where c: "complete_transition ss cfg j0 v task d = Inr (j, e)"
    by (auto simp: complete_claimed_job_def)
  note f = complete_finishes [OF c]
  show ?thesis
  proof (cases "preserve_finished_jobs cfg")
    case True
    with f(1,2) obtain r where r: "find_job e (job_id j) = Some (finished_columns v (shd (clock d)) r)" by auto
    then have "finished_columns v (shd (clock d)) r \<in> set (jobs e)" using find_job_Some by blast
    then have "status e (finished_columns v (shd (clock d)) r) = Some Finished"
      using committed_status(2) [OF \<open>committed L e\<close>] by (simp add: finished_columns_def)
    with True r show ?thesis by (simp add: finished_columns_def)
  qed (use f in simp)
qed

theorem complete_finishes_job_witness:
  "\<exists>r. find_job demo_completed 1 = Some r \<and> return_value r = JInt 5 \<and> status demo_completed r = Some Finished"
proof -
  have "current_argument demo_limits demo_claimed (JobId 1)" by (simp add: current_argument_def)
  from complete_finishes_job [OF demo_reachable(3) this demo_complete] show ?thesis
    by (auto simp: demo_defs finished_columns_def)
qed

text \<open>C6. A failure is recorded: when \<open>fail_claimed_job\<close> returns in a reachable state, the job has a failed
  execution with the class, message and traceback of the exception, and its status is failed.\<close>

theorem fail_records_error:
  assumes "reachable L d" and "current_argument L d a" and "fail_claimed_job ss cfg a err task d = Inr (j, e)"
  shows "(\<exists>f\<in>set (failed_executions e). fe_job f = job_id j \<and> fe_exception_class f = ei_class err
      \<and> fe_message f = ei_message err \<and> fe_traceback f = ei_traceback err)
    \<and> (\<forall>r\<in>set (jobs e). job_id r = job_id j \<longrightarrow> status e r = Some (Live Failed))"
proof -
  note inv = reachable_inv [OF assms(1)]
  have e: "committed L e" using fail_claimed_job_inv [OF inv assms(2,3)] by (simp add: committed_def)
  from assms(3) have "fail_transition ss cfg j err task d = Inr e" by (auto simp: fail_claimed_job_def)
  from fail_records [OF this] obtain f where f: "f \<in> set (failed_executions e)" "fe_job f = job_id j"
    "fe_exception_class f = ei_class err" "fe_message f = ei_message err" "fe_traceback f = ei_traceback err" by blast
  with failed_state [OF f(1)] committed_status(3) [OF e] show ?thesis by fastforce
qed

theorem fail_records_error_witness:
  "\<exists>f\<in>set (failed_executions demo_failed). fe_job f = 1 \<and> fe_message f = ''bad''"
proof -
  have "current_argument demo_limits demo_claimed (JobId 1)" by (simp add: current_argument_def)
  from fail_records_error [OF demo_reachable(3) this demo_fail] show ?thesis
    by (auto simp: demo_job_def demo_error_def)
qed

text \<open>C7. A claim is used once: after a job has been completed or has failed, completing it or failing it again
  raises \<open>ClaimedExecution.DoesNotExist\<close> and changes nothing.\<close>

theorem claim_is_used_once:
  assumes "reachable L d" and "current_argument L d a"
    and "complete_claimed_job ss cfg a v task d = Inr (j, e) \<or> fail_claimed_job ss cfg a err task d = Inr (j, e)"
  shows "complete_claimed_job ss' cfg' (JobObject j) v' task' e = Inl ClaimedDoesNotExist
    \<and> fail_claimed_job ss' cfg' (JobObject j) err' task' e = Inl ClaimedDoesNotExist"
proof -
  note inv = reachable_inv [OF assms(1)]
  have e: "committed L e"
    using assms(3) complete_claimed_job_inv [OF inv assms(2)] fail_claimed_job_inv [OF inv assms(2)] by (auto simp: committed_def)
  have "\<not> has_state Claimed e (job_id j)"
  proof
    assume claimed: "has_state Claimed e (job_id j)"
    then have "job_id j \<in> job_ids e" using row_states(2) [of L "{}" "{#}" e] e by (auto simp: committed_def)
    then obtain r where f: "find_job e (job_id j) = Some r" using find_job_None by blast
    then have r: "r \<in> set (jobs e)" "job_id r = job_id j" using find_job_Some by auto
    have "status e r = Some (Live Claimed)" using committed_status(3) [OF e r(1)] claimed r(2) by simp
    moreover have "status e r = Some (Live Failed) \<or> status e r = Some Finished"
      using assms(3)
    proof
      assume c: "complete_claimed_job ss cfg a v task d = Inr (j, e)"
      then obtain j0 where "complete_transition ss cfg j0 v task d = Inr (j, e)" by (auto simp: complete_claimed_job_def)
      then have "finished_at r \<noteq> None" using complete_finishes f
        by (cases "preserve_finished_jobs cfg") (fastforce simp: finished_columns_def)+
      then show ?thesis using committed_status(2) [OF e r(1)] by simp
    next
      assume "fail_claimed_job ss cfg a err task d = Inr (j, e)"
      then have "fail_transition ss cfg j err task d = Inr e" by (auto simp: fail_claimed_job_def)
      from fail_records [OF this] show ?thesis using failed_state committed_status(3) [OF e r(1)] r(2) by metis
    qed
    ultimately show False by simp
  qed
  then show ?thesis
    by (simp add: complete_claimed_job_def fail_claimed_job_def resolve_claimed_job_def not_claimed_refused)
qed

theorem claim_is_used_once_witness:
  "complete_claimed_job (demo_session Mysql) demo_config (JobObject (finished_columns (JInt 5) 11 (demo_job 1 0))) (JInt 6) None demo_completed
     = Inl ClaimedDoesNotExist"
proof -
  have "current_argument demo_limits demo_claimed (JobId 1)" by (simp add: current_argument_def)
  from claim_is_used_once [OF demo_reachable(3) this disjI1 [OF demo_complete]] show ?thesis by blast
qed

section \<open>Recurring tasks\<close>

text \<open>C8. A run of a recurring task is published once: once a run has got its job, publishing the same
  execution again, in any state reached later by any participant, does nothing; and the job it got is the one
  the reservation named.\<close>

theorem run_published_once:
  assumes "reachable L d" and "publish_reserved_recurring_task ss cfg us rs i d = Inr (Some x, e)"
    and "(step L)\<^sup>*\<^sup>* e f" and "rs_execution_id rs' = rs_execution_id rs"
  shows "publish_reserved_recurring_task ss' cfg' us' rs' i' f = Inr (None, f)
    \<and> rx_id x = rs_execution_id rs \<and> rx_job x \<noteq> None \<and> rx_job x = rx_intended_job_id x"
proof -
  note p = published [OF reachable_recurring_ok [OF assms(1)] assms(2)]
  from steps_settled [OF assms(3) p(1)] have "settled (rs_execution_id rs') f" by (simp add: assms(4))
  then show ?thesis using settled_publish p(3-5) by blast
qed

theorem run_published_once_witness:
  "publish_reserved_recurring_task (demo_session Mysql) demo_config demo_using demo_reservation 10 demo_published
     = Inr (None, demo_published)"
  using run_published_once [OF demo_reachable_runs(2) demo_publish rtranclp.rtrancl_refl refl] by blast

text \<open>C9. No run exists twice: in every reachable state two executions of the same recurring task at the same
  run time are the same row, no job belongs to two executions, and an execution that has a job has the one it
  was reserved for.\<close>

theorem recurring_runs_unique:
  assumes "reachable L d" and "x \<in> set (recurring_executions d)" and "y \<in> set (recurring_executions d)"
  shows "(rx_backend_alias x = rx_backend_alias y \<and> rx_task_key x = rx_task_key y \<and> rx_run_at x = rx_run_at y \<longrightarrow> x = y)
    \<and> (rx_job x \<noteq> None \<and> rx_job x = rx_job y \<longrightarrow> x = y) \<and> (rx_job x \<noteq> None \<longrightarrow> rx_job x = rx_intended_job_id x)"
proof -
  note ok = reachable_recurring_ok [OF assms(1)]
  have "inj_on (\<lambda>x. (rx_backend_alias x, rx_task_key x, rx_run_at x)) (set (recurring_executions d))"
    using ok by (simp add: recurring_ok_def distinct_map)
  then have "x = y" if "rx_backend_alias x = rx_backend_alias y" "rx_task_key x = rx_task_key y" "rx_run_at x = rx_run_at y"
    using that assms(2,3) by (auto dest: inj_onD)
  moreover have "x = y" if same: "rx_job x \<noteq> None" "rx_job x = rx_job y"
  proof -
    from same obtain i where "rx_job x = Some i" "rx_job y = Some i" by auto
    with ok assms(2,3) show ?thesis by (auto simp: recurring_ok_def dest: distinct_map_filterD)
  qed
  moreover have "rx_job x = None \<or> rx_job x = rx_intended_job_id x"
    using ok assms(2) by (auto simp: recurring_ok_def)
  ultimately show ?thesis by (intro conjI impI) (elim conjE, assumption | metis)+
qed

theorem recurring_runs_unique_witness:
  "demo_execution (Some 7) \<in> set (recurring_executions demo_published) \<and> rx_job (demo_execution (Some 7)) = rx_intended_job_id (demo_execution (Some 7))"
  using recurring_runs_unique [OF demo_reachable_runs(3), of "demo_execution (Some 7)" "demo_execution (Some 7)"]
  by (simp add: demo_published_def demo_execution_def)

text \<open>C10. An interrupted run is taken up again: when a scheduler reserved a run and died before it published it,
  reserving the same run again, by a scheduler on any connection that gets the lock, finds the same execution
  with the same job identifier, and changes nothing else.\<close>

theorem interrupted_run_resumes:
  assumes "reachable L d" and "reserve_recurring_task (utc_cron zi) ss cfg pk t i d = Inr (Some rs, e)"
    and "\<not> (use_skip_locked cfg \<and> cap_skip_locked (caps ss') \<and> locked ss' TRecurringTask pk)"
  shows "\<exists>rs'. reserve_recurring_task (utc_cron zi) ss' cfg pk t i' e = Inr (Some rs', e)
    \<and> rs_execution_id rs' = rs_execution_id rs \<and> rs_intended_job_id rs' = rs_intended_job_id rs"
  using reachable_recurring_ok [OF assms(1)] assms(2,3) by (intro utc.reserve_again) simp_all

theorem interrupted_run_resumes_witness:
  "\<exists>rs. reserve_recurring_task (utc_cron no_zones) (demo_session Mysql) demo_config 1 3600000000 8 demo_reserved = Inr (Some rs, demo_reserved)
     \<and> rs_intended_job_id rs = Some 7"
  using interrupted_run_resumes [OF demo_reachable_runs(1) demo_reserve [unfolded demo_cron_def], of "demo_session Mysql" 8]
  by (auto simp: demo_session_def demo_reservation_def)

text \<open>C11. No run is fired before its time: when all existing runs are due, so are all runs that exist after
  \<open>fire_due_recurring_tasks\<close>, whether it succeeds or raises in the middle; and with a batch size it
  starts at most that many jobs.\<close>

theorem fire_due_in_time:
  assumes "fire_due_recurring_tasks (utc_cron zi) ss cfg us now dyn B ids d = (y, e)"
    and "\<forall>x\<in>set (recurring_executions d). rx_run_at x \<le> now"
  shows "(\<forall>x\<in>set (recurring_executions e). rx_run_at x \<le> now)
    \<and> (\<forall>n js. B = Some n \<and> 0 \<le> n \<and> y = Inr js \<longrightarrow> int (length js) \<le> n)"
  using utc.fire_due_runs [OF _ assms(1)] assms fire_due_batch [of "utc_cron zi" ss cfg us now dyn _ ids d _ e]
  by (auto simp: all_runs_def)

theorem fire_due_in_time_witness:
  "list_all (\<lambda>x. rx_run_at x \<le> 3600000001) (recurring_executions (snd (fire_due_recurring_tasks (utc_cron no_zones)
     (demo_session Postgresql) demo_config demo_using 3600000001 True (Some 10) (siterate Suc 20) demo_planned)))"
proof -
  obtain y e where e: "fire_due_recurring_tasks (utc_cron no_zones) (demo_session Postgresql) demo_config
     demo_using 3600000001 True (Some 10) (siterate Suc 20) demo_planned = (y, e)" by force
  from fire_due_in_time [OF e] e show ?thesis by (simp add: demo_planned_def empty_db_def list_all_iff)
qed

text \<open>C12. The plan of a recurring task only moves forward: reserving a run, of this or of another task, never
  sets \<open>next_run_at\<close> of any task back and never removes a task or changes its schedule.\<close>

theorem next_run_at_moves_forward:
  assumes "reserve_recurring_task cr ss cfg pk t i d = Inr (rs, e)" and "r \<in> set (recurring_tasks d)"
  shows "\<exists>r'\<in>set (recurring_tasks e). rt_id r' = rt_id r \<and> rt_key r' = rt_key r \<and> rt_schedule r' = rt_schedule r
    \<and> (\<forall>s. rt_next_run_at r = Some s \<longrightarrow> (\<exists>u. rt_next_run_at r' = Some u \<and> s \<le> u))"
proof -
  from reserve_moves_forward [OF assms] obtain r' where "r' \<in> set (recurring_tasks e)" "task_ident r' = task_ident r"
    "rt_schedule r' = rt_schedule r" "not_before (rt_next_run_at r) (rt_next_run_at r')" by blast
  then show ?thesis by (intro bexI [of _ r']) (auto simp: task_ident_def not_before_def split: option.splits)
qed

theorem next_run_at_moves_forward_witness:
  "\<exists>r\<in>set (recurring_tasks demo_reserved). rt_id r = 1 \<and> rt_schedule r = ''0 * * * *''"
  using next_run_at_moves_forward [OF demo_reserve, of "demo_recurring_task None"]
  by (auto simp: demo_planned_def demo_recurring_task_def)

end
